(* ===== verification/Prelude.thy ===== *)
theory Prelude
  imports Main "HOL-Library.Word" "HOL-Library.Multiset" "HOL-Library.List_Lexorder"
    "HOL-Library.Sublist"
begin

text \<open>
  Shared vocabulary of the dymint development: the Go types the components use (bytes, 64-bit
  integers, fixed-size arrays), Go errors and outcomes (a value, an error or a panic), state
  passing commands with their sequencing, big-endian integers of \<open>encoding/binary\<close>, the
  contract of \<open>sort.Slice\<close> with an executable implementation, and the generic lemmas on
  lists, maps and words that the component theories use.
\<close>

unbundle bit_operations_syntax

named_theorems cmd_simps \<open>sequencing of commands\<close>
named_theorems kv_simps \<open>laws of key-value stores\<close>
named_theorems wire_simps \<open>decoding of encoded protobuf fields\<close>

subsection \<open>Go scalar types\<close>

type_synonym byte = "8 word"
type_synonym bytes = "byte list"
type_synonym u16 = "16 word"
type_synonym u32 = "32 word"
type_synonym u64 = "64 word"

text \<open>
  A Go \<open>int64\<close> (and \<open>int\<close> on the 64-bit targets dymint builds for) is an \<open>int\<close>; additions
  and subtractions that may leave the range are wrapped with \<open>i64\<close>. The conversions
  \<open>int64(x)\<close> of an unsigned value and \<open>uint64(x)\<close> of a signed one are \<open>sint\<close> and
  \<open>word_of_int\<close>.
\<close>

definition i64 :: "int \<Rightarrow> int" where
  "i64 x = signed_take_bit 63 x"

definition int64_of :: "u64 \<Rightarrow> int" where
  "int64_of w = sint w"

definition uint64_of :: "int \<Rightarrow> u64" where
  "uint64_of x = word_of_int x"

definition in_i64 :: "int \<Rightarrow> bool" where
  "in_i64 x \<longleftrightarrow> - (2 ^ 63) \<le> x \<and> x < 2 ^ 63"

lemma i64_id [simp]: "in_i64 x \<Longrightarrow> i64 x = x"
  by (simp add: i64_def in_i64_def signed_take_bit_int_eq_self)

lemma int64_of_small:
  assumes "unat w < 2 ^ 63"
  shows "int64_of w = int (unat w)"
proof -
  have "uint w < 2 ^ 63"
    using assms by (metis uint_nat of_nat_less_iff of_nat_numeral of_nat_power)
  moreover have "- (2 ^ 63) \<le> uint w"
    by (rule order_trans [of _ 0]) simp_all
  ultimately show ?thesis
    by (simp add: int64_of_def sint_uint signed_take_bit_int_eq_self)
qed

lemma uint64_of_int64_of [simp]: "uint64_of (int64_of w) = w"
  by (simp add: uint64_of_def int64_of_def)

subsection \<open>Fixed-size arrays\<close>

text \<open>
  An array \<open>[n]byte\<close> is a byte list of length \<open>n\<close>; \<open>go_copy dst src\<close> is what
  \<open>copy(dst[:], src)\<close> leaves in \<open>dst\<close>.
\<close>

definition zero_bytes :: "nat \<Rightarrow> bytes" where
  "zero_bytes n = replicate n 0"

definition go_copy :: "bytes \<Rightarrow> bytes \<Rightarrow> bytes" where
  "go_copy dst src = take (length dst) src @ drop (length src) dst"

lemma length_zero_bytes [simp]: "length (zero_bytes n) = n"
  by (simp add: zero_bytes_def)

lemma length_go_copy [simp]: "length (go_copy dst src) = length dst"
  by (simp add: go_copy_def)

lemma go_copy_same_length [simp]: "length src = length dst \<Longrightarrow> go_copy dst src = src"
  by (simp add: go_copy_def)

subsection \<open>Errors, outcomes and commands\<close>

datatype error =
    Errorf string
  | Wrapf string error
  | ErrInvalidSignature
  | ErrNoStateFound
  | ErrSkippedEmptyBlock
  | ErrKeyNotFound
  | ErrBatchNotFound
  | ErrIO
  | ErrProto string
  | ErrTxInCache
  | ErrTxTooLarge int int
  | ErrMempoolIsFull int int int int
  | ErrPreCheck error
  | ErrMulti "error list"

text \<open>
  What a Go call yields: a value, a returned error, or a panic, which ends the process. A crash
  of the process that a fault plan asks for (theory \<open>KVStore\<close>) is a panic too.
\<close>

datatype 'a outcome = Ok 'a | Err error | Panic string

primrec is_Ok :: "'a outcome \<Rightarrow> bool" where
  "is_Ok (Ok x) = True"
| "is_Ok (Err e) = False"
| "is_Ok (Panic p) = False"

primrec bind_out :: "'a outcome \<Rightarrow> ('a \<Rightarrow> 'b outcome) \<Rightarrow> 'b outcome" where
  "bind_out (Ok x) f = f x"
| "bind_out (Err e) f = Err e"
| "bind_out (Panic p) f = Panic p"

lemma bind_out_Ok_iff:
  "bind_out m f = Ok y \<longleftrightarrow> (\<exists>x. m = Ok x \<and> f x = Ok y)"
  by (cases m) auto

lemma bind_out_Panic_iff:
  "bind_out m f = Panic p \<longleftrightarrow> m = Panic p \<or> (\<exists>x. m = Ok x \<and> f x = Panic p)"
  by (cases m) auto

lemma is_Ok_iff: "is_Ok m \<longleftrightarrow> (\<exists>x. m = Ok x)"
  by (cases m) auto

text \<open>\<open>fmt.Errorf("...: %w", err)\<close> around a returned error.\<close>

primrec wrap_err :: "string \<Rightarrow> 'a outcome \<Rightarrow> 'a outcome" where
  "wrap_err c (Ok x) = Ok x"
| "wrap_err c (Err e) = Err (Wrapf c e)"
| "wrap_err c (Panic p) = Panic p"

lemma wrap_err_Ok_iff [simp]: "wrap_err c m = Ok x \<longleftrightarrow> m = Ok x"
  by (cases m) auto

text \<open>A command takes the state, may change it, and yields an outcome.\<close>

type_synonym ('s, 'a) cmd = "'s \<Rightarrow> 'a outcome \<times> 's"

definition ret :: "'a \<Rightarrow> ('s, 'a) cmd" where
  "ret x s = (Ok x, s)"

definition bind_cmd :: "('s, 'a) cmd \<Rightarrow> ('a \<Rightarrow> ('s, 'b) cmd) \<Rightarrow> ('s, 'b) cmd" where
  "bind_cmd m f s =
     (case m s of
        (Ok x, s') \<Rightarrow> f x s'
      | (Err e, s') \<Rightarrow> (Err e, s')
      | (Panic p, s') \<Rightarrow> (Panic p, s'))"

lemma ret_apply [cmd_simps]: "ret x s = (Ok x, s)"
  by (simp add: ret_def)

lemma bind_cmd_Ok [cmd_simps]: "m s = (Ok x, s') \<Longrightarrow> bind_cmd m f s = f x s'"
  by (simp add: bind_cmd_def)

lemma bind_cmd_Err [cmd_simps]: "m s = (Err e, s') \<Longrightarrow> bind_cmd m f s = (Err e, s')"
  by (simp add: bind_cmd_def)

lemma bind_cmd_Panic [cmd_simps]: "m s = (Panic p, s') \<Longrightarrow> bind_cmd m f s = (Panic p, s')"
  by (simp add: bind_cmd_def)

lemma bind_cmd_OkE:
  assumes "bind_cmd m f s = (Ok y, t)"
  obtains x s' where "m s = (Ok x, s')" and "f x s' = (Ok y, t)"
  using assms by (auto simp: bind_cmd_def split: prod.splits outcome.splits)

subsection \<open>Big-endian integers\<close>

text \<open>
  \<open>binary.BigEndian.PutUint64\<close> into a fresh 8-byte buffer and \<open>binary.BigEndian.Uint64\<close>.
\<close>

definition PutUint64 :: "u64 \<Rightarrow> bytes" where
  "PutUint64 v = map (\<lambda>i. ucast (drop_bit (8 * (7 - i)) v)) [0..<8]"

definition Uint64 :: "bytes \<Rightarrow> u64" where
  "Uint64 bs = foldl (\<lambda>acc b. push_bit 8 acc OR ucast b) 0 bs"

lemma length_PutUint64 [simp]: "length (PutUint64 v) = 8"
  by (simp add: PutUint64_def)

lemma PutUint64_unfold:
  "PutUint64 v =
     [ucast (drop_bit 56 v), ucast (drop_bit 48 v), ucast (drop_bit 40 v), ucast (drop_bit 32 v),
      ucast (drop_bit 24 v), ucast (drop_bit 16 v), ucast (drop_bit 8 v), ucast v]"
  by (simp add: PutUint64_def upt_rec)

lemma push_drop_byte: "push_bit 8 (drop_bit 8 x) OR ucast (ucast x :: byte) = (x :: u64)"
  by (rule bit_word_eqI) (auto simp: bit_simps)

lemma first_byte: "ucast (ucast (drop_bit 56 x) :: byte) = drop_bit 56 (x :: u64)"
  by (rule bit_word_eqI) (auto simp: bit_simps dest: bit_imp_le_length)

lemma next_byte:
  "push_bit 8 (drop_bit (k + 8) v) OR ucast (ucast (drop_bit k v) :: byte) = drop_bit k (v :: u64)"
  using push_drop_byte [of "drop_bit k v"] by (simp add: drop_bit_drop_bit add.commute)

lemma Uint64_PutUint64 [simp]: "Uint64 (PutUint64 v) = v"
  using next_byte [of 48 v] next_byte [of 40 v] next_byte [of 32 v] next_byte [of 24 v]
    next_byte [of 16 v] next_byte [of 8 v] next_byte [of 0 v]
  by (simp add: PutUint64_unfold Uint64_def first_byte)

lemma PutUint64_inject [simp]: "PutUint64 a = PutUint64 b \<longleftrightarrow> a = b"
  by (metis Uint64_PutUint64)

subsection \<open>Sorting\<close>

text \<open>
  \<open>sort.Slice(xs, less)\<close> leaves a permutation in which no later element is less than an
  earlier one, provided \<open>less\<close> is a strict weak order; the order of equivalent elements is
  not specified. \<open>sort_slice\<close> is one implementation of that contract, and the facts of the
  locale are all that the development uses of it.
\<close>

fun insert_by :: "('a \<Rightarrow> 'a \<Rightarrow> bool) \<Rightarrow> 'a \<Rightarrow> 'a list \<Rightarrow> 'a list" where
  "insert_by lt x [] = [x]"
| "insert_by lt x (y # ys) =
     (if lt y x then y # insert_by lt x ys else x # y # ys)"

fun sort_slice :: "('a \<Rightarrow> 'a \<Rightarrow> bool) \<Rightarrow> 'a list \<Rightarrow> 'a list" where
  "sort_slice lt [] = []"
| "sort_slice lt (x # xs) = insert_by lt x (sort_slice lt xs)"

lemma mset_insert_by [simp]: "mset (insert_by lt x xs) = add_mset x (mset xs)"
  by (induction xs) auto

lemma mset_sort_slice [simp]: "mset (sort_slice lt xs) = mset xs"
  by (induction xs) auto

lemma set_sort_slice [simp]: "set (sort_slice lt xs) = set xs"
  by (metis mset_sort_slice set_mset_mset)

lemma length_sort_slice [simp]: "length (sort_slice lt xs) = length xs"
  by (metis mset_sort_slice size_mset)

lemma set_insert_by [simp]: "set (insert_by lt x xs) = insert x (set xs)"
  by (induction xs) auto

locale strict_weak_order =
  fixes lt :: "'a \<Rightarrow> 'a \<Rightarrow> bool"
  assumes asym: "lt a b \<Longrightarrow> \<not> lt b a"
    and neg_trans: "\<not> lt b a \<Longrightarrow> \<not> lt c b \<Longrightarrow> \<not> lt c a"
begin

lemma sorted_insert_by:
  "sorted_wrt (\<lambda>a b. \<not> lt b a) xs \<Longrightarrow> sorted_wrt (\<lambda>a b. \<not> lt b a) (insert_by lt x xs)"
proof (induction xs)
  case Nil
  then show ?case by simp
next
  case (Cons y ys)
  show ?case
  proof (cases "lt y x")
    case True
    with Cons show ?thesis by (auto dest: asym)
  next
    case False
    with Cons.prems show ?thesis using neg_trans [of y x] by auto
  qed
qed

lemma sorted_sort_slice: "sorted_wrt (\<lambda>a b. \<not> lt b a) (sort_slice lt xs)"
  by (induction xs) (auto intro: sorted_insert_by)

end

subsection \<open>Codecs by table\<close>

text \<open>
  A codec for the values of a table: a value is written as its position. Such codecs instantiate
  the codecs of messages that are defined outside the repository.
\<close>

fun position :: "'a \<Rightarrow> 'a list \<Rightarrow> nat option" where
  "position x [] = None"
| "position x (y # ys) = (if x = y then Some 0 else map_option Suc (position x ys))"

definition table_Marshal :: "'a list \<Rightarrow> 'a \<Rightarrow> bytes outcome" where
  "table_Marshal tbl x =
     (case position x tbl of
        Some i \<Rightarrow> if i < 256 then Ok [word_of_nat i] else Err (ErrProto ''not in the table'')
      | None \<Rightarrow> Err (ErrProto ''not in the table''))"

definition table_Unmarshal :: "'a list \<Rightarrow> bytes \<Rightarrow> 'a \<Rightarrow> 'a outcome" where
  "table_Unmarshal tbl bs m =
     (case bs of
        [b] \<Rightarrow> if unat b < length tbl then Ok (tbl ! unat b) else Err (ErrProto ''not in the table'')
      | _ \<Rightarrow> Err (ErrProto ''not in the table''))"

lemma position_SomeD: "position x tbl = Some i \<Longrightarrow> i < length tbl \<and> tbl ! i = x"
  by (induction tbl arbitrary: i) (auto split: if_splits)

lemma table_round_trip:
  "table_Marshal tbl x = Ok bs \<Longrightarrow> length bs = Suc 0"
  "table_Marshal tbl x = Ok bs \<Longrightarrow> table_Unmarshal tbl bs m = Ok x"
  by (auto simp: table_Marshal_def table_Unmarshal_def unat_of_nat take_bit_nat_eq_self
      dest!: position_SomeD split: option.splits if_splits)

lemma table_Unmarshal_no_panic [simp]: "table_Unmarshal tbl bs m \<noteq> Panic p"
  by (auto simp: table_Unmarshal_def split: list.splits)

end
