(* ===== verification/KVStore.thy ===== *)
theory KVStore
  imports Prelude
begin

text \<open>
  The key-value layer of \<open>src/store\<close>: the \<open>KVStore\<close> interface (\<open>kv.go\<close>), its implementation over
  Badger (\<open>badger.go\<close>) and the prefixing wrapper (\<open>prefix.go\<close>).

  Badger is a third-party database. Its transactions are the fields of the record \<open>badger\<close>, over
  an arbitrary type of database states, and the locale \<open>badger_db\<close> states what Badger documents:
  a commit applies the write set of the transaction atomically, a commit that returns an error
  applies nothing, a process that dies in a commit has applied all of the write set or nothing,
  iteration is in byte order, and reads of an open database succeed. Which commits fail or
  crash is up to the parameter, so the lemmas hold for every pattern of failures.

  The locale \<open>kv_store\<close> is the contract of the \<open>KVStore\<close> interface. It holds of \<open>BadgerKV\<close> and of
  \<open>PrefixKV\<close> over any store that satisfies it.
\<close>

subsection \<open>Write sets\<close>

datatype kv_write = WSet bytes bytes | WDelete bytes

text \<open>What a write set does to a key: nothing, or the last write to it.\<close>

fun write_eff :: "kv_write list \<Rightarrow> bytes \<Rightarrow> bytes option option" where
  "write_eff [] k = None"
| "write_eff (w # ws) k =
     (case write_eff ws k of
        Some r \<Rightarrow> Some r
      | None \<Rightarrow>
          (case w of
             WSet k' v \<Rightarrow> if k' = k then Some (Some v) else None
           | WDelete k' \<Rightarrow> if k' = k then Some None else None))"

definition over :: "(bytes \<rightharpoonup> bytes) \<Rightarrow> (bytes \<Rightarrow> bytes option option) \<Rightarrow> (bytes \<rightharpoonup> bytes)" where
  "over m e k = (case e k of None \<Rightarrow> m k | Some r \<Rightarrow> r)"

lemma write_eff_append:
  "write_eff (ws @ us) k = (case write_eff us k of Some r \<Rightarrow> Some r | None \<Rightarrow> write_eff ws k)"
  by (induction ws) (auto split: option.splits)

lemma write_eff_snoc_Set [kv_simps]:
  "write_eff (ws @ [WSet k v]) = (write_eff ws)(k := Some (Some v))"
  by (auto simp: fun_eq_iff write_eff_append)

lemma write_eff_snoc_Delete [kv_simps]:
  "write_eff (ws @ [WDelete k]) = (write_eff ws)(k := Some None)"
  by (auto simp: fun_eq_iff write_eff_append)

lemma write_eff_Nil [kv_simps]: "write_eff [] = (\<lambda>_. None)"
  by (simp add: fun_eq_iff)

lemma over_none [simp]: "over m (\<lambda>_. None) = m"
  by (simp add: over_def fun_eq_iff)

lemma over_upd: "over m (e(k := Some r)) = (over m e)(k := r)"
  by (simp add: over_def fun_eq_iff)

subsection \<open>Badger\<close>

text \<open>
  A read-only transaction's \<open>Get\<close> with \<open>ValueCopy\<close> (\<open>Ok None\<close> is \<open>badger.ErrKeyNotFound\<close>), the
  \<open>Set\<close> and \<open>Delete\<close> of a read-write transaction with the given pending writes, its \<open>Commit\<close>, and
  the items an iterator visits from \<open>Seek(key)\<close> on.
\<close>

record 'db badger =
  bdg_Get :: "'db \<Rightarrow> bytes \<Rightarrow> bytes option outcome"
  bdg_Set :: "'db \<Rightarrow> kv_write list \<Rightarrow> bytes \<Rightarrow> bytes \<Rightarrow> unit outcome"
  bdg_Delete :: "'db \<Rightarrow> kv_write list \<Rightarrow> bytes \<Rightarrow> unit outcome"
  bdg_Commit :: "kv_write list \<Rightarrow> ('db, unit) cmd"
  bdg_Iterate :: "'db \<Rightarrow> bytes \<Rightarrow> (bytes \<times> bytes) list"

definition badger_look :: "'db badger \<Rightarrow> 'db \<Rightarrow> bytes \<rightharpoonup> bytes" where
  "badger_look bdg db k = (case bdg_Get bdg db k of Ok r \<Rightarrow> r | _ \<Rightarrow> None)"

locale badger_db =
  fixes bdg :: "'db badger"
  assumes bdg_reads: "is_Ok (bdg_Get bdg db k)"
    and bdg_Set_no_panic: "bdg_Set bdg db ws k v \<noteq> Panic p"
    and bdg_Delete_no_panic: "bdg_Delete bdg db ws k \<noteq> Panic p"
    and bdg_Commit_Ok: "bdg_Commit bdg ws db = (Ok (), db') \<Longrightarrow>
      badger_look bdg db' = over (badger_look bdg db) (write_eff ws)"
    and bdg_Commit_Err: "bdg_Commit bdg ws db = (Err e, db') \<Longrightarrow>
      badger_look bdg db' = badger_look bdg db"
    and bdg_Commit_Panic: "bdg_Commit bdg ws db = (Panic p, db') \<Longrightarrow>
      badger_look bdg db' = badger_look bdg db \<or>
      badger_look bdg db' = over (badger_look bdg db) (write_eff ws)"
    and bdg_Iterate_sorted: "sorted_wrt (<) (map fst (bdg_Iterate bdg db seek))"
    and bdg_Iterate_set: "set (bdg_Iterate bdg db seek) =
      {(k, v). badger_look bdg db k = Some v \<and> seek \<le> k}"

subsection \<open>The interface\<close>

text \<open>A batch is its pending writes; \<open>Discard\<close> drops them and changes no state.\<close>

record 'db KVStore =
  kv_Get :: "'db \<Rightarrow> bytes \<Rightarrow> bytes outcome"
  kv_Set :: "bytes \<Rightarrow> bytes \<Rightarrow> ('db, unit) cmd"
  kv_Delete :: "bytes \<Rightarrow> ('db, unit) cmd"
  kv_NewBatch :: "kv_write list"
  batch_Set :: "'db \<Rightarrow> kv_write list \<Rightarrow> bytes \<Rightarrow> bytes \<Rightarrow> kv_write list outcome"
  batch_Delete :: "'db \<Rightarrow> kv_write list \<Rightarrow> bytes \<Rightarrow> kv_write list outcome"
  batch_Commit :: "kv_write list \<Rightarrow> ('db, unit) cmd"
  kv_PrefixIterator :: "'db \<Rightarrow> bytes \<Rightarrow> (bytes \<times> bytes) list"

text \<open>
  The contract, in terms of the map a store holds (\<open>look\<close>), the effect of a batch on it (\<open>eff\<close>)
  and the form in which an iterator shows a key (\<open>raw\<close>).
\<close>

locale kv_store =
  fixes kv :: "'db KVStore"
    and look :: "'db \<Rightarrow> bytes \<rightharpoonup> bytes"
    and eff :: "kv_write list \<Rightarrow> bytes \<Rightarrow> bytes option option"
    and raw :: "bytes \<Rightarrow> bytes"
  assumes Get_law: "kv_Get kv db k =
      (case look db k of None \<Rightarrow> Err ErrKeyNotFound | Some v \<Rightarrow> Ok v)"
    and Set_Ok: "kv_Set kv k v db = (Ok (), db') \<Longrightarrow> look db' = (look db)(k \<mapsto> v)"
    and Set_Err: "kv_Set kv k v db = (Err e, db') \<Longrightarrow> look db' = look db"
    and Set_Panic: "kv_Set kv k v db = (Panic p, db') \<Longrightarrow>
      look db' = look db \<or> look db' = (look db)(k \<mapsto> v)"
    and Delete_Ok: "kv_Delete kv k db = (Ok (), db') \<Longrightarrow> look db' = (look db)(k := None)"
    and Delete_Err: "kv_Delete kv k db = (Err e, db') \<Longrightarrow> look db' = look db"
    and Delete_Panic: "kv_Delete kv k db = (Panic p, db') \<Longrightarrow>
      look db' = look db \<or> look db' = (look db)(k := None)"
    and NewBatch_eff: "eff (kv_NewBatch kv) = (\<lambda>_. None)"
    and batch_Set_eff: "batch_Set kv db b k v = Ok b' \<Longrightarrow> eff b' = (eff b)(k := Some (Some v))"
    and batch_Set_no_panic: "batch_Set kv db b k v \<noteq> Panic p"
    and batch_Delete_eff: "batch_Delete kv db b k = Ok b' \<Longrightarrow> eff b' = (eff b)(k := Some None)"
    and batch_Delete_no_panic: "batch_Delete kv db b k \<noteq> Panic p"
    and Commit_Ok: "batch_Commit kv b db = (Ok (), db') \<Longrightarrow> look db' = over (look db) (eff b)"
    and Commit_Err: "batch_Commit kv b db = (Err e, db') \<Longrightarrow> look db' = look db"
    and Commit_Panic: "batch_Commit kv b db = (Panic p, db') \<Longrightarrow>
      look db' = look db \<or> look db' = over (look db) (eff b)"
    and Iterator_sorted: "sorted_wrt (<) (map fst (kv_PrefixIterator kv db pre))"
    and Iterator_set: "set (kv_PrefixIterator kv db pre) =
      {(raw k, v) | k v. look db k = Some v \<and> prefix pre k}"
begin

lemma Get_Ok_iff: "kv_Get kv db k = Ok v \<longleftrightarrow> look db k = Some v"
  by (simp add: Get_law split: option.splits)

lemma Get_no_panic: "kv_Get kv db k \<noteq> Panic p"
  by (simp add: Get_law split: option.splits)

lemma Set_atomic:
  "kv_Set kv k v db = (r, db') \<Longrightarrow> look db' = look db \<or> look db' = (look db)(k \<mapsto> v)"
  by (cases r) (auto dest: Set_Ok Set_Err Set_Panic)

lemma Commit_atomic:
  "batch_Commit kv b db = (r, db') \<Longrightarrow> look db' = look db \<or> look db' = over (look db) (eff b)"
  by (cases r) (auto dest: Commit_Ok Commit_Err Commit_Panic)

end

subsection \<open>\<open>badger.go\<close>\<close>

definition BadgerKV_Get :: "'db badger \<Rightarrow> 'db \<Rightarrow> bytes \<Rightarrow> bytes outcome" where
  "BadgerKV_Get bdg db key =
     (case bdg_Get bdg db key of
        Ok None \<Rightarrow> Err ErrKeyNotFound
      | Ok (Some v) \<Rightarrow> Ok v
      | Err e \<Rightarrow> Err e
      | Panic p \<Rightarrow> Panic p)"

definition BadgerKV_Set :: "'db badger \<Rightarrow> bytes \<Rightarrow> bytes \<Rightarrow> ('db, unit) cmd" where
  "BadgerKV_Set bdg key val db =
     (case bdg_Set bdg db [] key val of
        Ok _ \<Rightarrow> bdg_Commit bdg [WSet key val] db
      | Err e \<Rightarrow> (Err e, db)
      | Panic p \<Rightarrow> (Panic p, db))"

definition BadgerKV_Delete :: "'db badger \<Rightarrow> bytes \<Rightarrow> ('db, unit) cmd" where
  "BadgerKV_Delete bdg key db =
     (case bdg_Delete bdg db [] key of
        Ok _ \<Rightarrow> bdg_Commit bdg [WDelete key] db
      | Err e \<Rightarrow> (Err e, db)
      | Panic p \<Rightarrow> (Panic p, db))"

definition BadgerBatch_Set ::
  "'db badger \<Rightarrow> 'db \<Rightarrow> kv_write list \<Rightarrow> bytes \<Rightarrow> bytes \<Rightarrow> kv_write list outcome" where
  "BadgerBatch_Set bdg db b key val =
     bind_out (bdg_Set bdg db b key val) (\<lambda>_. Ok (b @ [WSet key val]))"

definition BadgerBatch_Delete ::
  "'db badger \<Rightarrow> 'db \<Rightarrow> kv_write list \<Rightarrow> bytes \<Rightarrow> kv_write list outcome" where
  "BadgerBatch_Delete bdg db b key =
     bind_out (bdg_Delete bdg db b key) (\<lambda>_. Ok (b @ [WDelete key]))"

text \<open>
  The items of \<open>PrefixIterator(p)\<close>: from \<open>Seek(p)\<close> on, as long as \<open>Valid\<close>, that is
  \<open>ValidForPrefix(p)\<close>, holds.
\<close>

definition BadgerKV_PrefixIterator :: "'db badger \<Rightarrow> 'db \<Rightarrow> bytes \<Rightarrow> (bytes \<times> bytes) list" where
  "BadgerKV_PrefixIterator bdg db p = takeWhile (\<lambda>(k, v). prefix p k) (bdg_Iterate bdg db p)"

definition BadgerKV :: "'db badger \<Rightarrow> 'db KVStore" where
  "BadgerKV bdg =
     \<lparr>kv_Get = BadgerKV_Get bdg, kv_Set = BadgerKV_Set bdg, kv_Delete = BadgerKV_Delete bdg,
      kv_NewBatch = [], batch_Set = BadgerBatch_Set bdg, batch_Delete = BadgerBatch_Delete bdg,
      batch_Commit = bdg_Commit bdg, kv_PrefixIterator = BadgerKV_PrefixIterator bdg\<rparr>"

subsection \<open>\<open>prefix.go\<close>\<close>

definition PrefixKV :: "'db KVStore \<Rightarrow> bytes \<Rightarrow> 'db KVStore" where
  "PrefixKV kv p =
     \<lparr>kv_Get = (\<lambda>db key. kv_Get kv db (p @ key)),
      kv_Set = (\<lambda>key val. kv_Set kv (p @ key) val),
      kv_Delete = (\<lambda>key. kv_Delete kv (p @ key)),
      kv_NewBatch = kv_NewBatch kv,
      batch_Set = (\<lambda>db b key val. batch_Set kv db b (p @ key) val),
      batch_Delete = (\<lambda>db b key. batch_Delete kv db b (p @ key)),
      batch_Commit = batch_Commit kv,
      kv_PrefixIterator = (\<lambda>db pre. kv_PrefixIterator kv db (p @ pre))\<rparr>"

subsection \<open>\<open>BadgerKV\<close> and \<open>PrefixKV\<close> satisfy the contract\<close>

lemma prefix_between:
  fixes k :: "'a :: linorder list"
  assumes "p \<le> k'" and "k' \<le> k" and "prefix p k"
  shows "prefix p k'"
  using assms
proof (induction p arbitrary: k k')
  case (Cons x p)
  then obtain ks where k: "k = x # ks" and "prefix p ks"
    by (cases k) auto
  moreover obtain ks' where k': "k' = x # ks'" and "p \<le> ks'" and "ks' \<le> ks"
    using Cons.prems k by (cases k') (auto simp: list_le_def list_less_def)
  ultimately show ?case
    using Cons.IH by simp
qed simp

lemma prefix_le: "prefix p k \<Longrightarrow> p \<le> (k :: 'a :: linorder list)"
proof (induction p arbitrary: k)
  case (Cons a p)
  then show ?case
    by (cases k) auto
qed simp

lemma set_takeWhile_prefix:
  fixes xs :: "('a :: linorder list \<times> 'b) list"
  assumes "sorted_wrt (<) (map fst xs)" and "\<And>k v. (k, v) \<in> set xs \<Longrightarrow> p \<le> k"
  shows "set (takeWhile (\<lambda>(k, v). prefix p k) xs) = {(k, v) \<in> set xs. prefix p k}"
  using assms
proof (induction xs)
  case (Cons x xs)
  obtain k v where x: "x = (k, v)" by (cases x)
  have "\<not> prefix p k'" if "\<not> prefix p k" and "(k', v') \<in> set xs" for k' v'
    using that Cons.prems(1) Cons.prems(2) [of k v] prefix_between [of p k k'] x
    by (force simp: less_imp_le)
  moreover have "set (takeWhile (\<lambda>(k, v). prefix p k) xs) = {(k, v) \<in> set xs. prefix p k}"
    by (rule Cons.IH) (use Cons.prems in auto)
  ultimately show ?case
    by (cases "prefix p k") (auto simp: x)
qed simp

lemma sorted_wrt_takeWhile: "sorted_wrt R xs \<Longrightarrow> sorted_wrt R (takeWhile Q xs)"
  by (induction xs) (auto dest: set_takeWhileD)

context badger_db
begin

lemma BadgerKV_Get_law:
  "BadgerKV_Get bdg db k =
     (case badger_look bdg db k of None \<Rightarrow> Err ErrKeyNotFound | Some v \<Rightarrow> Ok v)"
  using bdg_reads [of db k]
  by (auto simp: BadgerKV_Get_def badger_look_def is_Ok_iff split: option.splits)

lemma BadgerKV_Iterator_set:
  "set (BadgerKV_PrefixIterator bdg db p) =
     {(id k, v) | k v. badger_look bdg db k = Some v \<and> prefix p k}"
  unfolding BadgerKV_PrefixIterator_def
  by (subst set_takeWhile_prefix [OF bdg_Iterate_sorted])
     (auto simp: bdg_Iterate_set prefix_le)

lemma BadgerKV_Iterator_sorted: "sorted_wrt (<) (map fst (BadgerKV_PrefixIterator bdg db p))"
  using sorted_wrt_takeWhile [of "\<lambda>x y. fst x < fst y" "bdg_Iterate bdg db p"]
    bdg_Iterate_sorted [of db p]
  by (simp add: BadgerKV_PrefixIterator_def sorted_wrt_map)

end

sublocale badger_db \<subseteq> kv_store "BadgerKV bdg" "badger_look bdg" write_eff id
proof unfold_locales
  fix db k v db' e p b b'
  show "kv_Get (BadgerKV bdg) db k =
      (case badger_look bdg db k of None \<Rightarrow> Err ErrKeyNotFound | Some v \<Rightarrow> Ok v)"
    by (simp add: BadgerKV_def BadgerKV_Get_law)
  show "kv_Set (BadgerKV bdg) k v db = (Ok (), db') \<Longrightarrow>
      badger_look bdg db' = (badger_look bdg db)(k \<mapsto> v)"
    using write_eff_snoc_Set [of "[]" k v]
    by (auto simp: BadgerKV_def BadgerKV_Set_def over_upd write_eff_Nil
        split: outcome.splits dest!: bdg_Commit_Ok)
  show "kv_Delete (BadgerKV bdg) k db = (Ok (), db') \<Longrightarrow>
      badger_look bdg db' = (badger_look bdg db)(k := None)"
    using write_eff_snoc_Delete [of "[]" k]
    by (auto simp: BadgerKV_def BadgerKV_Delete_def over_upd write_eff_Nil
        split: outcome.splits dest!: bdg_Commit_Ok)
  show "kv_Set (BadgerKV bdg) k v db = (Panic p, db') \<Longrightarrow>
      badger_look bdg db' = badger_look bdg db \<or>
      badger_look bdg db' = (badger_look bdg db)(k \<mapsto> v)"
    using write_eff_snoc_Set [of "[]" k v]
    by (auto simp: BadgerKV_def BadgerKV_Set_def over_upd write_eff_Nil bdg_Set_no_panic
        split: outcome.splits dest!: bdg_Commit_Panic)
  show "kv_Delete (BadgerKV bdg) k db = (Panic p, db') \<Longrightarrow>
      badger_look bdg db' = badger_look bdg db \<or>
      badger_look bdg db' = (badger_look bdg db)(k := None)"
    using write_eff_snoc_Delete [of "[]" k]
    by (auto simp: BadgerKV_def BadgerKV_Delete_def over_upd write_eff_Nil bdg_Delete_no_panic
        split: outcome.splits dest!: bdg_Commit_Panic)
  show "kv_Set (BadgerKV bdg) k v db = (Err e, db') \<Longrightarrow> badger_look bdg db' = badger_look bdg db"
    by (auto simp: BadgerKV_def BadgerKV_Set_def split: outcome.splits dest: bdg_Commit_Err)
  show "kv_Delete (BadgerKV bdg) k db = (Err e, db') \<Longrightarrow> badger_look bdg db' = badger_look bdg db"
    by (auto simp: BadgerKV_def BadgerKV_Delete_def split: outcome.splits dest: bdg_Commit_Err)
qed (auto simp: BadgerKV_def BadgerBatch_Set_def BadgerBatch_Delete_def kv_simps bind_out_Ok_iff
    bind_out_Panic_iff BadgerKV_Iterator_set BadgerKV_Iterator_sorted bdg_Set_no_panic bdg_Delete_no_panic
    dest: bdg_Commit_Ok bdg_Commit_Err bdg_Commit_Panic)

text \<open>
  A prefixed store sees the keys under its prefix. Its iterators show the keys of the store
  below, prefix included.
\<close>

definition prefix_look :: "('db \<Rightarrow> bytes \<rightharpoonup> bytes) \<Rightarrow> bytes \<Rightarrow> 'db \<Rightarrow> bytes \<rightharpoonup> bytes" where
  "prefix_look look p db k = look db (p @ k)"

definition prefix_eff ::
  "(kv_write list \<Rightarrow> bytes \<Rightarrow> bytes option option) \<Rightarrow> bytes \<Rightarrow>
     kv_write list \<Rightarrow> bytes \<Rightarrow> bytes option option" where
  "prefix_eff eff p b k = eff b (p @ k)"

lemma prefix_look_cong: "look db' = look db \<Longrightarrow> prefix_look look p db' = prefix_look look p db"
  by (simp add: prefix_look_def fun_eq_iff)

lemma prefix_look_over:
  "look db' = over (look db) (eff b) \<Longrightarrow>
     prefix_look look p db' = over (prefix_look look p db) (prefix_eff eff p b)"
  by (simp add: prefix_look_def prefix_eff_def over_def fun_eq_iff split: option.splits)

locale prefixed_store = kv_store kv look eff raw
  for kv :: "'db KVStore" and look eff raw +
  fixes pfx :: bytes

sublocale prefixed_store \<subseteq>
  sub: kv_store "PrefixKV kv pfx" "prefix_look look pfx" "prefix_eff eff pfx" "\<lambda>k. raw (pfx @ k)"
proof unfold_locales
  fix db k v db' p b pre
  show "kv_Set (PrefixKV kv pfx) k v db = (Panic p, db') \<Longrightarrow>
      prefix_look look pfx db' = prefix_look look pfx db \<or>
      prefix_look look pfx db' = (prefix_look look pfx db)(k \<mapsto> v)"
    using Set_Panic [of "pfx @ k" v db p db'] by (auto simp: PrefixKV_def prefix_look_def fun_eq_iff)
  show "kv_Delete (PrefixKV kv pfx) k db = (Panic p, db') \<Longrightarrow>
      prefix_look look pfx db' = prefix_look look pfx db \<or>
      prefix_look look pfx db' = (prefix_look look pfx db)(k := None)"
    using Delete_Panic [of "pfx @ k" db p db'] by (auto simp: PrefixKV_def prefix_look_def fun_eq_iff)
  show "batch_Commit (PrefixKV kv pfx) b db = (Ok (), db') \<Longrightarrow>
      prefix_look look pfx db' = over (prefix_look look pfx db) (prefix_eff eff pfx b)"
    using Commit_Ok [of b db db'] by (simp add: PrefixKV_def prefix_look_over)
  show "batch_Commit (PrefixKV kv pfx) b db = (Panic p, db') \<Longrightarrow>
      prefix_look look pfx db' = prefix_look look pfx db \<or>
      prefix_look look pfx db' = over (prefix_look look pfx db) (prefix_eff eff pfx b)"
    using Commit_Panic [of b db p db']
    by (auto simp: PrefixKV_def dest: prefix_look_cong prefix_look_over)
  show "set (kv_PrefixIterator (PrefixKV kv pfx) db pre) =
      {(raw (pfx @ k), v) | k v. prefix_look look pfx db k = Some v \<and> prefix pre k}"
    by (auto simp: PrefixKV_def prefix_look_def Iterator_set prefix_def)
qed (auto simp: PrefixKV_def prefix_look_def prefix_eff_def Get_law NewBatch_eff fun_eq_iff
    batch_Set_no_panic batch_Delete_no_panic Iterator_sorted
    dest!: Set_Ok Set_Err Delete_Ok Delete_Err batch_Set_eff batch_Delete_eff Commit_Err)

subsection \<open>The key spaces of a node\<close>

text \<open>
  \<open>node.go\<close> opens one database and hands prefixed views of it to the block store, the data
  availability client and the indexers.
\<close>

definition mainPrefix :: bytes where "mainPrefix = [0]"
definition dalcPrefix :: bytes where "dalcPrefix = [1]"
definition indexerPrefix :: bytes where "indexerPrefix = [2]"

definition mainKV :: "'db badger \<Rightarrow> 'db KVStore" where
  "mainKV bdg = PrefixKV (BadgerKV bdg) mainPrefix"

definition dalcKV :: "'db badger \<Rightarrow> 'db KVStore" where
  "dalcKV bdg = PrefixKV (BadgerKV bdg) dalcPrefix"

definition indexerKV :: "'db badger \<Rightarrow> 'db KVStore" where
  "indexerKV bdg = PrefixKV (BadgerKV bdg) indexerPrefix"

sublocale badger_db \<subseteq> main: prefixed_store "BadgerKV bdg" "badger_look bdg" write_eff id mainPrefix
  by unfold_locales

sublocale badger_db \<subseteq> dalc: prefixed_store "BadgerKV bdg" "badger_look bdg" write_eff id dalcPrefix
  by unfold_locales

sublocale badger_db \<subseteq> indexer: prefixed_store "BadgerKV bdg" "badger_look bdg" write_eff id indexerPrefix
  by unfold_locales

definition main_look :: "'db badger \<Rightarrow> 'db \<Rightarrow> bytes \<rightharpoonup> bytes" where
  "main_look bdg = prefix_look (badger_look bdg) mainPrefix"

definition main_eff :: "kv_write list \<Rightarrow> bytes \<Rightarrow> bytes option option" where
  "main_eff = prefix_eff write_eff mainPrefix"

context badger_db
begin

lemma mainKV_kv_store: "kv_store (mainKV bdg) (main_look bdg) main_eff (\<lambda>k. mainPrefix @ k)"
  using main.sub.kv_store_axioms by (simp add: mainKV_def main_look_def main_eff_def)

end

subsection \<open>An executable database\<close>

text \<open>
  An instance of \<open>badger_db\<close> to run the model on: the entries, and the fates of the coming commits
  (an exhausted list is no more failures).
\<close>

datatype fate = Fine | Fail | Crash_before | Crash_after

record mem_db =
  mem_entries :: "(bytes \<times> bytes) list"
  mem_fates :: "fate list"

fun apply_write :: "kv_write \<Rightarrow> (bytes \<times> bytes) list \<Rightarrow> (bytes \<times> bytes) list" where
  "apply_write (WSet k v) es = (k, v) # filter (\<lambda>(k', v'). k' \<noteq> k) es"
| "apply_write (WDelete k) es = filter (\<lambda>(k', v'). k' \<noteq> k) es"

definition mem_Commit :: "kv_write list \<Rightarrow> (mem_db, unit) cmd" where
  "mem_Commit ws db =
     (let db' = db\<lparr>mem_entries := fold apply_write ws (mem_entries db)\<rparr>
      in case mem_fates db of
           [] \<Rightarrow> (Ok (), db')
         | f # fs \<Rightarrow>
             (case f of
                Fine \<Rightarrow> (Ok (), db'\<lparr>mem_fates := fs\<rparr>)
              | Fail \<Rightarrow> (Err ErrIO, db\<lparr>mem_fates := fs\<rparr>)
              | Crash_before \<Rightarrow> (Panic ''crash'', db\<lparr>mem_fates := fs\<rparr>)
              | Crash_after \<Rightarrow> (Panic ''crash'', db'\<lparr>mem_fates := fs\<rparr>)))"

definition mem_Iterate :: "mem_db \<Rightarrow> bytes \<Rightarrow> (bytes \<times> bytes) list" where
  "mem_Iterate db seek =
     map (\<lambda>k. (k, the (map_of (mem_entries db) k)))
       (sort (remdups (filter (\<lambda>k. seek \<le> k) (map fst (mem_entries db)))))"

definition mem_badger :: "mem_db badger" where
  "mem_badger =
     \<lparr>bdg_Get = (\<lambda>db k. Ok (map_of (mem_entries db) k)),
      bdg_Set = (\<lambda>db ws k v. Ok ()), bdg_Delete = (\<lambda>db ws k. Ok ()),
      bdg_Commit = mem_Commit, bdg_Iterate = mem_Iterate\<rparr>"

definition empty_mem :: "fate list \<Rightarrow> mem_db" where
  "empty_mem fs = \<lparr>mem_entries = [], mem_fates = fs\<rparr>"

lemma map_of_filter_neq: "map_of (filter (\<lambda>(k', v'). k' \<noteq> k) es) = (map_of es)(k := None)"
  by (induction es) (auto simp: fun_eq_iff)

lemma map_of_apply_writes:
  "map_of (fold apply_write ws es) = over (map_of es) (write_eff ws)"
proof (induction ws rule: rev_induct)
  case (snoc w ws)
  then show ?case
    by (cases w) (auto simp: kv_simps map_of_filter_neq over_def fun_eq_iff)
qed (simp add: kv_simps)

lemma mem_badger_simps [simp]:
  "bdg_Get mem_badger db k = Ok (map_of (mem_entries db) k)"
  "bdg_Set mem_badger db ws k v = Ok ()"
  "bdg_Delete mem_badger db ws k = Ok ()"
  "bdg_Commit mem_badger = mem_Commit"
  "bdg_Iterate mem_badger = mem_Iterate"
  by (simp_all add: mem_badger_def)

lemma badger_look_mem [simp]: "badger_look mem_badger db = map_of (mem_entries db)"
  by (simp add: badger_look_def fun_eq_iff)

lemma mem_Iterate_sorted: "sorted_wrt (<) (map fst (mem_Iterate db seek))"
  by (simp add: mem_Iterate_def comp_def strict_sorted_iff)

lemma mem_Iterate_set:
  "set (mem_Iterate db seek) = {(k, v). map_of (mem_entries db) k = Some v \<and> seek \<le> k}"
proof -
  have "k \<in> fst ` set es \<longleftrightarrow> (\<exists>v. map_of es k = Some v)" for k and es :: "(bytes \<times> bytes) list"
    by (metis map_of_eq_None_iff not_Some_eq)
  then show ?thesis
    by (auto simp: mem_Iterate_def)
qed

interpretation mem: badger_db mem_badger
  by unfold_locales
     (auto simp: mem_Commit_def Let_def map_of_apply_writes mem_Iterate_sorted mem_Iterate_set
       split: list.splits fate.splits)

subsection \<open>A store that does not fail\<close>

text \<open>
  No write fails in a database of \<open>P\<close>, and the databases of \<open>P\<close> are kept: the condition under
  which an operation is expected to succeed.
\<close>

definition working :: "'db KVStore \<Rightarrow> ('db \<Rightarrow> bool) \<Rightarrow> bool" where
  "working kv P \<longleftrightarrow>
     (\<forall>db k v. P db \<longrightarrow> (\<exists>db'. kv_Set kv k v db = (Ok (), db') \<and> P db')) \<and>
     (\<forall>db b k v. P db \<longrightarrow> (\<exists>b'. batch_Set kv db b k v = Ok b')) \<and>
     (\<forall>db b k. P db \<longrightarrow> (\<exists>b'. batch_Delete kv db b k = Ok b')) \<and>
     (\<forall>db b. P db \<longrightarrow> (\<exists>db'. batch_Commit kv b db = (Ok (), db') \<and> P db'))"

lemma workingD:
  assumes "working kv P" and "P db"
  shows "\<exists>db'. kv_Set kv k v db = (Ok (), db') \<and> P db'" and "\<exists>b'. batch_Set kv db b k v = Ok b'"
    and "\<exists>b'. batch_Delete kv db b k = Ok b'" and "\<exists>db'. batch_Commit kv b db = (Ok (), db') \<and> P db'"
  using assms by (simp_all add: working_def)

definition no_faults :: "mem_db \<Rightarrow> bool" where
  "no_faults db \<longleftrightarrow> mem_fates db = []"

lemma working_mem: "working (mainKV mem_badger) no_faults"
  by (auto simp: working_def no_faults_def mainKV_def PrefixKV_def BadgerKV_def BadgerKV_Set_def
      BadgerBatch_Set_def BadgerBatch_Delete_def mem_Commit_def Let_def)

end
