(* ===== verification/Types.thy ===== *)
theory Types
  imports Prelude
begin

text \<open>
  The data of the chain, after \<open>src/types\<close>: headers, block data, commits, blocks, batches and the
  chain state with their basic validation, the genesis state, and the conversion of a header to
  the tendermint header whose hash identifies a block (\<open>hashing.go\<close>, \<open>src/conv/abci\<close>).

  Fixed-size arrays are byte lists of the given length (\<open>wf_Header\<close> and \<open>wf_Commit\<close> record the
  lengths). A Go string is its byte sequence. A \<open>time.Time\<close> is the number of nanoseconds since
  the Unix epoch. Nil and empty slices are the same list: no code modelled here tells them apart.
  Functions of the tendermint packages are fields of the record \<open>tm_funs\<close>, an argument of the
  definitions that call them; a tendermint \<open>ValidatorSet\<close> is a type variable.
\<close>

type_synonym gostring = bytes
type_synonym gotime = int
type_synonym Tx = bytes
type_synonym Signature = bytes

subsection \<open>Data of tendermint used by the structs\<close>

record Consensus =
  cv_Block :: u64
  cv_App :: u64

record tmVersion =
  tv_Consensus :: Consensus
  tv_Software :: gostring

record PartSetHeader =
  ps_Total :: u32
  ps_Hash :: bytes

record BlockID =
  bid_Hash :: bytes
  bid_PartSetHeader :: PartSetHeader

record CommitSig =
  cs_BlockIDFlag :: byte
  cs_ValidatorAddress :: bytes
  cs_Timestamp :: gotime
  cs_Signature :: bytes

record abciEvidence =
  ev_Type :: u32
  ev_Address :: bytes
  ev_Power :: int
  ev_Height :: int
  ev_Time :: gotime
  ev_TotalVotingPower :: int

record ConsensusParams =
  cp_Block_MaxBytes :: int
  cp_Block_MaxGas :: int
  cp_Block_TimeIotaMs :: int
  cp_Evidence_MaxAgeNumBlocks :: int
  cp_Evidence_MaxAgeDuration :: int
  cp_Evidence_MaxBytes :: int
  cp_Validator_PubKeyTypes :: "gostring list"
  cp_Version_AppVersion :: u64

record tmHeader =
  th_Version :: Consensus
  th_ChainID :: gostring
  th_Height :: int
  th_Time :: gotime
  th_LastBlockID :: BlockID
  th_LastCommitHash :: bytes
  th_DataHash :: bytes
  th_ValidatorsHash :: bytes
  th_NextValidatorsHash :: bytes
  th_ConsensusHash :: bytes
  th_AppHash :: bytes
  th_LastResultsHash :: bytes
  th_EvidenceHash :: bytes
  th_ProposerAddress :: bytes

record tmCommit =
  tc_Height :: int
  tc_Round :: int
  tc_BlockID :: BlockID
  tc_Signatures :: "CommitSig list"

record tmBlock =
  tb_Header :: tmHeader
  tb_Txs :: "Tx list"
  tb_LastCommit :: tmCommit

record GenesisDoc =
  g_GenesisTime :: gotime
  g_ChainID :: gostring
  g_InitialHeight :: int
  g_ConsensusParams :: "ConsensusParams option"
  g_AppHash :: bytes
  g_AppState :: bytes

record tm_funs =
  tm_Header_Hash :: "tmHeader \<Rightarrow> bytes"
  tm_Commit_Hash :: "tmCommit \<Rightarrow> bytes"
  tm_Data_Hash :: "Tx list \<Rightarrow> bytes"
  tm_EmptyEvidence_Hash :: bytes
  tm_MaxSignatureSize :: nat
  tm_VerifySignature :: "bytes \<Rightarrow> bytes \<Rightarrow> bytes \<Rightarrow> bool"
  tm_BlockProtocol :: u64
  tm_TMCoreSemVer :: gostring

subsection \<open>\<open>types/block.go\<close>, \<open>types/batch.go\<close>, \<open>types/sequencer.go\<close>, \<open>types/evidence.go\<close>\<close>

record Version =
  v_Block :: u64
  v_App :: u64

record Header =
  h_Version :: Version
  h_NamespaceID :: bytes
  h_Height :: u64
  h_Time :: u64
  h_LastHeaderHash :: bytes
  h_LastCommitHash :: bytes
  h_DataHash :: bytes
  h_ConsensusHash :: bytes
  h_AppHash :: bytes
  h_LastResultsHash :: bytes
  h_ProposerAddress :: bytes
  h_AggregatorsHash :: bytes
  h_ChainID :: gostring

text \<open>
  \<open>Evidence\<close> is an interface without implementations; a value is represented by what its
  method \<open>ABCI()\<close> returns, the only method the modelled code calls.
\<close>

datatype Evidence = Evidence (ABCI: "abciEvidence list")

record Data =
  d_Txs :: "Tx list"
  d_IntermediateStateRoots :: "bytes list"
  d_Evidence :: "Evidence list"

record Commit =
  c_Height :: u64
  c_HeaderHash :: bytes
  c_Signatures :: "Signature list"
  c_TMSignature :: CommitSig

record Block =
  b_Header :: Header
  b_Data :: Data
  b_LastCommit :: Commit

record Batch =
  ba_StartHeight :: u64
  ba_EndHeight :: u64
  ba_Blocks :: "Block list"
  ba_Commits :: "Commit list"

datatype SequencerStatus = Proposer | Inactive

record Sequencer =
  sq_PublicKey :: bytes
  sq_Status :: SequencerStatus

subsection \<open>Zero values and array lengths\<close>

definition zero_Version :: Version where
  "zero_Version = \<lparr>v_Block = 0, v_App = 0\<rparr>"

definition zero_Header :: Header where
  "zero_Header =
     \<lparr>h_Version = zero_Version, h_NamespaceID = zero_bytes 8, h_Height = 0, h_Time = 0,
      h_LastHeaderHash = zero_bytes 32, h_LastCommitHash = zero_bytes 32,
      h_DataHash = zero_bytes 32, h_ConsensusHash = zero_bytes 32, h_AppHash = zero_bytes 32,
      h_LastResultsHash = zero_bytes 32, h_ProposerAddress = [],
      h_AggregatorsHash = zero_bytes 32, h_ChainID = []\<rparr>"

definition zero_time :: gotime where
  "zero_time = - 62135596800000000000"

definition zero_CommitSig :: CommitSig where
  "zero_CommitSig =
     \<lparr>cs_BlockIDFlag = 0, cs_ValidatorAddress = [], cs_Timestamp = zero_time, cs_Signature = []\<rparr>"

definition zero_Commit :: Commit where
  "zero_Commit =
     \<lparr>c_Height = 0, c_HeaderHash = zero_bytes 32, c_Signatures = [],
      c_TMSignature = zero_CommitSig\<rparr>"

definition zero_Data :: Data where
  "zero_Data = \<lparr>d_Txs = [], d_IntermediateStateRoots = [], d_Evidence = []\<rparr>"

definition zero_Block :: Block where
  "zero_Block = \<lparr>b_Header = zero_Header, b_Data = zero_Data, b_LastCommit = zero_Commit\<rparr>"

definition wf_Header :: "Header \<Rightarrow> bool" where
  "wf_Header h \<longleftrightarrow>
     length (h_NamespaceID h) = 8 \<and> length (h_LastHeaderHash h) = 32 \<and>
     length (h_LastCommitHash h) = 32 \<and> length (h_DataHash h) = 32 \<and>
     length (h_ConsensusHash h) = 32 \<and> length (h_AppHash h) = 32 \<and>
     length (h_LastResultsHash h) = 32 \<and> length (h_AggregatorsHash h) = 32"

definition wf_Commit :: "Commit \<Rightarrow> bool" where
  "wf_Commit c \<longleftrightarrow> length (c_HeaderHash c) = 32"

definition wf_Block :: "Block \<Rightarrow> bool" where
  "wf_Block b \<longleftrightarrow> wf_Header (b_Header b) \<and> wf_Commit (b_LastCommit b)"

definition wf_Batch :: "Batch \<Rightarrow> bool" where
  "wf_Batch b \<longleftrightarrow> list_all wf_Block (ba_Blocks b) \<and> list_all wf_Commit (ba_Commits b)"

lemma wf_zero [simp]: "wf_Header zero_Header" "wf_Commit zero_Commit" "wf_Block zero_Block"
  by (simp_all add: wf_Header_def wf_Commit_def wf_Block_def zero_Header_def zero_Commit_def
      zero_Block_def)

subsection \<open>\<open>types/state.go\<close>\<close>

record 'vs State =
  s_Version :: tmVersion
  s_ChainID :: gostring
  s_InitialHeight :: int
  s_LastBlockHeight :: int
  s_LastBlockID :: BlockID
  s_LastBlockTime :: gotime
  s_SLStateIndex :: u64
  s_NextValidators :: 'vs
  s_Validators :: 'vs
  s_LastValidators :: 'vs
  s_LastHeightValidatorsChanged :: int
  s_ConsensusParams :: ConsensusParams
  s_LastHeightConsensusParamsChanged :: int
  s_LastResultsHash :: bytes
  s_LastStoreHeight :: u64
  s_BaseHeight :: u64
  s_AppHash :: bytes

definition zero_BlockID :: BlockID where
  "zero_BlockID = \<lparr>bid_Hash = [], bid_PartSetHeader = \<lparr>ps_Total = 0, ps_Hash = []\<rparr>\<rparr>"

definition InitStateVersion :: "tm_funs \<Rightarrow> tmVersion" where
  "InitStateVersion tm =
     \<lparr>tv_Consensus = \<lparr>cv_Block = tm_BlockProtocol tm, cv_App = 0\<rparr>,
      tv_Software = tm_TMCoreSemVer tm\<rparr>"

text \<open>
  \<open>ValidateAndComplete\<close> is tendermint's check of a genesis document, which also fills defaults;
  \<open>nilset\<close> is \<open>types.NewValidatorSet(nil)\<close>.
\<close>

definition NewFromGenesisDoc ::
  "tm_funs \<Rightarrow> (GenesisDoc \<Rightarrow> GenesisDoc outcome) \<Rightarrow> 'vs \<Rightarrow> GenesisDoc \<Rightarrow> 'vs State outcome" where
  "NewFromGenesisDoc tm ValidateAndComplete nilset genDoc =
     (case ValidateAndComplete genDoc of
        Err e \<Rightarrow> Err (Wrapf ''error in genesis doc'' e)
      | Panic p \<Rightarrow> Panic p
      | Ok g \<Rightarrow>
          (case g_ConsensusParams g of
             None \<Rightarrow> Panic ''nil pointer dereference''
           | Some cp \<Rightarrow>
               Ok \<lparr>s_Version = InitStateVersion tm, s_ChainID = g_ChainID g,
                   s_InitialHeight = g_InitialHeight g, s_LastBlockHeight = 0,
                   s_LastBlockID = zero_BlockID, s_LastBlockTime = g_GenesisTime g,
                   s_SLStateIndex = 0, s_NextValidators = nilset, s_Validators = nilset,
                   s_LastValidators = nilset,
                   s_LastHeightValidatorsChanged = g_InitialHeight g,
                   s_ConsensusParams = cp,
                   s_LastHeightConsensusParamsChanged = g_InitialHeight g,
                   s_LastResultsHash = zero_bytes 32, s_LastStoreHeight = 0, s_BaseHeight = 0,
                   s_AppHash = go_copy (zero_bytes 32) (g_AppHash g)\<rparr>))"

subsection \<open>\<open>types/validation.go\<close>\<close>

definition Header_ValidateBasic :: "Header \<Rightarrow> unit outcome" where
  "Header_ValidateBasic h =
     (if length (h_ProposerAddress h) = 0 then Err (Errorf ''no proposer address'') else Ok ())"

definition Data_ValidateBasic :: "Data \<Rightarrow> unit outcome" where
  "Data_ValidateBasic d = Ok ()"

definition Commit_ValidateBasic :: "tm_funs \<Rightarrow> Commit \<Rightarrow> unit outcome" where
  "Commit_ValidateBasic tm c =
     (if c_Height c > 0 then
        if length (c_Signatures c) \<noteq> 1 then Err (Errorf ''there should be 1 signature'')
        else if length (c_Signatures c ! 0) > tm_MaxSignatureSize tm
          then Err (Errorf ''signature is too big'')
        else Ok ()
      else Ok ())"

definition Block_ValidateBasic :: "tm_funs \<Rightarrow> Block \<Rightarrow> unit outcome" where
  "Block_ValidateBasic tm b =
     bind_out (Header_ValidateBasic (b_Header b)) (\<lambda>_.
     bind_out (Data_ValidateBasic (b_Data b)) (\<lambda>_.
     bind_out (Commit_ValidateBasic tm (b_LastCommit b)) (\<lambda>_.
     Ok ())))"

definition Commit_Validate :: "tm_funs \<Rightarrow> Commit \<Rightarrow> Sequencer \<Rightarrow> bytes \<Rightarrow> unit outcome" where
  "Commit_Validate tm c proposer msg =
     bind_out (Commit_ValidateBasic tm c) (\<lambda>_.
     if c_Signatures c = [] then Panic ''index out of range''
     else if \<not> tm_VerifySignature tm (sq_PublicKey proposer) msg (c_Signatures c ! 0)
       then Err ErrInvalidSignature
     else Ok ())"

lemma Commit_Validate_Ok_iff:
  "Commit_Validate tm c proposer msg = Ok () \<longleftrightarrow>
     c_Signatures c \<noteq> [] \<and>
     tm_VerifySignature tm (sq_PublicKey proposer) msg (hd (c_Signatures c)) \<and>
     (c_Height c > 0 \<longrightarrow>
        length (c_Signatures c) = 1 \<and> length (hd (c_Signatures c)) \<le> tm_MaxSignatureSize tm)"
  by (auto simp: Commit_Validate_def Commit_ValidateBasic_def bind_out_Ok_iff hd_conv_nth not_le
      split: if_splits)

lemma Block_ValidateBasic_Ok_iff:
  "Block_ValidateBasic tm b = Ok () \<longleftrightarrow>
     h_ProposerAddress (b_Header b) \<noteq> [] \<and> Commit_ValidateBasic tm (b_LastCommit b) = Ok ()"
  by (auto simp: Block_ValidateBasic_def Header_ValidateBasic_def Data_ValidateBasic_def
      bind_out_Ok_iff)

subsection \<open>\<open>types/hashing.go\<close> and \<open>conv/abci/block.go\<close>\<close>

text \<open>\<open>time.Unix(0, int64(t))\<close>\<close>

definition Unix_ns :: "u64 \<Rightarrow> gotime" where
  "Unix_ns t = int64_of t"

definition ToABCIHeaderPB :: "tm_funs \<Rightarrow> Header \<Rightarrow> tmHeader" where
  "ToABCIHeaderPB tm h =
     \<lparr>th_Version = \<lparr>cv_Block = v_Block (h_Version h), cv_App = v_App (h_Version h)\<rparr>,
      th_ChainID = h_ChainID h,
      th_Height = int64_of (h_Height h),
      th_Time = Unix_ns (h_Time h),
      th_LastBlockID =
        \<lparr>bid_Hash = h_LastHeaderHash h,
         bid_PartSetHeader = \<lparr>ps_Total = 1, ps_Hash = h_LastHeaderHash h\<rparr>\<rparr>,
      th_LastCommitHash = h_LastCommitHash h,
      th_DataHash = h_DataHash h,
      th_ValidatorsHash = h_AggregatorsHash h,
      th_NextValidatorsHash = h_AggregatorsHash h,
      th_ConsensusHash = h_ConsensusHash h,
      th_AppHash = h_AppHash h,
      th_LastResultsHash = h_LastResultsHash h,
      th_EvidenceHash = tm_EmptyEvidence_Hash tm,
      th_ProposerAddress = h_ProposerAddress h\<rparr>"

definition ToABCIHeader :: "tm_funs \<Rightarrow> Header \<Rightarrow> tmHeader" where
  "ToABCIHeader tm h =
     \<lparr>th_Version = \<lparr>cv_Block = v_Block (h_Version h), cv_App = v_App (h_Version h)\<rparr>,
      th_ChainID = h_ChainID h,
      th_Height = int64_of (h_Height h),
      th_Time = Unix_ns (h_Time h),
      th_LastBlockID =
        \<lparr>bid_Hash = h_LastHeaderHash h,
         bid_PartSetHeader = \<lparr>ps_Total = 1, ps_Hash = h_LastHeaderHash h\<rparr>\<rparr>,
      th_LastCommitHash = h_LastCommitHash h,
      th_DataHash = h_DataHash h,
      th_ValidatorsHash = h_AggregatorsHash h,
      th_NextValidatorsHash = h_AggregatorsHash h,
      th_ConsensusHash = h_ConsensusHash h,
      th_AppHash = h_AppHash h,
      th_LastResultsHash = h_LastResultsHash h,
      th_EvidenceHash = tm_EmptyEvidence_Hash tm,
      th_ProposerAddress = h_ProposerAddress h\<rparr>"

definition hashed_header :: "tm_funs \<Rightarrow> Header \<Rightarrow> tmHeader" where
  "hashed_header tm h =
     \<lparr>th_Version = \<lparr>cv_Block = v_Block (h_Version h), cv_App = v_App (h_Version h)\<rparr>,
      th_ChainID = h_ChainID h,
      th_Height = int64_of (h_Height h),
      th_Time = Unix_ns (h_Time h),
      th_LastBlockID =
        \<lparr>bid_Hash = h_LastHeaderHash h,
         bid_PartSetHeader = \<lparr>ps_Total = 1, ps_Hash = h_LastHeaderHash h\<rparr>\<rparr>,
      th_LastCommitHash = h_LastCommitHash h,
      th_DataHash = h_DataHash h,
      th_ValidatorsHash = h_AggregatorsHash h,
      th_NextValidatorsHash = h_AggregatorsHash h,
      th_ConsensusHash = h_ConsensusHash h,
      th_AppHash = h_AppHash h,
      th_LastResultsHash = h_LastResultsHash h,
      th_EvidenceHash = tm_EmptyEvidence_Hash tm,
      th_ProposerAddress = h_ProposerAddress h\<rparr>"

definition Header_Hash :: "tm_funs \<Rightarrow> Header \<Rightarrow> bytes" where
  "Header_Hash tm h = go_copy (zero_bytes 32) (tm_Header_Hash tm (hashed_header tm h))"

definition Block_Hash :: "tm_funs \<Rightarrow> Block \<Rightarrow> bytes" where
  "Block_Hash tm b = Header_Hash tm (b_Header b)"

lemma length_Header_Hash [simp]: "length (Header_Hash tm h) = 32"
  by (simp add: Header_Hash_def)

definition BlockIDFlagCommit :: byte where
  "BlockIDFlagCommit = 2"

definition ToABCICommit :: "tm_funs \<Rightarrow> Commit \<Rightarrow> Header \<Rightarrow> tmCommit" where
  "ToABCICommit tm commit header =
     (let headerHash = Header_Hash tm header;
          sigs =
            (if length (cs_Signature (c_TMSignature commit)) = 0 then
               let ss = map (\<lambda>sig. zero_CommitSig\<lparr>cs_BlockIDFlag := BlockIDFlagCommit,
                                                  cs_Signature := sig\<rparr>) (c_Signatures commit)
               in if length (c_Signatures commit) = 1
                  then ss[0 := (ss ! 0)\<lparr>cs_ValidatorAddress := h_ProposerAddress header,
                                        cs_Timestamp := Unix_ns (h_Time header)\<rparr>]
                  else ss
             else [c_TMSignature commit])
      in \<lparr>tc_Height = int64_of (c_Height commit), tc_Round = 0,
          tc_BlockID =
            \<lparr>bid_Hash = headerHash,
             bid_PartSetHeader = \<lparr>ps_Total = 1, ps_Hash = headerHash\<rparr>\<rparr>,
          tc_Signatures = sigs\<rparr>)"

definition ToABCIBlockDataTxs :: "Data \<Rightarrow> Tx list" where
  "ToABCIBlockDataTxs d = d_Txs d"

definition ToABCIBlock :: "tm_funs \<Rightarrow> Block \<Rightarrow> tmBlock" where
  "ToABCIBlock tm block =
     (let abciHeader = ToABCIHeader tm (b_Header block);
          abciCommit = ToABCICommit tm (b_LastCommit block) (b_Header block);
          abciCommit' =
            (if length (tc_Signatures abciCommit) = 1
             then abciCommit\<lparr>tc_Signatures :=
                    [(tc_Signatures abciCommit ! 0)
                       \<lparr>cs_ValidatorAddress := h_ProposerAddress (b_Header block)\<rparr>]\<rparr>
             else abciCommit)
      in \<lparr>tb_Header = abciHeader\<lparr>th_DataHash := h_DataHash (b_Header block)\<rparr>,
          tb_Txs = ToABCIBlockDataTxs (b_Data block),
          tb_LastCommit = abciCommit'\<rparr>)"

lemma int64_of_inject [simp]: "int64_of a = int64_of b \<longleftrightarrow> a = b"
  by (metis uint64_of_int64_of)

lemma ToABCIHeader_eq_hashed_header:
  "ToABCIHeader tm h = hashed_header tm h" "ToABCIHeaderPB tm h = hashed_header tm h"
  by (simp_all add: ToABCIHeader_def ToABCIHeaderPB_def hashed_header_def)

text \<open>
  The tendermint header that is hashed determines every field of the dymint header but the
  namespace id: \<open>Header.Hash\<close> does not bind \<open>NamespaceID\<close>.
\<close>

lemma hashed_header_eq_iff:
  "hashed_header tm h = hashed_header tm h' \<longleftrightarrow>
     h\<lparr>h_NamespaceID := ns\<rparr> = h'\<lparr>h_NamespaceID := ns\<rparr>"
  by (cases h; cases h'; cases "h_Version h"; cases "h_Version h'")
     (auto simp: hashed_header_def Unix_ns_def)

lemma tc_Signatures_ToABCICommit_single:
  "length (c_Signatures commit) = 1 \<Longrightarrow> length (tc_Signatures (ToABCICommit tm commit header)) = 1"
  by (simp add: ToABCICommit_def Let_def)

subsection \<open>Properties\<close>

text \<open>
  Two headers have the same hash preimage exactly if they agree in every field but
  NamespaceID: the block hash binds the whole header except the namespace id.
\<close>

lemma header_hash_preimage:
  "hashed_header tm h = hashed_header tm h' \<longleftrightarrow>
     h\<lparr>h_NamespaceID := ns\<rparr> = h'\<lparr>h_NamespaceID := ns\<rparr>"
  by (rule hashed_header_eq_iff)

end
