(* ===== verification/Proto.thy ===== *)
theory Proto
  imports Prelude
begin

text \<open>
  The protobuf wire format as the generated code of \<open>src/types/pb\<close> implements it: varints, the
  backwards writer of \<open>MarshalToSizedBuffer\<close>, the index-driven reader of \<open>Unmarshal\<close>, and the
  skipping of unknown fields (\<open>skipDymint\<close>). The generated code repeats these pieces inline for
  every field; here each is one definition. The lemmas say what a writer emits (\<open>emits\<close>) and
  what a reader consumes (\<open>consumes\<close>); the message theories compose them.

  A reader index is a natural number. \<open>add_index\<close> is the addition of two non-negative \<open>int\<close>s
  followed by the generated check for a negative (wrapped) sum. A decoder that returns an error
  discards the partially filled message, as its callers do.
\<close>

definition ErrIntOverflow :: error where
  "ErrIntOverflow = ErrProto ''proto: integer overflow''"

definition ErrInvalidLength :: error where
  "ErrInvalidLength = ErrProto ''proto: negative length found during unmarshaling''"

definition ErrUnexpectedEndOfGroup :: error where
  "ErrUnexpectedEndOfGroup = ErrProto ''proto: unexpected end of group''"

definition ErrUnexpectedEOF :: error where
  "ErrUnexpectedEOF = ErrProto ''unexpected EOF''"

subsection \<open>Varints\<close>

text \<open>\<open>math/bits.Len64\<close>\<close>

fun bit_len :: "nat \<Rightarrow> nat" where
  "bit_len n = (if n = 0 then 0 else Suc (bit_len (n div 2)))"

declare bit_len.simps [simp del]

definition Len64 :: "u64 \<Rightarrow> nat" where
  "Len64 x = bit_len (unat x)"

definition sov :: "u64 \<Rightarrow> nat" where
  "sov x = (Len64 (x OR 1) + 6) div 7"

text \<open>The bytes the loop of \<open>encodeVarint\<close> stores, from \<open>offset\<close> on.\<close>

function varint :: "u64 \<Rightarrow> bytes" where
  "varint v =
     (if v \<ge> 128 then (ucast (v AND 0x7f) OR 0x80) # varint (drop_bit 7 v) else [ucast v])"
  by auto

lemma unat_drop_bit_7: "unat (drop_bit 7 (v :: u64)) = unat v div 128"
  by (simp add: drop_bit_eq_div unat_div)

lemma drop_bit_7_less: "(v :: u64) \<ge> 128 \<Longrightarrow> unat (drop_bit 7 v) < unat v"
  by (simp add: unat_drop_bit_7 word_le_nat_alt)

termination varint
  by (relation "measure unat") (auto intro: drop_bit_7_less)

declare varint.simps [simp del]

function read_varint :: "bytes \<Rightarrow> nat \<Rightarrow> nat \<Rightarrow> u64 \<Rightarrow> (u64 \<times> nat) outcome" where
  "read_varint dAtA iNdEx shift acc =
     (if shift \<ge> 64 then Err ErrIntOverflow
      else if iNdEx \<ge> length dAtA then Err ErrUnexpectedEOF
      else let b = dAtA ! iNdEx;
               acc' = acc OR push_bit shift (ucast (b AND 0x7F))
           in if b < 0x80 then Ok (acc', iNdEx + 1)
              else read_varint dAtA (iNdEx + 1) (shift + 7) acc')"
  by auto

termination read_varint
  by (relation "measure (\<lambda>(d, i, shift, acc). 64 - shift)") auto

declare read_varint.simps [simp del]

definition get_varint :: "bytes \<Rightarrow> nat \<Rightarrow> (u64 \<times> nat) outcome" where
  "get_varint dAtA iNdEx = read_varint dAtA iNdEx 0 0"

definition add_index :: "nat \<Rightarrow> nat \<Rightarrow> nat outcome" where
  "add_index i n = (if i + n < 2 ^ 63 then Ok (i + n) else Err ErrInvalidLength)"

text \<open>
  A length-delimited field: the length as an \<open>int\<close>, its checks, and the slice
  \<open>dAtA[iNdEx:postIndex]\<close> with the new index.
\<close>

definition get_delimited :: "bytes \<Rightarrow> nat \<Rightarrow> (bytes \<times> nat) outcome" where
  "get_delimited dAtA iNdEx =
     bind_out (get_varint dAtA iNdEx) (\<lambda>(w, i).
       if int64_of w < 0 then Err ErrInvalidLength
       else bind_out (add_index i (nat (int64_of w))) (\<lambda>postIndex.
         if postIndex > length dAtA then Err ErrUnexpectedEOF
         else Ok (take (postIndex - i) (drop i dAtA), postIndex)))"

subsection \<open>Skipping unknown fields\<close>

text \<open>One round of the loop of \<open>skipDymint\<close>: the new index and depth.\<close>

definition skip_step :: "bytes \<Rightarrow> nat \<Rightarrow> nat \<Rightarrow> (nat \<times> nat) outcome" where
  "skip_step dAtA iNdEx depth =
     bind_out (get_varint dAtA iNdEx) (\<lambda>(wire, i).
       let wireType = wire AND 7 in
       if wireType = 0 then bind_out (get_varint dAtA i) (\<lambda>(_, j). Ok (j, depth))
       else if wireType = 1 then bind_out (add_index i 8) (\<lambda>j. Ok (j, depth))
       else if wireType = 2 then
         bind_out (get_varint dAtA i) (\<lambda>(w, j).
           if int64_of w < 0 then Err ErrInvalidLength
           else bind_out (add_index j (nat (int64_of w))) (\<lambda>k. Ok (k, depth)))
       else if wireType = 3 then Ok (i, depth + 1)
       else if wireType = 4 then
         (if depth = 0 then Err ErrUnexpectedEndOfGroup else Ok (i, depth - 1))
       else if wireType = 5 then bind_out (add_index i 4) (\<lambda>j. Ok (j, depth))
       else Err (ErrProto ''proto: illegal wireType''))"

lemma read_varint_progress:
  "read_varint d i shift acc = Ok (w, j) \<Longrightarrow> i < j \<and> j \<le> length d"
  by (induction d i shift acc rule: read_varint.induct)
     (subst (asm) (2) read_varint.simps, fastforce simp: Let_def split: if_splits)

lemma get_varint_progress: "get_varint d i = Ok (w, j) \<Longrightarrow> i < j \<and> j \<le> length d"
  unfolding get_varint_def by (rule read_varint_progress)

lemma add_index_Ok_iff [simp]: "add_index i n = Ok j \<longleftrightarrow> j = i + n \<and> i + n < 2 ^ 63"
  by (auto simp: add_index_def)

lemma skip_step_progress: "skip_step d i depth = Ok (j, depth') \<Longrightarrow> i < j"
  by (auto simp: skip_step_def bind_out_Ok_iff Let_def split: if_splits
      dest!: get_varint_progress)

function skip_loop :: "bytes \<Rightarrow> nat \<Rightarrow> nat \<Rightarrow> nat outcome" where
  "skip_loop dAtA iNdEx depth =
     (if iNdEx < length dAtA then
        (case skip_step dAtA iNdEx depth of
           Ok (i, depth') \<Rightarrow> if depth' = 0 then Ok i else skip_loop dAtA i depth'
         | Err e \<Rightarrow> Err e
         | Panic p \<Rightarrow> Panic p)
      else Err ErrUnexpectedEOF)"
  by auto

termination skip_loop
  by (relation "measure (\<lambda>(d, i, depth). length d - i)") (auto dest: skip_step_progress)

declare skip_loop.simps [simp del]

definition skip :: "bytes \<Rightarrow> nat outcome" where
  "skip dAtA = skip_loop dAtA 0 0"

lemma skip_loop_progress: "skip_loop d i depth = Ok n \<Longrightarrow> i < n"
  by (induction d i depth rule: skip_loop.induct)
     (subst (asm) (2) skip_loop.simps,
      fastforce split: if_splits outcome.splits prod.splits dest: skip_step_progress)

lemma skip_progress: "skip d = Ok n \<Longrightarrow> 0 < n"
  unfolding skip_def by (rule skip_loop_progress)

subsection \<open>Varints: size and round trip\<close>


lemma bit_len_0 [simp]: "bit_len 0 = 0"
  by (subst bit_len.simps) simp

lemma bit_len_pos: "0 < n \<Longrightarrow> bit_len n = Suc (bit_len (n div 2))"
  by (subst bit_len.simps) simp

lemma bit_len_le_iff: "bit_len n \<le> k \<longleftrightarrow> n < 2 ^ k"
proof (induction n arbitrary: k rule: bit_len.induct)
  case (1 n)
  show ?case
  proof (cases "n = 0")
    case False
    then show ?thesis
    proof (cases k)
      case (Suc m)
      have "n div 2 < 2 ^ m \<longleftrightarrow> n < 2 ^ Suc m"
        by (simp add: div_less_iff_less_mult mult.commute)
      with 1 [OF False, of m] show ?thesis
        using False Suc by (simp only: bit_len_pos [of n] Suc_le_mono neq0_conv)
    qed (simp add: bit_len_pos [of n])
  qed simp
qed

lemma bit_len_div: "bit_len (n div 2 ^ k) = bit_len n - k"
proof (induction k)
  case (Suc k)
  have "bit_len (n div 2 ^ Suc k) = bit_len (n div 2 ^ k div 2)"
    by (simp only: power_Suc2 div_mult2_eq)
  also have "\<dots> = bit_len (n div 2 ^ k) - 1"
    by (cases "n div 2 ^ k = 0") (simp_all add: bit_len_pos [of "n div 2 ^ k"])
  finally show ?case using Suc by simp
qed simp

lemma unat_or_1: "unat (v OR 1 :: u64) = unat v + of_bool (even (unat v))"
proof -
  have "int (unat (v OR 1)) = int (unat v) OR 1"
    using uint_or [of v 1] unfolding uint_nat by simp
  also have "\<dots> = int (unat v + of_bool (even (unat v)))"
    by (simp only: or_one_eq of_nat_add of_nat_of_bool even_of_nat)
  finally show ?thesis by (simp only: of_nat_eq_iff)
qed

lemma Len64_or_1: "Len64 (v OR 1) = max 1 (Len64 v)"
proof -
  have "bit_len (unat (v OR 1)) = Suc (bit_len (unat v div 2))"
    unfolding unat_or_1 by (subst bit_len_pos) (auto simp: odd_pos elim!: evenE)
  then show ?thesis
    unfolding Len64_def by (cases "unat v = 0") (simp_all add: bit_len_pos [of "unat v"])
qed

lemma sov_eq: "sov v = (max 1 (Len64 v) + 6) div 7"
  unfolding sov_def Len64_or_1 ..

lemma sov_small: "v < 128 \<Longrightarrow> sov v = 1"
proof -
  assume "v < 128"
  then have "Len64 v \<le> 7"
    using bit_len_le_iff [of "unat v" 7] by (simp add: Len64_def word_less_nat_alt)
  then show ?thesis
    unfolding sov_eq by (intro div_nat_eqI) auto
qed

lemma sov_le: "sov v \<le> 10"
proof -
  have "Len64 v \<le> 64"
    using bit_len_le_iff [of "unat v" 64] unsigned_less [of v] by (simp add: Len64_def)
  then show ?thesis
    unfolding sov_eq by simp
qed

lemma sov_large: "v \<ge> 128 \<Longrightarrow> sov v = Suc (sov (drop_bit 7 v))"
proof -
  assume "v \<ge> 128"
  then have "Len64 v \<ge> 8"
    using bit_len_le_iff [of "unat v" 7] by (simp add: Len64_def word_le_nat_alt)
  moreover have "Len64 (drop_bit 7 v) = Len64 v - 7"
    using bit_len_div [of "unat v" 7] by (simp add: Len64_def unat_drop_bit_7)
  moreover have "(max 1 L + 6) div 7 = Suc ((max 1 (L - 7) + 6) div 7)" if "8 \<le> L" for L :: nat
    using that by (auto simp: le_iff_add)
  ultimately show ?thesis
    unfolding sov_eq by presburger
qed

lemma length_varint: "length (varint v) = sov v"
proof (induction v rule: varint.induct)
  case (1 v)
  then show ?case
    by (cases "v \<ge> 128")
      (simp_all add: varint.simps [of v] sov_small sov_large [of v] not_le)
qed

lemma bit_128: "bit (128 :: 'a::len word) n \<longleftrightarrow> n = 7 \<and> n < LENGTH('a)"
  using bit_exp_iff [where 'a = "'a word", of 7 n] by auto

lemma and_127: "(v :: 'a::len word) AND 127 = take_bit 7 v"
  using take_bit_eq_mask [of 7 v] by (simp add: mask_eq_exp_minus_1)

lemma varint_byte_more:
  "ucast ((ucast (v AND 0x7f) OR 0x80 :: byte) AND 0x7F) = (v AND 0x7f :: u64)"
  unfolding and_127 by (rule bit_word_eqI) (auto simp: bit_simps bit_128)

lemma varint_byte_more2:
  "\<not> (ucast (v AND 0x7f :: u64) OR 0x80 :: byte) < 0x80"
  unfolding not_less by (rule le_word_or1)

lemma take_bit_7_small:
  assumes "(v :: u64) < 128"
  shows "take_bit 7 v = v"
proof -
  have "unat (drop_bit 7 v) = 0"
    using assms unfolding unat_drop_bit_7 by (simp add: word_less_nat_alt)
  then show ?thesis
    unfolding take_bit_eq_self_iff_drop_bit_eq_0 by (simp only: unat_eq_0)
qed

lemma varint_byte_last:
  assumes "(v :: u64) < 128"
  shows "ucast ((ucast v :: byte) AND 0x7F) = v"
proof -
  have "ucast ((ucast v :: byte) AND 0x7F) = take_bit 7 v"
    unfolding and_127 by (rule bit_word_eqI) (auto simp: bit_simps)
  then show ?thesis unfolding take_bit_7_small [OF assms] .
qed

lemma varint_byte_last2: 
  assumes "(v :: u64) < 128"
  shows "(ucast v :: byte) < 0x80"
  using assms by (simp add: word_less_nat_alt unsigned_ucast_eq take_bit_nat_eq_self)

lemma push_split: "push_bit s (v AND 0x7f) OR push_bit (s + 7) (drop_bit 7 v) = push_bit s (v::u64)"
proof -
  have "take_bit 7 v OR push_bit 7 (drop_bit 7 v) = v"
  proof (rule bit_word_eqI)
    fix n assume "n < LENGTH(64)"
    then show "bit (take_bit 7 v OR push_bit 7 (drop_bit 7 v)) n \<longleftrightarrow> bit v n"
      by (cases "n < 7") (simp_all add: bit_or_iff bit_take_bit_iff bit_push_bit_iff bit_drop_bit_eq)
  qed
  then have "push_bit s v = push_bit s (take_bit 7 v OR push_bit 7 (drop_bit 7 v))"
    by simp
  then show ?thesis
    by (simp add: and_127)
qed

lemma drop_ConsD: "drop i d = b # bs \<Longrightarrow> i < length d \<and> d ! i = b \<and> drop (Suc i) d = bs"
  by (metis drop_eq_Nil2 linorder_not_less list.distinct(1) Cons_nth_drop_Suc list.inject)

lemma read_varint_varint:
  assumes "drop i d = varint v @ rest" "shift < 64" "unat v < 2 ^ (64 - shift)"
  shows "read_varint d i shift acc = Ok (acc OR push_bit shift v, i + length (varint v))"
  using assms
proof (induction v arbitrary: i shift acc rule: varint.induct)
  case (1 v)
  show ?case
  proof (cases "v \<ge> 128")
    case True
    let ?b = "ucast (v AND 0x7f) OR 0x80 :: byte"
    have d: "i < length d" "d ! i = ?b" "drop (Suc i) d = varint (drop_bit 7 v) @ rest"
      using "1.prems"(1) True by (auto simp: varint.simps [of v] dest!: drop_ConsD)
    have "(2::nat) ^ 7 < 2 ^ (64 - shift)"
      using True "1.prems"(3) by (auto simp: word_le_nat_alt)
    then have shift: "shift + 7 < 64"
      by (simp add: power_strict_increasing_iff del: power_numeral)
    then have "2 ^ (64 - shift) = (2::nat) ^ (64 - (shift + 7)) * 128"
      using power_add [of "2::nat" "64 - (shift + 7)" 7] by simp
    then have small: "unat (drop_bit 7 v) < 2 ^ (64 - (shift + 7))"
      using "1.prems"(3) by (simp add: unat_drop_bit_7 less_mult_imp_div_less)
    have "read_varint d i shift acc =
        read_varint d (Suc i) (shift + 7) (acc OR push_bit shift (v AND 0x7f))"
      using d "1.prems"(2) varint_byte_more [of v] varint_byte_more2 [of v]
      by (simp add: read_varint.simps [of d i])
    also have "\<dots> = Ok ((acc OR push_bit shift (v AND 0x7f)) OR push_bit (shift + 7) (drop_bit 7 v),
        Suc i + length (varint (drop_bit 7 v)))"
      by (rule "1.IH") (use True d shift small in simp_all)
    finally show ?thesis
      unfolding or.assoc push_split using True by (simp add: varint.simps [of v])
  next
    case False
    then have "i < length d" "d ! i = ucast v"
      using "1.prems"(1) by (auto simp: varint.simps [of v] dest!: drop_ConsD)
    moreover have "varint v = [ucast v]" "ucast v < (0x80 :: byte)"
      "ucast ((ucast v :: byte) AND 0x7F) = v"
      using False varint_byte_last [of v] varint_byte_last2 [of v]
      by (auto simp: varint.simps [of v] not_le)
    ultimately show ?thesis
      using "1.prems"(2) by (subst read_varint.simps) (simp only: Let_def, simp)
  qed
qed

lemma varint_not_Nil [simp]: "varint v \<noteq> []"
  by (subst varint.simps) simp

lemma get_varint_varint:
  assumes "drop i d = varint v @ rest"
  shows "get_varint d i = Ok (v, i + length (varint v))"
  using read_varint_varint [OF assms, of 0 0] unsigned_less [of v, where ?'a = nat]
  by (simp add: get_varint_def)

subsection \<open>The writer\<close>

text \<open>
  The state of a writer is the index \<open>i\<close> and the bytes written at \<open>dAtA[i:]\<close>; the first \<open>i\<close>
  bytes of the buffer are free. Writing moves \<open>i\<close> down, and an index below zero panics.
\<close>

type_synonym wbuf = "nat \<times> bytes"

definition put :: "bytes \<Rightarrow> wbuf \<Rightarrow> wbuf outcome" where
  "put bs = (\<lambda>(i, w).
     if length bs \<le> i then Ok (i - length bs, bs @ w) else Panic ''index out of range'')"

text \<open>
  \<open>encodeVarint\<close> reserves \<open>sov v\<close> bytes and stores the varint from there on: a varint longer
  than the reserved space would overwrite what is already written.
\<close>

definition encodeVarint :: "u64 \<Rightarrow> wbuf \<Rightarrow> wbuf outcome" where
  "encodeVarint v = (\<lambda>(i, w).
     if sov v \<le> i \<and> length (varint v) \<le> sov v + length w
     then Ok (i - sov v, go_copy (replicate (sov v) 0 @ w) (varint v))
     else Panic ''index out of range'')"

fun run_writers :: "(wbuf \<Rightarrow> wbuf outcome) list \<Rightarrow> wbuf \<Rightarrow> wbuf outcome" where
  "run_writers [] b = Ok b"
| "run_writers (f # fs) b = bind_out (f b) (run_writers fs)"

definition put_delimited :: "byte \<Rightarrow> bytes \<Rightarrow> wbuf \<Rightarrow> wbuf outcome" where
  "put_delimited tag bs =
     run_writers [put bs, encodeVarint (of_nat (length bs)), put [tag]]"

definition put_bytes_field :: "byte \<Rightarrow> bytes \<Rightarrow> wbuf \<Rightarrow> wbuf outcome" where
  "put_bytes_field tag bs = (if length bs > 0 then put_delimited tag bs else Ok)"

definition put_uint_field :: "byte \<Rightarrow> u64 \<Rightarrow> wbuf \<Rightarrow> wbuf outcome" where
  "put_uint_field tag v =
     (if v \<noteq> 0 then run_writers [encodeVarint v, put [tag]] else Ok)"

text \<open>A field whose number needs a two-byte tag; \<open>tag2\<close> is the second byte.\<close>

definition put_uint_field2 :: "byte \<Rightarrow> byte \<Rightarrow> u64 \<Rightarrow> wbuf \<Rightarrow> wbuf outcome" where
  "put_uint_field2 tag tag2 v =
     (if v \<noteq> 0 then run_writers [encodeVarint v, put [tag2], put [tag]] else Ok)"

text \<open>
  A nested message is written by its own writer into \<open>dAtA[:i]\<close>; the number of bytes it wrote
  is its length prefix.
\<close>

definition put_message :: "byte \<Rightarrow> (wbuf \<Rightarrow> wbuf outcome) \<Rightarrow> wbuf \<Rightarrow> wbuf outcome" where
  "put_message tag f = (\<lambda>(i, w).
     bind_out (f (i, [])) (\<lambda>(j, w').
       run_writers [encodeVarint (of_nat (length w')), put [tag]] (j, w' @ w)))"

definition put_message_opt ::
  "byte \<Rightarrow> ('m \<Rightarrow> wbuf \<Rightarrow> wbuf outcome) \<Rightarrow> 'm option \<Rightarrow> wbuf \<Rightarrow> wbuf outcome" where
  "put_message_opt tag f m = (case m of None \<Rightarrow> Ok | Some x \<Rightarrow> put_message tag (f x))"

text \<open>A repeated field is written from its last element to its first.\<close>

definition put_repeated :: "('a \<Rightarrow> wbuf \<Rightarrow> wbuf outcome) \<Rightarrow> 'a list \<Rightarrow> wbuf \<Rightarrow> wbuf outcome" where
  "put_repeated f xs = run_writers (map f (rev xs))"

text \<open>\<open>Marshal\<close>: a buffer of \<open>Size\<close> bytes, of which the first \<open>n\<close> are returned.\<close>

definition marshal :: "nat \<Rightarrow> (wbuf \<Rightarrow> wbuf outcome) \<Rightarrow> bytes outcome" where
  "marshal sz f =
     bind_out (f (sz, [])) (\<lambda>(i, w). Ok (take (length w) (replicate i 0 @ w)))"

text \<open>The sizes the \<open>Size\<close> methods add up.\<close>

definition size_delimited :: "nat \<Rightarrow> nat" where
  "size_delimited l = 1 + l + sov (of_nat l)"

definition size_bytes_field :: "bytes \<Rightarrow> nat" where
  "size_bytes_field bs = (let l = length bs in if l > 0 then size_delimited l else 0)"

definition size_uint_field :: "u64 \<Rightarrow> nat" where
  "size_uint_field v = (if v \<noteq> 0 then 1 + sov v else 0)"

definition size_uint_field2 :: "u64 \<Rightarrow> nat" where
  "size_uint_field2 v = (if v \<noteq> 0 then 2 + sov v else 0)"

definition size_message_opt :: "('m \<Rightarrow> nat) \<Rightarrow> 'm option \<Rightarrow> nat" where
  "size_message_opt sz m = (case m of None \<Rightarrow> 0 | Some x \<Rightarrow> size_delimited (sz x))"

subsection \<open>What a writer emits\<close>

definition emits :: "(wbuf \<Rightarrow> wbuf outcome) \<Rightarrow> bytes \<Rightarrow> bool" where
  "emits f bs \<longleftrightarrow> (\<forall>i w. length bs \<le> i \<longrightarrow> f (i, w) = Ok (i - length bs, bs @ w))"

definition field_delimited :: "byte \<Rightarrow> bytes \<Rightarrow> bytes" where
  "field_delimited tag bs = tag # varint (of_nat (length bs)) @ bs"

definition field_bytes :: "byte \<Rightarrow> bytes \<Rightarrow> bytes" where
  "field_bytes tag bs = (if bs = [] then [] else field_delimited tag bs)"

definition field_uint :: "byte \<Rightarrow> u64 \<Rightarrow> bytes" where
  "field_uint tag v = (if v = 0 then [] else tag # varint v)"

definition field_uint2 :: "byte \<Rightarrow> byte \<Rightarrow> u64 \<Rightarrow> bytes" where
  "field_uint2 tag tag2 v = (if v = 0 then [] else tag # tag2 # varint v)"

definition field_message_opt :: "byte \<Rightarrow> ('m \<Rightarrow> bytes) \<Rightarrow> 'm option \<Rightarrow> bytes" where
  "field_message_opt tag f m = (case m of None \<Rightarrow> [] | Some x \<Rightarrow> field_delimited tag (f x))"

definition field_repeated :: "byte \<Rightarrow> ('m \<Rightarrow> bytes) \<Rightarrow> 'm list \<Rightarrow> bytes" where
  "field_repeated tag f ms = concat (map (\<lambda>m. field_delimited tag (f m)) ms)"

named_theorems emits_intros \<open>what the writers emit\<close>

lemma emits_Ok [emits_intros]: "emits Ok []"
  by (simp add: emits_def)

lemma emits_put [emits_intros]: "emits (put bs) bs"
  by (simp add: emits_def put_def)

lemma emits_encodeVarint [emits_intros]: "emits (encodeVarint v) (varint v)"
  by (simp add: emits_def encodeVarint_def length_varint go_copy_def)

lemma emits_run_Nil [emits_intros]: "emits (run_writers []) []"
  by (simp add: emits_def)

lemma emits_run_Cons [emits_intros]:
  "emits f bs \<Longrightarrow> emits (run_writers fs) cs \<Longrightarrow> emits (run_writers (f # fs)) (cs @ bs)"
  by (simp add: emits_def add.commute)

lemma emits_put_delimited [emits_intros]: "emits (put_delimited tag bs) (field_delimited tag bs)"
  using emits_run_Cons [OF emits_put [of bs] emits_run_Cons [OF
      emits_encodeVarint [of "of_nat (length bs)"] emits_run_Cons [OF emits_put [of "[tag]"]
      emits_run_Nil]]]
  by (simp add: put_delimited_def field_delimited_def)

lemma emits_put_bytes_field [emits_intros]: "emits (put_bytes_field tag bs) (field_bytes tag bs)"
  by (simp add: put_bytes_field_def field_bytes_def emits_Ok emits_put_delimited)

lemma emits_put_uint_field [emits_intros]: "emits (put_uint_field tag v) (field_uint tag v)"
  using emits_run_Cons [OF emits_encodeVarint [of v] emits_run_Cons [OF emits_put [of "[tag]"]
      emits_run_Nil]]
  by (simp add: put_uint_field_def field_uint_def emits_Ok)

lemma emits_put_uint_field2 [emits_intros]:
  "emits (put_uint_field2 tag tag2 v) (field_uint2 tag tag2 v)"
  using emits_run_Cons [OF emits_encodeVarint [of v] emits_run_Cons [OF emits_put [of "[tag2]"]
      emits_run_Cons [OF emits_put [of "[tag]"] emits_run_Nil]]]
  by (simp add: put_uint_field2_def field_uint2_def emits_Ok)

lemma emits_put_message [emits_intros]:
  assumes "emits f bs"
  shows "emits (put_message tag f) (field_delimited tag bs)"
proof -
  let ?fs = "run_writers [encodeVarint (of_nat (length bs)), put [tag]]"
  have "emits ?fs (tag # varint (of_nat (length bs)))"
    using emits_run_Cons [OF emits_encodeVarint [of "of_nat (length bs)"]
        emits_run_Cons [OF emits_put [of "[tag]"] emits_run_Nil]]
    by simp
  then have fs: "?fs (i, w) = Ok (i - length (tag # varint (of_nat (length bs))),
      (tag # varint (of_nat (length bs))) @ w)"
    if "length (tag # varint (of_nat (length bs))) \<le> i" for i w
    using that unfolding emits_def by blast
  show ?thesis
    using assms unfolding emits_def put_message_def field_delimited_def
    by (auto simp: fs simp del: run_writers.simps)
qed

lemma emits_put_message_opt [emits_intros]:
  "(\<And>x. m = Some x \<Longrightarrow> emits (f x) (g x)) \<Longrightarrow>
     emits (put_message_opt tag f m) (field_message_opt tag g m)"
  by (cases m) (auto simp: put_message_opt_def field_message_opt_def emits_Ok
      intro: emits_put_message)

lemma emits_run_append:
  "emits (run_writers fs) bs \<Longrightarrow> emits (run_writers gs) cs \<Longrightarrow>
     emits (run_writers (fs @ gs)) (cs @ bs)"
proof -
  have run: "run_writers (fs @ gs) b = bind_out (run_writers fs b) (run_writers gs)" for b
  proof (induction fs arbitrary: b)
    case (Cons f fs)
    then show ?case by (cases "f b") auto
  qed simp
  assume "emits (run_writers fs) bs" and "emits (run_writers gs) cs"
  then show ?thesis
    by (simp add: emits_def run add.commute)
qed

lemma emits_put_repeated [emits_intros]:
  "(\<And>x. x \<in> set xs \<Longrightarrow> emits (f x) (field_delimited tag (g x))) \<Longrightarrow>
     emits (put_repeated f xs) (field_repeated tag g xs)"
proof (induction xs)
  case (Cons x xs)
  then have "emits (run_writers (map f (rev xs))) (field_repeated tag g xs)"
    and "emits (run_writers [f x]) (field_delimited tag (g x))"
    using emits_run_Cons [OF _ emits_run_Nil, of "f x"] by (simp_all add: put_repeated_def)
  from emits_run_append [OF this] show ?case
    by (simp add: put_repeated_def field_repeated_def)
qed (simp add: put_repeated_def field_repeated_def emits_run_Nil)

lemma emits_run_snoc:
  assumes "emits f bs" and "emits (run_writers fs) cs" and "ds = cs @ bs"
  shows "emits (run_writers (f # fs)) ds"
  using emits_run_Cons [OF assms(1,2)] assms(3) by simp

lemma emits_put_repeated_delimited:
  "emits (put_repeated (put_delimited tag) xs) (field_repeated tag id xs)"
  by (rule emits_put_repeated) (simp add: emits_put_delimited)

lemma emits_put_repeated_message:
  "(\<And>x. x \<in> set xs \<Longrightarrow> emits (f x) (g x)) \<Longrightarrow>
     emits (put_repeated (\<lambda>x. put_message tag (f x)) xs) (field_repeated tag g xs)"
  by (rule emits_put_repeated) (simp add: emits_put_message)

lemma marshal_emits: "emits f bs \<Longrightarrow> sz = length bs \<Longrightarrow> marshal sz f = Ok bs"
  by (simp add: marshal_def emits_def)

subsection \<open>Sizes\<close>

lemma length_field_delimited [simp]: "length (field_delimited tag bs) = size_delimited (length bs)"
  by (simp add: field_delimited_def size_delimited_def length_varint)

lemma length_field_bytes [simp]: "length (field_bytes tag bs) = size_bytes_field bs"
  by (simp add: field_bytes_def size_bytes_field_def Let_def)

lemma length_field_uint [simp]: "length (field_uint tag v) = size_uint_field v"
  by (simp add: field_uint_def size_uint_field_def length_varint)

lemma length_field_uint2 [simp]: "length (field_uint2 tag tag2 v) = size_uint_field2 v"
  by (simp add: field_uint2_def size_uint_field2_def length_varint)

lemma length_field_message_opt:
  "(\<And>x. m = Some x \<Longrightarrow> length (f x) = sz x) \<Longrightarrow>
     length (field_message_opt tag f m) = size_message_opt sz m"
  by (cases m) (simp_all add: field_message_opt_def size_message_opt_def)

lemma length_field_repeated:
  "(\<And>x. x \<in> set xs \<Longrightarrow> length (f x) = sz x) \<Longrightarrow>
     length (field_repeated tag f xs) = (\<Sum>x\<leftarrow>xs. size_delimited (sz x))"
  by (induction xs) (simp_all add: field_repeated_def)

subsection \<open>The reader\<close>

text \<open>
  A message type is read by its \<open>switch fieldNum\<close>: from the field number, the wire type, the
  data, the index after the tag and the message so far, the outcome of the matching case, or
  \<open>None\<close> for the \<open>default\<close> case. The three kinds of case are below.
\<close>

type_synonym 'm field_reader = "nat \<Rightarrow> nat \<Rightarrow> bytes \<Rightarrow> nat \<Rightarrow> 'm \<Rightarrow> ('m \<times> nat) outcome option"

definition wrong_wireType :: "string \<Rightarrow> error" where
  "wrong_wireType name = ErrProto (''proto: wrong wireType for field '' @ name)"

definition read_uint ::
  "string \<Rightarrow> nat \<Rightarrow> (u64 \<Rightarrow> 'm \<Rightarrow> 'm) \<Rightarrow> bytes \<Rightarrow> nat \<Rightarrow> 'm \<Rightarrow> ('m \<times> nat) outcome" where
  "read_uint name wireType upd dAtA iNdEx m =
     (if wireType \<noteq> 0 then Err (wrong_wireType name)
      else bind_out (get_varint dAtA iNdEx) (\<lambda>(v, i). Ok (upd v m, i)))"

definition read_bytes ::
  "string \<Rightarrow> nat \<Rightarrow> (bytes \<Rightarrow> 'm \<Rightarrow> 'm) \<Rightarrow> bytes \<Rightarrow> nat \<Rightarrow> 'm \<Rightarrow> ('m \<times> nat) outcome" where
  "read_bytes name wireType upd dAtA iNdEx m =
     (if wireType \<noteq> 2 then Err (wrong_wireType name)
      else bind_out (get_delimited dAtA iNdEx) (\<lambda>(bs, i). Ok (upd bs m, i)))"

definition read_message ::
  "string \<Rightarrow> nat \<Rightarrow> (bytes \<Rightarrow> 'm \<Rightarrow> 'm outcome) \<Rightarrow> bytes \<Rightarrow> nat \<Rightarrow> 'm \<Rightarrow>
     ('m \<times> nat) outcome" where
  "read_message name wireType upd dAtA iNdEx m =
     (if wireType \<noteq> 2 then Err (wrong_wireType name)
      else bind_out (get_delimited dAtA iNdEx) (\<lambda>(bs, i).
             bind_out (upd bs m) (\<lambda>m'. Ok (m', i))))"

text \<open>The \<open>default\<close> case: skip the field, from its tag on.\<close>

definition read_unknown :: "bytes \<Rightarrow> nat \<Rightarrow> 'm \<Rightarrow> ('m \<times> nat) outcome" where
  "read_unknown dAtA preIndex m =
     bind_out (skip (drop preIndex dAtA)) (\<lambda>skippy.
       bind_out (add_index preIndex skippy) (\<lambda>i.
         if i > length dAtA then Err ErrUnexpectedEOF else Ok (m, i)))"

text \<open>
  One round of the loop of \<open>Unmarshal\<close>, and the loop. A round that does not move the index
  forward would never end; \<open>unmarshal_loop\<close> makes it the panic \<open>''no progress''\<close>, and
  \<open>unmarshal_loop_unfold\<close> shows that the three kinds of case always move forward.
\<close>

definition unmarshal_step ::
  "string \<Rightarrow> 'm field_reader \<Rightarrow> bytes \<Rightarrow> nat \<Rightarrow> 'm \<Rightarrow> ('m \<times> nat) outcome" where
  "unmarshal_step name fields dAtA preIndex m =
     bind_out (get_varint dAtA preIndex) (\<lambda>(wire, iNdEx).
       let fieldNum = sint (ucast (drop_bit 3 wire) :: u32);
           wireType = unat (wire AND 7)
       in if wireType = 4
            then Err (ErrProto (name @ '': wiretype end group for non-group''))
          else if fieldNum \<le> 0 then Err (ErrProto (name @ '': illegal tag''))
          else (case fields (nat fieldNum) wireType dAtA iNdEx m of
                  Some r \<Rightarrow> r
                | None \<Rightarrow> read_unknown dAtA preIndex m))"

function unmarshal_loop ::
  "string \<Rightarrow> 'm field_reader \<Rightarrow> bytes \<Rightarrow> nat \<Rightarrow> 'm \<Rightarrow> 'm outcome" where
  "unmarshal_loop name fields dAtA iNdEx m =
     (if iNdEx < length dAtA then
        (case unmarshal_step name fields dAtA iNdEx m of
           Ok (m', i) \<Rightarrow>
             if iNdEx < i then unmarshal_loop name fields dAtA i m' else Panic ''no progress''
         | Err e \<Rightarrow> Err e
         | Panic p \<Rightarrow> Panic p)
      else if iNdEx > length dAtA then Err ErrUnexpectedEOF
      else Ok m)"
  by auto

termination unmarshal_loop
  by (relation "measure (\<lambda>(name, fields, d, i, m). length d - i)") auto

declare unmarshal_loop.simps [simp del]

definition forward :: "'m field_reader \<Rightarrow> bool" where
  "forward fields \<longleftrightarrow> (\<forall>fn wt d i m m' j. fields fn wt d i m = Some (Ok (m', j)) \<longrightarrow> i \<le> j)"

lemma get_delimited_progress: "get_delimited d i = Ok (bs, j) \<Longrightarrow> i < j \<and> j \<le> length d"
  by (auto simp: get_delimited_def bind_out_Ok_iff split: if_splits dest!: get_varint_progress)

lemma read_uint_forward: "read_uint n wt upd d i m = Ok (m', j) \<Longrightarrow> i \<le> j"
  by (auto simp: read_uint_def bind_out_Ok_iff split: if_splits dest!: get_varint_progress)

lemma read_bytes_forward: "read_bytes n wt upd d i m = Ok (m', j) \<Longrightarrow> i \<le> j"
  by (auto simp: read_bytes_def bind_out_Ok_iff split: if_splits dest!: get_delimited_progress)

lemma read_message_forward: "read_message n wt u d i m = Ok (m', j) \<Longrightarrow> i \<le> j"
  by (auto simp: read_message_def bind_out_Ok_iff split: if_splits dest!: get_delimited_progress)

lemmas forward_cases = read_uint_forward read_bytes_forward read_message_forward

lemma unmarshal_step_progress:
  assumes "forward fields" and "unmarshal_step name fields d i m = Ok (m', j)"
  shows "i < j"
proof -
  have "i < j" if "read_unknown d i m = Ok (m', j)"
    using that by (auto simp: read_unknown_def bind_out_Ok_iff split: if_splits dest!: skip_progress)
  moreover have "a \<le> b" if "fields fn wt d a m = Some (Ok (m', b))" for fn wt a b
    using assms(1) that unfolding forward_def by blast
  ultimately show ?thesis
    using assms(2)
    by (fastforce simp: unmarshal_step_def bind_out_Ok_iff Let_def
        split: if_splits option.splits dest!: get_varint_progress)
qed

lemma unmarshal_loop_unfold:
  assumes "forward fields"
  shows "unmarshal_loop name fields d i m =
     (if i < length d then
        bind_out (unmarshal_step name fields d i m) (\<lambda>(m', j). unmarshal_loop name fields d j m')
      else if i > length d then Err ErrUnexpectedEOF
      else Ok m)"
  using unmarshal_step_progress [OF assms]
  by (subst unmarshal_loop.simps) (auto split: outcome.splits)

subsection \<open>What a reader consumes\<close>

definition is_tag :: "byte \<Rightarrow> nat \<Rightarrow> nat \<Rightarrow> bool" where
  "is_tag tag fn wt \<longleftrightarrow> unat tag < 128 \<and> unat tag div 8 = fn \<and> unat tag mod 8 = wt \<and> 0 < fn"

lemma unat_ucast_byte: "unat (ucast (b :: byte) :: u64) = unat b"
  using unsigned_less [of b, where ?'a = nat] by (simp add: unsigned_ucast_eq take_bit_nat_eq_self)

lemma ucast_ucast_byte: "ucast (ucast (b :: byte) :: u64) = b"
  by (rule bit_word_eqI) (auto simp: bit_simps)

lemma varint_tag: "unat tag < 128 \<Longrightarrow> varint (ucast tag) = [tag]"
  by (subst varint.simps) (simp add: word_le_nat_alt unat_ucast_byte ucast_ucast_byte)

lemma wire_fieldNum:
  assumes "unat (w :: u64) < 2 ^ 31"
  shows "sint (ucast (drop_bit 3 w) :: u32) = int (unat w div 8)"
proof -
  let ?w = "ucast (drop_bit 3 w) :: u32"
  have "unat (drop_bit 3 w) = unat w div 8"
    by (simp add: drop_bit_eq_div unat_div)
  then have w: "unat ?w = unat w div 8"
    using assms by (simp only: unsigned_ucast_eq) (simp add: take_bit_nat_eq_self)
  then have "sint ?w = signed_take_bit 31 (int (unat w div 8))"
    by (simp only: sint_uint uint_nat) simp
  moreover have "unat w div 8 < 2 ^ 31"
    using assms by simp
  then have "int (unat w div 8) < 2 ^ 31"
    by (metis of_nat_less_iff of_nat_numeral of_nat_power)
  moreover have "- (2 ^ 31) \<le> int (unat w div 8)"
    by (rule order_trans [of _ 0]) simp_all
  ultimately show ?thesis
    by (simp only: signed_take_bit_int_eq_self)
qed

lemma wire_wireType: "unat ((w :: u64) AND 7) = unat w mod 8"
proof -
  have "w AND 7 = take_bit 3 w"
    using take_bit_eq_mask [of 3 w] by (simp add: mask_eq_exp_minus_1)
  then show ?thesis
    by (simp add: unat_mod take_bit_eq_mod)
qed

lemma unmarshal_step_wire:
  assumes "unat w = 8 * fn + wt" and "0 < fn" and "wt < 8" and "wt \<noteq> 4" and "unat w < 2 ^ 31"
    and "drop i d = varint w @ rest"
  shows "unmarshal_step name fields d i m =
     (case fields fn wt d (i + length (varint w)) m of
        Some r \<Rightarrow> r | None \<Rightarrow> read_unknown d i m)"
proof -
  have "unat w div 8 = fn" and "unat w mod 8 = wt"
    using assms(1,3) by simp_all
  then show ?thesis
    using get_varint_varint [OF assms(6)] assms(2,4)
    by (simp add: unmarshal_step_def wire_fieldNum [OF assms(5)] wire_wireType)
qed

lemma unmarshal_step_tag:
  assumes "is_tag tag fn wt" and "wt \<noteq> 4" and "drop i d = tag # rest"
  shows "unmarshal_step name fields d i m =
     (case fields fn wt d (Suc i) m of Some r \<Rightarrow> r | None \<Rightarrow> read_unknown d i m)"
  using unmarshal_step_wire [of "ucast tag" fn wt i d rest name fields m] assms
  by (auto simp: is_tag_def varint_tag unat_ucast_byte)

lemma get_delimited_field:
  assumes "drop i d = varint (of_nat (length bs)) @ bs @ rest" and "length d < 2 ^ 63"
  shows "get_delimited d i = Ok (bs, i + length (varint (of_nat (length bs))) + length bs)"
proof -
  let ?n = "length (varint (of_nat (length bs)))"
  have "length (drop i d) = ?n + length bs + length rest"
    unfolding assms(1) by simp
  then have len: "i + ?n + length bs \<le> length d"
    by (cases "i \<le> length d") auto
  then have "length bs < 2 ^ 63"
    using assms(2) by linarith
  then have u: "unat (of_nat (length bs) :: u64) = length bs"
    by (simp add: unsigned_of_nat take_bit_nat_eq_self)
  then have "int64_of (of_nat (length bs)) = int (length bs)"
    using \<open>length bs < 2 ^ 63\<close> int64_of_small [of "of_nat (length bs)"] by simp
  moreover have "drop (i + ?n) d = bs @ rest"
    using assms(1) by (metis add.commute append_eq_conv_conj drop_drop)
  ultimately show ?thesis
    using len assms(2) get_varint_varint [OF assms(1)]
    by (simp add: get_delimited_def add_index_def)
qed

definition consumes ::
  "string \<Rightarrow> 'm field_reader \<Rightarrow> bytes \<Rightarrow> 'm \<Rightarrow> 'm \<Rightarrow> bool" where
  "consumes name fields bs m m' \<longleftrightarrow>
     (\<forall>d i rest. drop i d = bs @ rest \<longrightarrow> length d < 2 ^ 63 \<longrightarrow>
        unmarshal_loop name fields d i m = unmarshal_loop name fields d (i + length bs) m')"

lemma consumes_Nil: "consumes name fields [] m m"
  by (simp add: consumes_def)

lemma consumes_append:
  assumes "consumes name fields bs m m'" and "consumes name fields cs m' m''"
  shows "consumes name fields (bs @ cs) m m''"
  unfolding consumes_def
proof (intro allI impI)
  fix d i rest
  assume d: "drop i d = (bs @ cs) @ rest" and len: "length d < 2 ^ 63"
  then have "drop (i + length bs) d = cs @ rest"
    by (metis add.commute append.assoc append_eq_conv_conj drop_drop)
  with d len assms show "unmarshal_loop name fields d i m =
      unmarshal_loop name fields d (i + length (bs @ cs)) m''"
    unfolding consumes_def by (simp add: add.assoc)
qed

lemma consumes_unmarshal:
  assumes "consumes name fields bs m m'" and "length bs < 2 ^ 63"
  shows "unmarshal_loop name fields bs 0 m = Ok m'"
proof -
  have "unmarshal_loop name fields bs 0 m = unmarshal_loop name fields bs (length bs) m'"
    using assms(1) [unfolded consumes_def, rule_format, of 0 bs "[]"] assms(2) by simp
  then show ?thesis
    by (simp add: unmarshal_loop.simps [of name fields bs "length bs" m'])
qed

lemma consumes_step:
  assumes "forward fields" and "\<And>d i rest. drop i d = bs @ rest \<Longrightarrow> length d < 2 ^ 63 \<Longrightarrow>
      unmarshal_step name fields d i m = Ok (m', i + length bs)" and "bs \<noteq> []"
  shows "consumes name fields bs m m'"
  unfolding consumes_def
proof (intro allI impI)
  fix d i rest
  assume d: "drop i d = bs @ rest" and len: "length d < 2 ^ 63"
  then have "i < length d"
    using assms(3) by (metis append_is_Nil_conv drop_all not_le)
  with assms(2) [OF d len] show "unmarshal_loop name fields d i m =
      unmarshal_loop name fields d (i + length bs) m'"
    by (subst unmarshal_loop_unfold [OF assms(1)]) simp
qed

lemma consumes_uint:
  assumes "forward fields" and "is_tag tag fn 0"
    and "fields fn 0 = (\<lambda>d i m. Some (read_uint n 0 upd d i m))" and "v = 0 \<Longrightarrow> upd v m = m"
  shows "consumes name fields (field_uint tag v) m (upd v m)"
proof (cases "v = 0")
  case False
  show ?thesis
  proof (rule consumes_step [OF assms(1)])
    fix d i rest assume d: "drop i d = field_uint tag v @ rest"
    with False have "drop i d = tag # varint v @ rest" and "drop (Suc i) d = varint v @ rest"
      by (auto simp: field_uint_def dest: drop_ConsD)
    with False show "unmarshal_step name fields d i m = Ok (upd v m, i + length (field_uint tag v))"
      by (simp add: unmarshal_step_tag [OF assms(2)] assms(3) read_uint_def get_varint_varint
          length_varint size_uint_field_def)
  qed (use False in \<open>simp add: field_uint_def\<close>)
next
  case True
  show ?thesis
    unfolding assms(4) [OF True] by (simp add: True field_uint_def consumes_Nil)
qed

text \<open>\<open>[tag, tag2]\<close> is the varint of \<open>8 * fn\<close>.\<close>

definition is_tag2 :: "byte \<Rightarrow> byte \<Rightarrow> nat \<Rightarrow> bool" where
  "is_tag2 tag tag2 fn \<longleftrightarrow> varint (of_nat (8 * fn)) = [tag, tag2] \<and> 0 < fn \<and> 8 * fn < 2 ^ 31"

lemma consumes_uint2:
  assumes "forward fields" and "is_tag2 tag tag2 fn"
    and "fields fn 0 = (\<lambda>d i m. Some (read_uint n 0 upd d i m))" and "v = 0 \<Longrightarrow> upd v m = m"
  shows "consumes name fields (field_uint2 tag tag2 v) m (upd v m)"
proof (cases "v = 0")
  case False
  let ?w = "of_nat (8 * fn) :: u64"
  have w: "unat ?w = 8 * fn" "varint ?w = [tag, tag2]"
    using assms(2) unfolding is_tag2_def
    by (simp_all add: unsigned_of_nat take_bit_nat_eq_self del: of_nat_mult)
  show ?thesis
  proof (rule consumes_step [OF assms(1)])
    fix d i rest assume d: "drop i d = field_uint2 tag tag2 v @ rest"
    with False w have "drop i d = varint ?w @ varint v @ rest"
      and "drop (Suc (Suc i)) d = varint v @ rest"
      by (auto simp: field_uint2_def simp del: of_nat_mult dest!: drop_ConsD)
    with False w assms(2) show "unmarshal_step name fields d i m =
        Ok (upd v m, i + length (field_uint2 tag tag2 v))"
      by (simp add: unmarshal_step_wire [of ?w fn 0 i d "varint v @ rest"] is_tag2_def assms(3)
          read_uint_def get_varint_varint length_varint size_uint_field2_def del: of_nat_mult)
  qed (use False in \<open>simp add: field_uint2_def\<close>)
next
  case True
  show ?thesis
    unfolding assms(4) [OF True] by (simp add: True field_uint2_def consumes_Nil)
qed

lemma consumes_delimited:
  assumes "forward fields" and "is_tag tag fn 2"
    and "\<And>d i j. get_delimited d i = Ok (bs, j) \<Longrightarrow> fields fn 2 d i m = Some (Ok (m', j))"
  shows "consumes name fields (field_delimited tag bs) m m'"
proof (rule consumes_step [OF assms(1)])
  fix d :: bytes and i rest
  assume d: "drop i d = field_delimited tag bs @ rest" and len: "length d < 2 ^ 63"
  then have "drop (Suc i) d = varint (of_nat (length bs)) @ bs @ rest"
    by (auto simp: field_delimited_def dest: drop_ConsD)
  from get_delimited_field [OF this len] d
  show "unmarshal_step name fields d i m = Ok (m', i + length (field_delimited tag bs))"
    by (simp add: field_delimited_def unmarshal_step_tag [OF assms(2)] assms(3))
qed (simp add: field_delimited_def)

lemma consumes_bytes:
  assumes "forward fields" and "is_tag tag fn 2"
    and "fields fn 2 = (\<lambda>d i m. Some (read_bytes n 2 upd d i m))" and "bs = [] \<Longrightarrow> upd bs m = m"
  shows "consumes name fields (field_bytes tag bs) m (upd bs m)"
proof (cases "bs = []")
  case False
  then show ?thesis
    using consumes_delimited [OF assms(1,2), of bs m "upd bs m" name]
    by (simp add: field_bytes_def assms(3) read_bytes_def)
next
  case True
  show ?thesis
    unfolding assms(4) [OF True] by (simp add: True field_bytes_def consumes_Nil)
qed

lemma consumes_message_opt:
  assumes "forward fields" and "is_tag tag fn 2"
    and "fields fn 2 = (\<lambda>d i m. Some (read_message n 2 upd d i m))"
    and "x = None \<Longrightarrow> m' = m" and "\<And>y. x = Some y \<Longrightarrow> upd (f y) m = Ok m'"
  shows "consumes name fields (field_message_opt tag f x) m m'"
proof (cases x)
  case (Some y)
  then show ?thesis
    using consumes_delimited [OF assms(1,2), of "f y" m m' name] assms(5) [OF Some]
    by (simp add: field_message_opt_def assms(3) read_message_def)
qed (simp add: field_message_opt_def assms(4) consumes_Nil)

lemma consumes_repeated:
  assumes "forward fields" and "is_tag tag fn 2"
    and "\<And>ys y d i j. y \<in> set xs \<Longrightarrow> get_delimited d i = Ok (f y, j) \<Longrightarrow>
      fields fn 2 d i (upd ys m) = Some (Ok (upd (ys @ [y]) m, j))"
    and "upd [] m = m"
  shows "consumes name fields (field_repeated tag f xs) m (upd xs m)"
proof -
  have "consumes name fields (field_repeated tag f zs) (upd ys m) (upd (ys @ zs) m)"
    if "set zs \<subseteq> set xs" for ys zs
    using that
  proof (induction zs arbitrary: ys)
    case (Cons z zs)
    have "consumes name fields (field_delimited tag (f z)) (upd ys m) (upd (ys @ [z]) m)"
      using Cons.prems by (intro consumes_delimited [OF assms(1,2)] assms(3)) auto
    from consumes_append [OF this Cons.IH [of "ys @ [z]"]] Cons.prems show ?case
      by (simp add: field_repeated_def)
  qed (simp add: field_repeated_def consumes_Nil)
  from this [of xs "[]"] show ?thesis
    by (simp add: assms(4))
qed

lemma tags:
  "is_tag 0x8 1 0" "is_tag 0x10 2 0" "is_tag 0x18 3 0" "is_tag 0x20 4 0"
  "is_tag 0xa 1 2" "is_tag 0x12 2 2" "is_tag 0x1a 3 2" "is_tag 0x22 4 2" "is_tag 0x2a 5 2"
  "is_tag 0x32 6 2" "is_tag 0x3a 7 2" "is_tag 0x42 8 2" "is_tag 0x4a 9 2" "is_tag 0x52 10 2"
  "is_tag 0x5a 11 2" "is_tag 0x62 12 2" "is_tag 0x6a 13 2" "is_tag 0x72 14 2" "is_tag 0x7a 15 2"
  "is_tag 0x38 7 0" "is_tag 0x58 11 0" "is_tag 0x68 13 0"
  by (simp_all add: is_tag_def)

text \<open>Reading one field and then the rest of the message.\<close>

lemma consumes_uint_step:
  assumes "forward fields" and "is_tag tag fn 0"
    and "fields fn 0 = (\<lambda>d i m. Some (read_uint n 0 upd d i m))" and "v = 0 \<Longrightarrow> upd v m = m"
    and "consumes name fields bs (upd v m) m'"
  shows "consumes name fields (field_uint tag v @ bs) m m'"
  by (rule consumes_append [OF consumes_uint [OF assms(1-4)] assms(5)])

lemma consumes_bytes_step:
  assumes "forward fields" and "is_tag tag fn 2"
    and "fields fn 2 = (\<lambda>d i m. Some (read_bytes n 2 upd d i m))" and "x = [] \<Longrightarrow> upd x m = m"
    and "consumes name fields bs (upd x m) m'"
  shows "consumes name fields (field_bytes tag x @ bs) m m'"
  by (rule consumes_append [OF consumes_bytes [OF assms(1-4)] assms(5)])

lemma consumes_message_step:
  assumes "forward fields" and "is_tag tag fn 2"
    and "fields fn 2 = (\<lambda>d i m. Some (read_message n 2 upd d i m))"
    and "x = None \<Longrightarrow> mid = m" and "\<And>y. x = Some y \<Longrightarrow> upd (f y) m = Ok mid"
    and "consumes name fields bs mid m'"
  shows "consumes name fields (field_message_opt tag f x @ bs) m m'"
  by (rule consumes_append [OF consumes_message_opt [OF assms(1-5)] assms(6)])

lemma consumes_repeated_step:
  assumes "forward fields" and "is_tag tag fn 2"
    and "fields fn 2 = (\<lambda>d i m. Some (read_message n 2 app d i m))"
    and "\<And>y ys. y \<in> set xs \<Longrightarrow> app (f y) (upd ys m) = Ok (upd (ys @ [y]) m)"
    and "upd [] m = m" and "consumes name fields bs (upd xs m) m'"
  shows "consumes name fields (field_repeated tag f xs @ bs) m m'"
  by (rule consumes_append [OF consumes_repeated [OF assms(1,2), where upd = upd] assms(6)])
     (simp_all add: assms(3-5) read_message_def)

lemma read_bytes_as_message: "read_bytes n wt upd = read_message n wt (\<lambda>b m. Ok (upd b m))"
  by (simp add: read_bytes_def read_message_def fun_eq_iff)

lemma consumes_end: "m = m' \<Longrightarrow> consumes name fields [] m m'"
  by (simp add: consumes_Nil)

lemma consumes_uint2_step:
  assumes "forward fields" and "is_tag2 tag tag2 fn"
    and "fields fn 0 = (\<lambda>d i m. Some (read_uint n 0 upd d i m))" and "v = 0 \<Longrightarrow> upd v m = m"
    and "consumes name fields bs (upd v m) m'"
  shows "consumes name fields (field_uint2 tag tag2 v @ bs) m m'"
  by (rule consumes_append [OF consumes_uint2 [OF assms(1-4)] assms(5)])

lemma consumes_required_step:
  assumes "forward fields" and "is_tag tag fn 2"
    and "fields fn 2 = (\<lambda>d i m. Some (read_message n 2 upd d i m))"
    and "upd x m = Ok mid" and "consumes name fields bs mid m'"
  shows "consumes name fields (field_delimited tag x @ bs) m m'"
  by (rule consumes_append [OF consumes_delimited [OF assms(1,2)] assms(5)])
     (simp add: assms(3,4) read_message_def)

lemmas consumes_steps = consumes_uint_step consumes_bytes_step consumes_message_step

subsection \<open>Panics of the decoders\<close>

lemma read_varint_no_panic: "read_varint d i shift acc \<noteq> Panic p"
  by (induction d i shift acc rule: read_varint.induct) (subst read_varint.simps, simp add: Let_def)

lemma get_varint_no_panic [simp]: "get_varint d i \<noteq> Panic p"
  by (simp add: get_varint_def read_varint_no_panic)

lemma add_index_no_panic [simp]: "add_index i n \<noteq> Panic p"
  by (simp add: add_index_def)

lemma get_delimited_no_panic [simp]: "get_delimited d i \<noteq> Panic p"
  by (auto simp: get_delimited_def bind_out_Panic_iff)

lemma skip_step_no_panic [simp]: "skip_step d i depth \<noteq> Panic p"
  by (auto simp: skip_step_def Let_def bind_out_Panic_iff)

lemma skip_no_panic [simp]: "skip d \<noteq> Panic p"
proof -
  have "skip_loop d i depth \<noteq> Panic p" for i depth
    by (induction d i depth rule: skip_loop.induct)
       (subst skip_loop.simps, auto split: outcome.splits)
  then show ?thesis
    by (simp add: skip_def)
qed

lemma read_unknown_no_panic [simp]: "read_unknown d i m \<noteq> Panic p"
  by (auto simp: read_unknown_def bind_out_Panic_iff)

lemma read_uint_no_panic [simp]: "read_uint n wt upd d i m \<noteq> Panic p"
  by (auto simp: read_uint_def bind_out_Panic_iff)

lemma read_bytes_no_panic [simp]: "read_bytes n wt upd d i m \<noteq> Panic p"
  by (auto simp: read_bytes_def bind_out_Panic_iff)

lemma read_message_no_panic:
  "(\<And>bs x. upd bs x \<noteq> Panic p) \<Longrightarrow> read_message n wt upd d i m \<noteq> Panic p"
  by (auto simp: read_message_def bind_out_Panic_iff)

lemma unmarshal_loop_no_panic:
  assumes "forward flds" and "\<And>fn wt d i m p. flds fn wt d i m \<noteq> Some (Panic p)"
  shows "unmarshal_loop name flds d i m \<noteq> Panic p"
proof -
  have step: "unmarshal_step name flds d j m' \<noteq> Panic p" for d j m'
    using assms(2) by (auto simp: unmarshal_step_def Let_def bind_out_Panic_iff
        split: option.splits if_splits)
  show ?thesis
    using assms(1) step
    by (induction name flds d i m rule: unmarshal_loop.induct)
       (subst unmarshal_loop_unfold, auto simp: bind_out_Panic_iff dest: unmarshal_step_progress
        split: outcome.splits)
qed

subsection \<open>Properties\<close>

text \<open>
  A varint read at any offset of a buffer gives back the 64-bit value that was written there
  and the offset right behind it, which is sov bytes further.
\<close>

lemma varint_round_trip:
  "get_varint (pre @ varint v @ rest) (length pre) = Ok (v, length pre + sov v)"
  using get_varint_varint [of "length pre" "pre @ varint v @ rest" v rest]
  by (simp add: length_varint)

end
