(* ===== verification/Wire.thy ===== *)
theory Wire
  imports Types Proto
begin

text \<open>
  The messages of \<open>src/types/pb/dymint/dymint.pb.go\<close>: for each of \<open>Version\<close>, \<open>Header\<close>, \<open>Commit\<close>,
  \<open>Data\<close>, \<open>Block\<close> and \<open>Batch\<close> its \<open>Size\<close>, \<open>MarshalToSizedBuffer\<close>, \<open>Marshal\<close> and \<open>Unmarshal\<close>, and
  that the three agree: \<open>Size\<close> is the number of bytes written, so the buffer is filled exactly,
  and \<open>Unmarshal\<close> of what \<open>Marshal\<close> wrote gives the message back.

  A pointer to a nested message is an option. The codecs of the two tendermint messages
  (\<open>CommitSig\<close>, \<open>Evidence\<close>) are fields of the record \<open>codec\<close>; \<open>codec_ok\<close> states what the
  generated code of tendermint promises of them.
\<close>

subsection \<open>Messages\<close>

record pb_Version =
  pv_Block :: u64
  pv_App :: u64

record pb_Header =
  ph_Version :: "pb_Version option"
  ph_NamespaceId :: bytes
  ph_Height :: u64
  ph_Time :: u64
  ph_LastHeaderHash :: bytes
  ph_LastCommitHash :: bytes
  ph_DataHash :: bytes
  ph_ConsensusHash :: bytes
  ph_AppHash :: bytes
  ph_LastResultsHash :: bytes
  ph_ProposerAddress :: bytes
  ph_AggregatorsHash :: bytes
  ph_ChainId :: gostring

record pb_CommitSig =
  pcs_BlockIdFlag :: u32
  pcs_ValidatorAddress :: bytes
  pcs_Timestamp :: gotime
  pcs_Signature :: bytes

record pb_Commit =
  pc_Height :: u64
  pc_HeaderHash :: bytes
  pc_Signatures :: "bytes list"
  pc_TmSignature :: "pb_CommitSig option"

record pb_Data =
  pd_Txs :: "bytes list"
  pd_IntermediateStateRoots :: "bytes list"
  pd_Evidence :: "abciEvidence list"

record pb_Block =
  pbk_Header :: "pb_Header option"
  pbk_Data :: "pb_Data option"
  pbk_LastCommit :: "pb_Commit option"

record pb_Batch =
  pba_StartHeight :: u64
  pba_EndHeight :: u64
  pba_Blocks :: "pb_Block list"
  pba_Commits :: "pb_Commit list"

definition zero_pb_Version :: pb_Version where
  "zero_pb_Version = \<lparr>pv_Block = 0, pv_App = 0\<rparr>"

definition zero_pb_Header :: pb_Header where
  "zero_pb_Header =
     \<lparr>ph_Version = None, ph_NamespaceId = [], ph_Height = 0, ph_Time = 0, ph_LastHeaderHash = [],
      ph_LastCommitHash = [], ph_DataHash = [], ph_ConsensusHash = [], ph_AppHash = [],
      ph_LastResultsHash = [], ph_ProposerAddress = [], ph_AggregatorsHash = [], ph_ChainId = []\<rparr>"

definition zero_pb_CommitSig :: pb_CommitSig where
  "zero_pb_CommitSig =
     \<lparr>pcs_BlockIdFlag = 0, pcs_ValidatorAddress = [], pcs_Timestamp = zero_time,
      pcs_Signature = []\<rparr>"

definition zero_abciEvidence :: abciEvidence where
  "zero_abciEvidence =
     \<lparr>ev_Type = 0, ev_Address = [], ev_Power = 0, ev_Height = 0, ev_Time = zero_time,
      ev_TotalVotingPower = 0\<rparr>"

definition zero_pb_Commit :: pb_Commit where
  "zero_pb_Commit =
     \<lparr>pc_Height = 0, pc_HeaderHash = [], pc_Signatures = [], pc_TmSignature = None\<rparr>"

definition zero_pb_Data :: pb_Data where
  "zero_pb_Data = \<lparr>pd_Txs = [], pd_IntermediateStateRoots = [], pd_Evidence = []\<rparr>"

definition zero_pb_Block :: pb_Block where
  "zero_pb_Block = \<lparr>pbk_Header = None, pbk_Data = None, pbk_LastCommit = None\<rparr>"

definition zero_pb_Batch :: pb_Batch where
  "zero_pb_Batch =
     \<lparr>pba_StartHeight = 0, pba_EndHeight = 0, pba_Blocks = [], pba_Commits = []\<rparr>"

subsection \<open>The codecs of tendermint's messages\<close>

record codec =
  CommitSig_Size :: "pb_CommitSig \<Rightarrow> nat"
  CommitSig_Marshal :: "pb_CommitSig \<Rightarrow> bytes outcome"
  CommitSig_Unmarshal :: "bytes \<Rightarrow> pb_CommitSig \<Rightarrow> pb_CommitSig outcome"
  Evidence_Size :: "abciEvidence \<Rightarrow> nat"
  Evidence_Marshal :: "abciEvidence \<Rightarrow> bytes outcome"
  Evidence_Unmarshal :: "bytes \<Rightarrow> abciEvidence \<Rightarrow> abciEvidence outcome"

definition codec_ok :: "codec \<Rightarrow> bool" where
  "codec_ok cd \<longleftrightarrow>
     (\<forall>x bs. CommitSig_Marshal cd x = Ok bs \<longrightarrow>
        length bs = CommitSig_Size cd x \<and>
        CommitSig_Unmarshal cd bs zero_pb_CommitSig = Ok x) \<and>
     (\<forall>x bs. Evidence_Marshal cd x = Ok bs \<longrightarrow>
        length bs = Evidence_Size cd x \<and>
        Evidence_Unmarshal cd bs zero_abciEvidence = Ok x)"

definition put_external :: "('a \<Rightarrow> bytes outcome) \<Rightarrow> 'a \<Rightarrow> wbuf \<Rightarrow> wbuf outcome" where
  "put_external f x b = bind_out (f x) (\<lambda>bs. put bs b)"

subsection \<open>\<open>Size\<close>\<close>

definition Version_Size :: "pb_Version \<Rightarrow> nat" where
  "Version_Size m = size_uint_field (pv_Block m) + size_uint_field (pv_App m)"

definition Header_Size :: "pb_Header \<Rightarrow> nat" where
  "Header_Size m =
     size_message_opt Version_Size (ph_Version m) +
     size_bytes_field (ph_NamespaceId m) +
     size_uint_field (ph_Height m) +
     size_uint_field (ph_Time m) +
     size_bytes_field (ph_LastHeaderHash m) +
     size_bytes_field (ph_LastCommitHash m) +
     size_bytes_field (ph_DataHash m) +
     size_bytes_field (ph_ConsensusHash m) +
     size_bytes_field (ph_AppHash m) +
     size_bytes_field (ph_LastResultsHash m) +
     size_bytes_field (ph_ProposerAddress m) +
     size_bytes_field (ph_AggregatorsHash m) +
     size_bytes_field (ph_ChainId m)"

definition Commit_Size :: "codec \<Rightarrow> pb_Commit \<Rightarrow> nat" where
  "Commit_Size cd m =
     size_uint_field (pc_Height m) +
     size_bytes_field (pc_HeaderHash m) +
     (\<Sum>b\<leftarrow>pc_Signatures m. size_delimited (length b)) +
     size_message_opt (CommitSig_Size cd) (pc_TmSignature m)"

definition Data_Size :: "codec \<Rightarrow> pb_Data \<Rightarrow> nat" where
  "Data_Size cd m =
     (\<Sum>b\<leftarrow>pd_Txs m. size_delimited (length b)) +
     (\<Sum>b\<leftarrow>pd_IntermediateStateRoots m. size_delimited (length b)) +
     (\<Sum>e\<leftarrow>pd_Evidence m. size_delimited (Evidence_Size cd e))"

definition Block_Size :: "codec \<Rightarrow> pb_Block \<Rightarrow> nat" where
  "Block_Size cd m =
     size_message_opt Header_Size (pbk_Header m) +
     size_message_opt (Data_Size cd) (pbk_Data m) +
     size_message_opt (Commit_Size cd) (pbk_LastCommit m)"

definition Batch_Size :: "codec \<Rightarrow> pb_Batch \<Rightarrow> nat" where
  "Batch_Size cd m =
     size_uint_field (pba_StartHeight m) +
     size_uint_field (pba_EndHeight m) +
     (\<Sum>e\<leftarrow>pba_Blocks m. size_delimited (Block_Size cd e)) +
     (\<Sum>e\<leftarrow>pba_Commits m. size_delimited (Commit_Size cd e))"

subsection \<open>\<open>Marshal\<close>\<close>

definition Version_MarshalToSizedBuffer :: "pb_Version \<Rightarrow> wbuf \<Rightarrow> wbuf outcome" where
  "Version_MarshalToSizedBuffer m =
     run_writers [put_uint_field 0x10 (pv_App m), put_uint_field 0x8 (pv_Block m)]"

definition Version_Marshal :: "pb_Version \<Rightarrow> bytes outcome" where
  "Version_Marshal m = marshal (Version_Size m) (Version_MarshalToSizedBuffer m)"

definition Header_MarshalToSizedBuffer :: "pb_Header \<Rightarrow> wbuf \<Rightarrow> wbuf outcome" where
  "Header_MarshalToSizedBuffer m =
     run_writers
       [put_bytes_field 0x6a (ph_ChainId m),
        put_bytes_field 0x62 (ph_AggregatorsHash m),
        put_bytes_field 0x5a (ph_ProposerAddress m),
        put_bytes_field 0x52 (ph_LastResultsHash m),
        put_bytes_field 0x4a (ph_AppHash m),
        put_bytes_field 0x42 (ph_ConsensusHash m),
        put_bytes_field 0x3a (ph_DataHash m),
        put_bytes_field 0x32 (ph_LastCommitHash m),
        put_bytes_field 0x2a (ph_LastHeaderHash m),
        put_uint_field 0x20 (ph_Time m),
        put_uint_field 0x18 (ph_Height m),
        put_bytes_field 0x12 (ph_NamespaceId m),
        put_message_opt 0xa Version_MarshalToSizedBuffer (ph_Version m)]"

definition Header_Marshal :: "pb_Header \<Rightarrow> bytes outcome" where
  "Header_Marshal m = marshal (Header_Size m) (Header_MarshalToSizedBuffer m)"

definition Commit_MarshalToSizedBuffer :: "codec \<Rightarrow> pb_Commit \<Rightarrow> wbuf \<Rightarrow> wbuf outcome" where
  "Commit_MarshalToSizedBuffer cd m =
     run_writers
       [put_message_opt 0x22 (put_external (CommitSig_Marshal cd)) (pc_TmSignature m),
        put_repeated (put_delimited 0x1a) (pc_Signatures m),
        put_bytes_field 0x12 (pc_HeaderHash m),
        put_uint_field 0x8 (pc_Height m)]"

definition Commit_Marshal :: "codec \<Rightarrow> pb_Commit \<Rightarrow> bytes outcome" where
  "Commit_Marshal cd m = marshal (Commit_Size cd m) (Commit_MarshalToSizedBuffer cd m)"

definition Data_MarshalToSizedBuffer :: "codec \<Rightarrow> pb_Data \<Rightarrow> wbuf \<Rightarrow> wbuf outcome" where
  "Data_MarshalToSizedBuffer cd m =
     run_writers
       [put_repeated (\<lambda>e. put_message 0x1a (put_external (Evidence_Marshal cd) e)) (pd_Evidence m),
        put_repeated (put_delimited 0x12) (pd_IntermediateStateRoots m),
        put_repeated (put_delimited 0xa) (pd_Txs m)]"

definition Data_Marshal :: "codec \<Rightarrow> pb_Data \<Rightarrow> bytes outcome" where
  "Data_Marshal cd m = marshal (Data_Size cd m) (Data_MarshalToSizedBuffer cd m)"

definition Block_MarshalToSizedBuffer :: "codec \<Rightarrow> pb_Block \<Rightarrow> wbuf \<Rightarrow> wbuf outcome" where
  "Block_MarshalToSizedBuffer cd m =
     run_writers
       [put_message_opt 0x1a (Commit_MarshalToSizedBuffer cd) (pbk_LastCommit m),
        put_message_opt 0x12 (Data_MarshalToSizedBuffer cd) (pbk_Data m),
        put_message_opt 0xa Header_MarshalToSizedBuffer (pbk_Header m)]"

definition Block_Marshal :: "codec \<Rightarrow> pb_Block \<Rightarrow> bytes outcome" where
  "Block_Marshal cd m = marshal (Block_Size cd m) (Block_MarshalToSizedBuffer cd m)"

definition Batch_MarshalToSizedBuffer :: "codec \<Rightarrow> pb_Batch \<Rightarrow> wbuf \<Rightarrow> wbuf outcome" where
  "Batch_MarshalToSizedBuffer cd m =
     run_writers
       [put_repeated (\<lambda>c. put_message 0x22 (Commit_MarshalToSizedBuffer cd c)) (pba_Commits m),
        put_repeated (\<lambda>b. put_message 0x1a (Block_MarshalToSizedBuffer cd b)) (pba_Blocks m),
        put_uint_field 0x10 (pba_EndHeight m),
        put_uint_field 0x8 (pba_StartHeight m)]"

definition Batch_Marshal :: "codec \<Rightarrow> pb_Batch \<Rightarrow> bytes outcome" where
  "Batch_Marshal cd m = marshal (Batch_Size cd m) (Batch_MarshalToSizedBuffer cd m)"

subsection \<open>\<open>Unmarshal\<close>\<close>

definition Version_fields :: "pb_Version field_reader" where
  "Version_fields fieldNum wireType dAtA iNdEx m =
     (if fieldNum = 1 then
        Some (read_uint ''Block'' wireType (\<lambda>v m. m\<lparr>pv_Block := v\<rparr>) dAtA iNdEx m)
      else if fieldNum = 2 then
        Some (read_uint ''App'' wireType (\<lambda>v m. m\<lparr>pv_App := v\<rparr>) dAtA iNdEx m)
      else None)"

definition Version_Unmarshal :: "bytes \<Rightarrow> pb_Version \<Rightarrow> pb_Version outcome" where
  "Version_Unmarshal dAtA m = unmarshal_loop ''proto: Version'' Version_fields dAtA 0 m"

text \<open>
  A message field that is present is merged into the message that is already there
  (\<open>if m.Version == nil { m.Version = &Version{} }\<close>).
\<close>

definition merge_into :: "'m \<Rightarrow> 'm option \<Rightarrow> 'm" where
  "merge_into z x = (case x of None \<Rightarrow> z | Some y \<Rightarrow> y)"

definition Header_Version_field ::
  "nat \<Rightarrow> bytes \<Rightarrow> nat \<Rightarrow> pb_Header \<Rightarrow> (pb_Header \<times> nat) outcome" where
  "Header_Version_field wireType =
     read_message ''Version'' wireType (\<lambda>bs m.
       bind_out (Version_Unmarshal bs (merge_into zero_pb_Version (ph_Version m)))
         (\<lambda>v. Ok (m\<lparr>ph_Version := Some v\<rparr>)))"

definition Header_fields_1_4 :: "pb_Header field_reader" where
  "Header_fields_1_4 fieldNum wireType dAtA iNdEx m =
     (if fieldNum = 1 then Some (Header_Version_field wireType dAtA iNdEx m)
      else if fieldNum = 2 then
        Some (read_bytes ''NamespaceId'' wireType (\<lambda>b m. m\<lparr>ph_NamespaceId := b\<rparr>) dAtA iNdEx m)
      else if fieldNum = 3 then
        Some (read_uint ''Height'' wireType (\<lambda>v m. m\<lparr>ph_Height := v\<rparr>) dAtA iNdEx m)
      else if fieldNum = 4 then
        Some (read_uint ''Time'' wireType (\<lambda>v m. m\<lparr>ph_Time := v\<rparr>) dAtA iNdEx m)
      else None)"

definition Header_fields_5_8 :: "pb_Header field_reader" where
  "Header_fields_5_8 fieldNum wireType dAtA iNdEx m =
     (if fieldNum = 5 then
        Some (read_bytes ''LastHeaderHash'' wireType (\<lambda>b m. m\<lparr>ph_LastHeaderHash := b\<rparr>)
                dAtA iNdEx m)
      else if fieldNum = 6 then
        Some (read_bytes ''LastCommitHash'' wireType (\<lambda>b m. m\<lparr>ph_LastCommitHash := b\<rparr>)
                dAtA iNdEx m)
      else if fieldNum = 7 then
        Some (read_bytes ''DataHash'' wireType (\<lambda>b m. m\<lparr>ph_DataHash := b\<rparr>) dAtA iNdEx m)
      else if fieldNum = 8 then
        Some (read_bytes ''ConsensusHash'' wireType (\<lambda>b m. m\<lparr>ph_ConsensusHash := b\<rparr>)
                dAtA iNdEx m)
      else None)"

definition Header_fields_9_13 :: "pb_Header field_reader" where
  "Header_fields_9_13 fieldNum wireType dAtA iNdEx m =
     (if fieldNum = 9 then
        Some (read_bytes ''AppHash'' wireType (\<lambda>b m. m\<lparr>ph_AppHash := b\<rparr>) dAtA iNdEx m)
      else if fieldNum = 10 then
        Some (read_bytes ''LastResultsHash'' wireType (\<lambda>b m. m\<lparr>ph_LastResultsHash := b\<rparr>)
                dAtA iNdEx m)
      else if fieldNum = 11 then
        Some (read_bytes ''ProposerAddress'' wireType (\<lambda>b m. m\<lparr>ph_ProposerAddress := b\<rparr>)
                dAtA iNdEx m)
      else if fieldNum = 12 then
        Some (read_bytes ''AggregatorsHash'' wireType (\<lambda>b m. m\<lparr>ph_AggregatorsHash := b\<rparr>)
                dAtA iNdEx m)
      else if fieldNum = 13 then
        Some (read_bytes ''ChainId'' wireType (\<lambda>b m. m\<lparr>ph_ChainId := b\<rparr>) dAtA iNdEx m)
      else None)"

definition Header_fields :: "pb_Header field_reader" where
  "Header_fields fieldNum wireType dAtA iNdEx m =
     (if fieldNum \<le> 4 then Header_fields_1_4 fieldNum wireType dAtA iNdEx m
      else if fieldNum \<le> 8 then Header_fields_5_8 fieldNum wireType dAtA iNdEx m
      else Header_fields_9_13 fieldNum wireType dAtA iNdEx m)"

definition Header_Unmarshal :: "bytes \<Rightarrow> pb_Header \<Rightarrow> pb_Header outcome" where
  "Header_Unmarshal dAtA m = unmarshal_loop ''proto: Header'' Header_fields dAtA 0 m"

definition Commit_fields :: "codec \<Rightarrow> pb_Commit field_reader" where
  "Commit_fields cd fieldNum wireType dAtA iNdEx m =
     (if fieldNum = 1 then
        Some (read_uint ''Height'' wireType (\<lambda>v m. m\<lparr>pc_Height := v\<rparr>) dAtA iNdEx m)
      else if fieldNum = 2 then
        Some (read_bytes ''HeaderHash'' wireType (\<lambda>b m. m\<lparr>pc_HeaderHash := b\<rparr>) dAtA iNdEx m)
      else if fieldNum = 3 then
        Some (read_bytes ''Signatures'' wireType
                (\<lambda>b m. m\<lparr>pc_Signatures := pc_Signatures m @ [b]\<rparr>) dAtA iNdEx m)
      else if fieldNum = 4 then
        Some (read_message ''TmSignature'' wireType (\<lambda>bs m.
                bind_out (CommitSig_Unmarshal cd bs
                            (merge_into zero_pb_CommitSig (pc_TmSignature m)))
                  (\<lambda>s. Ok (m\<lparr>pc_TmSignature := Some s\<rparr>))) dAtA iNdEx m)
      else None)"

definition Commit_Unmarshal :: "codec \<Rightarrow> bytes \<Rightarrow> pb_Commit \<Rightarrow> pb_Commit outcome" where
  "Commit_Unmarshal cd dAtA m = unmarshal_loop ''proto: Commit'' (Commit_fields cd) dAtA 0 m"

definition Data_fields :: "codec \<Rightarrow> pb_Data field_reader" where
  "Data_fields cd fieldNum wireType dAtA iNdEx m =
     (if fieldNum = 1 then
        Some (read_bytes ''Txs'' wireType (\<lambda>b m. m\<lparr>pd_Txs := pd_Txs m @ [b]\<rparr>) dAtA iNdEx m)
      else if fieldNum = 2 then
        Some (read_bytes ''IntermediateStateRoots'' wireType
                (\<lambda>b m. m\<lparr>pd_IntermediateStateRoots := pd_IntermediateStateRoots m @ [b]\<rparr>)
                dAtA iNdEx m)
      else if fieldNum = 3 then
        Some (read_message ''Evidence'' wireType (\<lambda>bs m.
                bind_out (Evidence_Unmarshal cd bs zero_abciEvidence)
                  (\<lambda>e. Ok (m\<lparr>pd_Evidence := pd_Evidence m @ [e]\<rparr>))) dAtA iNdEx m)
      else None)"

definition Data_Unmarshal :: "codec \<Rightarrow> bytes \<Rightarrow> pb_Data \<Rightarrow> pb_Data outcome" where
  "Data_Unmarshal cd dAtA m = unmarshal_loop ''proto: Data'' (Data_fields cd) dAtA 0 m"

definition Block_fields :: "codec \<Rightarrow> pb_Block field_reader" where
  "Block_fields cd fieldNum wireType dAtA iNdEx m =
     (if fieldNum = 1 then
        Some (read_message ''Header'' wireType (\<lambda>bs m.
                bind_out (Header_Unmarshal bs (merge_into zero_pb_Header (pbk_Header m)))
                  (\<lambda>h. Ok (m\<lparr>pbk_Header := Some h\<rparr>))) dAtA iNdEx m)
      else if fieldNum = 2 then
        Some (read_message ''Data'' wireType (\<lambda>bs m.
                bind_out (Data_Unmarshal cd bs (merge_into zero_pb_Data (pbk_Data m)))
                  (\<lambda>x. Ok (m\<lparr>pbk_Data := Some x\<rparr>))) dAtA iNdEx m)
      else if fieldNum = 3 then
        Some (read_message ''LastCommit'' wireType (\<lambda>bs m.
                bind_out (Commit_Unmarshal cd bs (merge_into zero_pb_Commit (pbk_LastCommit m)))
                  (\<lambda>c. Ok (m\<lparr>pbk_LastCommit := Some c\<rparr>))) dAtA iNdEx m)
      else None)"

definition Block_Unmarshal :: "codec \<Rightarrow> bytes \<Rightarrow> pb_Block \<Rightarrow> pb_Block outcome" where
  "Block_Unmarshal cd dAtA m = unmarshal_loop ''proto: Block'' (Block_fields cd) dAtA 0 m"

definition Batch_fields :: "codec \<Rightarrow> pb_Batch field_reader" where
  "Batch_fields cd fieldNum wireType dAtA iNdEx m =
     (if fieldNum = 1 then
        Some (read_uint ''StartHeight'' wireType (\<lambda>v m. m\<lparr>pba_StartHeight := v\<rparr>) dAtA iNdEx m)
      else if fieldNum = 2 then
        Some (read_uint ''EndHeight'' wireType (\<lambda>v m. m\<lparr>pba_EndHeight := v\<rparr>) dAtA iNdEx m)
      else if fieldNum = 3 then
        Some (read_message ''Blocks'' wireType (\<lambda>bs m.
                bind_out (Block_Unmarshal cd bs zero_pb_Block)
                  (\<lambda>b. Ok (m\<lparr>pba_Blocks := pba_Blocks m @ [b]\<rparr>))) dAtA iNdEx m)
      else if fieldNum = 4 then
        Some (read_message ''Commits'' wireType (\<lambda>bs m.
                bind_out (Commit_Unmarshal cd bs zero_pb_Commit)
                  (\<lambda>c. Ok (m\<lparr>pba_Commits := pba_Commits m @ [c]\<rparr>))) dAtA iNdEx m)
      else None)"

definition Batch_Unmarshal :: "codec \<Rightarrow> bytes \<Rightarrow> pb_Batch \<Rightarrow> pb_Batch outcome" where
  "Batch_Unmarshal cd dAtA m = unmarshal_loop ''proto: Batch'' (Batch_fields cd) dAtA 0 m"

subsection \<open>The encodings\<close>

definition ok_bytes :: "bytes outcome \<Rightarrow> bytes" where
  "ok_bytes r = (case r of Ok bs \<Rightarrow> bs | _ \<Rightarrow> [])"

definition enc_Version :: "pb_Version \<Rightarrow> bytes" where
  "enc_Version m = field_uint 0x8 (pv_Block m) @ field_uint 0x10 (pv_App m)"

definition enc_Header :: "pb_Header \<Rightarrow> bytes" where
  "enc_Header m =
     field_message_opt 0xa enc_Version (ph_Version m) @ field_bytes 0x12 (ph_NamespaceId m) @
     field_uint 0x18 (ph_Height m) @ field_uint 0x20 (ph_Time m) @
     field_bytes 0x2a (ph_LastHeaderHash m) @ field_bytes 0x32 (ph_LastCommitHash m) @
     field_bytes 0x3a (ph_DataHash m) @ field_bytes 0x42 (ph_ConsensusHash m) @
     field_bytes 0x4a (ph_AppHash m) @ field_bytes 0x52 (ph_LastResultsHash m) @
     field_bytes 0x5a (ph_ProposerAddress m) @ field_bytes 0x62 (ph_AggregatorsHash m) @
     field_bytes 0x6a (ph_ChainId m)"

definition enc_Commit :: "codec \<Rightarrow> pb_Commit \<Rightarrow> bytes" where
  "enc_Commit cd m =
     field_uint 0x8 (pc_Height m) @ field_bytes 0x12 (pc_HeaderHash m) @
     field_repeated 0x1a id (pc_Signatures m) @
     field_message_opt 0x22 (\<lambda>s. ok_bytes (CommitSig_Marshal cd s)) (pc_TmSignature m)"

definition enc_Data :: "codec \<Rightarrow> pb_Data \<Rightarrow> bytes" where
  "enc_Data cd m =
     field_repeated 0xa id (pd_Txs m) @ field_repeated 0x12 id (pd_IntermediateStateRoots m) @
     field_repeated 0x1a (\<lambda>e. ok_bytes (Evidence_Marshal cd e)) (pd_Evidence m)"

definition enc_Block :: "codec \<Rightarrow> pb_Block \<Rightarrow> bytes" where
  "enc_Block cd m =
     field_message_opt 0xa enc_Header (pbk_Header m) @
     field_message_opt 0x12 (enc_Data cd) (pbk_Data m) @
     field_message_opt 0x1a (enc_Commit cd) (pbk_LastCommit m)"

definition enc_Batch :: "codec \<Rightarrow> pb_Batch \<Rightarrow> bytes" where
  "enc_Batch cd m =
     field_uint 0x8 (pba_StartHeight m) @ field_uint 0x10 (pba_EndHeight m) @
     field_repeated 0x1a (enc_Block cd) (pba_Blocks m) @
     field_repeated 0x22 (enc_Commit cd) (pba_Commits m)"

text \<open>Messages whose tendermint parts can be encoded.\<close>

definition encodable_Commit :: "codec \<Rightarrow> pb_Commit \<Rightarrow> bool" where
  "encodable_Commit cd m \<longleftrightarrow>
     pred_option (\<lambda>s. is_Ok (CommitSig_Marshal cd s)) (pc_TmSignature m)"

definition encodable_Data :: "codec \<Rightarrow> pb_Data \<Rightarrow> bool" where
  "encodable_Data cd m \<longleftrightarrow> list_all (\<lambda>e. is_Ok (Evidence_Marshal cd e)) (pd_Evidence m)"

definition encodable_Block :: "codec \<Rightarrow> pb_Block \<Rightarrow> bool" where
  "encodable_Block cd m \<longleftrightarrow>
     pred_option (encodable_Data cd) (pbk_Data m) \<and>
     pred_option (encodable_Commit cd) (pbk_LastCommit m)"

definition encodable_Batch :: "codec \<Rightarrow> pb_Batch \<Rightarrow> bool" where
  "encodable_Batch cd m \<longleftrightarrow>
     list_all (encodable_Block cd) (pba_Blocks m) \<and>
     list_all (encodable_Commit cd) (pba_Commits m)"

subsection \<open>\<open>Marshal\<close> writes the encoding, \<open>Size\<close> is its length\<close>

lemma ok_bytes_Ok [simp]: "ok_bytes (Ok bs) = bs"
  by (simp add: ok_bytes_def)

lemma emits_put_external:
  "is_Ok (f x) \<Longrightarrow> emits (put_external f x) (ok_bytes (f x))"
  by (auto simp: is_Ok_iff emits_def put_external_def put_def)

lemma emits_Version: "emits (Version_MarshalToSizedBuffer m) (enc_Version m)"
  unfolding Version_MarshalToSizedBuffer_def enc_Version_def
  by (rule emits_run_snoc emits_intros)+ simp

lemmas emits_rules = emits_run_snoc emits_put_bytes_field emits_put_uint_field
  emits_put_message_opt emits_put_repeated_delimited emits_put_repeated_message
  emits_put_external emits_run_Nil

lemma emits_Header: "emits (Header_MarshalToSizedBuffer m) (enc_Header m)"
  unfolding Header_MarshalToSizedBuffer_def enc_Header_def
  by (rule emits_rules emits_Version | simp)+

lemma emits_Commit:
  "encodable_Commit cd m \<Longrightarrow> emits (Commit_MarshalToSizedBuffer cd m) (enc_Commit cd m)"
  unfolding Commit_MarshalToSizedBuffer_def enc_Commit_def encodable_Commit_def
  by (rule emits_rules | simp)+

lemma emits_Data:
  "encodable_Data cd m \<Longrightarrow> emits (Data_MarshalToSizedBuffer cd m) (enc_Data cd m)"
  unfolding Data_MarshalToSizedBuffer_def enc_Data_def encodable_Data_def
  by (rule emits_rules | simp add: list_all_iff)+

lemma emits_Block:
  "encodable_Block cd m \<Longrightarrow> emits (Block_MarshalToSizedBuffer cd m) (enc_Block cd m)"
  unfolding Block_MarshalToSizedBuffer_def enc_Block_def encodable_Block_def
  by (rule emits_rules emits_Header emits_Data emits_Commit | simp)+

lemma emits_Batch:
  "encodable_Batch cd m \<Longrightarrow> emits (Batch_MarshalToSizedBuffer cd m) (enc_Batch cd m)"
  unfolding Batch_MarshalToSizedBuffer_def enc_Batch_def encodable_Batch_def
  by (rule emits_rules emits_Block emits_Commit | simp add: list_all_iff)+

lemma codec_ok_CommitSig:
  assumes "codec_ok cd" and "is_Ok (CommitSig_Marshal cd s)"
  shows "length (ok_bytes (CommitSig_Marshal cd s)) = CommitSig_Size cd s"
    and "CommitSig_Unmarshal cd (ok_bytes (CommitSig_Marshal cd s)) zero_pb_CommitSig = Ok s"
  using assms by (auto simp: codec_ok_def is_Ok_iff)

lemma codec_ok_Evidence:
  assumes "codec_ok cd" and "is_Ok (Evidence_Marshal cd e)"
  shows "length (ok_bytes (Evidence_Marshal cd e)) = Evidence_Size cd e"
    and "Evidence_Unmarshal cd (ok_bytes (Evidence_Marshal cd e)) zero_abciEvidence = Ok e"
  using assms by (auto simp: codec_ok_def is_Ok_iff)

lemma length_enc_Version: "length (enc_Version m) = Version_Size m"
  by (simp add: enc_Version_def Version_Size_def)

lemma length_enc_Header: "length (enc_Header m) = Header_Size m"
  by (simp add: enc_Header_def Header_Size_def length_enc_Version
      length_field_message_opt [where sz = Version_Size])

lemma length_enc_Commit:
  assumes "codec_ok cd" and "encodable_Commit cd m"
  shows "length (enc_Commit cd m) = Commit_Size cd m"
proof -
  have "length (field_message_opt 0x22 (\<lambda>s. ok_bytes (CommitSig_Marshal cd s)) (pc_TmSignature m)) =
      size_message_opt (CommitSig_Size cd) (pc_TmSignature m)"
    using assms by (intro length_field_message_opt)
      (auto simp: encodable_Commit_def codec_ok_CommitSig)
  then show ?thesis
    by (simp add: enc_Commit_def Commit_Size_def length_field_repeated [where sz = length])
qed

lemma length_enc_Data:
  assumes "codec_ok cd" and "encodable_Data cd m"
  shows "length (enc_Data cd m) = Data_Size cd m"
proof -
  have "length (field_repeated 0x1a (\<lambda>e. ok_bytes (Evidence_Marshal cd e)) (pd_Evidence m)) =
      (\<Sum>e\<leftarrow>pd_Evidence m. size_delimited (Evidence_Size cd e))"
    using assms by (intro length_field_repeated)
      (auto simp: encodable_Data_def list_all_iff codec_ok_Evidence)
  then show ?thesis
    by (simp add: enc_Data_def Data_Size_def length_field_repeated [where sz = length])
qed

lemma length_enc_Block:
  assumes "codec_ok cd" and "encodable_Block cd m"
  shows "length (enc_Block cd m) = Block_Size cd m"
proof -
  have "length (field_message_opt 0x12 (enc_Data cd) (pbk_Data m)) =
      size_message_opt (Data_Size cd) (pbk_Data m)"
    using assms by (intro length_field_message_opt) (auto simp: encodable_Block_def length_enc_Data)
  moreover have "length (field_message_opt 0x1a (enc_Commit cd) (pbk_LastCommit m)) =
      size_message_opt (Commit_Size cd) (pbk_LastCommit m)"
    using assms by (intro length_field_message_opt) (auto simp: encodable_Block_def length_enc_Commit)
  ultimately show ?thesis
    by (simp add: enc_Block_def Block_Size_def length_enc_Header
        length_field_message_opt [where sz = Header_Size])
qed

lemma length_enc_Batch:
  assumes "codec_ok cd" and "encodable_Batch cd m"
  shows "length (enc_Batch cd m) = Batch_Size cd m"
proof -
  have "length (field_repeated 0x1a (enc_Block cd) (pba_Blocks m)) =
      (\<Sum>e\<leftarrow>pba_Blocks m. size_delimited (Block_Size cd e))"
    using assms by (intro length_field_repeated)
      (auto simp: encodable_Batch_def list_all_iff length_enc_Block)
  moreover have "length (field_repeated 0x22 (enc_Commit cd) (pba_Commits m)) =
      (\<Sum>e\<leftarrow>pba_Commits m. size_delimited (Commit_Size cd e))"
    using assms by (intro length_field_repeated)
      (auto simp: encodable_Batch_def list_all_iff length_enc_Commit)
  ultimately show ?thesis
    by (simp add: enc_Batch_def Batch_Size_def)
qed

lemma Header_Marshal_enc: "Header_Marshal m = Ok (enc_Header m)"
  unfolding Header_Marshal_def by (rule marshal_emits) (simp_all add: emits_Header length_enc_Header)

lemma Commit_Marshal_enc:
  "codec_ok cd \<Longrightarrow> encodable_Commit cd m \<Longrightarrow> Commit_Marshal cd m = Ok (enc_Commit cd m)"
  unfolding Commit_Marshal_def by (rule marshal_emits) (simp_all add: emits_Commit length_enc_Commit)

lemma Data_Marshal_enc:
  "codec_ok cd \<Longrightarrow> encodable_Data cd m \<Longrightarrow> Data_Marshal cd m = Ok (enc_Data cd m)"
  unfolding Data_Marshal_def by (rule marshal_emits) (simp_all add: emits_Data length_enc_Data)

lemma Block_Marshal_enc:
  "codec_ok cd \<Longrightarrow> encodable_Block cd m \<Longrightarrow> Block_Marshal cd m = Ok (enc_Block cd m)"
  unfolding Block_Marshal_def by (rule marshal_emits) (simp_all add: emits_Block length_enc_Block)

lemma Batch_Marshal_enc:
  "codec_ok cd \<Longrightarrow> encodable_Batch cd m \<Longrightarrow> Batch_Marshal cd m = Ok (enc_Batch cd m)"
  unfolding Batch_Marshal_def by (rule marshal_emits) (simp_all add: emits_Batch length_enc_Batch)

subsection \<open>\<open>Unmarshal\<close> reads the encoding back\<close>

lemma forward_Version: "forward Version_fields"
  by (auto simp: forward_def Version_fields_def split: if_splits intro: forward_cases)

lemma forward_Header: "forward Header_fields"
  unfolding forward_def Header_fields_def Header_fields_1_4_def Header_fields_5_8_def
    Header_fields_9_13_def Header_Version_field_def
  by (simp split: if_split) (auto dest: forward_cases)

lemma forward_Commit: "forward (Commit_fields cd)"
  by (auto simp: forward_def Commit_fields_def split: if_splits intro: forward_cases)

lemma forward_Data: "forward (Data_fields cd)"
  by (auto simp: forward_def Data_fields_def split: if_splits intro: forward_cases)

lemma forward_Block: "forward (Block_fields cd)"
  by (auto simp: forward_def Block_fields_def split: if_splits intro: forward_cases)

lemma forward_Batch: "forward (Batch_fields cd)"
  by (auto simp: forward_def Batch_fields_def split: if_splits intro: forward_cases)

lemma merge_into_simps [simp]: "merge_into z None = z" "merge_into z (Some y) = y"
  by (simp_all add: merge_into_def)


lemma Version_fields_eqs:
  "Version_fields 1 0 = (\<lambda>d i m. Some (read_uint ''Block'' 0 (\<lambda>v m. m\<lparr>pv_Block := v\<rparr>) d i m))"
  "Version_fields 2 0 = (\<lambda>d i m. Some (read_uint ''App'' 0 (\<lambda>v m. m\<lparr>pv_App := v\<rparr>) d i m))"
  by (simp_all add: Version_fields_def fun_eq_iff)

lemma Version_Unmarshal_enc:
  assumes "length (enc_Version m) < 2 ^ 63"
  shows "Version_Unmarshal (enc_Version m) zero_pb_Version = Ok m"
proof -
  have "consumes ''proto: Version'' Version_fields (enc_Version m @ []) zero_pb_Version m"
    unfolding enc_Version_def append.assoc
    by (rule consumes_steps consumes_end forward_Version tags Version_fields_eqs
        | simp add: zero_pb_Version_def)+
  then show ?thesis
    unfolding Version_Unmarshal_def append_Nil2 by (rule consumes_unmarshal [OF _ assms])
qed

text \<open>A nested message that is merged into an absent one.\<close>

lemma consumes_option_step:
  assumes "forward flds" and "is_tag tag fn 2"
    and "flds fn 2 = (\<lambda>d i m. Some (read_message n 2
      (\<lambda>bs m. bind_out (dec bs (merge_into z (g m))) (\<lambda>v. Ok (s (Some v) m))) d i m))"
    and "g m = None" and "\<And>y. x = Some y \<Longrightarrow> dec (f y) z = Ok y" and "s None m = m"
    and "consumes name flds bs (s x m) m'"
  shows "consumes name flds (field_message_opt tag f x @ bs) m m'"
  by (rule consumes_message_step [OF assms(1-3) _ _ assms(7)]) (auto simp: assms(4-6))

lemma consumes_present_step:
  assumes "forward flds" and "is_tag tag fn 2"
    and "flds fn 2 = (\<lambda>d i m. Some (read_message n 2
      (\<lambda>bs m. bind_out (dec bs (g m)) (\<lambda>v. Ok (s v m))) d i m))"
    and "dec x (g m) = Ok y" and "consumes name flds bs (s y m) m'"
  shows "consumes name flds (field_delimited tag x @ bs) m m'"
  by (rule consumes_required_step [OF assms(1-3) _ assms(5)]) (simp add: assms(4))

lemma Header_fields_eqs:
  "Header_fields 1 2 = (\<lambda>d i m. Some (read_message ''Version'' 2 (\<lambda>bs m.
       bind_out (Version_Unmarshal bs (merge_into zero_pb_Version (ph_Version m)))
         (\<lambda>v. Ok (m\<lparr>ph_Version := Some v\<rparr>))) d i m))"
  "Header_fields 2 2 =
     (\<lambda>d i m. Some (read_bytes ''NamespaceId'' 2 (\<lambda>b m. m\<lparr>ph_NamespaceId := b\<rparr>) d i m))"
  "Header_fields 3 0 = (\<lambda>d i m. Some (read_uint ''Height'' 0 (\<lambda>v m. m\<lparr>ph_Height := v\<rparr>) d i m))"
  "Header_fields 4 0 = (\<lambda>d i m. Some (read_uint ''Time'' 0 (\<lambda>v m. m\<lparr>ph_Time := v\<rparr>) d i m))"
  "Header_fields 5 2 =
     (\<lambda>d i m. Some (read_bytes ''LastHeaderHash'' 2 (\<lambda>b m. m\<lparr>ph_LastHeaderHash := b\<rparr>) d i m))"
  "Header_fields 6 2 =
     (\<lambda>d i m. Some (read_bytes ''LastCommitHash'' 2 (\<lambda>b m. m\<lparr>ph_LastCommitHash := b\<rparr>) d i m))"
  "Header_fields 7 2 =
     (\<lambda>d i m. Some (read_bytes ''DataHash'' 2 (\<lambda>b m. m\<lparr>ph_DataHash := b\<rparr>) d i m))"
  "Header_fields 8 2 =
     (\<lambda>d i m. Some (read_bytes ''ConsensusHash'' 2 (\<lambda>b m. m\<lparr>ph_ConsensusHash := b\<rparr>) d i m))"
  "Header_fields 9 2 =
     (\<lambda>d i m. Some (read_bytes ''AppHash'' 2 (\<lambda>b m. m\<lparr>ph_AppHash := b\<rparr>) d i m))"
  "Header_fields 10 2 =
     (\<lambda>d i m. Some (read_bytes ''LastResultsHash'' 2 (\<lambda>b m. m\<lparr>ph_LastResultsHash := b\<rparr>) d i m))"
  "Header_fields 11 2 =
     (\<lambda>d i m. Some (read_bytes ''ProposerAddress'' 2 (\<lambda>b m. m\<lparr>ph_ProposerAddress := b\<rparr>) d i m))"
  "Header_fields 12 2 =
     (\<lambda>d i m. Some (read_bytes ''AggregatorsHash'' 2 (\<lambda>b m. m\<lparr>ph_AggregatorsHash := b\<rparr>) d i m))"
  "Header_fields 13 2 =
     (\<lambda>d i m. Some (read_bytes ''ChainId'' 2 (\<lambda>b m. m\<lparr>ph_ChainId := b\<rparr>) d i m))"
  by (simp_all add: Header_fields_def Header_fields_1_4_def Header_fields_5_8_def
      Header_fields_9_13_def Header_Version_field_def fun_eq_iff)

lemma Header_Unmarshal_enc:
  assumes "length (enc_Header m) < 2 ^ 63"
  shows "Header_Unmarshal (enc_Header m) zero_pb_Header = Ok m"
proof -
  have ver: "Version_Unmarshal (enc_Version v) zero_pb_Version = Ok v" if "ph_Version m = Some v" for v
    by (rule Version_Unmarshal_enc)
       (use assms that in \<open>simp add: enc_Header_def field_message_opt_def size_delimited_def\<close>)
  have "consumes ''proto: Header'' Header_fields (enc_Header m @ []) zero_pb_Header m"
    unfolding enc_Header_def append.assoc
  proof (rule consumes_message_step [where mid = "zero_pb_Header\<lparr>ph_Version := ph_Version m\<rparr>",
        OF forward_Header tags(5) Header_fields_eqs(1)])
    show "consumes ''proto: Header'' Header_fields
        (field_bytes 0x12 (ph_NamespaceId m) @ field_uint 0x18 (ph_Height m) @
         field_uint 0x20 (ph_Time m) @ field_bytes 0x2a (ph_LastHeaderHash m) @
         field_bytes 0x32 (ph_LastCommitHash m) @ field_bytes 0x3a (ph_DataHash m) @
         field_bytes 0x42 (ph_ConsensusHash m) @ field_bytes 0x4a (ph_AppHash m) @
         field_bytes 0x52 (ph_LastResultsHash m) @ field_bytes 0x5a (ph_ProposerAddress m) @
         field_bytes 0x62 (ph_AggregatorsHash m) @ field_bytes 0x6a (ph_ChainId m) @ [])
        (zero_pb_Header\<lparr>ph_Version := ph_Version m\<rparr>) m"
      by (rule consumes_uint_step consumes_bytes_step consumes_end forward_Header tags
          Header_fields_eqs | simp add: zero_pb_Header_def)+
  qed (simp_all add: ver zero_pb_Header_def)
  then show ?thesis
    unfolding Header_Unmarshal_def append_Nil2 by (rule consumes_unmarshal [OF _ assms])
qed

lemma Commit_fields_eqs:
  "Commit_fields cd 1 0 = (\<lambda>d i m. Some (read_uint ''Height'' 0 (\<lambda>v m. m\<lparr>pc_Height := v\<rparr>) d i m))"
  "Commit_fields cd 2 2 =
     (\<lambda>d i m. Some (read_bytes ''HeaderHash'' 2 (\<lambda>b m. m\<lparr>pc_HeaderHash := b\<rparr>) d i m))"
  "Commit_fields cd 3 2 = (\<lambda>d i m. Some (read_message ''Signatures'' 2
       (\<lambda>b m. Ok (m\<lparr>pc_Signatures := pc_Signatures m @ [b]\<rparr>)) d i m))"
  "Commit_fields cd 4 2 = (\<lambda>d i m. Some (read_message ''TmSignature'' 2 (\<lambda>bs m.
       bind_out (CommitSig_Unmarshal cd bs (merge_into zero_pb_CommitSig (pc_TmSignature m)))
         (\<lambda>s. Ok (m\<lparr>pc_TmSignature := Some s\<rparr>))) d i m))"
  by (simp_all add: Commit_fields_def fun_eq_iff read_bytes_as_message)

lemma Commit_Unmarshal_enc:
  assumes "codec_ok cd" and "encodable_Commit cd m" and "length (enc_Commit cd m) < 2 ^ 63"
  shows "Commit_Unmarshal cd (enc_Commit cd m) zero_pb_Commit = Ok m"
proof -
  have sig: "CommitSig_Unmarshal cd (ok_bytes (CommitSig_Marshal cd s)) zero_pb_CommitSig = Ok s"
    if "pc_TmSignature m = Some s" for s
    using assms(1,2) that by (simp add: encodable_Commit_def codec_ok_CommitSig)
  let ?n = "''proto: Commit''" and ?F = "Commit_fields cd"
  have tm: "consumes ?n ?F
      (field_message_opt 0x22 (\<lambda>s. ok_bytes (CommitSig_Marshal cd s)) (pc_TmSignature m) @ [])
      (m\<lparr>pc_TmSignature := None\<rparr>) m"
    by (rule consumes_message_step [where mid = m, OF forward_Commit tags(8) Commit_fields_eqs(4)])
       (simp_all add: sig consumes_Nil)
  have sigs: "consumes ?n ?F (field_repeated 0x1a id (pc_Signatures m) @
      field_message_opt 0x22 (\<lambda>s. ok_bytes (CommitSig_Marshal cd s)) (pc_TmSignature m) @ [])
      (m\<lparr>pc_Signatures := [], pc_TmSignature := None\<rparr>) m"
    by (rule consumes_repeated_step [where upd = "\<lambda>ys m. m\<lparr>pc_Signatures := ys\<rparr>",
          OF forward_Commit tags(7) Commit_fields_eqs(3)])
       (use tm in simp_all)
  have "consumes ?n ?F (enc_Commit cd m @ []) zero_pb_Commit m"
    unfolding enc_Commit_def append.assoc
    by (rule consumes_uint_step [OF forward_Commit tags(1) Commit_fields_eqs(1)],
        simp add: zero_pb_Commit_def,
        rule consumes_bytes_step [OF forward_Commit tags(6) Commit_fields_eqs(2)],
        simp add: zero_pb_Commit_def)
       (use sigs in \<open>cases m, simp add: zero_pb_Commit_def\<close>)
  then show ?thesis
    unfolding Commit_Unmarshal_def append_Nil2 by (rule consumes_unmarshal [OF _ assms(3)])
qed

lemma Data_fields_eqs:
  "Data_fields cd 1 2 = (\<lambda>d i m. Some (read_message ''Txs'' 2
       (\<lambda>b m. Ok (m\<lparr>pd_Txs := pd_Txs m @ [b]\<rparr>)) d i m))"
  "Data_fields cd 2 2 = (\<lambda>d i m. Some (read_message ''IntermediateStateRoots'' 2
       (\<lambda>b m. Ok (m\<lparr>pd_IntermediateStateRoots := pd_IntermediateStateRoots m @ [b]\<rparr>)) d i m))"
  "Data_fields cd 3 2 = (\<lambda>d i m. Some (read_message ''Evidence'' 2 (\<lambda>bs m.
       bind_out (Evidence_Unmarshal cd bs zero_abciEvidence)
         (\<lambda>e. Ok (m\<lparr>pd_Evidence := pd_Evidence m @ [e]\<rparr>))) d i m))"
  by (simp_all add: Data_fields_def fun_eq_iff read_bytes_as_message)

lemma Data_Unmarshal_enc:
  assumes "codec_ok cd" and "encodable_Data cd m" and "length (enc_Data cd m) < 2 ^ 63"
  shows "Data_Unmarshal cd (enc_Data cd m) zero_pb_Data = Ok m"
proof -
  have ev: "Evidence_Unmarshal cd (ok_bytes (Evidence_Marshal cd e)) zero_abciEvidence = Ok e"
    if "e \<in> set (pd_Evidence m)" for e
    using assms(1,2) that by (simp add: encodable_Data_def list_all_iff codec_ok_Evidence)
  have "consumes ''proto: Data'' (Data_fields cd) (enc_Data cd m @ []) zero_pb_Data m"
    unfolding enc_Data_def append.assoc
    by (rule consumes_repeated_step [where upd = "\<lambda>ys m. m\<lparr>pd_Txs := ys\<rparr>",
          OF forward_Data tags(5) Data_fields_eqs(1)], simp, simp add: zero_pb_Data_def,
        rule consumes_repeated_step [where upd = "\<lambda>ys m. m\<lparr>pd_IntermediateStateRoots := ys\<rparr>",
          OF forward_Data tags(6) Data_fields_eqs(2)], simp, simp add: zero_pb_Data_def,
        rule consumes_repeated_step [where upd = "\<lambda>ys m. m\<lparr>pd_Evidence := ys\<rparr>",
          OF forward_Data tags(7) Data_fields_eqs(3)], simp add: ev, simp add: zero_pb_Data_def)
       (rule consumes_end, simp add: zero_pb_Data_def)
  then show ?thesis
    unfolding Data_Unmarshal_def append_Nil2 by (rule consumes_unmarshal [OF _ assms(3)])
qed

lemma Block_fields_eqs:
  "Block_fields cd 1 2 = (\<lambda>d i m. Some (read_message ''Header'' 2 (\<lambda>bs m.
       bind_out (Header_Unmarshal bs (merge_into zero_pb_Header (pbk_Header m)))
         (\<lambda>h. Ok (m\<lparr>pbk_Header := Some h\<rparr>))) d i m))"
  "Block_fields cd 2 2 = (\<lambda>d i m. Some (read_message ''Data'' 2 (\<lambda>bs m.
       bind_out (Data_Unmarshal cd bs (merge_into zero_pb_Data (pbk_Data m)))
         (\<lambda>x. Ok (m\<lparr>pbk_Data := Some x\<rparr>))) d i m))"
  "Block_fields cd 3 2 = (\<lambda>d i m. Some (read_message ''LastCommit'' 2 (\<lambda>bs m.
       bind_out (Commit_Unmarshal cd bs (merge_into zero_pb_Commit (pbk_LastCommit m)))
         (\<lambda>c. Ok (m\<lparr>pbk_LastCommit := Some c\<rparr>))) d i m))"
  by (simp_all add: Block_fields_def fun_eq_iff)

lemma length_message_opt_le:
  "x = Some y \<Longrightarrow> length (f y) \<le> length (field_message_opt tag f x)"
  by (simp add: field_message_opt_def size_delimited_def)

lemma length_repeated_le:
  "y \<in> set xs \<Longrightarrow> length (f y) \<le> length (field_repeated tag f xs)"
  by (induction xs) (auto simp: field_repeated_def size_delimited_def)

lemma Block_Unmarshal_enc:
  assumes "codec_ok cd" and "encodable_Block cd m" and "length (enc_Block cd m) < 2 ^ 63"
  shows "Block_Unmarshal cd (enc_Block cd m) zero_pb_Block = Ok m"
proof -
  have h: "Header_Unmarshal (enc_Header h) zero_pb_Header = Ok h" if "pbk_Header m = Some h" for h
    by (rule Header_Unmarshal_enc)
       (use assms(3) length_message_opt_le [OF that, where f = enc_Header and tag = "0xa"] in \<open>simp add: enc_Block_def\<close>)
  have d: "Data_Unmarshal cd (enc_Data cd x) zero_pb_Data = Ok x" if "pbk_Data m = Some x" for x
    by (rule Data_Unmarshal_enc)
       (use assms that length_message_opt_le [OF that, where f = "enc_Data cd" and tag = "0x12"]
        in \<open>simp_all add: enc_Block_def encodable_Block_def\<close>)
  have c: "Commit_Unmarshal cd (enc_Commit cd x) zero_pb_Commit = Ok x"
    if "pbk_LastCommit m = Some x" for x
    by (rule Commit_Unmarshal_enc)
       (use assms that length_message_opt_le [OF that, where f = "enc_Commit cd" and tag = "0x1a"]
        in \<open>simp_all add: enc_Block_def encodable_Block_def\<close>)
  have "consumes ''proto: Block'' (Block_fields cd) (enc_Block cd m @ []) zero_pb_Block m"
    unfolding enc_Block_def append.assoc
    by (rule consumes_message_step [where mid = "zero_pb_Block\<lparr>pbk_Header := pbk_Header m\<rparr>",
          OF forward_Block tags(5) Block_fields_eqs(1)],
        simp add: zero_pb_Block_def, simp add: zero_pb_Block_def h,
        rule consumes_message_step [where mid = "m\<lparr>pbk_LastCommit := None\<rparr>",
          OF forward_Block tags(6) Block_fields_eqs(2)],
        simp add: zero_pb_Block_def, simp add: zero_pb_Block_def d,
        rule consumes_message_step [where mid = m, OF forward_Block tags(7) Block_fields_eqs(3)],
        simp, simp add: c)
       (rule consumes_Nil)
  then show ?thesis
    unfolding Block_Unmarshal_def append_Nil2 by (rule consumes_unmarshal [OF _ assms(3)])
qed

lemma Batch_fields_eqs:
  "Batch_fields cd 1 0 =
     (\<lambda>d i m. Some (read_uint ''StartHeight'' 0 (\<lambda>v m. m\<lparr>pba_StartHeight := v\<rparr>) d i m))"
  "Batch_fields cd 2 0 =
     (\<lambda>d i m. Some (read_uint ''EndHeight'' 0 (\<lambda>v m. m\<lparr>pba_EndHeight := v\<rparr>) d i m))"
  "Batch_fields cd 3 2 = (\<lambda>d i m. Some (read_message ''Blocks'' 2 (\<lambda>bs m.
       bind_out (Block_Unmarshal cd bs zero_pb_Block)
         (\<lambda>b. Ok (m\<lparr>pba_Blocks := pba_Blocks m @ [b]\<rparr>))) d i m))"
  "Batch_fields cd 4 2 = (\<lambda>d i m. Some (read_message ''Commits'' 2 (\<lambda>bs m.
       bind_out (Commit_Unmarshal cd bs zero_pb_Commit)
         (\<lambda>c. Ok (m\<lparr>pba_Commits := pba_Commits m @ [c]\<rparr>))) d i m))"
  by (simp_all add: Batch_fields_def fun_eq_iff)

lemma Batch_Unmarshal_enc:
  assumes "codec_ok cd" and "encodable_Batch cd m" and "length (enc_Batch cd m) < 2 ^ 63"
  shows "Batch_Unmarshal cd (enc_Batch cd m) zero_pb_Batch = Ok m"
proof -
  have b: "Block_Unmarshal cd (enc_Block cd x) zero_pb_Block = Ok x" if "x \<in> set (pba_Blocks m)" for x
    by (rule Block_Unmarshal_enc)
       (use assms that length_repeated_le [OF that, where f = "enc_Block cd" and tag = "0x1a"]
        in \<open>simp_all add: enc_Batch_def encodable_Batch_def list_all_iff\<close>)
  have c: "Commit_Unmarshal cd (enc_Commit cd x) zero_pb_Commit = Ok x"
    if "x \<in> set (pba_Commits m)" for x
    by (rule Commit_Unmarshal_enc)
       (use assms that length_repeated_le [OF that, where f = "enc_Commit cd" and tag = "0x22"]
        in \<open>simp_all add: enc_Batch_def encodable_Batch_def list_all_iff\<close>)
  have "consumes ''proto: Batch'' (Batch_fields cd) (enc_Batch cd m @ []) zero_pb_Batch m"
    unfolding enc_Batch_def append.assoc
    by (rule consumes_uint_step [OF forward_Batch tags(1) Batch_fields_eqs(1)],
        simp add: zero_pb_Batch_def,
        rule consumes_uint_step [OF forward_Batch tags(2) Batch_fields_eqs(2)],
        simp add: zero_pb_Batch_def,
        rule consumes_repeated_step [where upd = "\<lambda>ys m. m\<lparr>pba_Blocks := ys\<rparr>",
          OF forward_Batch tags(7) Batch_fields_eqs(3)], simp add: b, simp add: zero_pb_Batch_def,
        rule consumes_repeated_step [where upd = "\<lambda>ys m. m\<lparr>pba_Commits := ys\<rparr>",
          OF forward_Batch tags(8) Batch_fields_eqs(4)], simp add: c, simp add: zero_pb_Batch_def)
       (rule consumes_end, simp add: zero_pb_Batch_def)
  then show ?thesis
    unfolding Batch_Unmarshal_def append_Nil2 by (rule consumes_unmarshal [OF _ assms(3)])
qed

subsection \<open>An instance of the external codecs\<close>

definition table_codec :: "pb_CommitSig list \<Rightarrow> abciEvidence list \<Rightarrow> codec" where
  "table_codec sigs evs =
     \<lparr>CommitSig_Size = (\<lambda>_. 1), CommitSig_Marshal = table_Marshal sigs,
      CommitSig_Unmarshal = table_Unmarshal sigs,
      Evidence_Size = (\<lambda>_. 1), Evidence_Marshal = table_Marshal evs,
      Evidence_Unmarshal = table_Unmarshal evs\<rparr>"

lemma table_codec_ok: "codec_ok (table_codec sigs evs)"
  by (auto simp: codec_ok_def table_codec_def table_round_trip)

end
