(* ===== verification/Serialization.thy ===== *)
theory Serialization
  imports Wire
begin

text \<open>
  \<open>src/types/serialization.go\<close>: the conversions between the structs of \<open>types\<close> and the protobuf
  messages, and \<open>MarshalBinary\<close>/\<open>UnmarshalBinary\<close>. The round trips of blocks, commits and batches
  are proved through the wire format. A \<open>FromProto\<close> fills a receiver, which is an argument; it
  dereferences nested message pointers without a check in three places, where the model panics.
\<close>

subsection \<open>Headers\<close>

definition safeCopy :: "bytes \<Rightarrow> bytes \<Rightarrow> bytes option" where
  "safeCopy dst src = (if length src \<noteq> length dst then None else Some (go_copy dst src))"

definition Header_ToProto :: "Header \<Rightarrow> pb_Header" where
  "Header_ToProto h =
     \<lparr>ph_Version = Some \<lparr>pv_Block = v_Block (h_Version h), pv_App = v_App (h_Version h)\<rparr>,
      ph_NamespaceId = h_NamespaceID h, ph_Height = h_Height h, ph_Time = h_Time h,
      ph_LastHeaderHash = h_LastHeaderHash h, ph_LastCommitHash = h_LastCommitHash h,
      ph_DataHash = h_DataHash h, ph_ConsensusHash = h_ConsensusHash h, ph_AppHash = h_AppHash h,
      ph_LastResultsHash = h_LastResultsHash h, ph_ProposerAddress = h_ProposerAddress h,
      ph_AggregatorsHash = h_AggregatorsHash h, ph_ChainId = h_ChainID h\<rparr>"

text \<open>One \<open>if !safeCopy(dst, src) { return errors.New(...) }\<close> of \<open>FromProto\<close>.\<close>

definition copy_or_err :: "string \<Rightarrow> bytes \<Rightarrow> bytes \<Rightarrow> (bytes \<Rightarrow> 'a outcome) \<Rightarrow> 'a outcome" where
  "copy_or_err name dst src k =
     (case safeCopy dst src of
        None \<Rightarrow> Err (Errorf (''invalid length of '' @ name))
      | Some x \<Rightarrow> k x)"

definition Header_FromProto :: "pb_Header \<Rightarrow> Header \<Rightarrow> Header outcome" where
  "Header_FromProto other h =
     (case ph_Version other of
        None \<Rightarrow> Panic ''nil pointer dereference''
      | Some v \<Rightarrow>
          copy_or_err ''NamespaceId'' (h_NamespaceID h) (ph_NamespaceId other) (\<lambda>namespaceID.
          copy_or_err ''LastHeaderHash'' (h_LastHeaderHash h) (ph_LastHeaderHash other)
            (\<lambda>lastHeaderHash.
          copy_or_err ''LastCommitHash'' (h_LastCommitHash h) (ph_LastCommitHash other)
            (\<lambda>lastCommitHash.
          copy_or_err ''DataHash'' (h_DataHash h) (ph_DataHash other) (\<lambda>dataHash.
          copy_or_err ''ConsensusHash'' (h_ConsensusHash h) (ph_ConsensusHash other)
            (\<lambda>consensusHash.
          copy_or_err ''AppHash'' (h_AppHash h) (ph_AppHash other) (\<lambda>appHash.
          copy_or_err ''LastResultsHash'' (h_LastResultsHash h) (ph_LastResultsHash other)
            (\<lambda>lastResultsHash.
          copy_or_err ''AggregatorsHash'' (h_AggregatorsHash h) (ph_AggregatorsHash other)
            (\<lambda>aggregatorsHash.
          Ok \<lparr>h_Version = \<lparr>v_Block = pv_Block v, v_App = pv_App v\<rparr>,
              h_NamespaceID = namespaceID, h_Height = ph_Height other, h_Time = ph_Time other,
              h_LastHeaderHash = lastHeaderHash, h_LastCommitHash = lastCommitHash,
              h_DataHash = dataHash, h_ConsensusHash = consensusHash, h_AppHash = appHash,
              h_LastResultsHash = lastResultsHash,
              h_ProposerAddress =
                (if length (ph_ProposerAddress other) > 0 then ph_ProposerAddress other
                 else h_ProposerAddress h),
              h_AggregatorsHash = aggregatorsHash, h_ChainID = ph_ChainId other\<rparr>)))))))))"

subsection \<open>Commits\<close>

definition signaturesToByteSlices :: "Signature list \<Rightarrow> bytes list" where
  "signaturesToByteSlices sigs = sigs"

definition byteSlicesToSignatures :: "bytes list \<Rightarrow> Signature list" where
  "byteSlicesToSignatures bs = bs"

definition Commit_ToProto :: "Commit \<Rightarrow> pb_Commit" where
  "Commit_ToProto c =
     \<lparr>pc_Height = c_Height c, pc_HeaderHash = c_HeaderHash c,
      pc_Signatures = signaturesToByteSlices (c_Signatures c),
      pc_TmSignature =
        Some \<lparr>pcs_BlockIdFlag = ucast (cs_BlockIDFlag (c_TMSignature c)),
              pcs_ValidatorAddress = cs_ValidatorAddress (c_TMSignature c),
              pcs_Timestamp = cs_Timestamp (c_TMSignature c),
              pcs_Signature = cs_Signature (c_TMSignature c)\<rparr>\<rparr>"

definition Commit_FromProto :: "pb_Commit \<Rightarrow> Commit \<Rightarrow> Commit outcome" where
  "Commit_FromProto other c =
     copy_or_err ''HeaderHash'' (c_HeaderHash c) (pc_HeaderHash other) (\<lambda>headerHash.
       Ok \<lparr>c_Height = pc_Height other, c_HeaderHash = headerHash,
           c_Signatures = byteSlicesToSignatures (pc_Signatures other),
           c_TMSignature =
             (case pc_TmSignature other of
                None \<Rightarrow> c_TMSignature c
              | Some s \<Rightarrow>
                  \<lparr>cs_BlockIDFlag = ucast (pcs_BlockIdFlag s),
                   cs_ValidatorAddress = pcs_ValidatorAddress s,
                   cs_Timestamp = pcs_Timestamp s, cs_Signature = pcs_Signature s\<rparr>)\<rparr>)"

subsection \<open>Data, blocks and batches\<close>

definition txsToByteSlices :: "Tx list \<Rightarrow> bytes list" where
  "txsToByteSlices txs = txs"

definition byteSlicesToTxs :: "bytes list \<Rightarrow> Tx list" where
  "byteSlicesToTxs bs = (if length bs = 0 then [] else bs)"

text \<open>
  \<open>evidenceToProto\<close> appends the address of the variable of the inner \<open>range\<close> loop, which is one
  variable per execution of that loop (the module is built as Go 1.19): after the loop all the
  pointers it appended lead to the last element.
\<close>

definition evidenceToProto :: "Evidence list \<Rightarrow> abciEvidence list" where
  "evidenceToProto evidence =
     concat (map (\<lambda>e. replicate (length (ABCI e)) (last (ABCI e))) evidence)"

definition evidenceFromProto :: "abciEvidence list \<Rightarrow> Evidence list" where
  "evidenceFromProto evidence = []"

definition Data_ToProto :: "Data \<Rightarrow> pb_Data" where
  "Data_ToProto d =
     \<lparr>pd_Txs = txsToByteSlices (d_Txs d), pd_IntermediateStateRoots = d_IntermediateStateRoots d,
      pd_Evidence = evidenceToProto (d_Evidence d)\<rparr>"

definition Block_ToProto :: "Block \<Rightarrow> pb_Block" where
  "Block_ToProto b =
     \<lparr>pbk_Header = Some (Header_ToProto (b_Header b)), pbk_Data = Some (Data_ToProto (b_Data b)),
      pbk_LastCommit = Some (Commit_ToProto (b_LastCommit b))\<rparr>"

definition Block_FromProto :: "pb_Block \<Rightarrow> Block \<Rightarrow> Block outcome" where
  "Block_FromProto other b =
     (case pbk_Header other of
        None \<Rightarrow> Panic ''nil pointer dereference''
      | Some h \<Rightarrow>
          bind_out (Header_FromProto h (b_Header b)) (\<lambda>header.
          (case pbk_Data other of
             None \<Rightarrow> Panic ''nil pointer dereference''
           | Some d \<Rightarrow>
               bind_out (case pbk_LastCommit other of
                           None \<Rightarrow> Ok (b_LastCommit b)
                         | Some c \<Rightarrow> Commit_FromProto c (b_LastCommit b)) (\<lambda>lastCommit.
               Ok \<lparr>b_Header = header,
                   b_Data =
                     \<lparr>d_Txs = byteSlicesToTxs (pd_Txs d),
                      d_IntermediateStateRoots = pd_IntermediateStateRoots d,
                      d_Evidence = evidenceFromProto (pd_Evidence d)\<rparr>,
                   b_LastCommit = lastCommit\<rparr>))))"

definition blocksToProto :: "Block list \<Rightarrow> pb_Block list" where
  "blocksToProto = map Block_ToProto"

definition commitsToProto :: "Commit list \<Rightarrow> pb_Commit list" where
  "commitsToProto = map Commit_ToProto"

text \<open>\<open>protoToBlocks\<close> and \<open>protoToCommits\<close> panic on an element that does not convert.\<close>

fun protoToBlocks :: "pb_Block list \<Rightarrow> Block list outcome" where
  "protoToBlocks [] = Ok []"
| "protoToBlocks (b # bs) =
     (case Block_FromProto b zero_Block of
        Ok x \<Rightarrow> bind_out (protoToBlocks bs) (\<lambda>xs. Ok (x # xs))
      | Err e \<Rightarrow> Panic ''protoToBlocks''
      | Panic p \<Rightarrow> Panic p)"

fun protoToCommits :: "pb_Commit list \<Rightarrow> Commit list outcome" where
  "protoToCommits [] = Ok []"
| "protoToCommits (c # cs) =
     (case Commit_FromProto c zero_Commit of
        Ok x \<Rightarrow> bind_out (protoToCommits cs) (\<lambda>xs. Ok (x # xs))
      | Err e \<Rightarrow> Panic ''protoToCommits''
      | Panic p \<Rightarrow> Panic p)"

definition Batch_ToProto :: "Batch \<Rightarrow> pb_Batch" where
  "Batch_ToProto b =
     \<lparr>pba_StartHeight = ba_StartHeight b, pba_EndHeight = ba_EndHeight b,
      pba_Blocks = blocksToProto (ba_Blocks b), pba_Commits = commitsToProto (ba_Commits b)\<rparr>"

definition Batch_FromProto :: "pb_Batch \<Rightarrow> Batch outcome" where
  "Batch_FromProto other =
     bind_out (protoToBlocks (pba_Blocks other)) (\<lambda>blocks.
     bind_out (protoToCommits (pba_Commits other)) (\<lambda>commits.
     Ok \<lparr>ba_StartHeight = pba_StartHeight other, ba_EndHeight = pba_EndHeight other,
         ba_Blocks = blocks, ba_Commits = commits\<rparr>))"

subsection \<open>\<open>MarshalBinary\<close> and \<open>UnmarshalBinary\<close>\<close>

definition Header_MarshalBinary :: "Header \<Rightarrow> bytes outcome" where
  "Header_MarshalBinary h = Header_Marshal (Header_ToProto h)"

definition Header_UnmarshalBinary :: "bytes \<Rightarrow> Header \<Rightarrow> Header outcome" where
  "Header_UnmarshalBinary dat h =
     bind_out (Header_Unmarshal dat zero_pb_Header) (\<lambda>p. Header_FromProto p h)"

definition Data_MarshalBinary :: "codec \<Rightarrow> Data \<Rightarrow> bytes outcome" where
  "Data_MarshalBinary cd d = Data_Marshal cd (Data_ToProto d)"

definition Commit_MarshalBinary :: "codec \<Rightarrow> Commit \<Rightarrow> bytes outcome" where
  "Commit_MarshalBinary cd c = Commit_Marshal cd (Commit_ToProto c)"

definition Commit_UnmarshalBinary :: "codec \<Rightarrow> bytes \<Rightarrow> Commit \<Rightarrow> Commit outcome" where
  "Commit_UnmarshalBinary cd dat c =
     bind_out (Commit_Unmarshal cd dat zero_pb_Commit) (\<lambda>p. Commit_FromProto p c)"

definition Block_MarshalBinary :: "codec \<Rightarrow> Block \<Rightarrow> bytes outcome" where
  "Block_MarshalBinary cd b = Block_Marshal cd (Block_ToProto b)"

definition Block_UnmarshalBinary :: "codec \<Rightarrow> bytes \<Rightarrow> Block \<Rightarrow> Block outcome" where
  "Block_UnmarshalBinary cd dat b =
     bind_out (Block_Unmarshal cd dat zero_pb_Block) (\<lambda>p. Block_FromProto p b)"

definition Batch_MarshalBinary :: "codec \<Rightarrow> Batch \<Rightarrow> bytes outcome" where
  "Batch_MarshalBinary cd b = Batch_Marshal cd (Batch_ToProto b)"

definition Batch_UnmarshalBinary :: "codec \<Rightarrow> bytes \<Rightarrow> Batch outcome" where
  "Batch_UnmarshalBinary cd dat =
     bind_out (Batch_Unmarshal cd dat zero_pb_Batch) Batch_FromProto"

subsection \<open>Round trips\<close>

lemma safeCopy_same [simp]: "length src = length dst \<Longrightarrow> safeCopy dst src = Some src"
  by (simp add: safeCopy_def)

lemma copy_or_err_same [simp]: "length src = length dst \<Longrightarrow> copy_or_err n dst src k = k src"
  by (simp add: copy_or_err_def)

lemma copy_or_err_Ok_iff:
  "copy_or_err n dst src k = Ok y \<longleftrightarrow> length src = length dst \<and> k src = Ok y"
  by (auto simp: copy_or_err_def safeCopy_def)

lemma ucast_ucast_flag [simp]: "ucast (ucast (b :: byte) :: u32) = b"
  by (rule bit_word_eqI) (auto simp: bit_simps)

lemma Header_FromProto_ToProto:
  "wf_Header h \<Longrightarrow> Header_FromProto (Header_ToProto h) zero_Header = Ok h"
  by (cases h; cases "h_Version h")
     (simp add: Header_FromProto_def Header_ToProto_def wf_Header_def zero_Header_def)

lemma Commit_FromProto_ToProto:
  "wf_Commit c \<Longrightarrow> Commit_FromProto (Commit_ToProto c) zero_Commit = Ok c"
  by (cases c; cases "c_TMSignature c")
     (simp add: Commit_FromProto_def Commit_ToProto_def wf_Commit_def zero_Commit_def
      byteSlicesToSignatures_def signaturesToByteSlices_def)

text \<open>Decoding drops the evidence of a block.\<close>

definition without_evidence :: "Block \<Rightarrow> Block" where
  "without_evidence b = b\<lparr>b_Data := (b_Data b)\<lparr>d_Evidence := []\<rparr>\<rparr>"

lemma without_evidence_id: "d_Evidence (b_Data b) = [] \<Longrightarrow> without_evidence b = b"
  by (simp add: without_evidence_def)

lemma Block_FromProto_ToProto:
  "wf_Block b \<Longrightarrow> Block_FromProto (Block_ToProto b) zero_Block = Ok (without_evidence b)"
  by (cases b; cases "b_Data b")
     (simp add: wf_Block_def Block_FromProto_def Block_ToProto_def Header_FromProto_ToProto
      Commit_FromProto_ToProto zero_Block_def Data_ToProto_def byteSlicesToTxs_def
      txsToByteSlices_def evidenceFromProto_def without_evidence_def)

lemma protoToBlocks_blocksToProto:
  "list_all wf_Block bs \<Longrightarrow> protoToBlocks (blocksToProto bs) = Ok (map without_evidence bs)"
  by (induction bs) (simp_all add: blocksToProto_def Block_FromProto_ToProto)

lemma protoToCommits_commitsToProto:
  "list_all wf_Commit cs \<Longrightarrow> protoToCommits (commitsToProto cs) = Ok cs"
  by (induction cs) (simp_all add: commitsToProto_def Commit_FromProto_ToProto)

lemma Batch_FromProto_ToProto:
  "wf_Batch b \<Longrightarrow>
     Batch_FromProto (Batch_ToProto b) = Ok (b\<lparr>ba_Blocks := map without_evidence (ba_Blocks b)\<rparr>)"
  by (simp add: wf_Batch_def Batch_FromProto_def Batch_ToProto_def protoToBlocks_blocksToProto
      protoToCommits_commitsToProto)

lemma Commit_binary_round_trip:
  assumes "codec_ok cd" and "wf_Commit c" and "encodable_Commit cd (Commit_ToProto c)"
    and "Commit_Size cd (Commit_ToProto c) < 2 ^ 63"
  shows "\<exists>bs. Commit_MarshalBinary cd c = Ok bs \<and>
    Commit_UnmarshalBinary cd bs zero_Commit = Ok c"
  using assms by (simp add: Commit_MarshalBinary_def Commit_UnmarshalBinary_def
      Commit_Marshal_enc Commit_Unmarshal_enc length_enc_Commit Commit_FromProto_ToProto)

lemma Block_binary_round_trip:
  assumes "codec_ok cd" and "wf_Block b" and "encodable_Block cd (Block_ToProto b)"
    and "Block_Size cd (Block_ToProto b) < 2 ^ 63"
  shows "\<exists>bs. Block_MarshalBinary cd b = Ok bs \<and>
    Block_UnmarshalBinary cd bs zero_Block = Ok (without_evidence b)"
  using assms by (simp add: Block_MarshalBinary_def Block_UnmarshalBinary_def
      Block_Marshal_enc Block_Unmarshal_enc length_enc_Block Block_FromProto_ToProto)

lemma Batch_binary_round_trip:
  assumes "codec_ok cd" and "wf_Batch b" and "encodable_Batch cd (Batch_ToProto b)"
    and "Batch_Size cd (Batch_ToProto b) < 2 ^ 63"
  shows "\<exists>bs. Batch_MarshalBinary cd b = Ok bs \<and>
    Batch_UnmarshalBinary cd bs = Ok (b\<lparr>ba_Blocks := map without_evidence (ba_Blocks b)\<rparr>)"
  using assms by (simp add: Batch_MarshalBinary_def Batch_UnmarshalBinary_def
      Batch_Marshal_enc Batch_Unmarshal_enc length_enc_Batch Batch_FromProto_ToProto)

subsection \<open>Panics of \<open>UnmarshalBinary\<close>\<close>

text \<open>The generated decoders of tendermint return errors; they do not panic.\<close>

definition codec_total :: "codec \<Rightarrow> bool" where
  "codec_total cd \<longleftrightarrow>
     (\<forall>bs x p. CommitSig_Unmarshal cd bs x \<noteq> Panic p) \<and>
     (\<forall>bs x p. Evidence_Unmarshal cd bs x \<noteq> Panic p)"

lemma Version_Unmarshal_no_panic [simp]: "Version_Unmarshal d m \<noteq> Panic p"
  unfolding Version_Unmarshal_def
  by (rule unmarshal_loop_no_panic [OF forward_Version]) (auto simp: Version_fields_def)

lemma Header_Unmarshal_no_panic [simp]: "Header_Unmarshal d m \<noteq> Panic p"
  unfolding Header_Unmarshal_def
  by (rule unmarshal_loop_no_panic [OF forward_Header])
     (auto simp: Header_fields_def Header_fields_1_4_def Header_fields_5_8_def
       Header_fields_9_13_def Header_Version_field_def bind_out_Panic_iff
       read_message_no_panic)

lemma Commit_Unmarshal_no_panic: "codec_total cd \<Longrightarrow> Commit_Unmarshal cd d m \<noteq> Panic p"
  unfolding Commit_Unmarshal_def
  by (rule unmarshal_loop_no_panic [OF forward_Commit])
     (auto simp: Commit_fields_def codec_total_def bind_out_Panic_iff
       read_message_no_panic)

lemma Data_Unmarshal_no_panic: "codec_total cd \<Longrightarrow> Data_Unmarshal cd d m \<noteq> Panic p"
  unfolding Data_Unmarshal_def
  by (rule unmarshal_loop_no_panic [OF forward_Data])
     (auto simp: Data_fields_def codec_total_def bind_out_Panic_iff
       read_message_no_panic)

lemma Block_Unmarshal_no_panic: "codec_total cd \<Longrightarrow> Block_Unmarshal cd d m \<noteq> Panic p"
  unfolding Block_Unmarshal_def
  by (rule unmarshal_loop_no_panic [OF forward_Block])
     (auto simp: Block_fields_def Data_Unmarshal_no_panic Commit_Unmarshal_no_panic
       bind_out_Panic_iff
       read_message_no_panic)

lemma Batch_Unmarshal_no_panic: "codec_total cd \<Longrightarrow> Batch_Unmarshal cd d m \<noteq> Panic p"
  unfolding Batch_Unmarshal_def
  by (rule unmarshal_loop_no_panic [OF forward_Batch])
     (auto simp: Batch_fields_def Block_Unmarshal_no_panic Commit_Unmarshal_no_panic
       bind_out_Panic_iff
       read_message_no_panic)

lemma copy_or_err_Panic_iff:
  "copy_or_err n dst src k = Panic p \<longleftrightarrow> length src = length dst \<and> k src = Panic p"
  by (auto simp: copy_or_err_def safeCopy_def)

lemma Header_FromProto_Panic_iff:
  "(\<exists>p. Header_FromProto x h = Panic p) \<longleftrightarrow> ph_Version x = None"
  by (cases "ph_Version x") (simp_all add: Header_FromProto_def copy_or_err_Panic_iff)

lemma Commit_FromProto_no_panic [simp]: "Commit_FromProto x c \<noteq> Panic p"
  by (simp add: Commit_FromProto_def copy_or_err_Panic_iff)

lemma Block_FromProto_Panic_iff:
  "(\<exists>p. Block_FromProto x b = Panic p) \<longleftrightarrow>
     (case pbk_Header x of
        None \<Rightarrow> True
      | Some h \<Rightarrow> ph_Version h = None \<or>
          (is_Ok (Header_FromProto h (b_Header b)) \<and> pbk_Data x = None))"
  using Header_FromProto_Panic_iff [of "the (pbk_Header x)" "b_Header b"]
  by (cases "pbk_Header x"; cases "pbk_Data x"; cases "pbk_LastCommit x")
     (auto simp: Block_FromProto_def bind_out_Panic_iff is_Ok_iff)

lemma Block_UnmarshalBinary_Panic_iff:
  assumes "codec_total cd"
  shows "(\<exists>p. Block_UnmarshalBinary cd d b = Panic p) \<longleftrightarrow>
     (\<exists>x. Block_Unmarshal cd d zero_pb_Block = Ok x \<and>
        (case pbk_Header x of
           None \<Rightarrow> True
         | Some h \<Rightarrow> ph_Version h = None \<or>
             (is_Ok (Header_FromProto h (b_Header b)) \<and> pbk_Data x = None)))"
  unfolding Block_UnmarshalBinary_def bind_out_Panic_iff Block_FromProto_Panic_iff [symmetric]
  using Block_Unmarshal_no_panic [OF assms] by auto

subsection \<open>Properties\<close>

definition sample_codec :: codec where
  "sample_codec = table_codec [zero_pb_CommitSig] []"

lemma sample_codec_total: "codec_total sample_codec"
  by (simp add: codec_total_def sample_codec_def table_codec_def)

definition sample_batch :: Batch where
  "sample_batch =
     \<lparr>ba_StartHeight = 1, ba_EndHeight = 1, ba_Blocks = [zero_Block], ba_Commits = [zero_Commit]\<rparr>"

lemma wf_sample_batch: "wf_Batch sample_batch"
  by (simp add: sample_batch_def wf_Batch_def)

lemma sample_batch_encodable: "encodable_Batch sample_codec (Batch_ToProto sample_batch)"
  by (simp add: sample_batch_def encodable_Batch_def Batch_ToProto_def
      blocksToProto_def commitsToProto_def encodable_Block_def encodable_Commit_def encodable_Data_def
      Block_ToProto_def Commit_ToProto_def Data_ToProto_def evidenceToProto_def zero_Block_def
      zero_Data_def zero_Commit_def sample_codec_def table_codec_def table_Marshal_def
      zero_CommitSig_def zero_pb_CommitSig_def)

text \<open>
  A block that is encoded with MarshalBinary and decoded with UnmarshalBinary is the same
  block without its evidence.
\<close>

lemma block_round_trip:
  assumes "codec_ok cd" and "wf_Block b" and "encodable_Block cd (Block_ToProto b)"
    and "Block_Size cd (Block_ToProto b) < 2 ^ 63"
  shows "\<exists>bs. Block_MarshalBinary cd b = Ok bs \<and>
    Block_UnmarshalBinary cd bs zero_Block = Ok (without_evidence b)"
  using assms by (rule Block_binary_round_trip)

text \<open>
  C37: A batch, the unit handed to the data availability layer, survives encoding and decoding:
  heights, commits and every block but its evidence.
\<close>

theorem batch_round_trip:
  assumes "codec_ok cd" and "wf_Batch b" and "encodable_Batch cd (Batch_ToProto b)"
    and "Batch_Size cd (Batch_ToProto b) < 2 ^ 63"
  shows "\<exists>bs. Batch_MarshalBinary cd b = Ok bs \<and>
    Batch_UnmarshalBinary cd bs = Ok (b\<lparr>ba_Blocks := map without_evidence (ba_Blocks b)\<rparr>)"
  using assms by (rule Batch_binary_round_trip)

theorem batch_round_trip_witness:
  "\<exists>bs. Batch_MarshalBinary sample_codec sample_batch = Ok bs \<and>
    Batch_UnmarshalBinary sample_codec bs =
      Ok (sample_batch\<lparr>ba_Blocks := map without_evidence (ba_Blocks sample_batch)\<rparr>)"
proof -
  have "Batch_Size sample_codec (Batch_ToProto sample_batch) \<le> 10000"
    by code_simp
  then show ?thesis
    by (intro batch_round_trip wf_sample_batch sample_batch_encodable) (simp_all add: sample_codec_def table_codec_ok)
qed

text \<open>
  The generated decoder of a batch never panics and always ends, on any bytes: the index it
  advances never leaves the buffer and every field read makes progress.
\<close>

lemma batch_decoder_total:
  assumes "codec_total cd"
  shows "(\<exists>m'. Batch_Unmarshal cd d m = Ok m') \<or> (\<exists>e. Batch_Unmarshal cd d m = Err e)"
  using Batch_Unmarshal_no_panic [OF assms, of d m] by (cases "Batch_Unmarshal cd d m") auto



end
