(* ===== verification/StateWire.thy ===== *)
theory StateWire
  imports Wire
begin

text \<open>
  The chain state on disk: the message \<open>State\<close> of \<open>src/types/pb/dymint/state.pb.go\<close>, its codec, and
  \<open>State.ToProto\<close>/\<open>State.FromProto\<close> of \<open>src/types/serialization.go\<close>.

  The nested messages (tendermint's state version, block id, validator set and consensus
  parameters, and gogoproto's time) are encoded by code outside the repository: a \<open>msg_codec\<close>
  each, over an arbitrary type of protobuf validator sets.
\<close>

subsection \<open>Codecs of nested messages\<close>

record 'a msg_codec =
  mc_Size :: "'a \<Rightarrow> nat"
  mc_Marshal :: "'a \<Rightarrow> bytes outcome"
  mc_Unmarshal :: "bytes \<Rightarrow> 'a \<Rightarrow> 'a outcome"
  mc_zero :: 'a

definition msg_codec_ok :: "'a msg_codec \<Rightarrow> bool" where
  "msg_codec_ok mc \<longleftrightarrow>
     (\<forall>x bs. mc_Marshal mc x = Ok bs \<longrightarrow>
        length bs = mc_Size mc x \<and> mc_Unmarshal mc bs (mc_zero mc) = Ok x)"

record 'pvs state_codec =
  sc_Version :: "tmVersion msg_codec"
  sc_BlockID :: "BlockID msg_codec"
  sc_Time :: "gotime msg_codec"
  sc_ValidatorSet :: "'pvs msg_codec"
  sc_ConsensusParams :: "ConsensusParams msg_codec"

definition state_codec_ok :: "'pvs state_codec \<Rightarrow> bool" where
  "state_codec_ok sc \<longleftrightarrow>
     msg_codec_ok (sc_Version sc) \<and> msg_codec_ok (sc_BlockID sc) \<and> msg_codec_ok (sc_Time sc) \<and>
     msg_codec_ok (sc_ValidatorSet sc) \<and> msg_codec_ok (sc_ConsensusParams sc)"

subsection \<open>The message\<close>

record 'pvs pb_State =
  ps_Version :: "tmVersion option"
  ps_ChainId :: gostring
  ps_InitialHeight :: int
  ps_LastBlockHeight :: int
  ps_LastBlockID :: BlockID
  ps_LastBlockTime :: gotime
  ps_SLStateIndex :: u64
  ps_NextValidators :: "'pvs option"
  ps_Validators :: "'pvs option"
  ps_LastValidators :: "'pvs option"
  ps_LastHeightValidatorsChanged :: int
  ps_ConsensusParams :: ConsensusParams
  ps_LastHeightConsensusParamsChanged :: int
  ps_LastResultsHash :: bytes
  ps_AppHash :: bytes
  ps_LastStoreHeight :: u64
  ps_BaseHeight :: u64

definition zero_pb_State :: "'pvs state_codec \<Rightarrow> 'pvs pb_State" where
  "zero_pb_State sc =
     \<lparr>ps_Version = None, ps_ChainId = [], ps_InitialHeight = 0, ps_LastBlockHeight = 0,
      ps_LastBlockID = mc_zero (sc_BlockID sc), ps_LastBlockTime = mc_zero (sc_Time sc),
      ps_SLStateIndex = 0, ps_NextValidators = None, ps_Validators = None,
      ps_LastValidators = None, ps_LastHeightValidatorsChanged = 0,
      ps_ConsensusParams = mc_zero (sc_ConsensusParams sc),
      ps_LastHeightConsensusParamsChanged = 0, ps_LastResultsHash = [], ps_AppHash = [],
      ps_LastStoreHeight = 0, ps_BaseHeight = 0\<rparr>"

subsection \<open>\<open>Size\<close> and \<open>Marshal\<close>\<close>

definition State_Size :: "'pvs state_codec \<Rightarrow> 'pvs pb_State \<Rightarrow> nat" where
  "State_Size sc m =
     size_message_opt (mc_Size (sc_Version sc)) (ps_Version m) +
     size_bytes_field (ps_ChainId m) +
     size_uint_field (uint64_of (ps_InitialHeight m)) +
     size_uint_field (uint64_of (ps_LastBlockHeight m)) +
     size_delimited (mc_Size (sc_BlockID sc) (ps_LastBlockID m)) +
     size_delimited (mc_Size (sc_Time sc) (ps_LastBlockTime m)) +
     size_uint_field (ps_SLStateIndex m) +
     size_message_opt (mc_Size (sc_ValidatorSet sc)) (ps_NextValidators m) +
     size_message_opt (mc_Size (sc_ValidatorSet sc)) (ps_Validators m) +
     size_message_opt (mc_Size (sc_ValidatorSet sc)) (ps_LastValidators m) +
     size_uint_field (uint64_of (ps_LastHeightValidatorsChanged m)) +
     size_delimited (mc_Size (sc_ConsensusParams sc) (ps_ConsensusParams m)) +
     size_uint_field (uint64_of (ps_LastHeightConsensusParamsChanged m)) +
     size_bytes_field (ps_LastResultsHash m) +
     size_bytes_field (ps_AppHash m) +
     size_uint_field2 (ps_LastStoreHeight m) +
     size_uint_field2 (ps_BaseHeight m)"

definition State_MarshalToSizedBuffer ::
  "'pvs state_codec \<Rightarrow> 'pvs pb_State \<Rightarrow> wbuf \<Rightarrow> wbuf outcome" where
  "State_MarshalToSizedBuffer sc m =
     run_writers
       [put_uint_field2 0x88 0x1 (ps_BaseHeight m),
        put_uint_field2 0x80 0x1 (ps_LastStoreHeight m),
        put_bytes_field 0x7a (ps_AppHash m),
        put_bytes_field 0x72 (ps_LastResultsHash m),
        put_uint_field 0x68 (uint64_of (ps_LastHeightConsensusParamsChanged m)),
        put_message 0x62
          (put_external (mc_Marshal (sc_ConsensusParams sc)) (ps_ConsensusParams m)),
        put_uint_field 0x58 (uint64_of (ps_LastHeightValidatorsChanged m)),
        put_message_opt 0x52 (put_external (mc_Marshal (sc_ValidatorSet sc)))
          (ps_LastValidators m),
        put_message_opt 0x4a (put_external (mc_Marshal (sc_ValidatorSet sc))) (ps_Validators m),
        put_message_opt 0x42 (put_external (mc_Marshal (sc_ValidatorSet sc)))
          (ps_NextValidators m),
        put_uint_field 0x38 (ps_SLStateIndex m),
        put_message 0x32 (put_external (mc_Marshal (sc_Time sc)) (ps_LastBlockTime m)),
        put_message 0x2a (put_external (mc_Marshal (sc_BlockID sc)) (ps_LastBlockID m)),
        put_uint_field 0x20 (uint64_of (ps_LastBlockHeight m)),
        put_uint_field 0x18 (uint64_of (ps_InitialHeight m)),
        put_bytes_field 0x12 (ps_ChainId m),
        put_message_opt 0xa (put_external (mc_Marshal (sc_Version sc))) (ps_Version m)]"

definition State_Marshal :: "'pvs state_codec \<Rightarrow> 'pvs pb_State \<Rightarrow> bytes outcome" where
  "State_Marshal sc m = marshal (State_Size sc m) (State_MarshalToSizedBuffer sc m)"

subsection \<open>\<open>Unmarshal\<close>\<close>

definition State_fields_1_4 :: "'pvs state_codec \<Rightarrow> 'pvs pb_State field_reader" where
  "State_fields_1_4 sc fieldNum wireType dAtA iNdEx m =
     (if fieldNum = 1 then
        Some (read_message ''Version'' wireType (\<lambda>bs m.
                bind_out (mc_Unmarshal (sc_Version sc) bs
                            (merge_into (mc_zero (sc_Version sc)) (ps_Version m)))
                  (\<lambda>v. Ok (m\<lparr>ps_Version := Some v\<rparr>))) dAtA iNdEx m)
      else if fieldNum = 2 then
        Some (read_bytes ''ChainId'' wireType (\<lambda>b m. m\<lparr>ps_ChainId := b\<rparr>) dAtA iNdEx m)
      else if fieldNum = 3 then
        Some (read_uint ''InitialHeight'' wireType
                (\<lambda>v m. m\<lparr>ps_InitialHeight := int64_of v\<rparr>) dAtA iNdEx m)
      else if fieldNum = 4 then
        Some (read_uint ''LastBlockHeight'' wireType
                (\<lambda>v m. m\<lparr>ps_LastBlockHeight := int64_of v\<rparr>) dAtA iNdEx m)
      else None)"

definition State_fields_5_8 :: "'pvs state_codec \<Rightarrow> 'pvs pb_State field_reader" where
  "State_fields_5_8 sc fieldNum wireType dAtA iNdEx m =
     (if fieldNum = 5 then
        Some (read_message ''LastBlockID'' wireType (\<lambda>bs m.
                bind_out (mc_Unmarshal (sc_BlockID sc) bs (ps_LastBlockID m))
                  (\<lambda>v. Ok (m\<lparr>ps_LastBlockID := v\<rparr>))) dAtA iNdEx m)
      else if fieldNum = 6 then
        Some (read_message ''LastBlockTime'' wireType (\<lambda>bs m.
                bind_out (mc_Unmarshal (sc_Time sc) bs (ps_LastBlockTime m))
                  (\<lambda>v. Ok (m\<lparr>ps_LastBlockTime := v\<rparr>))) dAtA iNdEx m)
      else if fieldNum = 7 then
        Some (read_uint ''SLStateIndex'' wireType (\<lambda>v m. m\<lparr>ps_SLStateIndex := v\<rparr>) dAtA iNdEx m)
      else if fieldNum = 8 then
        Some (read_message ''NextValidators'' wireType (\<lambda>bs m.
                bind_out (mc_Unmarshal (sc_ValidatorSet sc) bs
                            (merge_into (mc_zero (sc_ValidatorSet sc)) (ps_NextValidators m)))
                  (\<lambda>v. Ok (m\<lparr>ps_NextValidators := Some v\<rparr>))) dAtA iNdEx m)
      else None)"

definition State_fields_9_12 :: "'pvs state_codec \<Rightarrow> 'pvs pb_State field_reader" where
  "State_fields_9_12 sc fieldNum wireType dAtA iNdEx m =
     (if fieldNum = 9 then
        Some (read_message ''Validators'' wireType (\<lambda>bs m.
                bind_out (mc_Unmarshal (sc_ValidatorSet sc) bs
                            (merge_into (mc_zero (sc_ValidatorSet sc)) (ps_Validators m)))
                  (\<lambda>v. Ok (m\<lparr>ps_Validators := Some v\<rparr>))) dAtA iNdEx m)
      else if fieldNum = 10 then
        Some (read_message ''LastValidators'' wireType (\<lambda>bs m.
                bind_out (mc_Unmarshal (sc_ValidatorSet sc) bs
                            (merge_into (mc_zero (sc_ValidatorSet sc)) (ps_LastValidators m)))
                  (\<lambda>v. Ok (m\<lparr>ps_LastValidators := Some v\<rparr>))) dAtA iNdEx m)
      else if fieldNum = 11 then
        Some (read_uint ''LastHeightValidatorsChanged'' wireType
                (\<lambda>v m. m\<lparr>ps_LastHeightValidatorsChanged := int64_of v\<rparr>) dAtA iNdEx m)
      else if fieldNum = 12 then
        Some (read_message ''ConsensusParams'' wireType (\<lambda>bs m.
                bind_out (mc_Unmarshal (sc_ConsensusParams sc) bs (ps_ConsensusParams m))
                  (\<lambda>v. Ok (m\<lparr>ps_ConsensusParams := v\<rparr>))) dAtA iNdEx m)
      else None)"

definition State_fields_13_17 :: "'pvs pb_State field_reader" where
  "State_fields_13_17 fieldNum wireType dAtA iNdEx m =
     (if fieldNum = 13 then
        Some (read_uint ''LastHeightConsensusParamsChanged'' wireType
                (\<lambda>v m. m\<lparr>ps_LastHeightConsensusParamsChanged := int64_of v\<rparr>) dAtA iNdEx m)
      else if fieldNum = 14 then
        Some (read_bytes ''LastResultsHash'' wireType (\<lambda>b m. m\<lparr>ps_LastResultsHash := b\<rparr>)
                dAtA iNdEx m)
      else if fieldNum = 15 then
        Some (read_bytes ''AppHash'' wireType (\<lambda>b m. m\<lparr>ps_AppHash := b\<rparr>) dAtA iNdEx m)
      else if fieldNum = 16 then
        Some (read_uint ''LastStoreHeight'' wireType (\<lambda>v m. m\<lparr>ps_LastStoreHeight := v\<rparr>)
                dAtA iNdEx m)
      else if fieldNum = 17 then
        Some (read_uint ''BaseHeight'' wireType (\<lambda>v m. m\<lparr>ps_BaseHeight := v\<rparr>) dAtA iNdEx m)
      else None)"

definition State_fields :: "'pvs state_codec \<Rightarrow> 'pvs pb_State field_reader" where
  "State_fields sc fieldNum wireType dAtA iNdEx m =
     (if fieldNum \<le> 4 then State_fields_1_4 sc fieldNum wireType dAtA iNdEx m
      else if fieldNum \<le> 8 then State_fields_5_8 sc fieldNum wireType dAtA iNdEx m
      else if fieldNum \<le> 12 then State_fields_9_12 sc fieldNum wireType dAtA iNdEx m
      else State_fields_13_17 fieldNum wireType dAtA iNdEx m)"

definition State_Unmarshal ::
  "'pvs state_codec \<Rightarrow> bytes \<Rightarrow> 'pvs pb_State \<Rightarrow> 'pvs pb_State outcome" where
  "State_Unmarshal sc dAtA m = unmarshal_loop ''proto: State'' (State_fields sc) dAtA 0 m"

subsection \<open>Round trip\<close>

definition enc_State :: "'pvs state_codec \<Rightarrow> 'pvs pb_State \<Rightarrow> bytes" where
  "enc_State sc m =
     field_message_opt 0xa (\<lambda>x. ok_bytes (mc_Marshal (sc_Version sc) x)) (ps_Version m) @
     field_bytes 0x12 (ps_ChainId m) @
     field_uint 0x18 (uint64_of (ps_InitialHeight m)) @
     field_uint 0x20 (uint64_of (ps_LastBlockHeight m)) @
     field_delimited 0x2a (ok_bytes (mc_Marshal (sc_BlockID sc) (ps_LastBlockID m))) @
     field_delimited 0x32 (ok_bytes (mc_Marshal (sc_Time sc) (ps_LastBlockTime m))) @
     field_uint 0x38 (ps_SLStateIndex m) @
     field_message_opt 0x42 (\<lambda>x. ok_bytes (mc_Marshal (sc_ValidatorSet sc) x))
       (ps_NextValidators m) @
     field_message_opt 0x4a (\<lambda>x. ok_bytes (mc_Marshal (sc_ValidatorSet sc) x)) (ps_Validators m) @
     field_message_opt 0x52 (\<lambda>x. ok_bytes (mc_Marshal (sc_ValidatorSet sc) x))
       (ps_LastValidators m) @
     field_uint 0x58 (uint64_of (ps_LastHeightValidatorsChanged m)) @
     field_delimited 0x62 (ok_bytes (mc_Marshal (sc_ConsensusParams sc) (ps_ConsensusParams m))) @
     field_uint 0x68 (uint64_of (ps_LastHeightConsensusParamsChanged m)) @
     field_bytes 0x72 (ps_LastResultsHash m) @
     field_bytes 0x7a (ps_AppHash m) @
     field_uint2 0x80 0x1 (ps_LastStoreHeight m) @
     field_uint2 0x88 0x1 (ps_BaseHeight m)"

definition encodable_State :: "'pvs state_codec \<Rightarrow> 'pvs pb_State \<Rightarrow> bool" where
  "encodable_State sc m \<longleftrightarrow>
     pred_option (\<lambda>x. is_Ok (mc_Marshal (sc_Version sc) x)) (ps_Version m) \<and>
     is_Ok (mc_Marshal (sc_BlockID sc) (ps_LastBlockID m)) \<and>
     is_Ok (mc_Marshal (sc_Time sc) (ps_LastBlockTime m)) \<and>
     pred_option (\<lambda>x. is_Ok (mc_Marshal (sc_ValidatorSet sc) x)) (ps_NextValidators m) \<and>
     pred_option (\<lambda>x. is_Ok (mc_Marshal (sc_ValidatorSet sc) x)) (ps_Validators m) \<and>
     pred_option (\<lambda>x. is_Ok (mc_Marshal (sc_ValidatorSet sc) x)) (ps_LastValidators m) \<and>
     is_Ok (mc_Marshal (sc_ConsensusParams sc) (ps_ConsensusParams m))"

text \<open>The \<open>int64\<close> fields are in range.\<close>

definition wf_pb_State :: "'pvs pb_State \<Rightarrow> bool" where
  "wf_pb_State m \<longleftrightarrow>
     in_i64 (ps_InitialHeight m) \<and> in_i64 (ps_LastBlockHeight m) \<and>
     in_i64 (ps_LastHeightValidatorsChanged m) \<and>
     in_i64 (ps_LastHeightConsensusParamsChanged m)"

lemma int64_of_uint64_of [simp]: "in_i64 x \<Longrightarrow> int64_of (uint64_of x) = x"
  by (simp add: int64_of_def uint64_of_def in_i64_def sint_sbintrunc' signed_take_bit_int_eq_self)

lemma msg_codec_okD:
  assumes "msg_codec_ok mc" and "is_Ok (mc_Marshal mc x)"
  shows "length (ok_bytes (mc_Marshal mc x)) = mc_Size mc x"
    and "mc_Unmarshal mc (ok_bytes (mc_Marshal mc x)) (mc_zero mc) = Ok x"
  using assms by (auto simp: msg_codec_ok_def is_Ok_iff)

lemma emits_State:
  "encodable_State sc m \<Longrightarrow> emits (State_MarshalToSizedBuffer sc m) (enc_State sc m)"
  unfolding State_MarshalToSizedBuffer_def enc_State_def encodable_State_def
  by (rule emits_rules emits_put_uint_field2 emits_put_message | simp)+

lemma length_enc_State:
  assumes "state_codec_ok sc" and "encodable_State sc m"
  shows "length (enc_State sc m) = State_Size sc m"
proof -
  have opt: "length (field_message_opt tag (\<lambda>x. ok_bytes (mc_Marshal mc x)) y) =
      size_message_opt (mc_Size mc) y"
    if "msg_codec_ok mc" and "pred_option (\<lambda>x. is_Ok (mc_Marshal mc x)) y"
    for tag y and mc :: "'b msg_codec"
    using that by (intro length_field_message_opt) (auto simp: msg_codec_okD)
  show ?thesis
    using assms by (simp add: enc_State_def State_Size_def opt state_codec_ok_def
        encodable_State_def msg_codec_okD)
qed

lemma State_Marshal_enc:
  "state_codec_ok sc \<Longrightarrow> encodable_State sc m \<Longrightarrow> State_Marshal sc m = Ok (enc_State sc m)"
  unfolding State_Marshal_def by (rule marshal_emits) (simp_all add: emits_State length_enc_State)

lemma forward_State: "forward (State_fields sc)"
  unfolding forward_def State_fields_def State_fields_1_4_def State_fields_5_8_def
    State_fields_9_12_def State_fields_13_17_def
  by (simp split: if_split) (auto dest: forward_cases)

lemma State_fields_eqs:
  "State_fields sc 1 2 = (\<lambda>d i m. Some (read_message ''Version'' 2 (\<lambda>bs m.
     bind_out (mc_Unmarshal (sc_Version sc) bs (merge_into (mc_zero (sc_Version sc)) (ps_Version m)))
       (\<lambda>v. Ok (m\<lparr>ps_Version := Some v\<rparr>))) d i m))"
  "State_fields sc 2 2 = (\<lambda>d i m. Some (read_bytes ''ChainId'' 2 (\<lambda>b m. m\<lparr>ps_ChainId := b\<rparr>) d i m))"
  "State_fields sc 3 0 = (\<lambda>d i m. Some (read_uint ''InitialHeight'' 0
     (\<lambda>v m. m\<lparr>ps_InitialHeight := int64_of v\<rparr>) d i m))"
  "State_fields sc 4 0 = (\<lambda>d i m. Some (read_uint ''LastBlockHeight'' 0
     (\<lambda>v m. m\<lparr>ps_LastBlockHeight := int64_of v\<rparr>) d i m))"
  "State_fields sc 5 2 = (\<lambda>d i m. Some (read_message ''LastBlockID'' 2 (\<lambda>bs m.
     bind_out (mc_Unmarshal (sc_BlockID sc) bs (ps_LastBlockID m))
       (\<lambda>v. Ok (m\<lparr>ps_LastBlockID := v\<rparr>))) d i m))"
  "State_fields sc 6 2 = (\<lambda>d i m. Some (read_message ''LastBlockTime'' 2 (\<lambda>bs m.
     bind_out (mc_Unmarshal (sc_Time sc) bs (ps_LastBlockTime m))
       (\<lambda>v. Ok (m\<lparr>ps_LastBlockTime := v\<rparr>))) d i m))"
  "State_fields sc 7 0 = (\<lambda>d i m. Some (read_uint ''SLStateIndex'' 0
     (\<lambda>v m. m\<lparr>ps_SLStateIndex := v\<rparr>) d i m))"
  "State_fields sc 8 2 = (\<lambda>d i m. Some (read_message ''NextValidators'' 2 (\<lambda>bs m.
     bind_out (mc_Unmarshal (sc_ValidatorSet sc) bs
         (merge_into (mc_zero (sc_ValidatorSet sc)) (ps_NextValidators m)))
       (\<lambda>v. Ok (m\<lparr>ps_NextValidators := Some v\<rparr>))) d i m))"
  "State_fields sc 9 2 = (\<lambda>d i m. Some (read_message ''Validators'' 2 (\<lambda>bs m.
     bind_out (mc_Unmarshal (sc_ValidatorSet sc) bs
         (merge_into (mc_zero (sc_ValidatorSet sc)) (ps_Validators m)))
       (\<lambda>v. Ok (m\<lparr>ps_Validators := Some v\<rparr>))) d i m))"
  "State_fields sc 10 2 = (\<lambda>d i m. Some (read_message ''LastValidators'' 2 (\<lambda>bs m.
     bind_out (mc_Unmarshal (sc_ValidatorSet sc) bs
         (merge_into (mc_zero (sc_ValidatorSet sc)) (ps_LastValidators m)))
       (\<lambda>v. Ok (m\<lparr>ps_LastValidators := Some v\<rparr>))) d i m))"
  "State_fields sc 11 0 = (\<lambda>d i m. Some (read_uint ''LastHeightValidatorsChanged'' 0
     (\<lambda>v m. m\<lparr>ps_LastHeightValidatorsChanged := int64_of v\<rparr>) d i m))"
  "State_fields sc 12 2 = (\<lambda>d i m. Some (read_message ''ConsensusParams'' 2 (\<lambda>bs m.
     bind_out (mc_Unmarshal (sc_ConsensusParams sc) bs (ps_ConsensusParams m))
       (\<lambda>v. Ok (m\<lparr>ps_ConsensusParams := v\<rparr>))) d i m))"
  "State_fields sc 13 0 = (\<lambda>d i m. Some (read_uint ''LastHeightConsensusParamsChanged'' 0
     (\<lambda>v m. m\<lparr>ps_LastHeightConsensusParamsChanged := int64_of v\<rparr>) d i m))"
  "State_fields sc 14 2 = (\<lambda>d i m. Some (read_bytes ''LastResultsHash'' 2
     (\<lambda>b m. m\<lparr>ps_LastResultsHash := b\<rparr>) d i m))"
  "State_fields sc 15 2 = (\<lambda>d i m. Some (read_bytes ''AppHash'' 2
     (\<lambda>b m. m\<lparr>ps_AppHash := b\<rparr>) d i m))"
  "State_fields sc 16 0 = (\<lambda>d i m. Some (read_uint ''LastStoreHeight'' 0
     (\<lambda>v m. m\<lparr>ps_LastStoreHeight := v\<rparr>) d i m))"
  "State_fields sc 17 0 = (\<lambda>d i m. Some (read_uint ''BaseHeight'' 0
     (\<lambda>v m. m\<lparr>ps_BaseHeight := v\<rparr>) d i m))"
  by (simp_all add: State_fields_def State_fields_1_4_def State_fields_5_8_def
      State_fields_9_12_def State_fields_13_17_def fun_eq_iff)

lemma tags2: "is_tag2 0x80 0x1 16" "is_tag2 0x88 0x1 17"
  by (simp_all add: is_tag2_def varint.simps word_le_nat_alt)

lemma uint64_of_0: "in_i64 x \<Longrightarrow> uint64_of x = 0 \<Longrightarrow> x = 0"
  using int64_of_uint64_of [of x] by (simp add: int64_of_def)

lemma int64_of_0 [simp]: "int64_of 0 = 0"
  by (simp add: int64_of_def)

lemma State_Unmarshal_enc:
  assumes "state_codec_ok sc" and "encodable_State sc m" and "wf_pb_State m"
    and "length (enc_State sc m) < 2 ^ 63"
  shows "State_Unmarshal sc (enc_State sc m) (zero_pb_State sc) = Ok m"
proof -
  note F = forward_State [of sc] and E = State_fields_eqs [of sc] and Z = zero_pb_State_def [of sc]
  have enc: "ps_Version m = Some v \<Longrightarrow> is_Ok (mc_Marshal (sc_Version sc) v)"
    "ps_NextValidators m = Some w \<Longrightarrow> is_Ok (mc_Marshal (sc_ValidatorSet sc) w)"
    "ps_Validators m = Some w \<Longrightarrow> is_Ok (mc_Marshal (sc_ValidatorSet sc) w)"
    "ps_LastValidators m = Some w \<Longrightarrow> is_Ok (mc_Marshal (sc_ValidatorSet sc) w)" for v w
    using assms(2) by (auto simp: encodable_State_def)
  have ok: "msg_codec_ok (sc_Version sc)" "msg_codec_ok (sc_BlockID sc)" "msg_codec_ok (sc_Time sc)"
    "msg_codec_ok (sc_ValidatorSet sc)" "msg_codec_ok (sc_ConsensusParams sc)"
    using assms(1) by (simp_all add: state_codec_ok_def)
  have req: "is_Ok (mc_Marshal (sc_BlockID sc) (ps_LastBlockID m))"
    "is_Ok (mc_Marshal (sc_Time sc) (ps_LastBlockTime m))"
    "is_Ok (mc_Marshal (sc_ConsensusParams sc) (ps_ConsensusParams m))"
    using assms(2) by (simp_all add: encodable_State_def)
  note D = msg_codec_okD(2)
  have "consumes ''proto: State'' (State_fields sc) (enc_State sc m @ []) (zero_pb_State sc) m"
    unfolding enc_State_def append.assoc
    by (rule consumes_option_step [where s = "\<lambda>x m. m\<lparr>ps_Version := x\<rparr>" and g = ps_Version,
            OF F tags(5) E(1)], simp add: Z, erule D [OF ok(1) enc(1)], simp add: Z,
        rule consumes_bytes_step [OF F tags(6) E(2)], simp add: Z,
        rule consumes_uint_step [OF F tags(3) E(3)], simp add: Z,
        rule consumes_uint_step [OF F tags(4) E(4)], simp add: Z,
        rule consumes_present_step [where s = "\<lambda>x m. m\<lparr>ps_LastBlockID := x\<rparr>" and g = ps_LastBlockID
            and y = "ps_LastBlockID m", OF F tags(9) E(5)], simp add: Z D ok req,
        rule consumes_present_step [where s = "\<lambda>x m. m\<lparr>ps_LastBlockTime := x\<rparr>"
            and g = ps_LastBlockTime and y = "ps_LastBlockTime m", OF F tags(10) E(6)],
          simp add: Z D ok req,
        rule consumes_uint_step [OF F tags(20) E(7)], simp add: Z,
        rule consumes_option_step [where s = "\<lambda>x m. m\<lparr>ps_NextValidators := x\<rparr>"
            and g = ps_NextValidators, OF F tags(12) E(8)],
          simp add: Z, erule D [OF ok(4) enc(2)], simp add: Z,
        rule consumes_option_step [where s = "\<lambda>x m. m\<lparr>ps_Validators := x\<rparr>"
            and g = ps_Validators, OF F tags(13) E(9)],
          simp add: Z, erule D [OF ok(4) enc(3)], simp add: Z,
        rule consumes_option_step [where s = "\<lambda>x m. m\<lparr>ps_LastValidators := x\<rparr>"
            and g = ps_LastValidators, OF F tags(14) E(10)],
          simp add: Z, erule D [OF ok(4) enc(4)], simp add: Z,
        rule consumes_uint_step [OF F tags(21) E(11)], simp add: Z,
        rule consumes_present_step [where s = "\<lambda>x m. m\<lparr>ps_ConsensusParams := x\<rparr>"
            and g = ps_ConsensusParams and y = "ps_ConsensusParams m", OF F tags(16) E(12)],
          simp add: Z D ok req,
        rule consumes_uint_step [OF F tags(22) E(13)], simp add: Z,
        rule consumes_bytes_step [OF F tags(18) E(14)], simp add: Z,
        rule consumes_bytes_step [OF F tags(19) E(15)], simp add: Z,
        rule consumes_uint2_step [OF F tags2(1) E(16)], simp add: Z,
        rule consumes_uint2_step [OF F tags2(2) E(17)], simp add: Z)
       (rule consumes_end, use assms(3) in \<open>simp add: Z wf_pb_State_def\<close>)
  then show ?thesis
    unfolding State_Unmarshal_def append_Nil2 by (rule consumes_unmarshal [OF _ assms(4)])
qed

subsection \<open>Validator sets\<close>

text \<open>
  Tendermint's \<open>ValidatorSet\<close>, as the operations dymint calls on it (\<open>Copy\<close> is the identity on
  values), and the validation of a decoded block id. \<open>vs_FromProto\<close> takes the pointer in the
  message.
\<close>

record Validator =
  val_PubKey :: bytes
  val_VotingPower :: int

record ('vs, 'pvs) vset =
  vs_New :: "Validator list \<Rightarrow> 'vs"
  vs_IsEmpty :: "'vs \<Rightarrow> bool"
  vs_Hash :: "'vs \<Rightarrow> bytes"
  vs_UpdateWithChangeSet :: "'vs \<Rightarrow> Validator list \<Rightarrow> 'vs outcome"
  vs_IncrementProposerPriority :: "'vs \<Rightarrow> int \<Rightarrow> 'vs"
  vs_ToProto :: "'vs \<Rightarrow> 'pvs outcome"
  vs_FromProto :: "'pvs option \<Rightarrow> 'vs outcome"
  bid_FromProto :: "BlockID \<Rightarrow> BlockID outcome"

subsection \<open>\<open>State.ToProto\<close> and \<open>State.FromProto\<close>\<close>

definition State_ToProto :: "('vs, 'pvs) vset \<Rightarrow> 'vs State \<Rightarrow> 'pvs pb_State outcome" where
  "State_ToProto vs s =
     bind_out (vs_ToProto vs (s_NextValidators s)) (\<lambda>nextValidators.
     bind_out (vs_ToProto vs (s_Validators s)) (\<lambda>validators.
     bind_out (vs_ToProto vs (s_LastValidators s)) (\<lambda>lastValidators.
     Ok \<lparr>ps_Version = Some (s_Version s), ps_ChainId = s_ChainID s,
         ps_InitialHeight = s_InitialHeight s, ps_LastBlockHeight = s_LastBlockHeight s,
         ps_LastBlockID = s_LastBlockID s, ps_LastBlockTime = s_LastBlockTime s,
         ps_SLStateIndex = s_SLStateIndex s, ps_NextValidators = Some nextValidators,
         ps_Validators = Some validators, ps_LastValidators = Some lastValidators,
         ps_LastHeightValidatorsChanged = s_LastHeightValidatorsChanged s,
         ps_ConsensusParams = s_ConsensusParams s,
         ps_LastHeightConsensusParamsChanged = s_LastHeightConsensusParamsChanged s,
         ps_LastResultsHash = s_LastResultsHash s, ps_AppHash = s_AppHash s,
         ps_LastStoreHeight = s_LastStoreHeight s, ps_BaseHeight = s_BaseHeight s\<rparr>)))"

text \<open>
  The receiver of \<open>FromProto\<close> is a zero \<open>State\<close> at its only call, so the two \<open>copy\<close>s go into zero
  arrays.
\<close>

definition State_FromProto :: "('vs, 'pvs) vset \<Rightarrow> 'pvs pb_State \<Rightarrow> 'vs State outcome" where
  "State_FromProto vs other =
     (case ps_Version other of
        None \<Rightarrow> Panic ''nil pointer dereference''
      | Some version \<Rightarrow>
          bind_out (bid_FromProto vs (ps_LastBlockID other)) (\<lambda>lastBlockID.
          bind_out (vs_FromProto vs (ps_NextValidators other)) (\<lambda>nextValidators.
          bind_out (vs_FromProto vs (ps_Validators other)) (\<lambda>validators.
          bind_out (vs_FromProto vs (ps_LastValidators other)) (\<lambda>lastValidators.
          Ok \<lparr>s_Version = version, s_ChainID = ps_ChainId other,
              s_InitialHeight = ps_InitialHeight other,
              s_LastBlockHeight = ps_LastBlockHeight other,
              s_LastBlockID = lastBlockID, s_LastBlockTime = ps_LastBlockTime other,
              s_SLStateIndex = ps_SLStateIndex other, s_NextValidators = nextValidators,
              s_Validators = validators, s_LastValidators = lastValidators,
              s_LastHeightValidatorsChanged = ps_LastHeightValidatorsChanged other,
              s_ConsensusParams = ps_ConsensusParams other,
              s_LastHeightConsensusParamsChanged = ps_LastHeightConsensusParamsChanged other,
              s_LastResultsHash = go_copy (zero_bytes 32) (ps_LastResultsHash other),
              s_LastStoreHeight =
                (if ps_LastStoreHeight other = 0 \<and> ps_LastBlockHeight other > 1
                 then uint64_of (ps_LastBlockHeight other) else ps_LastStoreHeight other),
              s_BaseHeight = ps_BaseHeight other,
              s_AppHash = go_copy (zero_bytes 32) (ps_AppHash other)\<rparr>)))))"

text \<open>States whose array and \<open>int64\<close> fields are well-formed.\<close>

definition wf_State :: "'vs State \<Rightarrow> bool" where
  "wf_State s \<longleftrightarrow>
     length (s_AppHash s) = 32 \<and> length (s_LastResultsHash s) = 32 \<and>
     in_i64 (s_InitialHeight s) \<and> in_i64 (s_LastBlockHeight s) \<and>
     in_i64 (s_LastHeightValidatorsChanged s) \<and> in_i64 (s_LastHeightConsensusParamsChanged s)"

text \<open>
  A state that survives a round trip through its protobuf form: its validator sets and block id
  convert both ways, and it is not one that the backwards-compatibility branch changes.
\<close>

definition vset_round_trip :: "('vs, 'pvs) vset \<Rightarrow> 'vs \<Rightarrow> bool" where
  "vset_round_trip vs v \<longleftrightarrow>
     (case vs_ToProto vs v of Ok p \<Rightarrow> vs_FromProto vs (Some p) = Ok v | _ \<Rightarrow> False)"

definition storable_State :: "('vs, 'pvs) vset \<Rightarrow> 'vs State \<Rightarrow> bool" where
  "storable_State vs s \<longleftrightarrow>
     wf_State s \<and> vset_round_trip vs (s_NextValidators s) \<and> vset_round_trip vs (s_Validators s) \<and>
     vset_round_trip vs (s_LastValidators s) \<and> bid_FromProto vs (s_LastBlockID s) = Ok (s_LastBlockID s) \<and>
     (s_LastStoreHeight s = 0 \<longrightarrow> s_LastBlockHeight s \<le> 1)"

lemma State_ToProto_FromProto:
  assumes "storable_State vs s"
  shows "\<exists>p. State_ToProto vs s = Ok p \<and> State_FromProto vs p = Ok s \<and> wf_pb_State p"
proof -
  obtain n v l where p: "vs_ToProto vs (s_NextValidators s) = Ok n"
    "vs_ToProto vs (s_Validators s) = Ok v" "vs_ToProto vs (s_LastValidators s) = Ok l"
    "vs_FromProto vs (Some n) = Ok (s_NextValidators s)"
    "vs_FromProto vs (Some v) = Ok (s_Validators s)"
    "vs_FromProto vs (Some l) = Ok (s_LastValidators s)"
    using assms by (auto simp: storable_State_def vset_round_trip_def split: outcome.splits)
  have w: "\<not> (s_LastStoreHeight s = 0 \<and> s_LastBlockHeight s > 1)"
    using assms by (auto simp: storable_State_def)
  show ?thesis
    using assms p w
    by (cases s) (auto simp: State_ToProto_def State_FromProto_def storable_State_def wf_State_def
        wf_pb_State_def)
qed

subsection \<open>Instances of the external codecs\<close>

definition table_msg_codec :: "'a list \<Rightarrow> 'a \<Rightarrow> 'a msg_codec" where
  "table_msg_codec tbl z =
     \<lparr>mc_Size = (\<lambda>_. 1), mc_Marshal = table_Marshal tbl, mc_Unmarshal = table_Unmarshal tbl,
      mc_zero = z\<rparr>"

lemma table_msg_codec_ok: "msg_codec_ok (table_msg_codec tbl z)"
  by (auto simp: msg_codec_ok_def table_msg_codec_def table_round_trip)

end
