(* ===== verification/Abci.thy ===== *)
theory Abci
  imports StateWire
begin

text \<open>
  The application behind ABCI, as dymint sees it: the messages of
  \<open>src/proto/types/tendermint/abci/types.proto\<close> that the modelled code reads, and the calls of the
  consensus, query and mempool connections. The application is not part of the repository: its
  calls are the fields of the record \<open>abci_app\<close> over an arbitrary type of application states.
\<close>

record EventAttribute =
  ea_Key :: bytes
  ea_Value :: bytes
  ea_Index :: bool

record Event =
  e_Type :: gostring
  e_Attributes :: "EventAttribute list"

record ResponseDeliverTx =
  dt_Code :: u32
  dt_Data :: bytes
  dt_Log :: gostring
  dt_Info :: gostring
  dt_GasWanted :: int
  dt_GasUsed :: int
  dt_Events :: "Event list"
  dt_Codespace :: gostring

record ResponseCheckTx =
  ct_Code :: u32
  ct_GasWanted :: int
  ct_Sender :: gostring
  ct_Priority :: int
  ct_MempoolError :: gostring

record abciConsensusParams =
  acp_Block :: "(int \<times> int) option"
  acp_Evidence :: "(int \<times> int \<times> int) option"
  acp_Validator :: "gostring list option"
  acp_Version :: "u64 option"

record ResponseEndBlock =
  eb_ValidatorUpdates :: "Validator list"
  eb_ConsensusParamUpdates :: "abciConsensusParams option"
  eb_Events :: "Event list"

record ABCIResponses =
  ar_DeliverTxs :: "ResponseDeliverTx list"
  ar_EndBlock :: "ResponseEndBlock option"
  ar_BeginBlock :: "Event list option"

record ResponseInfo =
  ri_LastBlockHeight :: int
  ri_LastBlockAppHash :: bytes

record ResponseInitChain =
  ric_ConsensusParams :: "abciConsensusParams option"
  ric_AppHash :: bytes

record ResponseCommit =
  rc_Data :: bytes
  rc_RetainHeight :: int

record RequestBeginBlock =
  rbb_Hash :: bytes
  rbb_Header :: tmHeader

record RequestInitChain =
  rqi_Time :: gotime
  rqi_ChainId :: gostring
  rqi_ConsensusParams :: abciConsensusParams
  rqi_Validators :: "Validator list"
  rqi_AppStateBytes :: bytes
  rqi_InitialHeight :: int

text \<open>
  The calls. \<open>app_DeliverTx\<close> is \<open>DeliverTxAsync\<close> with its response delivered to the callback, an
  exception being an error. \<open>app_Restart\<close> is what a new process of the application starts from.
\<close>

record 'app abci_app =
  app_Info :: "'app \<Rightarrow> ResponseInfo outcome"
  app_InitChain :: "RequestInitChain \<Rightarrow> ('app, ResponseInitChain) cmd"
  app_BeginBlock :: "RequestBeginBlock \<Rightarrow> ('app, Event list) cmd"
  app_DeliverTx :: "Tx \<Rightarrow> ('app, ResponseDeliverTx) cmd"
  app_EndBlock :: "int \<Rightarrow> ('app, ResponseEndBlock) cmd"
  app_Commit :: "('app, ResponseCommit) cmd"
  app_Restart :: "'app \<Rightarrow> 'app"

end
