(* ===== verification/Store.thy ===== *)
theory Store
  imports KVStore Serialization StateWire Abci
begin

text \<open>
  The block store \<open>DefaultStore\<close> of \<open>src/store/store.go\<close> and its pruning (\<open>pruning.go\<close>): blocks and
  commits by header hash, an index from heights to hashes, responses and validator sets by height,
  and the one chain state, in a key-value store under one-byte prefixes; the height and base
  height are in memory. The lemmas are proved in the locale \<open>kv_store\<close>, for every store that
  satisfies the \<open>KVStore\<close> contract.
\<close>

subsection \<open>The store and what it depends on\<close>

record 'db DefaultStore =
  st_db :: 'db
  st_height :: u64
  st_baseHeight :: u64

text \<open>The tendermint functions and codecs the store calls.\<close>

record ('vs, 'pvs) store_env =
  se_tm :: tm_funs
  se_codec :: codec
  se_sc :: "'pvs state_codec"
  se_vs :: "('vs, 'pvs) vset"
  se_responses :: "ABCIResponses msg_codec"

definition on_db :: "('db, 'a) cmd \<Rightarrow> ('db DefaultStore, 'a) cmd" where
  "on_db c s = (case c (st_db s) of (r, db) \<Rightarrow> (r, s\<lparr>st_db := db\<rparr>))"

definition lift_out :: "('s \<Rightarrow> 'a outcome) \<Rightarrow> ('s, 'a) cmd" where
  "lift_out f s = (f s, s)"

definition New_store :: "'db \<Rightarrow> 'db DefaultStore" where
  "New_store db = \<lparr>st_db = db, st_height = 0, st_baseHeight = 0\<rparr>"

definition SetHeight :: "u64 \<Rightarrow> 'db DefaultStore \<Rightarrow> 'db DefaultStore" where
  "SetHeight height s = (if height > st_height s then s\<lparr>st_height := height\<rparr> else s)"

definition SetBase :: "u64 \<Rightarrow> 'db DefaultStore \<Rightarrow> 'db DefaultStore" where
  "SetBase height s = (if height > st_baseHeight s then s\<lparr>st_baseHeight := height\<rparr> else s)"

lemma SetBase_simps [simp]:
  "st_db (SetBase b s) = st_db s" "st_height (SetBase b s) = st_height s"
  "st_baseHeight (SetBase b s) = max b (st_baseHeight s)"
  by (auto simp: SetBase_def max_def not_less not_le)

subsection \<open>Keys\<close>

definition getBlockKey :: "bytes \<Rightarrow> bytes" where
  "getBlockKey hash = 1 # hash"

definition getCommitKey :: "bytes \<Rightarrow> bytes" where
  "getCommitKey hash = 3 # hash"

definition getIndexKey :: "u64 \<Rightarrow> bytes" where
  "getIndexKey height = 2 # PutUint64 height"

definition getStateKey :: bytes where
  "getStateKey = [4]"

definition getResponsesKey :: "u64 \<Rightarrow> bytes" where
  "getResponsesKey height = 5 # PutUint64 height"

definition getValidatorsKey :: "u64 \<Rightarrow> bytes" where
  "getValidatorsKey height = 6 # PutUint64 height"

lemmas key_defs = getBlockKey_def getCommitKey_def getIndexKey_def getStateKey_def
  getResponsesKey_def getValidatorsKey_def

subsection \<open>Blocks and commits\<close>

text \<open>
  A row of \<open>err = multierr.Append(err, batch.Set(key, val))\<close>: every write is tried, and the errors
  are collected.
\<close>

fun batch_sets :: "'db KVStore \<Rightarrow> 'db \<Rightarrow> kv_write list \<Rightarrow> (bytes \<times> bytes) list \<Rightarrow>
    (kv_write list \<times> error list) outcome" where
  "batch_sets kv db b [] = Ok (b, [])"
| "batch_sets kv db b ((k, v) # kvs) =
     (case batch_Set kv db b k v of
        Ok b' \<Rightarrow> batch_sets kv db b' kvs
      | Err e \<Rightarrow> bind_out (batch_sets kv db b kvs) (\<lambda>(b', es). Ok (b', e # es))
      | Panic p \<Rightarrow> Panic p)"

definition SaveBlock ::
  "('vs, 'pvs) store_env \<Rightarrow> 'db KVStore \<Rightarrow> Block \<Rightarrow> Commit \<Rightarrow> kv_write list option \<Rightarrow>
     ('db DefaultStore, kv_write list) cmd" where
  "SaveBlock E kv block commit batch s =
     (let hash = Header_Hash (se_tm E) (b_Header block) in
      case Block_MarshalBinary (se_codec E) block of
        Err e \<Rightarrow> (Err (Wrapf ''failed to marshal Block to binary'' e), s)
      | Panic p \<Rightarrow> (Panic p, s)
      | Ok blockBlob \<Rightarrow>
          (case Commit_MarshalBinary (se_codec E) commit of
             Err e \<Rightarrow> (Err (Wrapf ''failed to marshal Commit to binary'' e), s)
           | Panic p \<Rightarrow> (Panic p, s)
           | Ok commitBlob \<Rightarrow>
               let kvs = [(getBlockKey hash, blockBlob), (getCommitKey hash, commitBlob),
                          (getIndexKey (h_Height (b_Header block)), hash)] in
               (case batch of
                  Some b \<Rightarrow>
                    (case batch_sets kv (st_db s) b kvs of
                       Ok (b', []) \<Rightarrow> (Ok b', s)
                     | Ok (b', e # es) \<Rightarrow> (Err (ErrMulti (e # es)), s)
                     | Err e \<Rightarrow> (Err e, s)
                     | Panic p \<Rightarrow> (Panic p, s))
                | None \<Rightarrow>
                    (case batch_sets kv (st_db s) (kv_NewBatch kv) kvs of
                       Ok (bb, []) \<Rightarrow>
                         (case on_db (batch_Commit kv bb) s of
                            (Ok _, s') \<Rightarrow> (Ok bb, s')
                          | (Err e, s') \<Rightarrow> (Err (Wrapf ''failed to commit db batch'' e), s')
                          | (Panic p, s') \<Rightarrow> (Panic p, s'))
                     | Ok (bb, e # es) \<Rightarrow>
                         (Err (Wrapf ''failed to create db batch'' (ErrMulti (e # es))), s)
                     | Err e \<Rightarrow> (Err e, s)
                     | Panic p \<Rightarrow> (Panic p, s)))))"

definition loadHashFromIndex :: "'db KVStore \<Rightarrow> 'db DefaultStore \<Rightarrow> u64 \<Rightarrow> bytes outcome" where
  "loadHashFromIndex kv s height =
     (case kv_Get kv (st_db s) (getIndexKey height) of
        Err e \<Rightarrow> Err (Wrapf ''failed to load block hash'' e)
      | Panic p \<Rightarrow> Panic p
      | Ok blob \<Rightarrow>
          if length blob \<noteq> 32 then Err (Errorf ''invalid hash length'')
          else Ok (go_copy (zero_bytes 32) blob))"

definition LoadBlockByHash ::
  "('vs, 'pvs) store_env \<Rightarrow> 'db KVStore \<Rightarrow> 'db DefaultStore \<Rightarrow> bytes \<Rightarrow> Block outcome" where
  "LoadBlockByHash E kv s hash =
     bind_out (wrap_err ''failed to load block data'' (kv_Get kv (st_db s) (getBlockKey hash)))
       (\<lambda>blockData. wrap_err ''failed to unmarshal block data''
          (Block_UnmarshalBinary (se_codec E) blockData zero_Block))"

definition LoadBlock ::
  "('vs, 'pvs) store_env \<Rightarrow> 'db KVStore \<Rightarrow> 'db DefaultStore \<Rightarrow> u64 \<Rightarrow> Block outcome" where
  "LoadBlock E kv s height =
     bind_out (wrap_err ''failed to load hash from index'' (loadHashFromIndex kv s height))
       (LoadBlockByHash E kv s)"

definition LoadCommitByHash ::
  "('vs, 'pvs) store_env \<Rightarrow> 'db KVStore \<Rightarrow> 'db DefaultStore \<Rightarrow> bytes \<Rightarrow> Commit outcome" where
  "LoadCommitByHash E kv s hash =
     bind_out (wrap_err ''failed to retrieve commit from hash''
         (kv_Get kv (st_db s) (getCommitKey hash)))
       (\<lambda>commitData. wrap_err ''failed to marshal Commit into object''
          (Commit_UnmarshalBinary (se_codec E) commitData zero_Commit))"

definition LoadCommit ::
  "('vs, 'pvs) store_env \<Rightarrow> 'db KVStore \<Rightarrow> 'db DefaultStore \<Rightarrow> u64 \<Rightarrow> Commit outcome" where
  "LoadCommit E kv s height =
     bind_out (wrap_err ''failed to load hash from index'' (loadHashFromIndex kv s height))
       (LoadCommitByHash E kv s)"

subsection \<open>Responses, state and validators\<close>

text \<open>The tail of the three savers: into the given batch, or straight into the store.\<close>

definition save_key ::
  "'db KVStore \<Rightarrow> bytes \<Rightarrow> bytes \<Rightarrow> kv_write list option \<Rightarrow>
     ('db DefaultStore, kv_write list option) cmd" where
  "save_key kv key val batch s =
     (case batch of
        None \<Rightarrow>
          (case on_db (kv_Set kv key val) s of
             (Ok _, s') \<Rightarrow> (Ok None, s')
           | (Err e, s') \<Rightarrow> (Err e, s')
           | (Panic p, s') \<Rightarrow> (Panic p, s'))
      | Some b \<Rightarrow> (bind_out (batch_Set kv (st_db s) b key val) (\<lambda>b'. Ok (Some b')), s))"

definition SaveBlockResponses ::
  "('vs, 'pvs) store_env \<Rightarrow> 'db KVStore \<Rightarrow> u64 \<Rightarrow> ABCIResponses \<Rightarrow> kv_write list option \<Rightarrow>
     ('db DefaultStore, kv_write list option) cmd" where
  "SaveBlockResponses E kv height responses batch =
     bind_cmd (lift_out (\<lambda>_. wrap_err ''failed to marshal response''
                 (mc_Marshal (se_responses E) responses)))
       (\<lambda>dat. save_key kv (getResponsesKey height) dat batch)"

definition LoadBlockResponses ::
  "('vs, 'pvs) store_env \<Rightarrow> 'db KVStore \<Rightarrow> 'db DefaultStore \<Rightarrow> u64 \<Rightarrow> ABCIResponses outcome" where
  "LoadBlockResponses E kv s height =
     bind_out (wrap_err ''failed to retrieve block results''
         (kv_Get kv (st_db s) (getResponsesKey height)))
       (\<lambda>dat. wrap_err ''failed to unmarshal data''
          (mc_Unmarshal (se_responses E) dat (mc_zero (se_responses E))))"

definition UpdateState ::
  "('vs, 'pvs) store_env \<Rightarrow> 'db KVStore \<Rightarrow> 'vs State \<Rightarrow> kv_write list option \<Rightarrow>
     ('db DefaultStore, kv_write list option) cmd" where
  "UpdateState E kv state batch =
     bind_cmd (lift_out (\<lambda>_. wrap_err ''failed to marshal state to JSON''
                 (State_ToProto (se_vs E) state))) (\<lambda>pbState.
     bind_cmd (lift_out (\<lambda>_. State_Marshal (se_sc E) pbState)) (\<lambda>dat.
     save_key kv getStateKey dat batch))"

definition LoadState ::
  "('vs, 'pvs) store_env \<Rightarrow> 'db KVStore \<Rightarrow> ('db DefaultStore, 'vs State) cmd" where
  "LoadState E kv s =
     (case kv_Get kv (st_db s) getStateKey of
        Err e \<Rightarrow> (Err ErrNoStateFound, s)
      | Panic p \<Rightarrow> (Panic p, s)
      | Ok blob \<Rightarrow>
          (case State_Unmarshal (se_sc E) blob (zero_pb_State (se_sc E)) of
             Err e \<Rightarrow> (Err (Wrapf ''failed to unmarshal state from store'' e), s)
           | Panic p \<Rightarrow> (Panic p, s)
           | Ok pbState \<Rightarrow>
               (case State_FromProto (se_vs E) pbState of
                  Err e \<Rightarrow> (Err (Wrapf ''failed to unmarshal state from proto'' e), s)
                | Panic p \<Rightarrow> (Panic p, s)
                | Ok state \<Rightarrow>
                    (Ok state, s\<lparr>st_height := s_LastStoreHeight state,
                                st_baseHeight := s_BaseHeight state\<rparr>))))"

definition SaveValidators ::
  "('vs, 'pvs) store_env \<Rightarrow> 'db KVStore \<Rightarrow> u64 \<Rightarrow> 'vs \<Rightarrow> kv_write list option \<Rightarrow>
     ('db DefaultStore, kv_write list option) cmd" where
  "SaveValidators E kv height validatorSet batch =
     bind_cmd (lift_out (\<lambda>_. wrap_err ''failed to marshal ValidatorSet to protobuf''
                 (vs_ToProto (se_vs E) validatorSet))) (\<lambda>pbValSet.
     bind_cmd (lift_out (\<lambda>_. wrap_err ''failed to marshal ValidatorSet''
                 (mc_Marshal (sc_ValidatorSet (se_sc E)) pbValSet))) (\<lambda>blob.
     save_key kv (getValidatorsKey height) blob batch))"

definition LoadValidators ::
  "('vs, 'pvs) store_env \<Rightarrow> 'db KVStore \<Rightarrow> 'db DefaultStore \<Rightarrow> u64 \<Rightarrow> 'vs outcome" where
  "LoadValidators E kv s height =
     bind_out (wrap_err ''failed to load Validators''
         (kv_Get kv (st_db s) (getValidatorsKey height))) (\<lambda>blob.
     bind_out (wrap_err ''failed to unmarshal to protobuf''
         (mc_Unmarshal (sc_ValidatorSet (se_sc E)) blob (mc_zero (sc_ValidatorSet (se_sc E)))))
       (\<lambda>pbValSet. vs_FromProto (se_vs E) (Some pbValSet)))"

subsection \<open>Pruning\<close>

fun batch_deletes ::
  "'db KVStore \<Rightarrow> 'db \<Rightarrow> kv_write list \<Rightarrow> bytes list \<Rightarrow> kv_write list outcome" where
  "batch_deletes kv db b [] = Ok b"
| "batch_deletes kv db b (k # ks) =
     bind_out (batch_Delete kv db b k) (\<lambda>b'. batch_deletes kv db b' ks)"

definition prune_flush :: "'db KVStore \<Rightarrow> kv_write list \<Rightarrow> u64 \<Rightarrow> ('db DefaultStore, unit) cmd" where
  "prune_flush kv batch base s =
     (case on_db (batch_Commit kv batch) s of
        (Ok _, s') \<Rightarrow> (Ok (), SetBase base s')
      | (Err e, s') \<Rightarrow> (Err (Wrapf ''failed to prune'' e), s')
      | (Panic p, s') \<Rightarrow> (Panic p, s'))"

definition prune_keys :: "bytes \<Rightarrow> u64 \<Rightarrow> bytes list" where
  "prune_keys hash h =
     [getBlockKey hash, getCommitKey hash, getIndexKey h, getResponsesKey h, getValidatorsKey h]"

text \<open>The loop \<open>for h := base; h < height; h++\<close>, with the open batch and the count.\<close>

function prune_loop ::
  "'db KVStore \<Rightarrow> u64 \<Rightarrow> u64 \<Rightarrow> kv_write list \<Rightarrow> u64 \<Rightarrow> 'db DefaultStore \<Rightarrow>
     (kv_write list \<times> u64) outcome \<times> 'db DefaultStore" where
  "prune_loop kv height h batch pruned s =
     (if h < height then
        (case loadHashFromIndex kv s h of
           Err e \<Rightarrow> prune_loop kv height (h + 1) batch pruned s
         | Panic p \<Rightarrow> (Panic p, s)
         | Ok hash \<Rightarrow>
             (case batch_deletes kv (st_db s) batch (prune_keys hash h) of
                Err e \<Rightarrow> (Err e, s)
              | Panic p \<Rightarrow> (Panic p, s)
              | Ok batch' \<Rightarrow>
                  if (pruned + 1) mod 1000 = 0 \<and> pruned + 1 > 0 then
                    (case prune_flush kv batch' h s of
                       (Ok _, s') \<Rightarrow>
                         prune_loop kv height (h + 1) (kv_NewBatch kv) (pruned + 1) s'
                     | (Err e, s') \<Rightarrow> (Err e, s')
                     | (Panic p, s') \<Rightarrow> (Panic p, s'))
                  else prune_loop kv height (h + 1) batch' (pruned + 1) s))
      else (Ok (batch, pruned), s))"
  by auto

lemma unat_Suc_less: "(h :: u64) < height \<Longrightarrow> unat (h + 1) = Suc (unat h)"
proof -
  assume less: "h < height"
  have "h \<noteq> - 1"
  proof
    assume "h = - 1"
    with less have "- 1 < height" by simp
    then show False using word_n1_ge [of height] by (simp add: leD)
  qed
  then have "1 + h \<noteq> 0"
    by (metis add.commute add_eq_0_iff2)
  from unatSuc [OF this] show ?thesis
    by (simp add: add.commute)
qed

termination prune_loop
  by (relation "measure (\<lambda>(kv, height, h, b, n, s). unat height - unat h)")
     (auto simp: unat_Suc_less word_less_nat_alt)

declare prune_loop.simps [simp del]

definition PruneBlocks :: "'db KVStore \<Rightarrow> int \<Rightarrow> ('db DefaultStore, u64) cmd" where
  "PruneBlocks kv heightInt s =
     (if heightInt \<le> 0 then (Err (Errorf ''height must be greater than 0''), s)
      else let height = uint64_of heightInt in
        if height > st_height s then
          (Err (Errorf ''cannot prune beyond the latest height''), s)
        else if height < st_baseHeight s then
          (Err (Errorf ''cannot prune to height, it is lower than base height''), s)
        else
          bind_cmd (prune_loop kv height (st_baseHeight s) (kv_NewBatch kv) 0) (\<lambda>(batch, pruned).
          bind_cmd (prune_flush kv batch height) (\<lambda>_. ret pruned)) s)"

subsection \<open>Key spaces\<close>

lemma key_neq [simp]:
  "getBlockKey a \<noteq> getCommitKey b" "getCommitKey b \<noteq> getBlockKey a"
  "getBlockKey a \<noteq> getIndexKey h" "getIndexKey h \<noteq> getBlockKey a"
  "getBlockKey a \<noteq> getStateKey" "getStateKey \<noteq> getBlockKey a"
  "getBlockKey a \<noteq> getResponsesKey h" "getResponsesKey h \<noteq> getBlockKey a"
  "getBlockKey a \<noteq> getValidatorsKey h" "getValidatorsKey h \<noteq> getBlockKey a"
  "getCommitKey a \<noteq> getIndexKey h" "getIndexKey h \<noteq> getCommitKey a"
  "getCommitKey a \<noteq> getStateKey" "getStateKey \<noteq> getCommitKey a"
  "getCommitKey a \<noteq> getResponsesKey h" "getResponsesKey h \<noteq> getCommitKey a"
  "getCommitKey a \<noteq> getValidatorsKey h" "getValidatorsKey h \<noteq> getCommitKey a"
  "getIndexKey h \<noteq> getStateKey" "getStateKey \<noteq> getIndexKey h"
  "getIndexKey h \<noteq> getResponsesKey h'" "getResponsesKey h' \<noteq> getIndexKey h"
  "getIndexKey h \<noteq> getValidatorsKey h'" "getValidatorsKey h' \<noteq> getIndexKey h"
  "getStateKey \<noteq> getResponsesKey h" "getResponsesKey h \<noteq> getStateKey"
  "getStateKey \<noteq> getValidatorsKey h" "getValidatorsKey h \<noteq> getStateKey"
  "getResponsesKey h \<noteq> getValidatorsKey h'" "getValidatorsKey h' \<noteq> getResponsesKey h"
  by (simp_all add: key_defs)

lemma key_inject [simp]:
  "getBlockKey a = getBlockKey b \<longleftrightarrow> a = b" "getCommitKey a = getCommitKey b \<longleftrightarrow> a = b"
  "getIndexKey h = getIndexKey h' \<longleftrightarrow> h = h'"
  "getResponsesKey h = getResponsesKey h' \<longleftrightarrow> h = h'"
  "getValidatorsKey h = getValidatorsKey h' \<longleftrightarrow> h = h'"
  by (simp_all add: key_defs)

subsection \<open>Lemmas over the store contract\<close>

lemma on_db_height:
  "on_db c s = (r, s') \<Longrightarrow> st_height s' = st_height s \<and> st_baseHeight s' = st_baseHeight s"
  by (auto simp: on_db_def split: prod.splits)

lemma on_dbE:
  assumes "on_db c s = (r, s')"
  obtains db where "c (st_db s) = (r, db)" and "s' = s\<lparr>st_db := db\<rparr>"
  using assms by (auto simp: on_db_def split: prod.splits)

text \<open>What \<open>SaveBlock\<close> writes.\<close>

definition block_writes ::
  "('vs, 'pvs) store_env \<Rightarrow> Block \<Rightarrow> Commit \<Rightarrow> (bytes \<rightharpoonup> bytes) \<Rightarrow> (bytes \<rightharpoonup> bytes)" where
  "block_writes E block commit m =
     (let hash = Header_Hash (se_tm E) (b_Header block) in
      m(getBlockKey hash \<mapsto> ok_bytes (Block_MarshalBinary (se_codec E) block),
        getCommitKey hash \<mapsto> ok_bytes (Commit_MarshalBinary (se_codec E) commit),
        getIndexKey (h_Height (b_Header block)) \<mapsto> hash))"

context kv_store
begin

lemma batch_sets_eff:
  "batch_sets kv db b kvs = Ok (b', []) \<Longrightarrow>
     eff b' = fold (\<lambda>(k, v) e. e(k := Some (Some v))) kvs (eff b)"
proof (induction kvs arbitrary: b)
  case (Cons x kvs)
  then show ?case
    by (cases x) (auto simp: bind_out_Ok_iff batch_Set_eff split: outcome.splits)
qed simp

lemma batch_sets_not_Err: "batch_sets kv db b kvs \<noteq> Err e"
proof (induction kvs arbitrary: b)
  case (Cons x kvs)
  show ?case
  proof (cases x)
    case (Pair k v)
    then show ?thesis
      using Cons.IH by (cases "batch_Set kv db b k v"; cases "batch_sets kv db b kvs") auto
  qed
qed simp

lemma batch_sets_no_panic: "batch_sets kv db b kvs \<noteq> Panic p"
  by (induction kvs arbitrary: b)
     (auto simp: bind_out_Panic_iff batch_Set_no_panic split: outcome.splits)

lemma batch_deletes_eff:
  "batch_deletes kv db b ks = Ok b' \<Longrightarrow> eff b' = fold (\<lambda>k e. e(k := Some None)) ks (eff b)"
  by (induction ks arbitrary: b) (auto simp: bind_out_Ok_iff batch_Delete_eff)

lemma batch_deletes_no_panic: "batch_deletes kv db b ks \<noteq> Panic p"
  by (induction ks arbitrary: b) (auto simp: bind_out_Panic_iff batch_Delete_no_panic)

text \<open>A block is saved as a whole or not at all, and successfully only as a whole.\<close>

lemma SaveBlock_atomic:
  assumes "SaveBlock E kv block commit None s = (r, s')"
  shows "st_height s' = st_height s \<and> st_baseHeight s' = st_baseHeight s \<and>
    (look (st_db s') = block_writes E block commit (look (st_db s)) \<or>
     look (st_db s') = look (st_db s) \<and> \<not> is_Ok r)"
proof -
  let ?hash = "Header_Hash (se_tm E) (b_Header block)"
  let ?kvs = "\<lambda>bb cb. [(getBlockKey ?hash, bb), (getCommitKey ?hash, cb),
      (getIndexKey (h_Height (b_Header block)), ?hash)]"
  have commit: "st_height s' = st_height s \<and> st_baseHeight s' = st_baseHeight s \<and>
    (look (st_db s') = block_writes E block commit (look (st_db s)) \<or>
     look (st_db s') = look (st_db s) \<and> \<not> is_Ok r)"
    if "Block_MarshalBinary (se_codec E) block = Ok bb"
      and "Commit_MarshalBinary (se_codec E) commit = Ok cb"
      and "batch_sets kv (st_db s) (kv_NewBatch kv) (?kvs bb cb) = Ok (b, [])"
      and "on_db (batch_Commit kv b) s = (r', s')" and "is_Ok r \<longleftrightarrow> is_Ok r'" for bb cb b r'
  proof -
    have eff: "over m (eff b) = block_writes E block commit m" for m
      using batch_sets_eff [OF that(3)] that(1,2)
      by (simp add: NewBatch_eff over_upd block_writes_def Let_def)
    from that(4) obtain db where "batch_Commit kv b (st_db s) = (r', db)" and "s' = s\<lparr>st_db := db\<rparr>"
      by (rule on_dbE)
    then show ?thesis
      using that(5) by (cases r') (auto dest!: Commit_Ok Commit_Err Commit_Panic simp: eff)
  qed
  have "(\<exists>bb cb b r'. Block_MarshalBinary (se_codec E) block = Ok bb \<and>
      Commit_MarshalBinary (se_codec E) commit = Ok cb \<and>
      batch_sets kv (st_db s) (kv_NewBatch kv) (?kvs bb cb) = Ok (b, []) \<and>
      on_db (batch_Commit kv b) s = (r', s') \<and> is_Ok r = is_Ok r') \<or> s' = s \<and> \<not> is_Ok r"
    using assms unfolding SaveBlock_def Let_def
    by (auto split: outcome.splits prod.splits list.splits simp: batch_sets_not_Err
        simp del: batch_sets.simps)
  then show ?thesis
    using commit by blast
qed

lemma SaveBlock_Ok:
  "SaveBlock E kv block commit None s = (Ok bb, s') \<Longrightarrow>
     look (st_db s') = block_writes E block commit (look (st_db s)) \<and>
     st_height s' = st_height s \<and> st_baseHeight s' = st_baseHeight s \<and>
     is_Ok (Block_MarshalBinary (se_codec E) block) \<and>
     is_Ok (Commit_MarshalBinary (se_codec E) commit)"
  using SaveBlock_atomic [of E block commit s "Ok bb" s']
  by (auto simp: SaveBlock_def Let_def split: outcome.splits simp del: batch_sets.simps)

lemma loadHashFromIndex_Ok_iff:
  "loadHashFromIndex kv s h = Ok hash \<longleftrightarrow>
     look (st_db s) (getIndexKey h) = Some hash \<and> length hash = 32"
  by (auto simp: loadHashFromIndex_def Get_law split: option.splits)

lemma loadHashFromIndex_no_panic: "loadHashFromIndex kv s h \<noteq> Panic p"
  by (auto simp: loadHashFromIndex_def Get_law split: option.splits)

lemma LoadBlock_Ok_iff:
  "LoadBlock E kv s h = Ok b \<longleftrightarrow>
     (\<exists>hash blob. look (st_db s) (getIndexKey h) = Some hash \<and> length hash = 32 \<and>
        look (st_db s) (getBlockKey hash) = Some blob \<and>
        Block_UnmarshalBinary (se_codec E) blob zero_Block = Ok b)"
  by (auto simp: LoadBlock_def LoadBlockByHash_def bind_out_Ok_iff loadHashFromIndex_Ok_iff
      Get_Ok_iff)

lemma LoadCommit_Ok_iff:
  "LoadCommit E kv s h = Ok c \<longleftrightarrow>
     (\<exists>hash blob. look (st_db s) (getIndexKey h) = Some hash \<and> length hash = 32 \<and>
        look (st_db s) (getCommitKey hash) = Some blob \<and>
        Commit_UnmarshalBinary (se_codec E) blob zero_Commit = Ok c)"
  by (auto simp: LoadCommit_def LoadCommitByHash_def bind_out_Ok_iff loadHashFromIndex_Ok_iff
      Get_Ok_iff)

text \<open>A saved block and its commit load back, by height.\<close>

lemma LoadBlock_SaveBlock:
  assumes "SaveBlock E kv block commit None s = (Ok bb, s')"
    and "codec_ok (se_codec E)" and "wf_Block block" and "wf_Commit commit"
    and "encodable_Block (se_codec E) (Block_ToProto block)"
    and "encodable_Commit (se_codec E) (Commit_ToProto commit)"
    and "Block_Size (se_codec E) (Block_ToProto block) < 2 ^ 63"
    and "Commit_Size (se_codec E) (Commit_ToProto commit) < 2 ^ 63"
  shows "LoadBlock E kv s' (h_Height (b_Header block)) = Ok (without_evidence block)"
    and "LoadCommit E kv s' (h_Height (b_Header block)) = Ok commit"
proof -
  let ?m = "look (st_db s')" and ?hash = "Header_Hash (se_tm E) (b_Header block)"
  obtain bb cb where blobs: "Block_MarshalBinary (se_codec E) block = Ok bb"
    "Block_UnmarshalBinary (se_codec E) bb zero_Block = Ok (without_evidence block)"
    "Commit_MarshalBinary (se_codec E) commit = Ok cb"
    "Commit_UnmarshalBinary (se_codec E) cb zero_Commit = Ok commit"
    using Block_binary_round_trip [of "se_codec E" block]
      Commit_binary_round_trip [of "se_codec E" commit] assms(2-8) by blast
  then have "?m (getIndexKey (h_Height (b_Header block))) = Some ?hash"
    "?m (getBlockKey ?hash) = Some bb" "?m (getCommitKey ?hash) = Some cb"
    using SaveBlock_Ok [OF assms(1)] by (simp_all add: block_writes_def Let_def)
  then show "LoadBlock E kv s' (h_Height (b_Header block)) = Ok (without_evidence block)"
    and "LoadCommit E kv s' (h_Height (b_Header block)) = Ok commit"
    using blobs by (auto simp: LoadBlock_Ok_iff LoadCommit_Ok_iff)
qed

text \<open>Loading a height reads its index entry and the two entries of the hash found there.\<close>

lemma load_cong:
  assumes same: "look (st_db s') (getIndexKey h) = look (st_db s) (getIndexKey h)"
    "\<And>hash. look (st_db s) (getIndexKey h) = Some hash \<Longrightarrow>
       look (st_db s') (getBlockKey hash) = look (st_db s) (getBlockKey hash) \<and>
       look (st_db s') (getCommitKey hash) = look (st_db s) (getCommitKey hash)"
  shows "LoadBlock E kv s' h = LoadBlock E kv s h" and "LoadCommit E kv s' h = LoadCommit E kv s h"
proof -
  have idx: "loadHashFromIndex kv s' h = loadHashFromIndex kv s h"
    by (simp add: loadHashFromIndex_def Get_law same(1))
  have by_hash: "LoadBlockByHash E kv s' hash = LoadBlockByHash E kv s hash"
    "LoadCommitByHash E kv s' hash = LoadCommitByHash E kv s hash"
    if "loadHashFromIndex kv s h = Ok hash" for hash
  proof -
    have "look (st_db s) (getIndexKey h) = Some hash"
      using that by (simp add: loadHashFromIndex_Ok_iff)
    from same(2) [OF this] show "LoadBlockByHash E kv s' hash = LoadBlockByHash E kv s hash"
      "LoadCommitByHash E kv s' hash = LoadCommitByHash E kv s hash"
      by (simp_all add: LoadBlockByHash_def LoadCommitByHash_def Get_law)
  qed
  then show "LoadBlock E kv s' h = LoadBlock E kv s h"
    and "LoadCommit E kv s' h = LoadCommit E kv s h"
    unfolding LoadBlock_def LoadCommit_def idx
    by (cases "loadHashFromIndex kv s h"; simp)+
qed

text \<open>Saving a block touches no other height whose index entry is another hash.\<close>

lemma SaveBlock_other_heights:
  assumes "SaveBlock E kv block commit None s = (r, s')"
    and "h \<noteq> h_Height (b_Header block)"
    and "look (st_db s) (getIndexKey h) \<noteq> Some (Header_Hash (se_tm E) (b_Header block))"
  shows "LoadBlock E kv s' h = LoadBlock E kv s h \<and> LoadCommit E kv s' h = LoadCommit E kv s h"
proof -
  have same: "look (st_db s') (getIndexKey h) = look (st_db s) (getIndexKey h)"
    "\<And>hash. look (st_db s) (getIndexKey h) = Some hash \<Longrightarrow>
       look (st_db s') (getBlockKey hash) = look (st_db s) (getBlockKey hash) \<and>
       look (st_db s') (getCommitKey hash) = look (st_db s) (getCommitKey hash)"
    using SaveBlock_atomic [OF assms(1)] assms(2,3) by (auto simp: block_writes_def Let_def)
  show ?thesis
    by (intro conjI load_cong [OF same])
qed

lemma save_key_None:
  assumes "save_key kv k v None s = (r, s')"
  shows "st_height s' = st_height s \<and> st_baseHeight s' = st_baseHeight s \<and>
    (look (st_db s') = (look (st_db s))(k \<mapsto> v) \<or> look (st_db s') = look (st_db s) \<and> \<not> is_Ok r)"
  using assms
  by (auto simp: save_key_def on_db_def split: prod.splits outcome.splits
      dest: Set_Ok Set_Err Set_Panic)

lemma save_key_Some:
  assumes "save_key kv k v (Some b) s = (r, s')"
  shows "s' = s" and "r = Ok b' \<Longrightarrow> \<exists>c. b' = Some c \<and> eff c = (eff b)(k := Some (Some v))"
    and "r \<noteq> Panic p"
  using assms by (auto simp: save_key_def bind_out_Ok_iff bind_out_Panic_iff batch_Set_no_panic
      dest: batch_Set_eff)

end

subsection \<open>The chain state in the store\<close>

definition state_blob :: "('vs, 'pvs) store_env \<Rightarrow> 'vs State \<Rightarrow> bytes outcome" where
  "state_blob E s =
     bind_out (State_ToProto (se_vs E) s) (State_Marshal (se_sc E))"

text \<open>States that \<open>UpdateState\<close> can save and \<open>LoadState\<close> gives back unchanged.\<close>

definition persistable :: "('vs, 'pvs) store_env \<Rightarrow> 'vs State \<Rightarrow> bool" where
  "persistable E s \<longleftrightarrow>
     storable_State (se_vs E) s \<and>
     (case State_ToProto (se_vs E) s of
        Ok p \<Rightarrow> encodable_State (se_sc E) p \<and> State_Size (se_sc E) p < 2 ^ 63
      | _ \<Rightarrow> False)"

lemma persistable_blob:
  assumes "persistable E s" and "state_codec_ok (se_sc E)"
  obtains blob p where "state_blob E s = Ok blob"
    and "State_Unmarshal (se_sc E) blob (zero_pb_State (se_sc E)) = Ok p"
    and "State_FromProto (se_vs E) p = Ok s"
proof -
  obtain p where p: "State_ToProto (se_vs E) s = Ok p" "State_FromProto (se_vs E) p = Ok s"
    "wf_pb_State p" "encodable_State (se_sc E) p" "State_Size (se_sc E) p < 2 ^ 63"
    using assms(1) State_ToProto_FromProto [of "se_vs E" s]
    by (auto simp: persistable_def split: outcome.splits)
  have "length (enc_State (se_sc E) p) < 2 ^ 63"
    using p assms(2) by (simp only: length_enc_State)
  then have "state_blob E s = Ok (enc_State (se_sc E) p)"
    and "State_Unmarshal (se_sc E) (enc_State (se_sc E) p) (zero_pb_State (se_sc E)) = Ok p"
    using p assms(2) by (simp_all add: state_blob_def State_Marshal_enc State_Unmarshal_enc)
  then show thesis
    using that p(2) by blast
qed

lemma UpdateState_blob:
  "UpdateState E kv state batch s =
     (case state_blob E state of
        Ok blob \<Rightarrow> save_key kv getStateKey blob batch s
      | Err e \<Rightarrow>
          (Err (if is_Ok (State_ToProto (se_vs E) state) then e
                else Wrapf ''failed to marshal state to JSON'' e), s)
      | Panic p \<Rightarrow> (Panic p, s))"
proof (cases "State_ToProto (se_vs E) state")
  case (Ok p)
  then show ?thesis
    by (cases "State_Marshal (se_sc E) p")
       (simp_all add: UpdateState_def state_blob_def bind_cmd_def lift_out_def)
qed (simp_all add: UpdateState_def state_blob_def bind_cmd_def lift_out_def)

context kv_store
begin

lemma UpdateState_None:
  assumes "UpdateState E kv state None s = (r, s')"
  shows "st_height s' = st_height s \<and> st_baseHeight s' = st_baseHeight s \<and>
    ((\<exists>blob. state_blob E state = Ok blob \<and> look (st_db s') = (look (st_db s))(getStateKey \<mapsto> blob)) \<or>
     look (st_db s') = look (st_db s) \<and> \<not> is_Ok r)"
proof (cases "state_blob E state")
  case (Ok blob)
  then have "save_key kv getStateKey blob None s = (r, s')"
    using assms by (simp add: UpdateState_blob)
  from save_key_None [OF this] show ?thesis
    using Ok by auto
qed (use assms in \<open>auto simp: UpdateState_blob\<close>)

lemma LoadState_blob:
  assumes "look (st_db s) getStateKey = Some blob" and "state_blob E state = Ok blob"
    and "persistable E state" and "state_codec_ok (se_sc E)"
  shows "LoadState E kv s =
    (Ok state, s\<lparr>st_height := s_LastStoreHeight state, st_baseHeight := s_BaseHeight state\<rparr>)"
proof -
  obtain p where "State_Unmarshal (se_sc E) blob (zero_pb_State (se_sc E)) = Ok p"
    and "State_FromProto (se_vs E) p = Ok state"
    using persistable_blob [OF assms(3,4)] assms(2) by (metis outcome.inject(1))
  then show ?thesis
    by (simp add: LoadState_def Get_law assms(1))
qed

text \<open>The last saved state is the one loaded.\<close>

lemma LoadState_UpdateState:
  assumes "UpdateState E kv state None s = (Ok b, s')" and "persistable E state"
    and "state_codec_ok (se_sc E)"
  shows "LoadState E kv s' =
    (Ok state, s'\<lparr>st_height := s_LastStoreHeight state, st_baseHeight := s_BaseHeight state\<rparr>)"
  using UpdateState_None [OF assms(1)] LoadState_blob [OF _ _ assms(2,3)] by auto

end

subsection \<open>What pruning removes\<close>

definition indexed :: "(bytes \<rightharpoonup> bytes) \<Rightarrow> u64 \<Rightarrow> bytes option" where
  "indexed m i = (case m (getIndexKey i) of
     Some hash \<Rightarrow> if length hash = 32 then Some hash else None | None \<Rightarrow> None)"

definition pruned_keys :: "(bytes \<rightharpoonup> bytes) \<Rightarrow> u64 \<Rightarrow> u64 \<Rightarrow> bytes set" where
  "pruned_keys m lo hi = {k. \<exists>i hash. lo \<le> i \<and> i < hi \<and> indexed m i = Some hash \<and>
     k \<in> set (prune_keys hash i)}"

text \<open>The contents \<open>m\<close> without what belongs to the indexed heights of \<open>[lo, hi)\<close>.\<close>

definition pruned_view :: "(bytes \<rightharpoonup> bytes) \<Rightarrow> u64 \<Rightarrow> u64 \<Rightarrow> (bytes \<rightharpoonup> bytes)" where
  "pruned_view m lo hi k = (if k \<in> pruned_keys m lo hi then None else m k)"

lemma u64_less_Suc: "(h :: u64) < height \<Longrightarrow> i < h + 1 \<longleftrightarrow> i < h \<or> i = h"
  by (auto simp: word_less_nat_alt unat_Suc_less [of h height] less_Suc_eq word_unat_eq_iff)

lemma pruned_keys_Suc:
  assumes "h < height" and "lo \<le> h"
  shows "pruned_keys m lo (h + 1) =
    pruned_keys m lo h \<union> (case indexed m h of Some hash \<Rightarrow> set (prune_keys hash h) | None \<Rightarrow> {})"
  using assms by (auto simp: pruned_keys_def u64_less_Suc [OF assms(1)] split: option.splits)

lemma pruned_keys_empty [simp]: "pruned_keys m lo lo = {}"
  by (auto simp: pruned_keys_def)

lemma index_pruned_iff:
  "getIndexKey i \<in> pruned_keys m lo hi \<longleftrightarrow> lo \<le> i \<and> i < hi \<and> indexed m i \<noteq> None"
  by (auto simp: pruned_keys_def prune_keys_def)

lemma state_not_pruned [simp]: "getStateKey \<notin> pruned_keys m lo hi"
  by (auto simp: pruned_keys_def prune_keys_def)

lemma fold_delete: "fold (\<lambda>k e. e(k := Some None)) ks e k = (if k \<in> set ks then Some None else e k)"
  by (induction ks arbitrary: e) auto

lemma over_fold_delete:
  "over m (fold (\<lambda>k e. e(k := Some None)) ks e) = (\<lambda>k. if k \<in> set ks then None else over m e k)"
  by (simp add: over_def fold_delete fun_eq_iff)

text \<open>
  The state of the loop at height \<open>h\<close>, for a store with contents \<open>look\<close> and batch effects \<open>eff\<close>:
  the database with the open batch applied is the original contents without \<open>[lo, h)\<close>, and the
  database itself is the original without some \<open>[lo, j)\<close>.
\<close>

definition prune_state ::
  "('db \<Rightarrow> bytes \<rightharpoonup> bytes) \<Rightarrow> (kv_write list \<Rightarrow> bytes \<Rightarrow> bytes option option) \<Rightarrow>
     (bytes \<rightharpoonup> bytes) \<Rightarrow> u64 \<Rightarrow> u64 \<Rightarrow> kv_write list \<Rightarrow> 'db DefaultStore \<Rightarrow> bool" where
  "prune_state look eff m lo h b s \<longleftrightarrow>
     lo \<le> h \<and> over (look (st_db s)) (eff b) = pruned_view m lo h \<and>
     (\<exists>j. lo \<le> j \<and> j \<le> h \<and> look (st_db s) = pruned_view m lo j)"

context kv_store
begin

lemma loadHashFromIndex_indexed:
  "loadHashFromIndex kv s h = Ok hash \<longleftrightarrow> indexed (look (st_db s)) h = Some hash"
  by (auto simp: loadHashFromIndex_Ok_iff indexed_def split: option.splits)

lemma prune_inv_indexed: "prune_state look eff m lo h b s \<Longrightarrow> indexed (look (st_db s)) h = indexed m h"
  by (auto simp: prune_state_def indexed_def pruned_view_def index_pruned_iff
      split: option.splits if_splits)

lemma prune_inv_skip:
  assumes "prune_state look eff m lo h b s" and "h < height" and "indexed m h = None"
  shows "prune_state look eff m lo (h + 1) b s"
proof -
  have lo: "lo \<le> h" and less: "h < h + 1"
    using assms(1) u64_less_Suc [OF assms(2)] by (auto simp: prune_state_def)
  have "pruned_view m lo (h + 1) = pruned_view m lo h"
    by (simp add: pruned_view_def fun_eq_iff pruned_keys_Suc [OF assms(2) lo] assms(3))
  with assms(1) less show ?thesis
    by (auto simp: prune_state_def intro: order_trans less_imp_le)
qed

lemma prune_inv_delete:
  assumes "prune_state look eff m lo h b s" and "h < height" and "indexed m h = Some hash"
    and "batch_deletes kv (st_db s) b (prune_keys hash h) = Ok b'"
  shows "prune_state look eff m lo (h + 1) b' s"
proof -
  have lo: "lo \<le> h" and less: "h < h + 1"
    using assms(1) u64_less_Suc [OF assms(2)] by (auto simp: prune_state_def)
  have "over (look (st_db s)) (eff b') = pruned_view m lo (h + 1)"
    using assms(1,3) unfolding batch_deletes_eff [OF assms(4)] over_fold_delete
    by (simp add: prune_state_def pruned_view_def pruned_keys_Suc [OF assms(2) lo] fun_eq_iff)
  then show ?thesis
    using assms(1) less by (auto simp: prune_state_def intro: order_trans less_imp_le)
qed

lemma prune_flush_cases:
  assumes "prune_state look eff m lo h b s" and "prune_flush kv b base s = (r, s')"
  shows "st_height s' = st_height s \<and>
    (\<exists>j. lo \<le> j \<and> j \<le> h \<and> look (st_db s') = pruned_view m lo j) \<and>
    (is_Ok r \<longrightarrow> look (st_db s') = pruned_view m lo h \<and>
       st_baseHeight s' = max base (st_baseHeight s)) \<and>
    (\<not> is_Ok r \<longrightarrow> st_baseHeight s' = st_baseHeight s)"
proof -
  obtain r' db where c: "batch_Commit kv b (st_db s) = (r', db)"
    by (cases "batch_Commit kv b (st_db s)")
  then have ok: "is_Ok r = is_Ok r'"
    and s': "s' = (if is_Ok r' then SetBase base (s\<lparr>st_db := db\<rparr>) else s\<lparr>st_db := db\<rparr>)"
    using assms(2) by (auto simp: prune_flush_def on_db_def split: outcome.splits)
  have view: "over (look (st_db s)) (eff b) = pruned_view m lo h" and lo: "lo \<le> h"
    using assms(1) by (simp_all add: prune_state_def)
  obtain j where j: "lo \<le> j" "j \<le> h" "look (st_db s) = pruned_view m lo j"
    using assms(1) by (auto simp: prune_state_def)
  show ?thesis
  proof (cases "is_Ok r'")
    case True
    then have "look db = pruned_view m lo h"
      using Commit_Ok [of b "st_db s" db] c view by (cases r') auto
    then show ?thesis
    proof -
      have "\<exists>j. lo \<le> j \<and> j \<le> h \<and> look db = pruned_view m lo j"
        using \<open>look db = pruned_view m lo h\<close> lo by blast
      with True \<open>look db = pruned_view m lo h\<close> show ?thesis
        by (simp add: ok s')
    qed
  next
    case False
    moreover have "look db = pruned_view m lo j \<or> look db = pruned_view m lo h"
      using Commit_atomic [OF c] view j(3) by simp
    ultimately show ?thesis
      using lo j by (auto simp: ok s')
  qed
qed

text \<open>The loop keeps its state, and its count is the number of indexed heights it passed.\<close>

lemma prune_loop_state:
  assumes "prune_loop kv height h b n s = (r, s')" and "prune_state look eff m lo h b s"
    and "h \<le> height"
  shows "st_height s' = st_height s \<and>
    (\<exists>j. lo \<le> j \<and> j \<le> height \<and> look (st_db s') = pruned_view m lo j) \<and>
    (st_baseHeight s \<le> height \<longrightarrow> st_baseHeight s' \<le> height) \<and>
    (\<forall>b' n'. r = Ok (b', n') \<longrightarrow> prune_state look eff m lo height b' s')"
  using assms
proof (induction "unat height - unat h" arbitrary: h b n s)
  case 0
  then have "h = height"
    by (simp add: word_le_nat_alt word_unat_eq_iff)
  with 0 show ?case
    by (auto simp: prune_loop.simps prune_state_def)
next
  case (Suc d)
  note IH = Suc.hyps(1) and inv = Suc.prems(2)
  have h: "h < height"
    using Suc.hyps(2) by (simp add: word_less_nat_alt)
  have d: "d = unat height - unat (h + 1)" and le: "h + 1 \<le> height" and lt: "h < h + 1"
    using Suc.hyps(2) h u64_less_Suc [OF h] by (auto simp: unat_Suc_less [OF h] word_le_nat_alt)
  obtain j where j: "lo \<le> j" "j \<le> height" "look (st_db s) = pruned_view m lo j"
    using inv h by (auto simp: prune_state_def)
  note step = prune_loop.simps [of kv height h b n s] and idx = prune_inv_indexed [OF inv]
  show ?case
  proof (cases "indexed m h")
    case None
    then obtain e where "loadHashFromIndex kv s h = Err e"
      using loadHashFromIndex_indexed [of s h] idx loadHashFromIndex_no_panic [of s h]
      by (cases "loadHashFromIndex kv s h") auto
    with Suc.prems(1) h have "prune_loop kv height (h + 1) b n s = (r, s')"
      by (simp add: step)
    from IH [OF d this prune_inv_skip [OF inv h None] le] show ?thesis .
  next
    case (Some hash)
    then have load: "loadHashFromIndex kv s h = Ok hash"
      by (simp add: loadHashFromIndex_indexed idx)
    show ?thesis
    proof (cases "batch_deletes kv (st_db s) b (prune_keys hash h)")
      case (Ok b')
      note inv' = prune_inv_delete [OF inv h Some Ok]
      show ?thesis
      proof (cases "(n + 1) mod 1000 = 0 \<and> n + 1 > 0")
        case False
        with Suc.prems(1) h load Ok have "prune_loop kv height (h + 1) b' (n + 1) s = (r, s')"
          by (simp only: step) (simp add: if_split)
        from IH [OF d this inv' le] show ?thesis .
      next
        case True
        obtain r1 s1 where fl: "prune_flush kv b' h s = (r1, s1)"
          by (cases "prune_flush kv b' h s")
        note F = prune_flush_cases [OF inv' fl]
        show ?thesis
        proof (cases "is_Ok r1")
          case ok: True
          with Suc.prems(1) h load Ok True fl
          have run: "prune_loop kv height (h + 1) (kv_NewBatch kv) (n + 1) s1 = (r, s')"
            by (cases r1) (simp_all only: step, simp_all)
          have "prune_state look eff m lo (h + 1) (kv_NewBatch kv) s1"
            using F ok inv' by (auto simp: prune_state_def NewBatch_eff)
          from IH [OF d run this le] F ok h show ?thesis
            by auto
        next
          case False
          with Suc.prems(1) h load Ok True fl have "s' = s1 \<and> \<not> is_Ok r"
            by (cases r1) (simp_all only: step, auto)
          with F False le h show ?thesis
            by (auto intro: order_trans)
        qed
      qed
    next
      case (Err e)
      with Suc.prems(1) h load have "s' = s" and "r = Err e"
        by (simp_all add: step)
      with j show ?thesis by auto
    qed (use batch_deletes_no_panic in blast)
  qed
qed

text \<open>
  The contract of \<open>PruneBlocks\<close>.  Whatever the outcome, the database is the old one without what
  belongs to some initial part \<open>[base, j)\<close> of the heights to prune; a run that succeeds has
  removed all of them and has moved the base.
\<close>

lemma PruneBlocks_state:
  assumes "PruneBlocks kv hi s = (r, s')"
  shows "st_height s' = st_height s" and
    "\<exists>j. st_baseHeight s \<le> j \<and>
       (j \<noteq> st_baseHeight s \<longrightarrow> 0 < hi \<and> j \<le> uint64_of hi \<and> uint64_of hi \<le> st_height s) \<and>
       look (st_db s') = pruned_view (look (st_db s)) (st_baseHeight s) j" and
    "is_Ok r \<Longrightarrow> 0 < hi \<and> st_baseHeight s \<le> uint64_of hi \<and> uint64_of hi \<le> st_height s \<and>
       st_baseHeight s' = uint64_of hi \<and>
       look (st_db s') = pruned_view (look (st_db s)) (st_baseHeight s) (uint64_of hi)"
proof -
  let ?m = "look (st_db s)" and ?lo = "st_baseHeight s" and ?hi = "uint64_of hi"
  have self: "?m = pruned_view ?m ?lo ?lo"
    by (simp add: pruned_view_def fun_eq_iff)
  have "st_height s' = st_height s \<and>
    (\<exists>j. ?lo \<le> j \<and> (j \<noteq> ?lo \<longrightarrow> 0 < hi \<and> j \<le> ?hi \<and> ?hi \<le> st_height s) \<and>
       look (st_db s') = pruned_view ?m ?lo j) \<and>
    (is_Ok r \<longrightarrow> 0 < hi \<and> ?lo \<le> ?hi \<and> ?hi \<le> st_height s \<and> st_baseHeight s' = ?hi \<and>
       look (st_db s') = pruned_view ?m ?lo ?hi)"
  proof (cases "hi \<le> 0 \<or> ?hi > st_height s \<or> ?hi < ?lo")
    case True
    then have "s' = s" "\<not> is_Ok r"
      using assms by (auto simp: PruneBlocks_def Let_def split: if_splits)
    then show ?thesis
      using self by (auto intro: exI [of _ ?lo])
  next
    case False
    then have range: "0 < hi" "?lo \<le> ?hi" "?hi \<le> st_height s"
      by (auto simp: not_less)
    obtain r1 s1 where loop: "prune_loop kv ?hi ?lo (kv_NewBatch kv) 0 s = (r1, s1)"
      by (cases "prune_loop kv ?hi ?lo (kv_NewBatch kv) 0 s")
    have "prune_state look eff ?m ?lo ?lo (kv_NewBatch kv) s"
      using self by (auto simp: prune_state_def NewBatch_eff over_def)
    note L = prune_loop_state [OF loop this range(2)]
    show ?thesis
    proof (cases r1)
      case (Ok bn)
      obtain b n r2 s2 where bn: "bn = (b, n)" and fl: "prune_flush kv b ?hi s1 = (r2, s2)"
        by (cases bn, cases "prune_flush kv (fst bn) ?hi s1") auto
      have "s' = s2" "is_Ok r = is_Ok r2"
        using assms False loop Ok bn fl
        by (auto simp: PruneBlocks_def Let_def bind_cmd_def ret_def split: outcome.splits)
      moreover note prune_flush_cases [OF _ fl, of ?m ?lo ?hi]
      ultimately show ?thesis
        using L Ok bn range by (auto simp: max_def)
    qed (use assms False loop L range in \<open>auto simp: PruneBlocks_def Let_def bind_cmd_def\<close>)
  qed
  then show "st_height s' = st_height s"
    "\<exists>j. ?lo \<le> j \<and> (j \<noteq> ?lo \<longrightarrow> 0 < hi \<and> j \<le> ?hi \<and> ?hi \<le> st_height s) \<and>
       look (st_db s') = pruned_view ?m ?lo j"
    "is_Ok r \<Longrightarrow> 0 < hi \<and> ?lo \<le> ?hi \<and> ?hi \<le> st_height s \<and> st_baseHeight s' = ?hi \<and>
       look (st_db s') = pruned_view ?m ?lo ?hi"
    by simp_all
qed

text \<open>A pruned height is gone, and a kept one whose block is not a pruned one loads as before.\<close>

lemma load_pruned:
  assumes "look (st_db s') = pruned_view (look (st_db s)) lo hi"
  shows "lo \<le> h \<Longrightarrow> h < hi \<Longrightarrow> \<not> is_Ok (LoadBlock E kv s' h) \<and> \<not> is_Ok (LoadCommit E kv s' h)"
    and "\<not> (lo \<le> h \<and> h < hi) \<Longrightarrow>
      (\<And>i. lo \<le> i \<Longrightarrow> i < hi \<Longrightarrow> indexed (look (st_db s)) i \<noteq> None \<Longrightarrow>
         look (st_db s) (getIndexKey i) \<noteq> look (st_db s) (getIndexKey h)) \<Longrightarrow>
      LoadBlock E kv s' h = LoadBlock E kv s h \<and> LoadCommit E kv s' h = LoadCommit E kv s h"
proof -
  assume "lo \<le> h" "h < hi"
  then have "indexed (look (st_db s')) h = None"
    by (auto simp: assms pruned_view_def indexed_def index_pruned_iff split: option.splits if_splits)
  then show "\<not> is_Ok (LoadBlock E kv s' h) \<and> \<not> is_Ok (LoadCommit E kv s' h)"
    by (auto simp: is_Ok_iff LoadBlock_Ok_iff LoadCommit_Ok_iff indexed_def)
next
  assume out: "\<not> (lo \<le> h \<and> h < hi)"
    and other: "\<And>i. lo \<le> i \<Longrightarrow> i < hi \<Longrightarrow> indexed (look (st_db s)) i \<noteq> None \<Longrightarrow>
      look (st_db s) (getIndexKey i) \<noteq> look (st_db s) (getIndexKey h)"
  have idx: "look (st_db s') (getIndexKey h) = look (st_db s) (getIndexKey h)"
    using out by (auto simp: assms pruned_view_def index_pruned_iff)
  have kept: "look (st_db s') (getBlockKey hash) = look (st_db s) (getBlockKey hash) \<and>
      look (st_db s') (getCommitKey hash) = look (st_db s) (getCommitKey hash)"
    if "look (st_db s) (getIndexKey h) = Some hash" for hash
  proof -
    have "indexed (look (st_db s)) i \<noteq> Some hash" if "lo \<le> i" "i < hi" for i
      using other [OF that] \<open>look (st_db s) (getIndexKey h) = Some hash\<close>
      by (auto simp: indexed_def split: option.splits if_splits)
    then show ?thesis
      by (auto simp: assms pruned_view_def pruned_keys_def prune_keys_def)
  qed
  show "LoadBlock E kv s' h = LoadBlock E kv s h \<and> LoadCommit E kv s' h = LoadCommit E kv s h"
    by (intro conjI load_cong [OF idx kept])
qed

lemma load_pruned_hash:
  assumes view: "look (st_db s') = pruned_view (look (st_db s)) lo hi"
    and out: "\<not> (lo \<le> h \<and> h < hi)"
    and other: "\<forall>i. lo \<le> i \<and> i < hi \<and> is_Ok (loadHashFromIndex kv s i) \<longrightarrow>
      loadHashFromIndex kv s i \<noteq> loadHashFromIndex kv s h"
  shows "LoadBlock E kv s' h = LoadBlock E kv s h \<and> LoadCommit E kv s' h = LoadCommit E kv s h"
proof (rule load_pruned(2) [OF view out])
  fix i assume i: "lo \<le> i" "i < hi" "indexed (look (st_db s)) i \<noteq> None"
  then have "is_Ok (loadHashFromIndex kv s i)"
    using loadHashFromIndex_indexed [of s i] by (auto simp: is_Ok_iff)
  with i other have "loadHashFromIndex kv s i \<noteq> loadHashFromIndex kv s h"
    by blast
  then show "look (st_db s) (getIndexKey i) \<noteq> look (st_db s) (getIndexKey h)"
    by (auto simp: loadHashFromIndex_def Get_law)
qed

lemma LoadState_pruned:
  "look (st_db s') = pruned_view (look (st_db s)) lo hi \<Longrightarrow>
     fst (LoadState E kv s') = fst (LoadState E kv s)"
  by (simp add: LoadState_def Get_law pruned_view_def split: option.splits outcome.splits)

end

subsection \<open>A sample environment\<close>

text \<open>
  Concrete functions for the external code: a header hash that shows the height, codecs by table,
  and a validator set that is a rotation counter.
\<close>

definition sample_tm :: tm_funs where
  "sample_tm =
     \<lparr>tm_Header_Hash = (\<lambda>h. PutUint64 (uint64_of (th_Height h)) @ replicate 24 0),
      tm_Commit_Hash = (\<lambda>c. zero_bytes 32), tm_Data_Hash = (\<lambda>txs. zero_bytes 32),
      tm_EmptyEvidence_Hash = [], tm_MaxSignatureSize = 64,
      tm_VerifySignature = (\<lambda>key msg sig. sig = key), tm_BlockProtocol = 11, tm_TMCoreSemVer = []\<rparr>"

definition sample_vset :: "(nat, nat) vset" where
  "sample_vset =
     \<lparr>vs_New = (\<lambda>vals. 0), vs_IsEmpty = (\<lambda>v. False), vs_Hash = (\<lambda>v. zero_bytes 32),
      vs_UpdateWithChangeSet = (\<lambda>v vals. Ok v), vs_IncrementProposerPriority = (\<lambda>v n. (v + nat n) mod 8),
      vs_ToProto = Ok,
      vs_FromProto = (\<lambda>v. case v of Some n \<Rightarrow> Ok n | None \<Rightarrow> Err (Errorf ''nil validator set'')),
      bid_FromProto = Ok\<rparr>"

definition sample_BlockID :: "u64 \<Rightarrow> BlockID" where
  "sample_BlockID h =
     \<lparr>bid_Hash = PutUint64 h @ replicate 24 0, bid_PartSetHeader = \<lparr>ps_Total = 0, ps_Hash = []\<rparr>\<rparr>"

definition sample_params :: ConsensusParams where
  "sample_params =
     \<lparr>cp_Block_MaxBytes = 1000, cp_Block_MaxGas = -1, cp_Block_TimeIotaMs = 0,
      cp_Evidence_MaxAgeNumBlocks = 0, cp_Evidence_MaxAgeDuration = 0, cp_Evidence_MaxBytes = 0,
      cp_Validator_PubKeyTypes = [], cp_Version_AppVersion = 0\<rparr>"

definition sample_responses :: "ResponseDeliverTx list \<Rightarrow> ABCIResponses" where
  "sample_responses rs =
     \<lparr>ar_DeliverTxs = rs,
      ar_EndBlock = Some \<lparr>eb_ValidatorUpdates = [], eb_ConsensusParamUpdates = None, eb_Events = []\<rparr>,
      ar_BeginBlock = Some []\<rparr>"

definition sample_env :: "(nat, nat) store_env" where
  "sample_env =
     \<lparr>se_tm = sample_tm,
      se_codec = table_codec [zero_pb_CommitSig] [],
      se_sc =
        \<lparr>sc_Version = table_msg_codec [InitStateVersion sample_tm] (InitStateVersion sample_tm),
         sc_BlockID = table_msg_codec (map sample_BlockID [1, 2, 3, 4]) zero_BlockID,
         sc_Time = table_msg_codec [0] 0,
         sc_ValidatorSet = table_msg_codec [0, 1, 2, 3, 4, 5, 6, 7] 0,
         sc_ConsensusParams = table_msg_codec [sample_params] sample_params\<rparr>,
      se_vs = sample_vset,
      se_responses = table_msg_codec [sample_responses []] (sample_responses [])\<rparr>"

definition sample_header :: "u64 \<Rightarrow> Header" where
  "sample_header h =
     zero_Header\<lparr>h_Height := h, h_Version := \<lparr>v_Block = 11, v_App = 0\<rparr>, h_ProposerAddress := [1]\<rparr>"

definition sample_commit :: "u64 \<Rightarrow> Commit" where
  "sample_commit h = zero_Commit\<lparr>c_Height := h, c_Signatures := [[7]]\<rparr>"

definition sample_block :: "u64 \<Rightarrow> Block" where
  "sample_block h =
     \<lparr>b_Header = sample_header h, b_Data = zero_Data, b_LastCommit = sample_commit (h - 1)\<rparr>"

definition sample_state :: "u64 \<Rightarrow> nat State" where
  "sample_state h =
     \<lparr>s_Version = InitStateVersion sample_tm, s_ChainID = [], s_InitialHeight = 1,
      s_LastBlockHeight = int64_of h, s_LastBlockID = sample_BlockID h, s_LastBlockTime = 0,
      s_SLStateIndex = 0, s_NextValidators = 1, s_Validators = 0, s_LastValidators = 0,
      s_LastHeightValidatorsChanged = 1, s_ConsensusParams = sample_params,
      s_LastHeightConsensusParamsChanged = 1, s_LastResultsHash = zero_bytes 32,
      s_LastStoreHeight = h, s_BaseHeight = 0, s_AppHash = zero_bytes 32\<rparr>"

definition sample_store :: "mem_db DefaultStore" where
  "sample_store = New_store (empty_mem [])"

subsection \<open>Saving on a store that does not fail\<close>

definition storable_block :: "('vs, 'pvs) store_env \<Rightarrow> Block \<Rightarrow> Commit \<Rightarrow> bool" where
  "storable_block E block commit \<longleftrightarrow>
     codec_ok (se_codec E) \<and> wf_Block block \<and> wf_Commit commit \<and>
     encodable_Block (se_codec E) (Block_ToProto block) \<and>
     encodable_Commit (se_codec E) (Commit_ToProto commit) \<and>
     Block_Size (se_codec E) (Block_ToProto block) < 2 ^ 63 \<and>
     Commit_Size (se_codec E) (Commit_ToProto commit) < 2 ^ 63"

lemma batch_sets_working:
  assumes "working kv P" and "P db"
  shows "\<exists>b'. batch_sets kv db b kvs = Ok (b', [])"
proof (induction kvs arbitrary: b)
  case (Cons kv1 kvs)
  obtain k v where "kv1 = (k, v)" by (cases kv1)
  moreover obtain b1 where "batch_Set kv db b k v = Ok b1"
    using workingD(2) [OF assms] by blast
  ultimately show ?case
    using Cons.IH [of b1] by simp
qed simp

lemma SaveBlock_working:
  assumes "working kv P" and "P (st_db s)" and "storable_block E block commit"
  shows "\<exists>bb s'. SaveBlock E kv block commit None s = (Ok bb, s') \<and> P (st_db s')"
proof -
  obtain bs cs where "Block_MarshalBinary (se_codec E) block = Ok bs"
    "Commit_MarshalBinary (se_codec E) commit = Ok cs"
    using assms(3) Block_binary_round_trip [of "se_codec E" block]
      Commit_binary_round_trip [of "se_codec E" commit]
    by (auto simp: storable_block_def)
  moreover obtain b where "batch_sets kv (st_db s) (kv_NewBatch kv)
      [(getBlockKey (Header_Hash (se_tm E) (b_Header block)), bs),
       (getCommitKey (Header_Hash (se_tm E) (b_Header block)), cs),
       (getIndexKey (h_Height (b_Header block)), Header_Hash (se_tm E) (b_Header block))] = Ok (b, [])"
    using batch_sets_working [OF assms(1,2)] by blast
  moreover obtain db' where "batch_Commit kv b (st_db s) = (Ok (), db')" "P db'"
    using workingD(4) [OF assms(1,2)] by blast
  ultimately show ?thesis
    by (simp add: SaveBlock_def Let_def on_db_def del: batch_sets.simps)
qed

lemma save_key_working:
  assumes "working kv P" and "P (st_db s)"
  shows "\<exists>b' s'. save_key kv k v b s = (Ok b', s') \<and> P (st_db s') \<and> (b' = None \<longleftrightarrow> b = None)"
  using workingD(1) [OF assms, of k v] workingD(2) [OF assms, of "the b" k v] assms(2)
  by (cases b) (auto simp: save_key_def on_db_def)

lemma UpdateState_working:
  assumes "working kv P" and "P (st_db s)" and "persistable E state" and "state_codec_ok (se_sc E)"
  shows "\<exists>b' s'. UpdateState E kv state b s = (Ok b', s') \<and> P (st_db s') \<and> (b' = None \<longleftrightarrow> b = None)"
proof -
  obtain blob where "state_blob E state = Ok blob"
    using persistable_blob [OF assms(3,4)] by auto
  then show ?thesis
    using save_key_working [OF assms(1,2)] by (simp add: UpdateState_blob)
qed

lemma sample_sizes:
  "Block_Size (se_codec sample_env) (Block_ToProto (sample_block 2)) \<le> 10000"
  "Commit_Size (se_codec sample_env) (Commit_ToProto (sample_commit 2)) \<le> 10000"
  by code_simp+

lemma storable_sample: "storable_block sample_env (sample_block 2) (sample_commit 2)"
  unfolding storable_block_def
proof (intro conjI)
  show "codec_ok (se_codec sample_env)"
    by (simp add: sample_env_def table_codec_ok)
qed (use sample_sizes in \<open>simp_all add: sample_block_def sample_commit_def sample_header_def
      wf_Block_def wf_Commit_def wf_Header_def zero_Header_def zero_Commit_def zero_Data_def
      encodable_Block_def encodable_Commit_def encodable_Data_def Block_ToProto_def
      Commit_ToProto_def Data_ToProto_def evidenceToProto_def sample_env_def table_codec_def
      table_Marshal_def zero_CommitSig_def zero_pb_CommitSig_def\<close>)

lemma persistable_sample: "persistable sample_env (sample_state 2)"
proof -
  have "(case State_ToProto sample_vset (sample_state 2) of Ok p \<Rightarrow> State_Size (se_sc sample_env) p \<le> 10000
      | _ \<Rightarrow> False)"
    by code_simp
  moreover have "storable_State sample_vset (sample_state 2)"
    by code_simp
  moreover have "(case State_ToProto sample_vset (sample_state 2) of
      Ok p \<Rightarrow> encodable_State (se_sc sample_env) p | _ \<Rightarrow> False)"
    by (simp add: State_ToProto_def sample_state_def sample_vset_def sample_env_def
        encodable_State_def table_msg_codec_def table_Marshal_def)
  moreover have "se_vs sample_env = sample_vset"
    by (simp add: sample_env_def)
  ultimately show ?thesis
    by (auto simp: persistable_def split: outcome.splits)
qed

lemma sample_codec_ok: "state_codec_ok (se_sc sample_env)"
  by (simp add: state_codec_ok_def sample_env_def table_msg_codec_ok)

text \<open>A database with index entries of two heights, for pruning.\<close>

definition sample_indexed :: "fate list \<Rightarrow> mem_db DefaultStore" where
  "sample_indexed fates =
     \<lparr>st_db = \<lparr>mem_entries =
        [(mainPrefix @ getIndexKey 1, replicate 32 1), (mainPrefix @ getBlockKey (replicate 32 1), [10]),
         (mainPrefix @ getIndexKey 2, replicate 32 2), (mainPrefix @ getBlockKey (replicate 32 2), [20])],
        mem_fates = fates\<rparr>,
      st_height = 3, st_baseHeight = 1\<rparr>"

subsection \<open>Properties\<close>

text \<open>
  C5: A block and a commit saved by SaveBlock in the node's block store are what LoadBlock and
  LoadCommit return for the block's height (evidence, which the wire format drops, excepted).
\<close>

theorem saved_block_loads:
  assumes "badger_db bdg" and "storable_block E block commit"
    and "SaveBlock E (mainKV bdg) block commit None s = (Ok bb, s')"
  shows "LoadBlock E (mainKV bdg) s' (h_Height (b_Header block)) = Ok (without_evidence block) \<and>
    LoadCommit E (mainKV bdg) s' (h_Height (b_Header block)) = Ok commit"
  using kv_store.LoadBlock_SaveBlock [OF badger_db.mainKV_kv_store [OF assms(1)] assms(3)] assms(2)
  by (simp add: storable_block_def)

theorem saved_block_loads_witness:
  "\<exists>bb s'. SaveBlock sample_env (mainKV mem_badger) (sample_block 2) (sample_commit 2) None
      sample_store = (Ok bb, s') \<and>
    LoadBlock sample_env (mainKV mem_badger) s' 2 = Ok (sample_block 2) \<and>
    LoadCommit sample_env (mainKV mem_badger) s' 2 = Ok (sample_commit 2)"
proof -
  have "no_faults (st_db sample_store)"
    by (simp add: no_faults_def sample_store_def New_store_def empty_mem_def)
  from SaveBlock_working [OF working_mem this storable_sample] obtain bb s' where
    s': "SaveBlock sample_env (mainKV mem_badger) (sample_block 2) (sample_commit 2) None
      sample_store = (Ok bb, s')"
    by blast
  have "without_evidence (sample_block 2) = sample_block 2" "h_Height (b_Header (sample_block 2)) = 2"
    by (simp_all add: without_evidence_def sample_block_def zero_Data_def sample_header_def)
  with s' saved_block_loads [OF mem.badger_db_axioms storable_sample s'] show ?thesis
    by auto
qed

text \<open>
  Saving a block leaves what LoadBlock and LoadCommit return for every other height as it was,
  whatever the outcome of the save, unless that height is indexed under the same header hash.
\<close>

lemma save_keeps_other_heights:
  assumes "badger_db bdg" and "SaveBlock E (mainKV bdg) block commit None s = (r, s')"
    and "h \<noteq> h_Height (b_Header block)"
    and "loadHashFromIndex (mainKV bdg) s h \<noteq> Ok (Header_Hash (se_tm E) (b_Header block))"
  shows "LoadBlock E (mainKV bdg) s' h = LoadBlock E (mainKV bdg) s h \<and>
    LoadCommit E (mainKV bdg) s' h = LoadCommit E (mainKV bdg) s h"
proof -
  note kv = badger_db.mainKV_kv_store [OF assms(1)]
  show ?thesis
    using kv_store.SaveBlock_other_heights [OF kv assms(2,3)] assms(4)
    by (simp add: kv_store.loadHashFromIndex_Ok_iff [OF kv])
qed





text \<open>
  C6: Whatever the outcome of PruneBlocks - an error or a crash in the middle included - the
  stored chain state is kept, and every height from the requested one on loads as before, unless
  its block is the block of a lower height.
\<close>

theorem prune_any_outcome:
  assumes "badger_db bdg" and "PruneBlocks (mainKV bdg) hi s = (r, s')"
  shows "st_height s' = st_height s \<and>
    fst (LoadState E (mainKV bdg) s') = fst (LoadState E (mainKV bdg) s) \<and>
    (\<forall>h. uint64_of hi \<le> h \<and>
       (\<forall>i < uint64_of hi. is_Ok (loadHashFromIndex (mainKV bdg) s i) \<longrightarrow>
          loadHashFromIndex (mainKV bdg) s i \<noteq> loadHashFromIndex (mainKV bdg) s h) \<longrightarrow>
       LoadBlock E (mainKV bdg) s' h = LoadBlock E (mainKV bdg) s h \<and>
       LoadCommit E (mainKV bdg) s' h = LoadCommit E (mainKV bdg) s h)"
proof -
  note kv = badger_db.mainKV_kv_store [OF assms(1)]
  note P = kv_store.PruneBlocks_state [OF kv assms(2)]
  obtain j where j: "st_baseHeight s \<le> j" "j = st_baseHeight s \<or> j \<le> uint64_of hi"
    and view: "main_look bdg (st_db s') = pruned_view (main_look bdg (st_db s)) (st_baseHeight s) j"
    using P(2) by blast
  have "LoadBlock E (mainKV bdg) s' h = LoadBlock E (mainKV bdg) s h \<and>
       LoadCommit E (mainKV bdg) s' h = LoadCommit E (mainKV bdg) s h"
    if "uint64_of hi \<le> h" and "\<forall>i < uint64_of hi. is_Ok (loadHashFromIndex (mainKV bdg) s i) \<longrightarrow>
          loadHashFromIndex (mainKV bdg) s i \<noteq> loadHashFromIndex (mainKV bdg) s h" for h
    by (rule kv_store.load_pruned_hash [OF kv view]) (use j that in \<open>auto simp: not_less dest: less_le_trans\<close>)
  then show ?thesis
    using P(1) kv_store.LoadState_pruned [OF kv view] by blast
qed

theorem prune_any_outcome_witness:
  "(\<exists>p. fst (PruneBlocks (mainKV mem_badger) 2 (sample_indexed [Crash_after])) = Panic p) \<and>
   LoadBlock sample_env (mainKV mem_badger)
       (snd (PruneBlocks (mainKV mem_badger) 2 (sample_indexed [Crash_after]))) 2 =
     LoadBlock sample_env (mainKV mem_badger) (sample_indexed [Crash_after]) 2"
proof -
  let ?s = "sample_indexed [Crash_after]"
  have r: "fst (PruneBlocks (mainKV mem_badger) 2 ?s) = Panic ''crash''"
    by code_simp
  have hashes: "\<not> is_Ok (loadHashFromIndex (mainKV mem_badger) ?s 0)"
    "loadHashFromIndex (mainKV mem_badger) ?s 1 = Ok (replicate 32 1)"
    "loadHashFromIndex (mainKV mem_badger) ?s 2 = Ok (replicate 32 2)"
    by code_simp+
  have small: "i = 0 \<or> i = 1" if "i < 2" for i :: u64
    using that by unat_arith
  have "\<forall>i < uint64_of 2. is_Ok (loadHashFromIndex (mainKV mem_badger) ?s i) \<longrightarrow>
      loadHashFromIndex (mainKV mem_badger) ?s i \<noteq> loadHashFromIndex (mainKV mem_badger) ?s 2"
    using hashes by (auto simp: uint64_of_def dest!: small)
  then show ?thesis
    using r prune_any_outcome [OF mem.badger_db_axioms prod.collapse [symmetric], of 2 ?s sample_env]
    by (simp add: uint64_of_def)
qed

end
