(* ===== verification/Executor.thy ===== *)
theory Executor
  imports Store
begin

text \<open>
  The block executor, after \<open>src/state/executor.go\<close>: block creation, validation, execution and
  commit of a block on the application, the new chain state and the published events. The two
  checks it hands to the mempool are those of \<open>src/mempool/mempool.go\<close>.

  The application connections, the mempool (an interface here; \<open>mempool.Mempool\<close>), the event bus
  and the tendermint functions are the fields of \<open>exec_env\<close>; their states are the fields of
  \<open>conns\<close>, which the operations pass on.
\<close>

subsection \<open>What the executor calls\<close>

datatype bus_event =
    EventDataNewBlock tmBlock "Event list" ResponseEndBlock
  | EventDataNewBlockHeader tmHeader int "Event list" ResponseEndBlock
  | EventDataTx int u32 Tx ResponseDeliverTx

record 'mp mempool_ops =
  mp_ReapMaxBytesMaxGas :: "int \<Rightarrow> int \<Rightarrow> 'mp \<Rightarrow> Tx list"
  mp_FlushAppConn :: "('mp, unit) cmd"
  mp_Update :: "int \<Rightarrow> Tx list \<Rightarrow> ResponseDeliverTx list \<Rightarrow> (Tx \<Rightarrow> unit outcome) \<Rightarrow>
    (Tx \<Rightarrow> ResponseCheckTx \<Rightarrow> unit outcome) \<Rightarrow> ('mp, unit) cmd"

record ('app, 'mp, 'bus, 'vs, 'pvs) exec_env =
  xe_env :: "('vs, 'pvs) store_env"
  xe_app :: "'app abci_app"
  xe_mempool :: "'mp mempool_ops"
  xe_eventBus :: "(bus_event \<Rightarrow> ('bus, unit) cmd) option"
  xe_HeaderPB_Marshal :: "tmHeader \<Rightarrow> bytes outcome"
  xe_NewResults_Hash :: "ResponseDeliverTx list \<Rightarrow> bytes"
  xe_ComputeProtoSizeForTxs :: "Tx list \<Rightarrow> int"
  xe_PubKeyToProto :: "bytes \<Rightarrow> bytes outcome"

abbreviation xe_tm :: "('app, 'mp, 'bus, 'vs, 'pvs) exec_env \<Rightarrow> tm_funs" where
  "xe_tm X \<equiv> se_tm (xe_env X)"

abbreviation xe_vs :: "('app, 'mp, 'bus, 'vs, 'pvs) exec_env \<Rightarrow> ('vs, 'pvs) vset" where
  "xe_vs X \<equiv> se_vs (xe_env X)"

record ('app, 'mp, 'bus) conns =
  co_app :: 'app
  co_mempool :: 'mp
  co_bus :: 'bus

definition on_app :: "('app, 'a) cmd \<Rightarrow> (('app, 'mp, 'bus) conns, 'a) cmd" where
  "on_app c s = (case c (co_app s) of (r, a) \<Rightarrow> (r, s\<lparr>co_app := a\<rparr>))"

definition on_mempool :: "('mp, 'a) cmd \<Rightarrow> (('app, 'mp, 'bus) conns, 'a) cmd" where
  "on_mempool c s = (case c (co_mempool s) of (r, a) \<Rightarrow> (r, s\<lparr>co_mempool := a\<rparr>))"

definition on_bus :: "('bus, 'a) cmd \<Rightarrow> (('app, 'mp, 'bus) conns, 'a) cmd" where
  "on_bus c s = (case c (co_bus s) of (r, a) \<Rightarrow> (r, s\<lparr>co_bus := a\<rparr>))"

subsection \<open>\<open>mempool.PreCheckMaxBytes\<close>, \<open>mempool.PostCheckMaxGas\<close>\<close>

definition PreCheckMaxBytes :: "(Tx list \<Rightarrow> int) \<Rightarrow> int \<Rightarrow> Tx \<Rightarrow> unit outcome" where
  "PreCheckMaxBytes ComputeProtoSizeForTxs maxBytes tx =
     (if ComputeProtoSizeForTxs [tx] > maxBytes then Err (Errorf ''tx size is too big'') else Ok ())"

definition PostCheckMaxGas :: "int \<Rightarrow> Tx \<Rightarrow> ResponseCheckTx \<Rightarrow> unit outcome" where
  "PostCheckMaxGas maxGas tx res =
     (if maxGas = -1 then Ok ()
      else if ct_GasWanted res < 0 then Err (Errorf ''gas wanted is negative'')
      else if ct_GasWanted res > maxGas then Err (Errorf ''gas wanted is greater than max gas'')
      else Ok ())"

subsection \<open>The executor\<close>

record BlockExecutor =
  ex_proposerAddress :: bytes
  ex_namespaceID :: bytes
  ex_chainID :: gostring

text \<open>\<open>hex.DecodeString\<close>: pairs of hexadecimal digits, most significant first.\<close>

definition fromHexChar :: "byte \<Rightarrow> byte option" where
  "fromHexChar c =
     (if 0x30 \<le> c \<and> c \<le> 0x39 then Some (c - 0x30)
      else if 0x61 \<le> c \<and> c \<le> 0x66 then Some (c - 0x61 + 10)
      else if 0x41 \<le> c \<and> c \<le> 0x46 then Some (c - 0x41 + 10)
      else None)"

fun DecodeString :: "gostring \<Rightarrow> bytes outcome" where
  "DecodeString [] = Ok []"
| "DecodeString [c] =
     (case fromHexChar c of None \<Rightarrow> Err (Errorf ''invalid byte'')
      | Some _ \<Rightarrow> Err (Errorf ''odd length hex string''))"
| "DecodeString (a # b # s) =
     (case fromHexChar a of
        None \<Rightarrow> Err (Errorf ''invalid byte'')
      | Some x \<Rightarrow>
          (case fromHexChar b of
             None \<Rightarrow> Err (Errorf ''invalid byte'')
           | Some y \<Rightarrow> bind_out (DecodeString s) (\<lambda>r. Ok ((16 * x + y) # r))))"

definition NewBlockExecutor :: "bytes \<Rightarrow> gostring \<Rightarrow> gostring \<Rightarrow> BlockExecutor outcome" where
  "NewBlockExecutor proposerAddress namespaceID chainID =
     bind_out (DecodeString namespaceID) (\<lambda>bytes.
       Ok \<lparr>ex_proposerAddress = proposerAddress,
           ex_namespaceID = go_copy (zero_bytes 8) bytes,
           ex_chainID = chainID\<rparr>)"

fun validator_updates :: "(bytes \<Rightarrow> bytes outcome) \<Rightarrow> Validator list \<Rightarrow> Validator list outcome" where
  "validator_updates PubKeyToProto [] = Ok []"
| "validator_updates PubKeyToProto (v # vals) =
     bind_out (PubKeyToProto (val_PubKey v)) (\<lambda>tmkey.
     bind_out (validator_updates PubKeyToProto vals) (\<lambda>updates.
       Ok (v\<lparr>val_PubKey := tmkey\<rparr> # updates)))"

definition InitChain ::
  "('app, 'mp, 'bus, 'vs, 'pvs) exec_env \<Rightarrow> GenesisDoc \<Rightarrow> Validator list \<Rightarrow>
     (('app, 'mp, 'bus) conns, ResponseInitChain) cmd" where
  "InitChain X genesis validators s =
     (case validator_updates (xe_PubKeyToProto X) validators of
        Err e \<Rightarrow> (Err e, s)
      | Panic p \<Rightarrow> (Panic p, s)
      | Ok valUpdates \<Rightarrow>
          (case g_ConsensusParams genesis of
             None \<Rightarrow> (Panic ''nil pointer dereference'', s)
           | Some params \<Rightarrow>
               on_app (app_InitChain (xe_app X)
                 \<lparr>rqi_Time = g_GenesisTime genesis, rqi_ChainId = g_ChainID genesis,
                  rqi_ConsensusParams =
                    \<lparr>acp_Block = Some (cp_Block_MaxBytes params, cp_Block_MaxGas params),
                     acp_Evidence = Some (cp_Evidence_MaxAgeNumBlocks params,
                       cp_Evidence_MaxAgeDuration params, cp_Evidence_MaxBytes params),
                     acp_Validator = Some (cp_Validator_PubKeyTypes params),
                     acp_Version = Some (cp_Version_AppVersion params)\<rparr>,
                  rqi_Validators = valUpdates,
                  rqi_AppStateBytes = g_AppState genesis,
                  rqi_InitialHeight = g_InitialHeight genesis\<rparr>) s))"

definition getLastCommitHash :: "tm_funs \<Rightarrow> Commit \<Rightarrow> Header \<Rightarrow> bytes" where
  "getLastCommitHash tm lastCommit header = tm_Commit_Hash tm (ToABCICommit tm lastCommit header)"

definition getDataHash :: "tm_funs \<Rightarrow> Block \<Rightarrow> bytes" where
  "getDataHash tm block = tm_Data_Hash tm (ToABCIBlockDataTxs (b_Data block))"

definition toDymintTxs :: "Tx list \<Rightarrow> Tx list" where
  "toDymintTxs txs = txs"

definition fromDymintTxs :: "Tx list \<Rightarrow> Tx list" where
  "fromDymintTxs optiTxs = optiTxs"

text \<open>\<open>now\<close> is the time of the call in nanoseconds.\<close>

definition CreateBlock ::
  "('app, 'mp, 'bus, 'vs, 'pvs) exec_env \<Rightarrow> BlockExecutor \<Rightarrow> int \<Rightarrow> u64 \<Rightarrow> Commit \<Rightarrow> bytes \<Rightarrow>
     'vs State \<Rightarrow> ('app, 'mp, 'bus) conns \<Rightarrow> Block" where
  "CreateBlock X e now height lastCommit lastHeaderHash state s =
     (let maxBytes = cp_Block_MaxBytes (s_ConsensusParams state);
          maxGas = cp_Block_MaxGas (s_ConsensusParams state);
          mempoolTxs = mp_ReapMaxBytesMaxGas (xe_mempool X) maxBytes maxGas (co_mempool s);
          block =
            \<lparr>b_Header =
               \<lparr>h_Version = \<lparr>v_Block = cv_Block (tv_Consensus (s_Version state)),
                             v_App = cv_App (tv_Consensus (s_Version state))\<rparr>,
                h_NamespaceID = ex_namespaceID e,
                h_Height = height,
                h_Time = uint64_of now,
                h_LastHeaderHash = lastHeaderHash,
                h_LastCommitHash = zero_bytes 32,
                h_DataHash = zero_bytes 32,
                h_ConsensusHash = zero_bytes 32,
                h_AppHash = s_AppHash state,
                h_LastResultsHash = s_LastResultsHash state,
                h_ProposerAddress = ex_proposerAddress e,
                h_AggregatorsHash = zero_bytes 32,
                h_ChainID = ex_chainID e\<rparr>,
             b_Data =
               \<lparr>d_Txs = toDymintTxs mempoolTxs, d_IntermediateStateRoots = [], d_Evidence = []\<rparr>,
             b_LastCommit = lastCommit\<rparr>;
          block1 = block\<lparr>b_Header := (b_Header block)
            \<lparr>h_LastCommitHash := go_copy (h_LastCommitHash (b_Header block))
               (getLastCommitHash (xe_tm X) lastCommit (b_Header block))\<rparr>\<rparr>;
          block2 = block1\<lparr>b_Header := (b_Header block1)
            \<lparr>h_DataHash := go_copy (h_DataHash (b_Header block1)) (getDataHash (xe_tm X) block1)\<rparr>\<rparr>
      in block2\<lparr>b_Header := (b_Header block2)
            \<lparr>h_AggregatorsHash := go_copy (h_AggregatorsHash (b_Header block2))
               (vs_Hash (xe_vs X) (s_Validators state))\<rparr>\<rparr>)"

subsection \<open>Validation\<close>

definition validateBlock ::
  "('app, 'mp, 'bus, 'vs, 'pvs) exec_env \<Rightarrow> 'vs State \<Rightarrow> Block \<Rightarrow> unit outcome" where
  "validateBlock X state block =
     bind_out (Block_ValidateBasic (xe_tm X) block) (\<lambda>_.
     if v_App (h_Version (b_Header block)) \<noteq> cv_App (tv_Consensus (s_Version state)) \<or>
        v_Block (h_Version (b_Header block)) \<noteq> cv_Block (tv_Consensus (s_Version state))
       then Err (Errorf ''block version mismatch'')
     else if s_LastBlockHeight state \<le> 0 \<and>
        h_Height (b_Header block) \<noteq> uint64_of (s_InitialHeight state)
       then Err (Errorf ''initial block height mismatch'')
     else if s_LastBlockHeight state > 0 \<and>
        h_Height (b_Header block) \<noteq> s_LastStoreHeight state + 1
       then Err (Errorf ''block height mismatch'')
     else if h_AppHash (b_Header block) \<noteq> s_AppHash state then Err (Errorf ''AppHash mismatch'')
     else if h_LastResultsHash (b_Header block) \<noteq> s_LastResultsHash state
       then Err (Errorf ''LastResultsHash mismatch'')
     else Ok ())"

definition validateCommit ::
  "('app, 'mp, 'bus, 'vs, 'pvs) exec_env \<Rightarrow> Sequencer \<Rightarrow> Commit \<Rightarrow> Header \<Rightarrow> unit outcome" where
  "validateCommit X proposer commit header =
     bind_out (xe_HeaderPB_Marshal X (ToABCIHeaderPB (xe_tm X) header)) (\<lambda>abciHeaderBytes.
     bind_out (Commit_Validate (xe_tm X) commit proposer abciHeaderBytes) (\<lambda>_. Ok ()))"

definition Validate ::
  "('app, 'mp, 'bus, 'vs, 'pvs) exec_env \<Rightarrow> 'vs State \<Rightarrow> Block \<Rightarrow> Commit \<Rightarrow> Sequencer \<Rightarrow>
     unit outcome" where
  "Validate X state block commit proposer =
     bind_out (validateBlock X state block) (\<lambda>_.
     bind_out (validateCommit X proposer commit (b_Header block)) (\<lambda>_. Ok ()))"

subsection \<open>Execution\<close>

fun deliver_txs :: "'app abci_app \<Rightarrow> Tx list \<Rightarrow> ('app, ResponseDeliverTx list) cmd" where
  "deliver_txs app [] = ret []"
| "deliver_txs app (tx # txs) =
     bind_cmd (app_DeliverTx app tx) (\<lambda>r. bind_cmd (deliver_txs app txs) (\<lambda>rs. ret (r # rs)))"

definition begin_block_request ::
  "('app, 'mp, 'bus, 'vs, 'pvs) exec_env \<Rightarrow> BlockExecutor \<Rightarrow> 'vs State \<Rightarrow> Block \<Rightarrow>
     RequestBeginBlock" where
  "begin_block_request X e state block =
     \<lparr>rbb_Hash = Block_Hash (xe_tm X) block,
      rbb_Header = (ToABCIHeaderPB (xe_tm X) (b_Header block))
        \<lparr>th_ChainID := ex_chainID e, th_ValidatorsHash := vs_Hash (xe_vs X) (s_Validators state)\<rparr>\<rparr>"

definition Execute ::
  "('app, 'mp, 'bus, 'vs, 'pvs) exec_env \<Rightarrow> BlockExecutor \<Rightarrow> 'vs State \<Rightarrow> Block \<Rightarrow>
     (('app, 'mp, 'bus) conns, ABCIResponses) cmd" where
  "Execute X e state block =
     on_app
       (bind_cmd (app_BeginBlock (xe_app X) (begin_block_request X e state block)) (\<lambda>begin.
        bind_cmd (deliver_txs (xe_app X) (d_Txs (b_Data block))) (\<lambda>txRes.
        bind_cmd (app_EndBlock (xe_app X) (int64_of (h_Height (b_Header block)))) (\<lambda>end.
          ret \<lparr>ar_DeliverTxs = txRes, ar_EndBlock = Some end, ar_BeginBlock = Some begin\<rparr>))))"

subsection \<open>The new state\<close>

definition updateState ::
  "('app, 'mp, 'bus, 'vs, 'pvs) exec_env \<Rightarrow> 'vs State \<Rightarrow> Block \<Rightarrow> ABCIResponses \<Rightarrow>
     Validator list \<Rightarrow> 'vs State outcome" where
  "updateState X state block abciResponses validatorUpdates =
     (let vs = xe_vs X;
          finish = (\<lambda>nValSet lastHeightValSetChanged.
            Ok (state\<lparr>s_LastBlockHeight := int64_of (h_Height (b_Header block)),
                      s_LastBlockTime := Unix_ns (h_Time (b_Header block)),
                      s_LastBlockID :=
                        \<lparr>bid_Hash = Header_Hash (xe_tm X) (b_Header block),
                         bid_PartSetHeader = \<lparr>ps_Total = 0, ps_Hash = []\<rparr>\<rparr>,
                      s_NextValidators := nValSet,
                      s_Validators := s_NextValidators state,
                      s_LastHeightValidatorsChanged := lastHeightValSetChanged\<rparr>))
      in if vs_IsEmpty vs (s_NextValidators state)
         then finish (s_NextValidators state) (s_LastHeightValidatorsChanged state)
         else if validatorUpdates = []
         then finish (vs_IncrementProposerPriority vs (s_NextValidators state) 1)
                (s_LastHeightValidatorsChanged state)
         else (case vs_UpdateWithChangeSet vs (s_NextValidators state) validatorUpdates of
                 Err e \<Rightarrow> Ok state
               | Panic p \<Rightarrow> Panic p
               | Ok nValSet \<Rightarrow>
                   finish (vs_IncrementProposerPriority vs nValSet 1)
                     (int64_of (h_Height (b_Header block) + 1 + 1))))"

definition UpdateStateFromResponses ::
  "('app, 'mp, 'bus, 'vs, 'pvs) exec_env \<Rightarrow> ABCIResponses \<Rightarrow> 'vs State \<Rightarrow> Block \<Rightarrow>
     'vs State outcome" where
  "UpdateStateFromResponses X resp state block = updateState X state block resp []"

subsection \<open>Commit\<close>

definition executor_commit ::
  "('app, 'mp, 'bus, 'vs, 'pvs) exec_env \<Rightarrow> 'vs State \<Rightarrow> Block \<Rightarrow> ResponseDeliverTx list \<Rightarrow>
     (('app, 'mp, 'bus) conns, bytes \<times> int) cmd" where
  "executor_commit X state block deliverTxs =
     bind_cmd (on_mempool (mp_FlushAppConn (xe_mempool X))) (\<lambda>_.
     bind_cmd (on_app (app_Commit (xe_app X))) (\<lambda>resp.
     bind_cmd (on_mempool (mp_Update (xe_mempool X) (int64_of (h_Height (b_Header block)))
         (fromDymintTxs (d_Txs (b_Data block))) deliverTxs
         (PreCheckMaxBytes (xe_ComputeProtoSizeForTxs X)
           (cp_Block_MaxBytes (s_ConsensusParams state)))
         (PostCheckMaxGas (cp_Block_MaxGas (s_ConsensusParams state))))) (\<lambda>_.
       ret (rc_Data resp, rc_RetainHeight resp))))"

text \<open>\<open>multierr.Append\<close> of the errors of a sequence of publications, all of which are made.\<close>

fun publish_all :: "(bus_event \<Rightarrow> ('bus, unit) cmd) \<Rightarrow> bus_event list \<Rightarrow> error list \<Rightarrow>
    ('bus, unit) cmd" where
  "publish_all pub [] errs s =
     (case errs of [] \<Rightarrow> (Ok (), s) | [e] \<Rightarrow> (Err e, s) | _ \<Rightarrow> (Err (ErrMulti errs), s))"
| "publish_all pub (ev # evs) errs s =
     (case pub ev s of
        (Ok _, s') \<Rightarrow> publish_all pub evs errs s'
      | (Err e, s') \<Rightarrow> publish_all pub evs (errs @ [e]) s'
      | (Panic p, s') \<Rightarrow> (Panic p, s'))"

definition block_events ::
  "('app, 'mp, 'bus, 'vs, 'pvs) exec_env \<Rightarrow> Event list \<Rightarrow> ResponseEndBlock \<Rightarrow> ABCIResponses \<Rightarrow>
     Block \<Rightarrow> 'vs State \<Rightarrow> bus_event list" where
  "block_events X begin end resp block state =
     (let abciBlock0 = ToABCIBlock (xe_tm X) block;
          abciBlock = abciBlock0\<lparr>tb_Header := (tb_Header abciBlock0)
            \<lparr>th_ValidatorsHash := vs_Hash (xe_vs X) (s_Validators state)\<rparr>\<rparr>;
          height = int64_of (h_Height (b_Header block))
      in [EventDataNewBlock abciBlock begin end,
          EventDataNewBlockHeader (tb_Header abciBlock) (int (length (tb_Txs abciBlock))) begin end]
         @ map (\<lambda>(i, tx, dtx). EventDataTx height (word_of_nat i) tx dtx)
             (zip [0..<length (ar_DeliverTxs resp)] (zip (tb_Txs abciBlock) (ar_DeliverTxs resp))))"

text \<open>
  With fewer transactions in the block than responses the loop over the responses publishes
  the events it can and then indexes out of range.
\<close>

definition publishEvents ::
  "('app, 'mp, 'bus, 'vs, 'pvs) exec_env \<Rightarrow> ABCIResponses \<Rightarrow> Block \<Rightarrow> 'vs State \<Rightarrow>
     (('app, 'mp, 'bus) conns, unit) cmd" where
  "publishEvents X resp block state s =
     (case xe_eventBus X of
        None \<Rightarrow> (Ok (), s)
      | Some pub \<Rightarrow>
          (case (ar_BeginBlock resp, ar_EndBlock resp) of
             (Some begin, Some end) \<Rightarrow>
               (case on_bus (publish_all pub (block_events X begin end resp block state) []) s of
                  (Panic p, s') \<Rightarrow> (Panic p, s')
                | (r, s') \<Rightarrow>
                    if length (ar_DeliverTxs resp) \<le> length (d_Txs (b_Data block)) then (r, s')
                    else (Panic ''index out of range'', s'))
           | _ \<Rightarrow> (Panic ''nil pointer dereference'', s)))"

text \<open>The state is passed by pointer in the source: the changed copy is part of the result.\<close>

definition executor_Commit ::
  "('app, 'mp, 'bus, 'vs, 'pvs) exec_env \<Rightarrow> 'vs State \<Rightarrow> Block \<Rightarrow> ABCIResponses \<Rightarrow>
     (('app, 'mp, 'bus) conns, 'vs State \<times> int) cmd" where
  "executor_Commit X state block resp =
     bind_cmd (executor_commit X state block (ar_DeliverTxs resp)) (\<lambda>(appHash, retainHeight).
     let state' = state\<lparr>s_AppHash := go_copy (s_AppHash state) appHash,
                        s_LastResultsHash := go_copy (s_LastResultsHash state)
                          (xe_NewResults_Hash X (ar_DeliverTxs resp))\<rparr>
     in bind_cmd (publishEvents X resp block state') (\<lambda>_. ret (state', retainHeight)))"

definition GetAppInfo ::
  "('app, 'mp, 'bus, 'vs, 'pvs) exec_env \<Rightarrow> ('app, 'mp, 'bus) conns \<Rightarrow> ResponseInfo outcome" where
  "GetAppInfo X s = app_Info (xe_app X) (co_app s)"

subsection \<open>Validation, functionally\<close>

lemma validateBlock_Ok_iff:
  "validateBlock X state block = Ok () \<longleftrightarrow>
     Block_ValidateBasic (xe_tm X) block = Ok () \<and>
     h_Version (b_Header block) =
       \<lparr>v_Block = cv_Block (tv_Consensus (s_Version state)),
        v_App = cv_App (tv_Consensus (s_Version state))\<rparr> \<and>
     h_Height (b_Header block) =
       (if s_LastBlockHeight state \<le> 0 then uint64_of (s_InitialHeight state)
        else s_LastStoreHeight state + 1) \<and>
     h_AppHash (b_Header block) = s_AppHash state \<and>
     h_LastResultsHash (b_Header block) = s_LastResultsHash state"
  by (cases "h_Version (b_Header block)") (auto simp: validateBlock_def bind_out_Ok_iff)

lemma Validate_Ok_iff:
  "Validate X state block commit proposer = Ok () \<longleftrightarrow>
     validateBlock X state block = Ok () \<and>
     (\<exists>bs. xe_HeaderPB_Marshal X (ToABCIHeaderPB (xe_tm X) (b_Header block)) = Ok bs \<and>
        Commit_Validate (xe_tm X) commit proposer bs = Ok ())"
  by (auto simp: Validate_def validateCommit_def bind_out_Ok_iff)

text \<open>A block the executor creates at the next height is one it accepts.\<close>

lemma CreateBlock_header:
  "h_AppHash (b_Header (CreateBlock X e now height lc lh state s)) = s_AppHash state"
  "h_LastResultsHash (b_Header (CreateBlock X e now height lc lh state s)) = s_LastResultsHash state"
  "h_Height (b_Header (CreateBlock X e now height lc lh state s)) = height"
  "h_ProposerAddress (b_Header (CreateBlock X e now height lc lh state s)) = ex_proposerAddress e"
  "h_LastHeaderHash (b_Header (CreateBlock X e now height lc lh state s)) = lh"
  "h_Version (b_Header (CreateBlock X e now height lc lh state s)) =
     \<lparr>v_Block = cv_Block (tv_Consensus (s_Version state)),
      v_App = cv_App (tv_Consensus (s_Version state))\<rparr>"
  "b_LastCommit (CreateBlock X e now height lc lh state s) = lc"
  "d_Txs (b_Data (CreateBlock X e now height lc lh state s)) =
     mp_ReapMaxBytesMaxGas (xe_mempool X) (cp_Block_MaxBytes (s_ConsensusParams state))
       (cp_Block_MaxGas (s_ConsensusParams state)) (co_mempool s)"
  by (simp_all add: CreateBlock_def Let_def toDymintTxs_def)

lemma wf_CreateBlock:
  assumes "wf_Commit lc" and "length lh = 32" and "length (ex_namespaceID e) = 8"
    and "length (s_AppHash state) = 32" and "length (s_LastResultsHash state) = 32"
  shows "wf_Block (CreateBlock X e now height lc lh state s)"
  using assms by (simp add: wf_Block_def wf_Header_def CreateBlock_def Let_def)

lemma validateBlock_CreateBlock:
  assumes "ex_proposerAddress e \<noteq> []" and "Commit_ValidateBasic (xe_tm X) lc = Ok ()"
    and "height = (if s_LastBlockHeight state \<le> 0 then uint64_of (s_InitialHeight state)
                   else s_LastStoreHeight state + 1)"
  shows "validateBlock X state (CreateBlock X e now height lc lh state s) = Ok ()"
  using assms by (simp add: validateBlock_Ok_iff Block_ValidateBasic_Ok_iff CreateBlock_header)

lemma length_NewBlockExecutor:
  "NewBlockExecutor a ns c = Ok e \<Longrightarrow> length (ex_namespaceID e) = 8"
  by (auto simp: NewBlockExecutor_def bind_out_Ok_iff)

subsection \<open>The application as a deterministic state machine\<close>

text \<open>
  What ABCI asks of an application: the responses and the committed state are functions of what
  was committed before and of the block. \<open>'w\<close> is the working state of the current block and
  \<open>'d\<close> the durable one; a call may also fail, and a commit that fails may or may not have been
  made durable.
\<close>

record ('w, 'd) app_spec =
  sp_begin :: "RequestBeginBlock \<Rightarrow> 'w \<Rightarrow> Event list \<times> 'w"
  sp_deliver :: "Tx \<Rightarrow> 'w \<Rightarrow> ResponseDeliverTx \<times> 'w"
  sp_end :: "int \<Rightarrow> 'w \<Rightarrow> ResponseEndBlock \<times> 'w"
  sp_commit :: "'w \<Rightarrow> ResponseCommit \<times> 'd"
  sp_start :: "'d \<Rightarrow> 'w"
  sp_info :: "'d \<Rightarrow> ResponseInfo"

definition implements_abci ::
  "'app abci_app \<Rightarrow> ('w, 'd) app_spec \<Rightarrow> ('app \<Rightarrow> 'w) \<Rightarrow> ('app \<Rightarrow> 'd) \<Rightarrow> bool" where
  "implements_abci app sp work durable \<longleftrightarrow>
     (\<forall>q a r a'. app_BeginBlock app q a = (r, a') \<longrightarrow> durable a' = durable a \<and>
        (\<forall>x. r = Ok x \<longrightarrow> sp_begin sp q (work a) = (x, work a'))) \<and>
     (\<forall>q a r a'. app_DeliverTx app q a = (r, a') \<longrightarrow> durable a' = durable a \<and>
        (\<forall>x. r = Ok x \<longrightarrow> sp_deliver sp q (work a) = (x, work a'))) \<and>
     (\<forall>q a r a'. app_EndBlock app q a = (r, a') \<longrightarrow> durable a' = durable a \<and>
        (\<forall>x. r = Ok x \<longrightarrow> sp_end sp q (work a) = (x, work a'))) \<and>
     (\<forall>a r a'. app_Commit app a = (r, a') \<longrightarrow>
        (durable a' = durable a \<and> \<not> is_Ok r \<or> durable a' = snd (sp_commit sp (work a))) \<and>
        (\<forall>x. r = Ok x \<longrightarrow> sp_commit sp (work a) = (x, durable a') \<and> work a' = sp_start sp (durable a'))) \<and>
     (\<forall>a. durable (app_Restart app a) = durable a \<and>
        work (app_Restart app a) = sp_start sp (durable a)) \<and>
     (\<forall>a x. app_Info app a = Ok x \<longrightarrow> x = sp_info sp (durable a)) \<and>
     (\<forall>h w. sp_info sp (snd (sp_commit sp (snd (sp_end sp h w)))) =
        \<lparr>ri_LastBlockHeight = h,
         ri_LastBlockAppHash = rc_Data (fst (sp_commit sp (snd (sp_end sp h w))))\<rparr>)"

lemma implements_abci_laws:
  assumes "implements_abci app sp work durable"
  shows begin_law: "app_BeginBlock app q a = (r, a') \<Longrightarrow> durable a' = durable a \<and>
      (\<forall>x. r = Ok x \<longrightarrow> sp_begin sp q (work a) = (x, work a'))"
    and deliver_law: "app_DeliverTx app tx a = (rd, a') \<Longrightarrow> durable a' = durable a \<and>
      (\<forall>x. rd = Ok x \<longrightarrow> sp_deliver sp tx (work a) = (x, work a'))"
    and end_law: "app_EndBlock app h a = (re, a') \<Longrightarrow> durable a' = durable a \<and>
      (\<forall>x. re = Ok x \<longrightarrow> sp_end sp h (work a) = (x, work a'))"
    and commit_law: "app_Commit app a = (rc, a') \<Longrightarrow>
      (durable a' = durable a \<and> \<not> is_Ok rc \<or> durable a' = snd (sp_commit sp (work a))) \<and>
      (\<forall>x. rc = Ok x \<longrightarrow>
         sp_commit sp (work a) = (x, durable a') \<and> work a' = sp_start sp (durable a'))"
    and restart_law: "durable (app_Restart app a) = durable a"
      "work (app_Restart app a) = sp_start sp (durable a)"
    and info_law: "app_Info app a = Ok i \<Longrightarrow> i = sp_info sp (durable a)"
    and info_commit_law: "sp_info sp (snd (sp_commit sp (snd (sp_end sp h w)))) =
        \<lparr>ri_LastBlockHeight = h,
         ri_LastBlockAppHash = rc_Data (fst (sp_commit sp (snd (sp_end sp h w))))\<rparr>"
proof -
  note laws = assms [unfolded implements_abci_def]
  note c1 = conjunct1 [OF laws] and c2 = conjunct2 [OF laws]
  note d1 = conjunct1 [OF c2] and d2 = conjunct2 [OF c2]
  note e1 = conjunct1 [OF d2] and e2 = conjunct2 [OF d2]
  note f1 = conjunct1 [OF e2] and f2 = conjunct2 [OF e2]
  note g1 = conjunct1 [OF f2] and g2 = conjunct2 [OF f2]
  note i1 = conjunct1 [OF g2] and i2 = conjunct2 [OF g2]
  show "app_BeginBlock app q a = (r, a') \<Longrightarrow> durable a' = durable a \<and>
      (\<forall>x. r = Ok x \<longrightarrow> sp_begin sp q (work a) = (x, work a'))"
    by (rule c1 [rule_format])
  show "app_DeliverTx app tx a = (rd, a') \<Longrightarrow> durable a' = durable a \<and>
      (\<forall>x. rd = Ok x \<longrightarrow> sp_deliver sp tx (work a) = (x, work a'))"
    by (rule d1 [rule_format])
  show "app_EndBlock app h a = (re, a') \<Longrightarrow> durable a' = durable a \<and>
      (\<forall>x. re = Ok x \<longrightarrow> sp_end sp h (work a) = (x, work a'))"
    by (rule e1 [rule_format])
  show "app_Commit app a = (rc, a') \<Longrightarrow>
      (durable a' = durable a \<and> \<not> is_Ok rc \<or> durable a' = snd (sp_commit sp (work a))) \<and>
      (\<forall>x. rc = Ok x \<longrightarrow>
         sp_commit sp (work a) = (x, durable a') \<and> work a' = sp_start sp (durable a'))"
    by (rule f1 [rule_format])
  show "durable (app_Restart app a) = durable a" "work (app_Restart app a) = sp_start sp (durable a)"
    using g1 by blast+
  show "app_Info app a = Ok i \<Longrightarrow> i = sp_info sp (durable a)"
    by (rule i1 [rule_format])
  show "sp_info sp (snd (sp_commit sp (snd (sp_end sp h w)))) =
        \<lparr>ri_LastBlockHeight = h,
         ri_LastBlockAppHash = rc_Data (fst (sp_commit sp (snd (sp_end sp h w))))\<rparr>"
    by (rule i2 [rule_format])
qed

fun sp_delivers :: "('w, 'd) app_spec \<Rightarrow> Tx list \<Rightarrow> 'w \<Rightarrow> ResponseDeliverTx list \<times> 'w" where
  "sp_delivers sp [] w = ([], w)"
| "sp_delivers sp (tx # txs) w =
     (case sp_deliver sp tx w of (r, w') \<Rightarrow>
        (case sp_delivers sp txs w' of (rs, w'') \<Rightarrow> (r # rs, w'')))"

definition sp_execute ::
  "('w, 'd) app_spec \<Rightarrow> RequestBeginBlock \<Rightarrow> Tx list \<Rightarrow> int \<Rightarrow> 'w \<Rightarrow> ABCIResponses \<times> 'w" where
  "sp_execute sp q txs h w =
     (case sp_begin sp q w of (b, w1) \<Rightarrow>
      case sp_delivers sp txs w1 of (rs, w2) \<Rightarrow>
      case sp_end sp h w2 of (e, w3) \<Rightarrow>
        (\<lparr>ar_DeliverTxs = rs, ar_EndBlock = Some e, ar_BeginBlock = Some b\<rparr>, w3))"

lemma length_sp_delivers: "length (fst (sp_delivers sp txs w)) = length txs"
  by (induction txs arbitrary: w) (auto split: prod.splits, metis fst_conv)

lemma deliver_txs_spec:
  assumes "implements_abci app sp work durable" and "deliver_txs app txs a = (r, a')"
  shows "durable a' = durable a \<and> (\<forall>x. r = Ok x \<longrightarrow> sp_delivers sp txs (work a) = (x, work a'))"
  using assms(2)
proof (induction txs arbitrary: a r a')
  case (Cons tx txs)
  obtain r1 a1 where d: "app_DeliverTx app tx a = (r1, a1)" by (cases "app_DeliverTx app tx a")
  obtain r2 a2 where ds: "deliver_txs app txs a1 = (r2, a2)" by (cases "deliver_txs app txs a1")
  have 1: "durable a1 = durable a \<and> (\<forall>x. r1 = Ok x \<longrightarrow> sp_deliver sp tx (work a) = (x, work a1))"
    by (rule deliver_law [OF assms(1) d])
  from Cons.prems d ds 1 Cons.IH [OF ds] show ?case
    by (cases r1; cases r2) (auto simp: bind_cmd_def ret_def)
qed (simp add: ret_def)

lemma Execute_spec:
  assumes "implements_abci (xe_app X) sp work durable" and "Execute X e state block s = (r, s')"
  shows "co_mempool s' = co_mempool s \<and> co_bus s' = co_bus s \<and>
    durable (co_app s') = durable (co_app s) \<and>
    (\<forall>x. r = Ok x \<longrightarrow>
       sp_execute sp (begin_block_request X e state block) (d_Txs (b_Data block))
         (int64_of (h_Height (b_Header block))) (work (co_app s)) = (x, work (co_app s')))"
proof -
  let ?q = "begin_block_request X e state block" and ?txs = "d_Txs (b_Data block)"
    and ?h = "int64_of (h_Height (b_Header block))" and ?a = "co_app s" and ?app = "xe_app X"
  obtain r1 a1 where b: "app_BeginBlock ?app ?q ?a = (r1, a1)" by (cases "app_BeginBlock ?app ?q ?a")
  obtain r2 a2 where d: "deliver_txs ?app ?txs a1 = (r2, a2)" by (cases "deliver_txs ?app ?txs a1")
  obtain r3 a3 where f: "app_EndBlock ?app ?h a2 = (r3, a3)" by (cases "app_EndBlock ?app ?h a2")
  have 1: "durable a1 = durable ?a \<and> (\<forall>x. r1 = Ok x \<longrightarrow> sp_begin sp ?q (work ?a) = (x, work a1))"
    by (rule begin_law [OF assms(1) b])
  have 3: "durable a3 = durable a2 \<and> (\<forall>x. r3 = Ok x \<longrightarrow> sp_end sp ?h (work a2) = (x, work a3))"
    by (rule end_law [OF assms(1) f])
  from assms(2) b d f 1 3 deliver_txs_spec [OF assms(1) d] show ?thesis
    by (cases r1; cases r2; cases r3)
       (auto simp: Execute_def on_app_def bind_cmd_def ret_def sp_execute_def)
qed

lemma executor_commit_spec:
  assumes "implements_abci (xe_app X) sp work durable" and "executor_commit X state block dtxs s = (r, s')"
  shows "co_bus s' = co_bus s \<and>
    (durable (co_app s') = durable (co_app s) \<and> \<not> is_Ok r \<or>
     durable (co_app s') = snd (sp_commit sp (work (co_app s)))) \<and>
    (\<forall>x. r = Ok x \<longrightarrow>
       x = (rc_Data (fst (sp_commit sp (work (co_app s)))),
            rc_RetainHeight (fst (sp_commit sp (work (co_app s))))) \<and>
       work (co_app s') = sp_start sp (durable (co_app s')))"
proof -
  obtain r1 m1 where f: "mp_FlushAppConn (xe_mempool X) (co_mempool s) = (r1, m1)"
    by (cases "mp_FlushAppConn (xe_mempool X) (co_mempool s)")
  obtain r2 a2 where c: "app_Commit (xe_app X) (co_app s) = (r2, a2)"
    by (cases "app_Commit (xe_app X) (co_app s)")
  obtain r3 m3 where u: "mp_Update (xe_mempool X) (int64_of (h_Height (b_Header block)))
      (fromDymintTxs (d_Txs (b_Data block))) dtxs
      (PreCheckMaxBytes (xe_ComputeProtoSizeForTxs X) (cp_Block_MaxBytes (s_ConsensusParams state)))
      (PostCheckMaxGas (cp_Block_MaxGas (s_ConsensusParams state))) m1 = (r3, m3)"
    by fastforce
  note law = commit_law [OF assms(1) c]
  have run: "executor_commit X state block dtxs s =
    (case r1 of
       Ok _ \<Rightarrow>
         (case r2 of
            Ok x \<Rightarrow>
              (case r3 of
                 Ok _ \<Rightarrow> (Ok (rc_Data x, rc_RetainHeight x), s\<lparr>co_app := a2, co_mempool := m3\<rparr>)
               | Err e \<Rightarrow> (Err e, s\<lparr>co_app := a2, co_mempool := m3\<rparr>)
               | Panic p \<Rightarrow> (Panic p, s\<lparr>co_app := a2, co_mempool := m3\<rparr>))
          | Err e \<Rightarrow> (Err e, s\<lparr>co_app := a2, co_mempool := m1\<rparr>)
          | Panic p \<Rightarrow> (Panic p, s\<lparr>co_app := a2, co_mempool := m1\<rparr>))
     | Err e \<Rightarrow> (Err e, s\<lparr>co_mempool := m1\<rparr>)
     | Panic p \<Rightarrow> (Panic p, s\<lparr>co_mempool := m1\<rparr>))"
    by (cases r1; cases r2; cases r3)
       (simp_all add: executor_commit_def on_mempool_def on_app_def bind_cmd_def ret_def f c u)
  show ?thesis
  proof (cases "is_Ok r1")
    case False
    then have "s' = s\<lparr>co_mempool := m1\<rparr> \<and> \<not> is_Ok r"
      using run assms(2) by (cases r1) auto
    then show ?thesis by auto
  next
    case True
    then have run': "(r, s') =
      (case r2 of
         Ok x \<Rightarrow> (bind_out r3 (\<lambda>_. Ok (rc_Data x, rc_RetainHeight x)), s\<lparr>co_app := a2, co_mempool := m3\<rparr>)
       | Err e \<Rightarrow> (Err e, s\<lparr>co_app := a2, co_mempool := m1\<rparr>)
       | Panic p \<Rightarrow> (Panic p, s\<lparr>co_app := a2, co_mempool := m1\<rparr>))"
      using run assms(2) by (cases r1; cases r2; cases r3; simp)
    then have s': "co_app s' = a2" "co_bus s' = co_bus s"
      by (cases r2; simp)+
    show ?thesis
    proof (cases r2)
      case (Ok y)
      then have "x = (rc_Data y, rc_RetainHeight y)" if "r = Ok x" for x
        using run' that Ok by (cases r3) auto
      moreover have "sp_commit sp (work (co_app s)) = (y, durable a2) \<and> work a2 = sp_start sp (durable a2)"
        using conjunct2 [OF law] Ok by simp
      ultimately show ?thesis by (simp add: s')
    qed (use run' law s' in simp_all)
  qed
qed

lemma publishEvents_app:
  "publishEvents X resp block state s = (r, s') \<Longrightarrow>
     co_app s' = co_app s \<and> co_mempool s' = co_mempool s"
  by (auto simp: publishEvents_def on_bus_def split: option.splits prod.splits outcome.splits if_splits)

lemma executor_Commit_spec:
  assumes "implements_abci (xe_app X) sp work durable" and "executor_Commit X state block resp s = (r, s')"
  shows "(durable (co_app s') = durable (co_app s) \<and> \<not> is_Ok r \<or>
     durable (co_app s') = snd (sp_commit sp (work (co_app s)))) \<and>
    (\<forall>x. r = Ok x \<longrightarrow>
       x = (state\<lparr>s_AppHash := go_copy (s_AppHash state) (rc_Data (fst (sp_commit sp (work (co_app s))))),
                  s_LastResultsHash := go_copy (s_LastResultsHash state)
                    (xe_NewResults_Hash X (ar_DeliverTxs resp))\<rparr>,
            rc_RetainHeight (fst (sp_commit sp (work (co_app s))))) \<and>
       work (co_app s') = sp_start sp (durable (co_app s')))"
proof -
  obtain r1 s1 where c: "executor_commit X state block (ar_DeliverTxs resp) s = (r1, s1)"
    by (cases "executor_commit X state block (ar_DeliverTxs resp) s")
  note C = executor_commit_spec [OF assms(1) c]
  show ?thesis
  proof (cases r1)
    case (Ok x)
    define state' where "state' = state\<lparr>s_AppHash := go_copy (s_AppHash state) (fst x),
      s_LastResultsHash := go_copy (s_LastResultsHash state)
        (xe_NewResults_Hash X (ar_DeliverTxs resp))\<rparr>"
    obtain r2 s2 where p: "publishEvents X resp block state' s1 = (r2, s2)"
      by (cases "publishEvents X resp block state' s1")
    have "executor_Commit X state block resp s =
        bind_cmd (publishEvents X resp block state') (\<lambda>_. ret (state', snd x)) s1"
      using c Ok by (cases x) (simp add: executor_Commit_def bind_cmd_def state'_def Let_def)
    then have "s' = s2 \<and> is_Ok r = is_Ok r2 \<and> (is_Ok r \<longrightarrow> r = Ok (state', snd x))"
      using assms(2) p by (cases r2) (auto simp: bind_cmd_def ret_def)
    moreover have "co_app s2 = co_app s1"
      using publishEvents_app [OF p] by simp
    ultimately show ?thesis
      using C Ok by (auto simp: state'_def)
  next
    case (Err e)
    then have "s' = s1" "r = Err e"
      using assms(2) c by (simp_all add: executor_Commit_def bind_cmd_def)
    with C Err show ?thesis by simp
  next
    case (Panic q)
    then have "s' = s1" "r = Panic q"
      using assms(2) c by (simp_all add: executor_Commit_def bind_cmd_def)
    with C Panic show ?thesis by simp
  qed
qed

end
