(* ===== verification/Layers.thy ===== *)
theory Layers
  imports Types
begin

text \<open>
  The data exchanged with the data availability layer (\<open>src/da/da.go\<close>) and the settlement layer
  (\<open>src/settlement/settlement.go\<close>), the interfaces the block manager calls, and the path under
  which a batch is registered on the settlement layer, with the decimal conversions of
  \<open>strconv\<close> and \<open>strings.FieldsFunc\<close> it uses.
\<close>

subsection \<open>\<open>da/da.go\<close>\<close>

datatype StatusCode = StatusUnknown | StatusSuccess | StatusTimeout | StatusError

type_synonym da_Client = gostring

record ResultSubmitBatch =
  rs_Code :: StatusCode
  rs_Message :: string
  rs_DAHeight :: u64

record ResultCheckBatch =
  rk_Code :: StatusCode
  rk_Message :: string
  rk_DAHeight :: u64
  rk_DataAvailable :: bool

text \<open>A retrieved batch may be a nil pointer.\<close>

record ResultRetrieveBatch =
  rr_Code :: StatusCode
  rr_Message :: string
  rr_DAHeight :: u64
  rr_Batches :: "Batch option list"

subsection \<open>\<open>settlement/settlement.go\<close>\<close>

record DAMetaData =
  dm_Height :: u64
  dm_Client :: da_Client

record SLBatch =
  sb_StartHeight :: u64
  sb_EndHeight :: u64
  sb_AppHashes :: "bytes list"
  sb_MetaData :: DAMetaData

record SLResultRetrieveBatch =
  sr_Code :: StatusCode
  sr_Message :: string
  sr_StateIndex :: u64
  sr_Batch :: SLBatch

text \<open>The operations of the layers that the block manager calls.\<close>

record 'da da_ops =
  da_SubmitBatch :: "Batch \<Rightarrow> ('da, ResultSubmitBatch) cmd"
  da_RetrieveBatches :: "u64 \<Rightarrow> ('da, ResultRetrieveBatch) cmd"
  da_GetClientType :: da_Client

record 'sl sl_ops =
  sl_SubmitBatch :: "Batch \<Rightarrow> da_Client \<Rightarrow> ResultSubmitBatch \<Rightarrow> ('sl, unit) cmd"
  sl_RetrieveBatch :: "u64 option \<Rightarrow> ('sl, SLResultRetrieveBatch) cmd"
  sl_GetSequencersList :: "'sl \<Rightarrow> Sequencer list"
  sl_GetProposer :: "'sl \<Rightarrow> Sequencer option"

subsection \<open>Decimal numbers of \<open>strconv\<close>\<close>

fun digits :: "nat \<Rightarrow> gostring" where
  "digits n = (if n < 10 then [0x30 + word_of_nat n] else digits (n div 10) @ [0x30 + word_of_nat (n mod 10)])"

declare digits.simps [simp del]

definition FormatUint :: "u64 \<Rightarrow> gostring" where
  "FormatUint v = digits (unat v)"

definition digit_value :: "byte \<Rightarrow> nat option" where
  "digit_value c = (if 0x30 \<le> c \<and> c \<le> 0x39 then Some (unat (c - 0x30)) else None)"

fun digits_value :: "gostring \<Rightarrow> nat \<Rightarrow> nat option" where
  "digits_value [] n = Some n"
| "digits_value (c # s) n =
     (case digit_value c of None \<Rightarrow> None | Some d \<Rightarrow> digits_value s (10 * n + d))"

definition ParseUint :: "gostring \<Rightarrow> u64 outcome" where
  "ParseUint s =
     (if s = [] then Err (Errorf ''invalid syntax'')
      else case digits_value s 0 of
             None \<Rightarrow> Err (Errorf ''invalid syntax'')
           | Some n \<Rightarrow> if n < 2 ^ 64 then Ok (word_of_nat n) else Err (Errorf ''value out of range''))"

text \<open>\<open>strings.FieldsFunc\<close> with a separator: the maximal runs of other bytes.\<close>

fun fields_by :: "byte \<Rightarrow> gostring \<Rightarrow> gostring \<Rightarrow> gostring list" where
  "fields_by sep [] cur = (if cur = [] then [] else [rev cur])"
| "fields_by sep (c # s) cur =
     (if c = sep then (if cur = [] then fields_by sep s [] else rev cur # fields_by sep s [])
      else fields_by sep s (c # cur))"

definition FieldsFunc :: "byte \<Rightarrow> gostring \<Rightarrow> gostring list" where
  "FieldsFunc sep s = fields_by sep s []"

subsection \<open>Paths\<close>

definition dot :: byte where
  "dot = 0x2e"

definition ToPath :: "DAMetaData \<Rightarrow> gostring" where
  "ToPath d = dm_Client d @ [dot] @ FormatUint (dm_Height d)"

definition FromPath :: "gostring \<Rightarrow> DAMetaData outcome" where
  "FromPath path =
     (let pathParts = FieldsFunc dot path in
      if length pathParts \<le> 1 then Panic ''index out of range''
      else bind_out (ParseUint (pathParts ! 1)) (\<lambda>height.
             Ok \<lparr>dm_Height = height, dm_Client = pathParts ! 0\<rparr>))"

subsection \<open>Round trip of decimal numbers\<close>

lemma digit_value_digit: "d < 10 \<Longrightarrow> digit_value (0x30 + word_of_nat d) = Some d"
proof -
  assume "d < 10"
  then have "d \<in> {0, 1, 2, 3, 4, 5, 6, 7, 8, 9}" by auto
  then show ?thesis by (auto simp: digit_value_def)
qed

lemma digit_not_dot: "d < 10 \<Longrightarrow> 0x30 + word_of_nat d \<noteq> dot"
proof -
  assume "d < 10"
  then have "d \<in> {0, 1, 2, 3, 4, 5, 6, 7, 8, 9}" by auto
  then show ?thesis by (auto simp: dot_def)
qed

lemma digits_value_append:
  "digits_value (s @ t) n = (case digits_value s n of None \<Rightarrow> None | Some m \<Rightarrow> digits_value t m)"
  by (induction s arbitrary: n) (auto split: option.splits)

lemma digits_value_digits: "digits_value (digits n) 0 = Some n"
proof (induction n rule: digits.induct)
  case (1 n)
  show ?case
  proof (cases "n < 10")
    case True
    then show ?thesis by (simp add: digits.simps [of n] digit_value_digit)
  next
    case False
    then show ?thesis
      using 1 by (simp add: digits.simps [of n] digits_value_append digit_value_digit)
  qed
qed

lemma digits_not_Nil [simp]: "digits n \<noteq> []"
  by (subst digits.simps) simp

lemma dot_notin_digits: "dot \<notin> set (digits n)"
proof (induction n rule: digits.induct)
  case (1 n)
  then show ?case
    using digit_not_dot [of n] digit_not_dot [of "n mod 10"]
    by (cases "n < 10") (auto simp: digits.simps [of n] eq_commute [of dot])
qed

lemma ParseUint_FormatUint: "ParseUint (FormatUint v) = Ok v"
  using unsigned_less [of v, where ?'a = nat]
  by (simp add: ParseUint_def FormatUint_def digits_value_digits)

lemma fields_by_no_sep: "sep \<notin> set s \<Longrightarrow> fields_by sep s cur = (if rev cur @ s = [] then [] else [rev cur @ s])"
  by (induction s arbitrary: cur) auto

lemma fields_by_two:
  "sep \<notin> set s \<Longrightarrow> rev cur @ s \<noteq> [] \<Longrightarrow>
     fields_by sep (s @ sep # t) cur = (rev cur @ s) # fields_by sep t []"
  by (induction s arbitrary: cur) auto

lemma FieldsFunc_length:
  "dot \<notin> set path \<Longrightarrow> length (FieldsFunc dot path) \<le> 1"
  by (simp add: FieldsFunc_def fields_by_no_sep)

subsection \<open>Properties\<close>

text \<open>
  The path under which batch metadata is registered on the settlement layer is parsed back to
  the same metadata, for every height and every client name that is not empty and has no dot.
\<close>

lemma da_path_round_trip:
  assumes "dm_Client d \<noteq> []" and "dot \<notin> set (dm_Client d)"
  shows "FromPath (ToPath d) = Ok d"
proof -
  have "FieldsFunc dot (ToPath d) = [dm_Client d, FormatUint (dm_Height d)]"
    using assms dot_notin_digits
    by (simp add: FieldsFunc_def ToPath_def fields_by_two fields_by_no_sep FormatUint_def)
  then show ?thesis
    by (simp add: FromPath_def ParseUint_FormatUint)
qed

lemma da_path_panics:
  assumes "dot \<notin> set path"
  shows "\<exists>p. FromPath path = Panic p"
  using FieldsFunc_length [OF assms] by (simp add: FromPath_def)

end
