(* ===== verification/PeerIDs.thy ===== *)
theory PeerIDs
  imports Prelude
begin

text \<open>
  The 16-bit ids the mempool gives to peers, after \<open>src/node/mempool/mempool.go\<close>. The Go map
  \<open>activeIDs\<close>, a set, is the list of its keys. The search for an unused id wraps around; it is a
  partial function, which ends because one of the 65536 ids is always unused.
\<close>

record 'peer MempoolIDs =
  peerMap :: "'peer \<rightharpoonup> u16"
  nextID :: u16
  activeIDs :: "u16 list"

definition maxActiveIDs :: nat where
  "maxActiveIDs = 65535"

definition NewMempoolIDs :: "'peer MempoolIDs" where
  "NewMempoolIDs = \<lparr>peerMap = Map.empty, nextID = 1, activeIDs = [0]\<rparr>"

partial_function (option) next_unused :: "u16 list \<Rightarrow> u16 \<Rightarrow> u16 option" where
  "next_unused active i = (if i \<in> set active then next_unused active (i + 1) else Some i)"

declare next_unused.simps [code]

text \<open>The result is \<open>None\<close> if the loop does not end, and a panic at the maximum.\<close>

definition nextPeerID :: "'peer MempoolIDs \<Rightarrow> (u16 outcome \<times> 'peer MempoolIDs) option" where
  "nextPeerID ids =
     (if length (activeIDs ids) = maxActiveIDs
      then Some (Panic ''node has maximum active IDs and wanted to get one more'', ids)
      else map_option (\<lambda>curID. (Ok curID, ids\<lparr>nextID := curID + 1\<rparr>))
             (next_unused (activeIDs ids) (nextID ids)))"

definition assign_id :: "'peer \<Rightarrow> u16 \<Rightarrow> 'peer MempoolIDs \<Rightarrow> 'peer MempoolIDs" where
  "assign_id peer i ids =
     ids\<lparr>peerMap := (peerMap ids)(peer \<mapsto> i), activeIDs := List.insert i (activeIDs ids)\<rparr>"

definition ReserveForPeer ::
  "'peer \<Rightarrow> 'peer MempoolIDs \<Rightarrow> (unit outcome \<times> 'peer MempoolIDs) option" where
  "ReserveForPeer peer ids =
     map_option (\<lambda>(r, ids').
       case r of Ok curID \<Rightarrow> (Ok (), assign_id peer curID ids')
       | Err e \<Rightarrow> (Err e, ids') | Panic p \<Rightarrow> (Panic p, ids')) (nextPeerID ids)"

definition Reclaim :: "'peer \<Rightarrow> 'peer MempoolIDs \<Rightarrow> 'peer MempoolIDs" where
  "Reclaim peer ids =
     (case peerMap ids peer of
        Some removedID \<Rightarrow>
          ids\<lparr>activeIDs := removeAll removedID (activeIDs ids), peerMap := (peerMap ids)(peer := None)\<rparr>
      | None \<Rightarrow> ids)"

definition GetForPeer ::
  "'peer \<Rightarrow> 'peer MempoolIDs \<Rightarrow> (u16 outcome \<times> 'peer MempoolIDs) option" where
  "GetForPeer peer ids =
     (case peerMap ids peer of
        Some i \<Rightarrow> Some (Ok i, ids)
      | None \<Rightarrow>
          map_option (\<lambda>(r, ids').
            case r of Ok i \<Rightarrow> (Ok i, assign_id peer i ids')
            | Err e \<Rightarrow> (Err e, ids') | Panic p \<Rightarrow> (Panic p, ids')) (nextPeerID ids))"

subsection \<open>The search ends\<close>

lemma next_unused_Some: "next_unused active i = Some j \<Longrightarrow> j \<notin> set active"
  by (erule next_unused.raw_induct [rotated]) (auto split: if_splits)

lemma next_unused_total:
  assumes "j \<notin> set active"
  shows "\<exists>k. next_unused active i = Some k"
proof (induction "unat (j - i)" arbitrary: i)
  case 0
  then have "i = j"
    by (simp add: unat_eq_0)
  with assms show ?case
    by (subst next_unused.simps) simp
next
  case (Suc n)
  have "j - i \<noteq> 0"
    using Suc.hyps(2) by (metis nat.distinct(1) unat_0)
  then have "unat (j - (i + 1)) = n"
    using Suc.hyps(2) unat_minus_one [of "j - i"] by (simp add: diff_diff_eq)
  from Suc.hyps(1) [OF this [symmetric]] show ?case
    by (subst next_unused.simps) simp
qed

lemma unused_exists:
  assumes "distinct active" and "length active \<le> maxActiveIDs"
  shows "\<exists>j :: u16. j \<notin> set active"
proof (rule ccontr)
  assume "\<nexists>j. j \<notin> set active"
  then have "card (UNIV :: u16 set) = length active"
    using assms(1) by (metis UNIV_eq_I distinct_card)
  then show False
    using assms(2) by (simp add: maxActiveIDs_def card_word)
qed

subsection \<open>The invariant\<close>

definition ids_ok :: "'peer MempoolIDs \<Rightarrow> bool" where
  "ids_ok ids \<longleftrightarrow>
     distinct (activeIDs ids) \<and> length (activeIDs ids) \<le> maxActiveIDs \<and> 0 \<in> set (activeIDs ids) \<and>
     ran (peerMap ids) \<subseteq> set (activeIDs ids) - {0} \<and> inj_on (peerMap ids) (dom (peerMap ids))"

lemma ids_ok_New: "ids_ok NewMempoolIDs"
  by (simp add: ids_ok_def NewMempoolIDs_def maxActiveIDs_def)

lemma nextPeerID_total:
  assumes "ids_ok ids"
  shows "\<exists>r ids'. nextPeerID ids = Some (r, ids') \<and> peerMap ids' = peerMap ids \<and>
    activeIDs ids' = activeIDs ids \<and>
    (if length (activeIDs ids) = maxActiveIDs then \<exists>p. r = Panic p
     else \<exists>i. r = Ok i \<and> i \<notin> set (activeIDs ids))"
proof (cases "length (activeIDs ids) = maxActiveIDs")
  case False
  obtain j where "j \<notin> set (activeIDs ids)"
    using unused_exists assms by (auto simp: ids_ok_def)
  from next_unused_total [OF this] obtain k where "next_unused (activeIDs ids) (nextID ids) = Some k"
    by blast
  with False next_unused_Some [OF this] show ?thesis
    by (simp add: nextPeerID_def)
qed (simp add: nextPeerID_def)

lemma ids_ok_assign:
  assumes "ids_ok ids" and "i \<notin> set (activeIDs ids)" and "length (activeIDs ids) \<noteq> maxActiveIDs"
    and "peerMap ids' = peerMap ids" and "activeIDs ids' = activeIDs ids"
  shows "ids_ok (assign_id peer i ids')"
proof -
  have "i \<noteq> 0" and fresh: "i \<notin> ran (peerMap ids)"
    using assms(1,2) by (auto simp: ids_ok_def)
  moreover have "inj_on ((peerMap ids)(peer \<mapsto> i)) (dom ((peerMap ids)(peer \<mapsto> i)))"
    using assms(1) fresh by (auto simp: ids_ok_def inj_on_def ran_def dom_def)
  ultimately show ?thesis
    using assms by (auto simp: ids_ok_def assign_id_def ran_def split: if_splits)
qed

lemma ids_ok_Reclaim:
  assumes "ids_ok ids"
  shows "ids_ok (Reclaim peer ids)"
proof (cases "peerMap ids peer")
  case (Some r)
  have inj: "inj_on (peerMap ids) (dom (peerMap ids))"
    and ran: "ran (peerMap ids) \<subseteq> set (activeIDs ids) - {0}"
    using assms by (auto simp: ids_ok_def)
  have other: "q = peer" if "peerMap ids q = Some r" for q
    using inj Some that by (auto simp: inj_on_def dom_def)
  have "r \<noteq> 0"
    using ran Some by (auto simp: ran_def)
  moreover have "inj_on ((peerMap ids)(peer := None)) (dom ((peerMap ids)(peer := None)))"
    using inj by (auto simp: inj_on_def dom_def)
  moreover have "ran ((peerMap ids)(peer := None)) \<subseteq> set (removeAll r (activeIDs ids)) - {0}"
    using ran other by (auto simp: ran_def split: if_splits)
  moreover have "length (removeAll r (activeIDs ids)) \<le> maxActiveIDs"
    using assms le_trans [OF length_removeAll_less_eq] by (auto simp: ids_ok_def)
  ultimately show ?thesis
    using assms Some by (simp add: ids_ok_def Reclaim_def distinct_removeAll)
qed (simp add: assms Reclaim_def)

text \<open>
  Looking an id up: an id that was there is returned, otherwise an unused one is assigned; the
  call panics only if all ids are taken.
\<close>

lemma GetForPeer_spec:
  assumes "ids_ok ids"
  shows "\<exists>r ids'. GetForPeer peer ids = Some (r, ids') \<and> ids_ok ids' \<and>
    (\<forall>i. r = Ok i \<longrightarrow> i \<noteq> 0 \<and> peerMap ids' = (peerMap ids)(peer \<mapsto> i)) \<and>
    (\<not> is_Ok r \<longrightarrow> peerMap ids peer = None \<and> length (activeIDs ids) = maxActiveIDs \<and>
       peerMap ids' = peerMap ids)"
proof (cases "peerMap ids peer")
  case (Some i)
  then show ?thesis
    using assms by (auto simp: GetForPeer_def ids_ok_def ran_def fun_eq_iff)
next
  case None
  obtain r ids' where n: "nextPeerID ids = Some (r, ids')" "peerMap ids' = peerMap ids"
    "activeIDs ids' = activeIDs ids"
    "if length (activeIDs ids) = maxActiveIDs then \<exists>p. r = Panic p
     else \<exists>i. r = Ok i \<and> i \<notin> set (activeIDs ids)"
    using nextPeerID_total [OF assms] by blast
  show ?thesis
  proof (cases "length (activeIDs ids) = maxActiveIDs")
    case True
    with n None assms show ?thesis
      by (auto simp: GetForPeer_def ids_ok_def)
  next
    case False
    with n(4) obtain i where i: "r = Ok i" "i \<notin> set (activeIDs ids)" by auto
    then have "i \<noteq> 0"
      using assms by (auto simp: ids_ok_def)
    with n None i ids_ok_assign [OF assms i(2) False n(2,3), of peer] show ?thesis
      by (auto simp: GetForPeer_def assign_id_def)
  qed
qed

lemma ReserveForPeer_spec:
  assumes "ids_ok ids"
  shows "\<exists>r ids'. ReserveForPeer peer ids = Some (r, ids') \<and> ids_ok ids' \<and>
    (is_Ok r \<longleftrightarrow> length (activeIDs ids) \<noteq> maxActiveIDs) \<and>
    (is_Ok r \<longrightarrow> length (activeIDs ids') = Suc (length (activeIDs ids)))"
proof -
  obtain r ids' where n: "nextPeerID ids = Some (r, ids')" "peerMap ids' = peerMap ids"
    "activeIDs ids' = activeIDs ids"
    "if length (activeIDs ids) = maxActiveIDs then \<exists>p. r = Panic p
     else \<exists>i. r = Ok i \<and> i \<notin> set (activeIDs ids)"
    using nextPeerID_total [OF assms] by blast
  show ?thesis
  proof (cases "length (activeIDs ids) = maxActiveIDs")
    case True
    with n assms show ?thesis
      by (auto simp: ReserveForPeer_def ids_ok_def)
  next
    case False
    with n(4) obtain i where i: "r = Ok i" "i \<notin> set (activeIDs ids)" by auto
    with n False ids_ok_assign [OF assms i(2) False n(2,3), of peer] show ?thesis
      by (auto simp: ReserveForPeer_def assign_id_def)
  qed
qed

subsection \<open>The system of peers\<close>

text \<open>What callers do: reserve, reclaim and look up ids for peers, in any order.\<close>

inductive ids_reachable :: "'peer MempoolIDs \<Rightarrow> bool" where
  ids_start: "ids_reachable NewMempoolIDs"
| ids_reserve: "ids_reachable ids \<Longrightarrow> ReserveForPeer peer ids = Some (r, ids') \<Longrightarrow> ids_reachable ids'"
| ids_get: "ids_reachable ids \<Longrightarrow> GetForPeer peer ids = Some (r, ids') \<Longrightarrow> ids_reachable ids'"
| ids_reclaim: "ids_reachable ids \<Longrightarrow> ids_reachable (Reclaim peer ids)"

lemma ids_reachable_ok: "ids_reachable ids \<Longrightarrow> ids_ok ids"
proof (induction rule: ids_reachable.induct)
  case (ids_reserve ids peer r ids')
  then show ?case using ReserveForPeer_spec [of ids peer] by auto
next
  case (ids_get ids peer r ids')
  then show ?case using GetForPeer_spec [of ids peer] by auto
qed (simp_all add: ids_ok_New ids_ok_Reclaim)

subsection \<open>Properties\<close>

text \<open>
  C40: In every state the callers can reach, two different peers never share an id and no peer has
  the reserved id 0.
\<close>

theorem peer_ids_distinct:
  assumes "ids_reachable ids" and "peerMap ids p = Some i" and "peerMap ids q = Some j" and "p \<noteq> q"
  shows "i \<noteq> j \<and> i \<noteq> 0 \<and> j \<noteq> 0"
  using ids_reachable_ok [OF assms(1)] assms(2-4)
  by (auto simp: ids_ok_def inj_on_def ran_def dom_def)

theorem peer_ids_distinct_witness:
  "\<exists>ids :: nat MempoolIDs. ids_reachable ids \<and> peerMap ids 1 = Some 1 \<and> peerMap ids 2 = Some 2 \<and>
     (1 :: u16) \<noteq> 2 \<and> (1 :: u16) \<noteq> 0 \<and> (2 :: u16) \<noteq> 0"
proof -
  have one: "GetForPeer (1 :: nat) NewMempoolIDs =
      Some (Ok 1, \<lparr>peerMap = [1 \<mapsto> 1], nextID = 2, activeIDs = [1, 0]\<rparr>)"
    by (simp add: GetForPeer_def NewMempoolIDs_def nextPeerID_def assign_id_def
        next_unused.simps [of "[0]" 1] maxActiveIDs_def)
  have two: "GetForPeer (2 :: nat) \<lparr>peerMap = [1 \<mapsto> 1], nextID = 2, activeIDs = [1, 0]\<rparr> =
      Some (Ok 2, \<lparr>peerMap = [1 \<mapsto> 1, 2 \<mapsto> 2], nextID = 3, activeIDs = [2, 1, 0]\<rparr>)"
    by (simp add: GetForPeer_def nextPeerID_def assign_id_def
        next_unused.simps [of "[1, 0]" 2] maxActiveIDs_def)
  have reach: "ids_reachable
      (\<lparr>peerMap = [1 \<mapsto> 1, 2 \<mapsto> 2], nextID = 3, activeIDs = [2, 1, 0]\<rparr> :: nat MempoolIDs)"
    using ids_get [OF ids_get [OF ids_start one] two] .
  show ?thesis
    using reach peer_ids_distinct [OF reach, of 1 1 2 2]
    by (intro exI [of _ "\<lparr>peerMap = [1 \<mapsto> 1, 2 \<mapsto> 2], nextID = 3, activeIDs = [2, 1, 0]\<rparr>"]) simp
qed

text \<open>
  GetForPeer ends in every reachable state, although its search wraps around. It returns the
  id the peer has or a new nonzero one, records it, and panics only if the peer has none and all
  ids are taken.
\<close>

lemma GetForPeer_ends:
  assumes "ids_reachable ids"
  shows "\<exists>r ids'. GetForPeer peer ids = Some (r, ids') \<and>
    (\<forall>i. r = Ok i \<longrightarrow> i \<noteq> 0 \<and> peerMap ids' = (peerMap ids)(peer \<mapsto> i)) \<and>
    (\<not> is_Ok r \<longrightarrow> peerMap ids peer = None \<and> length (activeIDs ids) = maxActiveIDs)"
  using GetForPeer_spec [OF ids_reachable_ok [OF assms], of peer] by blast

end
