(* ===== verification/Gossip.thy ===== *)
theory Gossip
  imports Serialization Abci PeerIDs
begin

text \<open>
  Gossip of blocks and transactions, after \<open>src/p2p\<close>: the wire format of a gossiped block
  (\<open>p2p/pb/events.pb.go\<close>), its conversions and basic validation (\<open>events.go\<close>), the validators
  run on incoming messages (\<open>validator.go\<close>) and the wrapper that skips a node's own messages
  (\<open>gossip.go\<close>). The libp2p network is not part of the model: a validator is a function of the
  message it gets.
\<close>

subsection \<open>\<open>p2p/pb/events.pb.go\<close>\<close>

record pb_GossipedBlock =
  pgb_Block :: "pb_Block option"
  pgb_Commit :: "pb_Commit option"

definition zero_pb_GossipedBlock :: pb_GossipedBlock where
  "zero_pb_GossipedBlock = \<lparr>pgb_Block = None, pgb_Commit = None\<rparr>"

definition GossipedBlock_Size :: "codec \<Rightarrow> pb_GossipedBlock \<Rightarrow> nat" where
  "GossipedBlock_Size cd m =
     size_message_opt (Block_Size cd) (pgb_Block m) +
     size_message_opt (Commit_Size cd) (pgb_Commit m)"

definition GossipedBlock_MarshalToSizedBuffer ::
  "codec \<Rightarrow> pb_GossipedBlock \<Rightarrow> wbuf \<Rightarrow> wbuf outcome" where
  "GossipedBlock_MarshalToSizedBuffer cd m =
     run_writers
       [put_message_opt 0x12 (Commit_MarshalToSizedBuffer cd) (pgb_Commit m),
        put_message_opt 0xa (Block_MarshalToSizedBuffer cd) (pgb_Block m)]"

definition GossipedBlock_Marshal :: "codec \<Rightarrow> pb_GossipedBlock \<Rightarrow> bytes outcome" where
  "GossipedBlock_Marshal cd m =
     marshal (GossipedBlock_Size cd m) (GossipedBlock_MarshalToSizedBuffer cd m)"

definition GossipedBlock_fields :: "codec \<Rightarrow> pb_GossipedBlock field_reader" where
  "GossipedBlock_fields cd fieldNum wireType dAtA iNdEx m =
     (if fieldNum = 1 then
        Some (read_message ''Block'' wireType (\<lambda>bs m.
                bind_out (Block_Unmarshal cd bs (merge_into zero_pb_Block (pgb_Block m)))
                  (\<lambda>x. Ok (m\<lparr>pgb_Block := Some x\<rparr>))) dAtA iNdEx m)
      else if fieldNum = 2 then
        Some (read_message ''Commit'' wireType (\<lambda>bs m.
                bind_out (Commit_Unmarshal cd bs (merge_into zero_pb_Commit (pgb_Commit m)))
                  (\<lambda>x. Ok (m\<lparr>pgb_Commit := Some x\<rparr>))) dAtA iNdEx m)
      else None)"

definition GossipedBlock_Unmarshal ::
  "codec \<Rightarrow> bytes \<Rightarrow> pb_GossipedBlock \<Rightarrow> pb_GossipedBlock outcome" where
  "GossipedBlock_Unmarshal cd dAtA m =
     unmarshal_loop ''proto: GossipedBlock'' (GossipedBlock_fields cd) dAtA 0 m"

subsection \<open>\<open>events.go\<close>\<close>

record GossipedBlock =
  gb_Block :: Block
  gb_Commit :: Commit

definition zero_GossipedBlock :: GossipedBlock where
  "zero_GossipedBlock = \<lparr>gb_Block = zero_Block, gb_Commit = zero_Commit\<rparr>"

definition GossipedBlock_ToProto :: "GossipedBlock \<Rightarrow> pb_GossipedBlock" where
  "GossipedBlock_ToProto e =
     \<lparr>pgb_Block = Some (Block_ToProto (gb_Block e)), pgb_Commit = Some (Commit_ToProto (gb_Commit e))\<rparr>"

definition GossipedBlock_FromProto :: "pb_GossipedBlock \<Rightarrow> GossipedBlock \<Rightarrow> GossipedBlock outcome" where
  "GossipedBlock_FromProto other e =
     (case pgb_Block other of
        None \<Rightarrow> Panic ''nil pointer dereference''
      | Some pb \<Rightarrow>
          bind_out (Block_FromProto pb (gb_Block e)) (\<lambda>b.
          case pgb_Commit other of
            None \<Rightarrow> Panic ''nil pointer dereference''
          | Some pc \<Rightarrow>
              bind_out (Commit_FromProto pc (gb_Commit e)) (\<lambda>c.
                Ok \<lparr>gb_Block = b, gb_Commit = c\<rparr>)))"

definition GossipedBlock_MarshalBinary :: "codec \<Rightarrow> GossipedBlock \<Rightarrow> bytes outcome" where
  "GossipedBlock_MarshalBinary cd e = GossipedBlock_Marshal cd (GossipedBlock_ToProto e)"

definition GossipedBlock_UnmarshalBinary ::
  "codec \<Rightarrow> bytes \<Rightarrow> GossipedBlock \<Rightarrow> GossipedBlock outcome" where
  "GossipedBlock_UnmarshalBinary cd data e =
     bind_out (GossipedBlock_Unmarshal cd data zero_pb_GossipedBlock) (\<lambda>p.
       GossipedBlock_FromProto p e)"

definition GossipedBlock_Validate :: "tm_funs \<Rightarrow> GossipedBlock \<Rightarrow> unit outcome" where
  "GossipedBlock_Validate tm e =
     bind_out (Block_ValidateBasic tm (gb_Block e)) (\<lambda>_.
     bind_out (Commit_ValidateBasic tm (gb_Commit e)) (\<lambda>_. Ok ()))"

subsection \<open>\<open>validator.go\<close> and \<open>gossip.go\<close>\<close>

record 'peer GossipMessage =
  gm_Data :: bytes
  gm_From :: 'peer

text \<open>
  \<open>Publish\<close> hands the block to the node's event server. The verdict on the message is the
  boolean.
\<close>

definition BlockValidator ::
  "tm_funs \<Rightarrow> codec \<Rightarrow> (GossipedBlock \<Rightarrow> ('s, unit) cmd) \<Rightarrow> 'peer GossipMessage \<Rightarrow> ('s, bool) cmd" where
  "BlockValidator tm cd Publish blockMsg s =
     (case GossipedBlock_UnmarshalBinary cd (gm_Data blockMsg) zero_GossipedBlock of
        Err e \<Rightarrow> (Ok False, s)
      | Panic p \<Rightarrow> (Panic p, s)
      | Ok gossipedBlock \<Rightarrow>
          (case GossipedBlock_Validate tm gossipedBlock of
             Err e \<Rightarrow> (Ok False, s)
           | Panic p \<Rightarrow> (Panic p, s)
           | Ok _ \<Rightarrow>
               (case Publish gossipedBlock s of
                  (Ok _, s') \<Rightarrow> (Ok True, s')
                | (Err e, s') \<Rightarrow> (Ok False, s')
                | (Panic p, s') \<Rightarrow> (Panic p, s'))))"

record 'peer TxInfo =
  ti_SenderID :: u16
  ti_SenderP2PID :: 'peer

text \<open>
  \<open>CheckTx\<close> of the mempool returns an error, or none, and may call the callback with a response.
  \<open>errors.Is\<close> compares with a zero-valued error struct for equality. Receiving from a channel
  into which no response was sent waits forever.
\<close>

datatype verdict = Verdict bool | Blocked

definition TxValidator_verdict :: "error option \<Rightarrow> ResponseCheckTx option \<Rightarrow> verdict" where
  "TxValidator_verdict err resp =
     (if err = Some ErrTxInCache then Verdict True
      else if err = Some (ErrMempoolIsFull 0 0 0 0) then Verdict True
      else if err = Some (ErrTxTooLarge 0 0) then Verdict False
      else case resp of Some r \<Rightarrow> Verdict (ct_Code r = 0) | None \<Rightarrow> Blocked)"

definition TxValidator ::
  "(Tx \<Rightarrow> 'peer TxInfo \<Rightarrow> 'mp \<Rightarrow> (error option \<times> ResponseCheckTx option) \<times> 'mp) \<Rightarrow>
     'peer GossipMessage \<Rightarrow> 'peer MempoolIDs \<Rightarrow> 'mp \<Rightarrow>
     (verdict outcome \<times> 'peer MempoolIDs \<times> 'mp) option" where
  "TxValidator CheckTx txMessage mpoolIDs mp =
     map_option (\<lambda>(r, ids).
       case r of
         Ok senderID \<Rightarrow>
           (case CheckTx (gm_Data txMessage)
                   \<lparr>ti_SenderID = senderID, ti_SenderP2PID = gm_From txMessage\<rparr> mp of
              ((err, resp), mp') \<Rightarrow> (Ok (TxValidator_verdict err resp), ids, mp'))
       | Err e \<Rightarrow> (Err e, ids, mp) | Panic p \<Rightarrow> (Panic p, ids, mp))
       (GetForPeer (gm_From txMessage) mpoolIDs)"

definition wrapValidator ::
  "'peer \<Rightarrow> ('peer GossipMessage \<Rightarrow> ('s, bool) cmd) \<Rightarrow> 'peer GossipMessage \<Rightarrow> ('s, bool) cmd" where
  "wrapValidator ownID validator msg =
     (if gm_From msg = ownID then ret True
      else validator \<lparr>gm_Data = gm_Data msg, gm_From = gm_From msg\<rparr>)"

subsection \<open>Round trip\<close>

definition enc_GossipedBlock :: "codec \<Rightarrow> pb_GossipedBlock \<Rightarrow> bytes" where
  "enc_GossipedBlock cd m =
     field_message_opt 0xa (enc_Block cd) (pgb_Block m) @
     field_message_opt 0x12 (enc_Commit cd) (pgb_Commit m)"

definition encodable_GossipedBlock :: "codec \<Rightarrow> pb_GossipedBlock \<Rightarrow> bool" where
  "encodable_GossipedBlock cd m \<longleftrightarrow>
     pred_option (encodable_Block cd) (pgb_Block m) \<and>
     pred_option (encodable_Commit cd) (pgb_Commit m)"

lemma emits_GossipedBlock:
  "encodable_GossipedBlock cd m \<Longrightarrow>
     emits (GossipedBlock_MarshalToSizedBuffer cd m) (enc_GossipedBlock cd m)"
  unfolding GossipedBlock_MarshalToSizedBuffer_def enc_GossipedBlock_def encodable_GossipedBlock_def
  by (rule emits_rules emits_Block emits_Commit | simp)+

lemma length_enc_GossipedBlock:
  assumes "codec_ok cd" and "encodable_GossipedBlock cd m"
  shows "length (enc_GossipedBlock cd m) = GossipedBlock_Size cd m"
proof -
  have "length (field_message_opt 0xa (enc_Block cd) (pgb_Block m)) =
      size_message_opt (Block_Size cd) (pgb_Block m)"
    using assms
    by (intro length_field_message_opt) (auto simp: encodable_GossipedBlock_def length_enc_Block)
  moreover have "length (field_message_opt 0x12 (enc_Commit cd) (pgb_Commit m)) =
      size_message_opt (Commit_Size cd) (pgb_Commit m)"
    using assms
    by (intro length_field_message_opt) (auto simp: encodable_GossipedBlock_def length_enc_Commit)
  ultimately show ?thesis
    by (simp add: enc_GossipedBlock_def GossipedBlock_Size_def)
qed

lemma GossipedBlock_Marshal_enc:
  "codec_ok cd \<Longrightarrow> encodable_GossipedBlock cd m \<Longrightarrow>
     GossipedBlock_Marshal cd m = Ok (enc_GossipedBlock cd m)"
  unfolding GossipedBlock_Marshal_def
  by (rule marshal_emits) (simp_all add: emits_GossipedBlock length_enc_GossipedBlock)

lemma forward_GossipedBlock: "forward (GossipedBlock_fields cd)"
  by (auto simp: forward_def GossipedBlock_fields_def split: if_splits intro: forward_cases)

lemma GossipedBlock_fields_eqs:
  "GossipedBlock_fields cd 1 2 = (\<lambda>d i m. Some (read_message ''Block'' 2 (\<lambda>bs m.
       bind_out (Block_Unmarshal cd bs (merge_into zero_pb_Block (pgb_Block m)))
         (\<lambda>x. Ok (m\<lparr>pgb_Block := Some x\<rparr>))) d i m))"
  "GossipedBlock_fields cd 2 2 = (\<lambda>d i m. Some (read_message ''Commit'' 2 (\<lambda>bs m.
       bind_out (Commit_Unmarshal cd bs (merge_into zero_pb_Commit (pgb_Commit m)))
         (\<lambda>x. Ok (m\<lparr>pgb_Commit := Some x\<rparr>))) d i m))"
  by (simp_all add: GossipedBlock_fields_def fun_eq_iff)

lemma GossipedBlock_Unmarshal_enc:
  assumes "codec_ok cd" and "encodable_GossipedBlock cd m"
    and "length (enc_GossipedBlock cd m) < 2 ^ 63"
  shows "GossipedBlock_Unmarshal cd (enc_GossipedBlock cd m) zero_pb_GossipedBlock = Ok m"
proof -
  have b: "Block_Unmarshal cd (enc_Block cd x) zero_pb_Block = Ok x" if "pgb_Block m = Some x" for x
    by (rule Block_Unmarshal_enc)
       (use assms that length_message_opt_le [OF that, where f = "enc_Block cd" and tag = "0xa"]
        in \<open>simp_all add: enc_GossipedBlock_def encodable_GossipedBlock_def\<close>)
  have c: "Commit_Unmarshal cd (enc_Commit cd x) zero_pb_Commit = Ok x"
    if "pgb_Commit m = Some x" for x
    by (rule Commit_Unmarshal_enc)
       (use assms that length_message_opt_le [OF that, where f = "enc_Commit cd" and tag = "0x12"]
        in \<open>simp_all add: enc_GossipedBlock_def encodable_GossipedBlock_def\<close>)
  have "consumes ''proto: GossipedBlock'' (GossipedBlock_fields cd) (enc_GossipedBlock cd m @ [])
      zero_pb_GossipedBlock m"
    unfolding enc_GossipedBlock_def append.assoc
    by (rule consumes_message_step [where mid = "m\<lparr>pgb_Commit := None\<rparr>",
          OF forward_GossipedBlock tags(5) GossipedBlock_fields_eqs(1)],
        simp add: zero_pb_GossipedBlock_def, simp add: zero_pb_GossipedBlock_def b,
        rule consumes_message_step [where mid = m,
          OF forward_GossipedBlock tags(6) GossipedBlock_fields_eqs(2)],
        simp, simp add: c)
       (rule consumes_Nil)
  then show ?thesis
    unfolding GossipedBlock_Unmarshal_def append_Nil2 by (rule consumes_unmarshal [OF _ assms(3)])
qed

lemma GossipedBlock_binary_round_trip:
  assumes "codec_ok cd" and "wf_Block (gb_Block e)" and "wf_Commit (gb_Commit e)"
    and "encodable_GossipedBlock cd (GossipedBlock_ToProto e)"
    and "GossipedBlock_Size cd (GossipedBlock_ToProto e) < 2 ^ 63"
  shows "\<exists>bs. GossipedBlock_MarshalBinary cd e = Ok bs \<and>
    GossipedBlock_UnmarshalBinary cd bs zero_GossipedBlock =
      Ok (e\<lparr>gb_Block := without_evidence (gb_Block e)\<rparr>)"
proof -
  have "GossipedBlock_FromProto (GossipedBlock_ToProto e) zero_GossipedBlock =
      Ok (e\<lparr>gb_Block := without_evidence (gb_Block e)\<rparr>)"
    using assms(2,3)
    by (simp add: GossipedBlock_FromProto_def GossipedBlock_ToProto_def zero_GossipedBlock_def
        Block_FromProto_ToProto Commit_FromProto_ToProto)
  with assms show ?thesis
    by (simp add: GossipedBlock_MarshalBinary_def GossipedBlock_UnmarshalBinary_def
        GossipedBlock_Marshal_enc GossipedBlock_Unmarshal_enc length_enc_GossipedBlock)
qed

lemma GossipedBlock_Validate_Ok_iff:
  "GossipedBlock_Validate tm e = Ok () \<longleftrightarrow>
     Block_ValidateBasic tm (gb_Block e) = Ok () \<and> Commit_ValidateBasic tm (gb_Commit e) = Ok ()"
  by (auto simp: GossipedBlock_Validate_def bind_out_Ok_iff)

subsection \<open>Properties\<close>

text \<open>
  C38: A block that one node encodes for gossip is, at another node, decoded to the same block and
  commit (evidence excepted), accepted by BlockValidator if block and commit pass their basic
  validation, and published to the node.
\<close>

theorem gossiped_block_accepted:
  assumes "codec_ok cd" and "wf_Block (gb_Block e)" and "wf_Commit (gb_Commit e)"
    and "encodable_GossipedBlock cd (GossipedBlock_ToProto e)"
    and "GossipedBlock_Size cd (GossipedBlock_ToProto e) < 2 ^ 63"
    and "Block_ValidateBasic tm (gb_Block e) = Ok ()" and "Commit_ValidateBasic tm (gb_Commit e) = Ok ()"
    and "Publish (e\<lparr>gb_Block := without_evidence (gb_Block e)\<rparr>) s = (Ok (), s')"
  shows "\<exists>bs. GossipedBlock_MarshalBinary cd e = Ok bs \<and>
    BlockValidator tm cd Publish \<lparr>gm_Data = bs, gm_From = peer\<rparr> s = (Ok True, s')"
proof -
  obtain bs where "GossipedBlock_MarshalBinary cd e = Ok bs"
    "GossipedBlock_UnmarshalBinary cd bs zero_GossipedBlock =
       Ok (e\<lparr>gb_Block := without_evidence (gb_Block e)\<rparr>)"
    using GossipedBlock_binary_round_trip [OF assms(1-5)] by blast
  moreover have "GossipedBlock_Validate tm (e\<lparr>gb_Block := without_evidence (gb_Block e)\<rparr>) = Ok ()"
    using assms(6,7)
    by (simp add: GossipedBlock_Validate_Ok_iff Block_ValidateBasic_Ok_iff without_evidence_def)
  ultimately show ?thesis
    using assms(8) by (simp add: BlockValidator_def)
qed

definition sample_gossip :: GossipedBlock where
  "sample_gossip =
     \<lparr>gb_Block = zero_Block\<lparr>b_Header := zero_Header\<lparr>h_ProposerAddress := [1]\<rparr>\<rparr>,
      gb_Commit = zero_Commit\<rparr>"

definition sample_gossip_tm :: tm_funs where
  "sample_gossip_tm =
     \<lparr>tm_Header_Hash = (\<lambda>h. zero_bytes 32), tm_Commit_Hash = (\<lambda>c. zero_bytes 32),
      tm_Data_Hash = (\<lambda>txs. zero_bytes 32), tm_EmptyEvidence_Hash = [], tm_MaxSignatureSize = 64,
      tm_VerifySignature = (\<lambda>key msg sig. True), tm_BlockProtocol = 11, tm_TMCoreSemVer = []\<rparr>"

theorem gossiped_block_accepted_witness:
  "\<exists>bs. GossipedBlock_MarshalBinary sample_codec sample_gossip = Ok bs \<and>
    BlockValidator sample_gossip_tm sample_codec (\<lambda>b n. (Ok (), Suc n))
      \<lparr>gm_Data = bs, gm_From = (3 :: nat)\<rparr> 0 = (Ok True, 1)"
proof -
  have "GossipedBlock_Size sample_codec (GossipedBlock_ToProto sample_gossip) \<le> 10000"
    by code_simp
  then have "GossipedBlock_Size sample_codec (GossipedBlock_ToProto sample_gossip) < 2 ^ 63"
    by simp
  moreover have "encodable_GossipedBlock sample_codec (GossipedBlock_ToProto sample_gossip)"
    by (simp add: encodable_GossipedBlock_def GossipedBlock_ToProto_def sample_gossip_def
        encodable_Block_def encodable_Commit_def encodable_Data_def Block_ToProto_def
        Commit_ToProto_def Data_ToProto_def evidenceToProto_def zero_Block_def zero_Data_def
        zero_Commit_def sample_codec_def table_codec_def table_Marshal_def zero_CommitSig_def
        zero_pb_CommitSig_def)
  moreover have "codec_ok sample_codec" "wf_Block (gb_Block sample_gossip)"
    "wf_Commit (gb_Commit sample_gossip)"
    by (simp_all add: sample_codec_def table_codec_ok sample_gossip_def wf_Block_def wf_Header_def
        zero_Header_def zero_Block_def)
  moreover have "Block_ValidateBasic sample_gossip_tm (gb_Block sample_gossip) = Ok ()"
    "Commit_ValidateBasic sample_gossip_tm (gb_Commit sample_gossip) = Ok ()"
    by code_simp+
  ultimately show ?thesis
    using gossiped_block_accepted [where Publish = "\<lambda>b n. (Ok (), Suc n)" and s = 0 and s' = 1]
    by simp
qed

text \<open>
  If the mempool rejects a transaction with an error and gives no response, the transaction
  validator answers only for a transaction that is in the cache. For every other rejection that
  the mempool makes - too large, mempool full, failed pre-check - the comparison with a
  zero-valued error fails and the validator waits for a response that never comes.
\<close>

lemma tx_validator_blocks:
  "TxValidator_verdict (Some e) None = Blocked \<longleftrightarrow>
     e \<noteq> ErrTxInCache \<and> e \<noteq> ErrMempoolIsFull 0 0 0 0 \<and> e \<noteq> ErrTxTooLarge 0 0"
  by (simp add: TxValidator_verdict_def)

end
