(* ===== verification/Manager.thy ===== *)
theory Manager
  imports Executor Layers Gossip
begin

text \<open>
  The block manager, after \<open>src/block\<close>: its construction (\<open>manager.go\<close>), the application of a
  block and the alignment of the store with the application (\<open>block.go\<close>), pruning (\<open>pruning.go\<close>)
  and block production (\<open>produce.go\<close>). The batch submission and the synchronisation are in theory
  \<open>Sync\<close>.

  The fields of \<open>Manager\<close> are the manager's mutable fields and the states of what it calls; the
  fixed fields and the external code are in \<open>manager_env\<close>. An operation runs to its end before
  the next one starts: the interleaving inside \<open>applyBlock\<close> of the goroutines that share a
  manager is not modelled.
\<close>

subsection \<open>State and environment\<close>

record tmVote =
  vo_Height :: int
  vo_Timestamp :: gotime
  vo_BlockID :: BlockID
  vo_ValidatorAddress :: bytes

record ('db, 'app, 'mp, 'bus, 'vs, 'pvs, 'sl, 'da, 'net) manager_env =
  me_kv :: "'db KVStore"
  me_exec :: "('app, 'mp, 'bus, 'vs, 'pvs) exec_env"
  me_executor :: BlockExecutor
  me_genesis :: GenesisDoc
  me_sl :: "'sl sl_ops"
  me_da :: "'da da_ops"
  me_GossipBlock :: "bytes \<Rightarrow> ('net, unit) cmd"
  me_BlockBatchMaxSizeBytes :: u64
  me_getAddress :: "bytes outcome"
  me_Sign :: "bytes \<Rightarrow> bytes outcome"
  me_SignVote :: "gostring \<Rightarrow> tmVote \<Rightarrow> bytes outcome"
  me_VerifyVote :: "gostring \<Rightarrow> tmVote \<Rightarrow> bytes \<Rightarrow> bool"

record ('db, 'app, 'mp, 'bus, 'vs, 'sl, 'da, 'net) Manager =
  m_lastState :: "'vs State"
  m_store :: "'db DefaultStore"
  m_conns :: "('app, 'mp, 'bus) conns"
  m_sl :: 'sl
  m_da :: 'da
  m_net :: 'net
  m_syncTarget :: u64
  m_lastSubmissionTime :: int
  m_batchInProcess :: bool
  m_syncTargetDiode :: "u64 option"
  m_shouldProduceBlocksCh :: "bool list"
  m_produceEmptyBlockCh :: "bool list"

abbreviation me_env :: "('db, 'app, 'mp, 'bus, 'vs, 'pvs, 'sl, 'da, 'net) manager_env \<Rightarrow>
    ('vs, 'pvs) store_env" where
  "me_env M \<equiv> xe_env (me_exec M)"

definition on_store ::
  "('db DefaultStore, 'a) cmd \<Rightarrow> (('db, 'app, 'mp, 'bus, 'vs, 'sl, 'da, 'net) Manager, 'a) cmd" where
  "on_store c m = (case c (m_store m) of (r, s) \<Rightarrow> (r, m\<lparr>m_store := s\<rparr>))"

definition on_conns ::
  "(('app, 'mp, 'bus) conns, 'a) cmd \<Rightarrow> (('db, 'app, 'mp, 'bus, 'vs, 'sl, 'da, 'net) Manager, 'a) cmd" where
  "on_conns c m = (case c (m_conns m) of (r, s) \<Rightarrow> (r, m\<lparr>m_conns := s\<rparr>))"

definition on_net ::
  "('net, 'a) cmd \<Rightarrow> (('db, 'app, 'mp, 'bus, 'vs, 'sl, 'da, 'net) Manager, 'a) cmd" where
  "on_net c m = (case c (m_net m) of (r, s) \<Rightarrow> (r, m\<lparr>m_net := s\<rparr>))"

definition on_sl ::
  "('sl, 'a) cmd \<Rightarrow> (('db, 'app, 'mp, 'bus, 'vs, 'sl, 'da, 'net) Manager, 'a) cmd" where
  "on_sl c m = (case c (m_sl m) of (r, s) \<Rightarrow> (r, m\<lparr>m_sl := s\<rparr>))"

definition on_da ::
  "('da, 'a) cmd \<Rightarrow> (('db, 'app, 'mp, 'bus, 'vs, 'sl, 'da, 'net) Manager, 'a) cmd" where
  "on_da c m = (case c (m_da m) of (r, s) \<Rightarrow> (r, m\<lparr>m_da := s\<rparr>))"

definition modify :: "('s \<Rightarrow> 's) \<Rightarrow> ('s, unit) cmd" where
  "modify f s = (Ok (), f s)"

text \<open>An error that the source only logs.\<close>

definition log_err :: "('s, 'a) cmd \<Rightarrow> ('s, unit) cmd" where
  "log_err c s = (case c s of (Ok _, s') \<Rightarrow> (Ok (), s') | (Err e, s') \<Rightarrow> (Ok (), s')
     | (Panic p, s') \<Rightarrow> (Panic p, s'))"

subsection \<open>\<open>pruning.go\<close>\<close>

definition pruneBlocks ::
  "('db, 'app, 'mp, 'bus, 'vs, 'pvs, 'sl, 'da, 'net) manager_env \<Rightarrow> int \<Rightarrow>
     (('db, 'app, 'mp, 'bus, 'vs, 'sl, 'da, 'net) Manager, u64) cmd" where
  "pruneBlocks M retainHeight m =
     (if retainHeight > int64_of (m_syncTarget m)
      then (Err (Errorf ''cannot prune uncommitted blocks''), m)
      else case on_store (PruneBlocks (me_kv M) retainHeight) m of
             (Err e, m') \<Rightarrow> (Err (Wrapf ''failed to prune block store'' e), m')
           | r \<Rightarrow> r)"

subsection \<open>\<open>block.go\<close>\<close>

definition executeBlock ::
  "('db, 'app, 'mp, 'bus, 'vs, 'pvs, 'sl, 'da, 'net) manager_env \<Rightarrow> Block \<Rightarrow> Commit \<Rightarrow>
     (('db, 'app, 'mp, 'bus, 'vs, 'sl, 'da, 'net) Manager, ABCIResponses) cmd" where
  "executeBlock M block commit m =
     (case sl_GetProposer (me_sl M) (m_sl m) of
        None \<Rightarrow>
          (bind_out (validateBlock (me_exec M) (m_lastState m) block) (\<lambda>_.
           bind_out (xe_HeaderPB_Marshal (me_exec M)
               (ToABCIHeaderPB (xe_tm (me_exec M)) (b_Header block))) (\<lambda>_.
           bind_out (Commit_ValidateBasic (xe_tm (me_exec M)) commit) (\<lambda>_.
             Panic ''nil pointer dereference''))), m)
      | Some proposer \<Rightarrow>
          bind_cmd (lift_out (\<lambda>_. Validate (me_exec M) (m_lastState m) block commit proposer)) (\<lambda>_.
            on_conns (Execute (me_exec M) (me_executor M) (m_lastState m) block)) m)"

text \<open>
  The conversion \<open>*(*[32]byte)(hash)\<close> of a slice to an array panics on a shorter slice and takes
  the first 32 bytes of a longer one.
\<close>

definition alignStoreWithApp ::
  "('db, 'app, 'mp, 'bus, 'vs, 'pvs, 'sl, 'da, 'net) manager_env \<Rightarrow> Block \<Rightarrow>
     (('db, 'app, 'mp, 'bus, 'vs, 'sl, 'da, 'net) Manager, bool) cmd" where
  "alignStoreWithApp M block m =
     (case GetAppInfo (me_exec M) (m_conns m) of
        Err e \<Rightarrow> (Err (Wrapf ''failed to get app info'' e), m)
      | Panic p \<Rightarrow> (Panic p, m)
      | Ok proxyAppInfo \<Rightarrow>
          if uint64_of (ri_LastBlockHeight proxyAppInfo) \<noteq> h_Height (b_Header block) then (Ok False, m)
          else if length (ri_LastBlockAppHash proxyAppInfo) < 32
          then (Panic ''cannot convert slice to array'', m)
          else
            let m1 = m\<lparr>m_lastState := (m_lastState m)
                    \<lparr>s_AppHash := take 32 (ri_LastBlockAppHash proxyAppInfo),
                     s_LastStoreHeight := h_Height (b_Header block),
                     s_LastValidators := s_Validators (m_lastState m)\<rparr>\<rparr>
            in (case LoadBlockResponses (me_env M) (me_kv M) (m_store m1) (h_Height (b_Header block)) of
                  Err e \<Rightarrow> (Err (Wrapf ''failed to load block responses'' e), m1)
                | Panic p \<Rightarrow> (Panic p, m1)
                | Ok resp \<Rightarrow>
                    let m2 = m1\<lparr>m_lastState := (m_lastState m1)
                            \<lparr>s_LastResultsHash := go_copy (s_LastResultsHash (m_lastState m1))
                               (xe_NewResults_Hash (me_exec M) (ar_DeliverTxs resp))\<rparr>\<rparr>
                    in (case on_store (UpdateState (me_env M) (me_kv M) (m_lastState m2) None) m2 of
                          (Err e, m3) \<Rightarrow> (Err (Wrapf ''failed to update state'' e), m3)
                        | (Panic p, m3) \<Rightarrow> (Panic p, m3)
                        | (Ok _, m3) \<Rightarrow>
                            (Ok True, m3\<lparr>m_store := SetHeight (h_Height (b_Header block)) (m_store m3)\<rparr>))))"

text \<open>The batch with the responses, the new state and the validators, which is then committed.\<close>

definition persist_block ::
  "('db, 'app, 'mp, 'bus, 'vs, 'pvs, 'sl, 'da, 'net) manager_env \<Rightarrow> u64 \<Rightarrow> ABCIResponses \<Rightarrow>
     'vs State \<Rightarrow> (('db, 'app, 'mp, 'bus, 'vs, 'sl, 'da, 'net) Manager, unit) cmd" where
  "persist_block M height responses newState =
     bind_cmd (on_store (SaveBlockResponses (me_env M) (me_kv M) height responses
         (Some (kv_NewBatch (me_kv M))))) (\<lambda>batch1.
     bind_cmd (modify (\<lambda>m. m\<lparr>m_lastState := newState\<rparr>)) (\<lambda>_.
     bind_cmd (on_store (UpdateState (me_env M) (me_kv M) newState batch1)) (\<lambda>batch2.
     bind_cmd (on_store (SaveValidators (me_env M) (me_kv M) height (s_Validators newState) batch2))
       (\<lambda>batch3.
       case batch3 of
         Some batch \<Rightarrow> on_store (on_db (batch_Commit (me_kv M) batch))
       | None \<Rightarrow> lift_out (\<lambda>_. Panic ''nil pointer dereference'')))))"

definition finish_block ::
  "('db, 'app, 'mp, 'bus, 'vs, 'pvs, 'sl, 'da, 'net) manager_env \<Rightarrow> u64 \<Rightarrow> 'vs State \<Rightarrow>
     (('db, 'app, 'mp, 'bus, 'vs, 'sl, 'da, 'net) Manager, unit) cmd" where
  "finish_block M height newState m =
     (let newState' = newState\<lparr>s_LastValidators := s_Validators (m_lastState m),
                               s_LastStoreHeight := height,
                               s_BaseHeight := st_baseHeight (m_store m)\<rparr>
      in bind_cmd (on_store (UpdateState (me_env M) (me_kv M) newState' None)) (\<lambda>_.
           modify (\<lambda>m. m\<lparr>m_lastState := newState', m_store := SetHeight height (m_store m)\<rparr>)) m)"

definition applyBlock ::
  "('db, 'app, 'mp, 'bus, 'vs, 'pvs, 'sl, 'da, 'net) manager_env \<Rightarrow> Block \<Rightarrow> Commit \<Rightarrow>
     (('db, 'app, 'mp, 'bus, 'vs, 'sl, 'da, 'net) Manager, unit) cmd" where
  "applyBlock M block commit m =
     (if h_Height (b_Header block) \<noteq> st_height (m_store m) + 1 then (Ok (), m)
      else
        bind_cmd (alignStoreWithApp M block) (\<lambda>isAlignRequired.
        if isAlignRequired then ret () else
        bind_cmd (on_store (SaveBlock (me_env M) (me_kv M) block commit None)) (\<lambda>_.
        bind_cmd (executeBlock M block commit) (\<lambda>responses.
        bind_cmd (lift_out (\<lambda>m. UpdateStateFromResponses (me_exec M) responses (m_lastState m) block))
          (\<lambda>newState.
        bind_cmd (persist_block M (h_Height (b_Header block)) responses newState) (\<lambda>_.
        bind_cmd (on_conns (executor_Commit (me_exec M) newState block responses))
          (\<lambda>(newState', retainHeight).
        bind_cmd (if retainHeight > 0 then log_err (pruneBlocks M retainHeight) else ret ()) (\<lambda>_.
          finish_block M (h_Height (b_Header block)) newState'))))))) m)"

definition gossipBlock ::
  "('db, 'app, 'mp, 'bus, 'vs, 'pvs, 'sl, 'da, 'net) manager_env \<Rightarrow> Block \<Rightarrow> Commit \<Rightarrow>
     (('db, 'app, 'mp, 'bus, 'vs, 'sl, 'da, 'net) Manager, unit) cmd" where
  "gossipBlock M block commit =
     bind_cmd (lift_out (\<lambda>_. GossipedBlock_MarshalBinary (se_codec (me_env M))
         \<lparr>gb_Block = block, gb_Commit = commit\<rparr>)) (\<lambda>gossipedBlockBytes.
       on_net (me_GossipBlock M gossipedBlockBytes))"

subsection \<open>\<open>produce.go\<close>\<close>

definition createTMSignature ::
  "('db, 'app, 'mp, 'bus, 'vs, 'pvs, 'sl, 'da, 'net) manager_env \<Rightarrow> gostring \<Rightarrow> Block \<Rightarrow> bytes \<Rightarrow>
     gotime \<Rightarrow> bytes outcome" where
  "createTMSignature M chainID block proposerAddress voteTimestamp =
     (let headerHash = Header_Hash (xe_tm (me_exec M)) (b_Header block);
          vote = \<lparr>vo_Height = int64_of (h_Height (b_Header block)), vo_Timestamp = voteTimestamp,
                  vo_BlockID = \<lparr>bid_Hash = headerHash,
                    bid_PartSetHeader = \<lparr>ps_Total = 1, ps_Hash = headerHash\<rparr>\<rparr>,
                  vo_ValidatorAddress = proposerAddress\<rparr>
      in bind_out (me_SignVote M chainID vote) (\<lambda>signature.
           if \<not> me_VerifyVote M chainID vote signature then Err (Errorf ''wrong signature'')
           else Ok signature))"

text \<open>The commit the proposer makes for a block it created.\<close>

definition sign_block ::
  "('db, 'app, 'mp, 'bus, 'vs, 'pvs, 'sl, 'da, 'net) manager_env \<Rightarrow> gostring \<Rightarrow> gotime \<Rightarrow> Block \<Rightarrow>
     Commit outcome" where
  "sign_block M chainID voteTimestamp block =
     bind_out (xe_HeaderPB_Marshal (me_exec M) (ToABCIHeaderPB (xe_tm (me_exec M)) (b_Header block)))
       (\<lambda>abciHeaderBytes.
     bind_out (me_getAddress M) (\<lambda>proposerAddress.
     bind_out (me_Sign M abciHeaderBytes) (\<lambda>sign.
     bind_out (createTMSignature M chainID block proposerAddress voteTimestamp) (\<lambda>tmSignature.
       Ok \<lparr>c_Height = h_Height (b_Header block),
           c_HeaderHash = Header_Hash (xe_tm (me_exec M)) (b_Header block),
           c_Signatures = [sign],
           c_TMSignature =
             \<lparr>cs_BlockIDFlag = 2, cs_ValidatorAddress = proposerAddress,
              cs_Timestamp = voteTimestamp, cs_Signature = tmSignature\<rparr>\<rparr>))))"

definition last_commit_and_hash ::
  "('db, 'app, 'mp, 'bus, 'vs, 'pvs, 'sl, 'da, 'net) manager_env \<Rightarrow>
     ('db, 'app, 'mp, 'bus, 'vs, 'sl, 'da, 'net) Manager \<Rightarrow> (Commit \<times> bytes) outcome" where
  "last_commit_and_hash M m =
     (let height = st_height (m_store m) in
      if height + 1 = uint64_of (g_InitialHeight (me_genesis M))
      then Ok (zero_Commit\<lparr>c_Height := height\<rparr>, zero_bytes 32)
      else
        bind_out (wrap_err ''error while loading last commit''
            (LoadCommit (me_env M) (me_kv M) (m_store m) height)) (\<lambda>lastCommit.
        bind_out (wrap_err ''error while loading last block''
            (LoadBlock (me_env M) (me_kv M) (m_store m) height)) (\<lambda>lastBlock.
          Ok (lastCommit, Header_Hash (xe_tm (me_exec M)) (b_Header lastBlock)))))"

text \<open>The pending block of the store, or else a new one with its commit.\<close>

definition next_block ::
  "('db, 'app, 'mp, 'bus, 'vs, 'pvs, 'sl, 'da, 'net) manager_env \<Rightarrow> int \<Rightarrow> gotime \<Rightarrow> bool \<Rightarrow>
     Commit \<Rightarrow> bytes \<Rightarrow> ('db, 'app, 'mp, 'bus, 'vs, 'sl, 'da, 'net) Manager \<Rightarrow>
     (Block \<times> Commit) outcome" where
  "next_block M now voteTimestamp allowEmpty lastCommit lastHeaderHash m =
     (let newHeight = st_height (m_store m) + 1 in
      case LoadBlock (me_env M) (me_kv M) (m_store m) newHeight of
        Panic p \<Rightarrow> Panic p
      | Ok pendingBlock \<Rightarrow>
          bind_out (LoadCommit (me_env M) (me_kv M) (m_store m) newHeight) (\<lambda>commit.
            Ok (pendingBlock, commit))
      | Err _ \<Rightarrow>
          let block = CreateBlock (me_exec M) (me_executor M) now newHeight lastCommit lastHeaderHash
                (m_lastState m) (m_conns m)
          in if \<not> allowEmpty \<and> length (d_Txs (b_Data block)) = 0 then Err ErrSkippedEmptyBlock
             else bind_out (sign_block M (s_ChainID (m_lastState m)) voteTimestamp block) (\<lambda>commit.
                    Ok (block, commit)))"

definition produceBlock ::
  "('db, 'app, 'mp, 'bus, 'vs, 'pvs, 'sl, 'da, 'net) manager_env \<Rightarrow> int \<Rightarrow> gotime \<Rightarrow> bool \<Rightarrow>
     (('db, 'app, 'mp, 'bus, 'vs, 'sl, 'da, 'net) Manager, unit) cmd" where
  "produceBlock M now voteTimestamp allowEmpty =
     bind_cmd (lift_out (last_commit_and_hash M)) (\<lambda>(lastCommit, lastHeaderHash).
     bind_cmd (lift_out (next_block M now voteTimestamp allowEmpty lastCommit lastHeaderHash))
       (\<lambda>(block, commit).
     bind_cmd (gossipBlock M block commit) (\<lambda>_.
       applyBlock M block commit)))"

subsection \<open>\<open>manager.go\<close>\<close>

text \<open>\<open>validateGenesis\<close> is \<open>ValidateAndComplete\<close> of tendermint's genesis document.\<close>

definition getInitialState ::
  "('vs, 'pvs) store_env \<Rightarrow> 'db KVStore \<Rightarrow> (GenesisDoc \<Rightarrow> GenesisDoc outcome) \<Rightarrow> GenesisDoc \<Rightarrow>
     ('db DefaultStore, 'vs State) cmd" where
  "getInitialState E kv validateGenesis genesis s =
     (case LoadState E kv s of
        (Err e, s') \<Rightarrow>
          if e = ErrNoStateFound
          then (NewFromGenesisDoc (se_tm E) validateGenesis (vs_New (se_vs E) []) genesis, s')
          else (Err e, s')
      | r \<Rightarrow> r)"

definition update_params :: "ConsensusParams \<Rightarrow> abciConsensusParams \<Rightarrow> ConsensusParams" where
  "update_params cp params =
     (let cp1 = (case acp_Block params of None \<Rightarrow> cp
            | Some (maxBytes, maxGas) \<Rightarrow> cp\<lparr>cp_Block_MaxBytes := maxBytes, cp_Block_MaxGas := maxGas\<rparr>);
          cp2 = (case acp_Evidence params of None \<Rightarrow> cp1
            | Some (numBlocks, duration, maxBytes) \<Rightarrow>
                cp1\<lparr>cp_Evidence_MaxAgeNumBlocks := numBlocks, cp_Evidence_MaxAgeDuration := duration,
                    cp_Evidence_MaxBytes := maxBytes\<rparr>);
          cp3 = (case acp_Validator params of None \<Rightarrow> cp2
            | Some keyTypes \<Rightarrow> cp2\<lparr>cp_Validator_PubKeyTypes := keyTypes\<rparr>)
      in (case acp_Version params of None \<Rightarrow> cp3
            | Some appVersion \<Rightarrow> cp3\<lparr>cp_Version_AppVersion := appVersion\<rparr>))"

definition updateInitChainState ::
  "('vs, 'pvs) vset \<Rightarrow> bytes \<Rightarrow> 'vs State \<Rightarrow> ResponseInitChain \<Rightarrow> Validator list \<Rightarrow> 'vs State outcome" where
  "updateInitChainState vs emptyHash s res validators =
     (let s1 = (if length (ric_AppHash res) > 0
                then s\<lparr>s_AppHash := go_copy (s_AppHash s) (ric_AppHash res)\<rparr> else s)
      in if validators = [] then Panic ''Validators must be greater than zero''
         else
           let s2 = (case ric_ConsensusParams res of
                       None \<Rightarrow> s1
                     | Some params \<Rightarrow>
                         let cp = update_params (s_ConsensusParams s1) params in
                         s1\<lparr>s_ConsensusParams := cp,
                            s_Version := (s_Version s1)\<lparr>tv_Consensus :=
                              (tv_Consensus (s_Version s1))\<lparr>cv_App := cp_Version_AppVersion cp\<rparr>\<rparr>\<rparr>);
               valSet = vs_IncrementProposerPriority vs (vs_New vs validators) 1
           in Ok (s2\<lparr>s_LastResultsHash := go_copy (s_LastResultsHash s2) emptyHash,
                     s_Validators := valSet, s_NextValidators := valSet, s_LastValidators := valSet\<rparr>))"

fun sequencer_validators :: "(bytes \<Rightarrow> bytes outcome) \<Rightarrow> Sequencer list \<Rightarrow> Validator list outcome" where
  "sequencer_validators ToTmPubKey [] = Ok []"
| "sequencer_validators ToTmPubKey (q # qs) =
     bind_out (ToTmPubKey (sq_PublicKey q)) (\<lambda>key.
     bind_out (sequencer_validators ToTmPubKey qs) (\<lambda>vals.
       Ok (\<lparr>val_PubKey = key, val_VotingPower = 1\<rparr> # vals)))"

text \<open>
  \<open>NewManager\<close> for an executor that was created: the state it starts from, with \<open>InitChain\<close> run
  on a new chain. The other fields of a new manager have their zero values.
\<close>

definition initial_state ::
  "('db, 'app, 'mp, 'bus, 'vs, 'pvs, 'sl, 'da, 'net) manager_env \<Rightarrow>
     (GenesisDoc \<Rightarrow> GenesisDoc outcome) \<Rightarrow> (bytes \<Rightarrow> bytes outcome) \<Rightarrow> bytes \<Rightarrow> Sequencer list \<Rightarrow>
     ('db DefaultStore \<times> ('app, 'mp, 'bus) conns, 'vs State) cmd" where
  "initial_state M validateGenesis ToTmPubKey emptyHash sequencers sc =
     (case sc of (store, conns) \<Rightarrow>
      case getInitialState (me_env M) (me_kv M) validateGenesis (me_genesis M) store of
        (Err e, store1) \<Rightarrow> (Err (Wrapf ''failed to get initial state'' e), (store1, conns))
      | (Panic p, store1) \<Rightarrow> (Panic p, (store1, conns))
      | (Ok s, store1) \<Rightarrow>
          if i64 (s_LastBlockHeight s + 1) \<noteq> g_InitialHeight (me_genesis M) then (Ok s, (store1, conns))
          else
            case sequencer_validators ToTmPubKey sequencers of
              Err e \<Rightarrow> (Err e, (store1, conns))
            | Panic p \<Rightarrow> (Panic p, (store1, conns))
            | Ok validators \<Rightarrow>
                (case InitChain (me_exec M) (me_genesis M) validators conns of
                   (Err e, conns1) \<Rightarrow> (Err e, (store1, conns1))
                 | (Panic p, conns1) \<Rightarrow> (Panic p, (store1, conns1))
                 | (Ok res, conns1) \<Rightarrow>
                     (case updateInitChainState (xe_vs (me_exec M)) emptyHash s res validators of
                        Err e \<Rightarrow> (Err e, (store1, conns1))
                      | Panic p \<Rightarrow> (Panic p, (store1, conns1))
                      | Ok s1 \<Rightarrow>
                          (case UpdateState (me_env M) (me_kv M) s1 None store1 of
                             (Err e, store2) \<Rightarrow> (Err e, (store2, conns1))
                           | (Panic p, store2) \<Rightarrow> (Panic p, (store2, conns1))
                           | (Ok _, store2) \<Rightarrow> (Ok s1, (store2, conns1))))))"

definition NewManager ::
  "('db, 'app, 'mp, 'bus, 'vs, 'pvs, 'sl, 'da, 'net) manager_env \<Rightarrow> gostring \<Rightarrow>
     (GenesisDoc \<Rightarrow> GenesisDoc outcome) \<Rightarrow> (bytes \<Rightarrow> bytes outcome) \<Rightarrow> bytes \<Rightarrow>
     'db DefaultStore \<Rightarrow> ('app, 'mp, 'bus) conns \<Rightarrow> 'sl \<Rightarrow> 'da \<Rightarrow> 'net \<Rightarrow>
     (('db, 'app, 'mp, 'bus, 'vs, 'pvs, 'sl, 'da, 'net) manager_env \<times>
      ('db, 'app, 'mp, 'bus, 'vs, 'sl, 'da, 'net) Manager) outcome" where
  "NewManager M namespaceID validateGenesis ToTmPubKey emptyHash store conns sl da net =
     bind_out (me_getAddress M) (\<lambda>proposerAddress.
     bind_out (wrap_err ''failed to create block executor''
         (NewBlockExecutor proposerAddress namespaceID (g_ChainID (me_genesis M)))) (\<lambda>exec.
     case initial_state M validateGenesis ToTmPubKey emptyHash
            (sl_GetSequencersList (me_sl M) sl) (store, conns) of
       (Err e, _) \<Rightarrow> Err e
     | (Panic p, _) \<Rightarrow> Panic p
     | (Ok s, (store', conns')) \<Rightarrow>
         Ok (M\<lparr>me_executor := exec\<rparr>,
             \<lparr>m_lastState = s, m_store = store', m_conns = conns', m_sl = sl, m_da = da, m_net = net,
              m_syncTarget = 0, m_lastSubmissionTime = 0, m_batchInProcess = False,
              m_syncTargetDiode = None, m_shouldProduceBlocksCh = [], m_produceEmptyBlockCh = []\<rparr>)))"

definition applyBlockCallback ::
  "('db, 'app, 'mp, 'bus, 'vs, 'pvs, 'sl, 'da, 'net) manager_env \<Rightarrow> GossipedBlock \<Rightarrow>
     (('db, 'app, 'mp, 'bus, 'vs, 'sl, 'da, 'net) Manager, unit) cmd" where
  "applyBlockCallback M eventData = log_err (applyBlock M (gb_Block eventData) (gb_Commit eventData))"

text \<open>A send on a channel waits for room; its effect is the message at the end of the channel.\<close>

definition healthStatusEventCallback ::
  "bool \<Rightarrow> (('db, 'app, 'mp, 'bus, 'vs, 'sl, 'da, 'net) Manager, unit) cmd" where
  "healthStatusEventCallback healthy =
     modify (\<lambda>m. m\<lparr>m_shouldProduceBlocksCh := m_shouldProduceBlocksCh m @ [healthy]\<rparr>)"

end
