(* ===== verification/Triples.thy ===== *)
theory Triples
  imports Manager
begin

text \<open>
  Triples for commands: from a state of \<open>P\<close> a command that returns \<open>x\<close> ends in a state of
  \<open>Q x\<close>, and one that fails - by an error or by a panic, the end of the process - leaves a state of
  \<open>E\<close>. With the rule for sequencing, a statement about every point at which a long operation may
  stop is proved call by call.
\<close>

definition triple :: "('s \<Rightarrow> bool) \<Rightarrow> ('s, 'a) cmd \<Rightarrow> ('a \<Rightarrow> 's \<Rightarrow> bool) \<Rightarrow> ('s \<Rightarrow> bool) \<Rightarrow> bool" where
  "triple P c Q E \<longleftrightarrow>
     (\<forall>s r s'. P s \<longrightarrow> c s = (r, s') \<longrightarrow>
        (case r of Ok x \<Rightarrow> Q x s' | Err e \<Rightarrow> E s' | Panic p \<Rightarrow> E s'))"

lemma tripleI:
  "(\<And>s x s'. P s \<Longrightarrow> c s = (Ok x, s') \<Longrightarrow> Q x s') \<Longrightarrow>
   (\<And>s r s'. P s \<Longrightarrow> c s = (r, s') \<Longrightarrow> \<not> is_Ok r \<Longrightarrow> E s') \<Longrightarrow> triple P c Q E"
  unfolding triple_def
proof (intro allI impI)
  fix s r s'
  assume a: "\<And>s x s'. P s \<Longrightarrow> c s = (Ok x, s') \<Longrightarrow> Q x s'"
    "\<And>s r s'. P s \<Longrightarrow> c s = (r, s') \<Longrightarrow> \<not> is_Ok r \<Longrightarrow> E s'" and "P s" "c s = (r, s')"
  then show "case r of Ok x \<Rightarrow> Q x s' | Err e \<Rightarrow> E s' | Panic p \<Rightarrow> E s'"
    by (cases r) auto
qed

lemma triple_runI:
  "(\<And>s r s'. P s \<Longrightarrow> c s = (r, s') \<Longrightarrow> (\<forall>x. r = Ok x \<longrightarrow> Q x s') \<and> (\<not> is_Ok r \<longrightarrow> E s')) \<Longrightarrow>
   triple P c Q E"
  by (rule tripleI) fastforce+

lemma triple_Ok: "triple P c Q E \<Longrightarrow> P s \<Longrightarrow> c s = (Ok x, s') \<Longrightarrow> Q x s'"
  unfolding triple_def by (metis outcome.simps(10))

lemma triple_fail: "triple P c Q E \<Longrightarrow> P s \<Longrightarrow> c s = (r, s') \<Longrightarrow> \<not> is_Ok r \<Longrightarrow> E s'"
  unfolding triple_def by (cases r) fastforce+

lemma triple_bind:
  assumes "triple P c R E" and "\<And>x. triple (R x) (f x) Q E"
  shows "triple P (bind_cmd c f) Q E"
proof -
  have "case r of Ok y \<Rightarrow> Q y s' | Err e \<Rightarrow> E s' | Panic p \<Rightarrow> E s'"
    if "P s" and run: "bind_cmd c f s = (r, s')" for s r s'
  proof -
    obtain r1 s1 where c: "c s = (r1, s1)" by (cases "c s")
    show ?thesis
    proof (cases r1)
      case (Ok x)
      then have "f x s1 = (r, s')" using run c by (simp add: bind_cmd_def)
      moreover have "R x s1" using triple_Ok [OF assms(1) that(1)] c Ok by simp
      ultimately show ?thesis using assms(2) [of x] unfolding triple_def by blast
    next
      case (Err e)
      then have "r = Err e" "s' = s1" using run c by (simp_all add: bind_cmd_def)
      then show ?thesis using triple_fail [OF assms(1) that(1) c] Err by simp
    next
      case (Panic p)
      then have "r = Panic p" "s' = s1" using run c by (simp_all add: bind_cmd_def)
      then show ?thesis using triple_fail [OF assms(1) that(1) c] Panic by simp
    qed
  qed
  then show ?thesis unfolding triple_def by blast
qed

lemma triple_ret: "(\<And>s. P s \<Longrightarrow> Q x s) \<Longrightarrow> triple P (ret x) Q E"
  by (rule tripleI) (auto simp: ret_def)

lemma triple_modify: "(\<And>s. P s \<Longrightarrow> Q () (f s)) \<Longrightarrow> triple P (modify f) Q E"
  by (rule tripleI) (auto simp: modify_def)

lemma triple_lift_out:
  assumes "\<And>s x. P s \<Longrightarrow> f s = Ok x \<Longrightarrow> Q x s" and "\<And>s. P s \<Longrightarrow> \<not> is_Ok (f s) \<Longrightarrow> E s"
  shows "triple P (lift_out f) Q E"
  using assms by (intro tripleI) (auto simp: lift_out_def)

lemma triple_if:
  "(b \<Longrightarrow> triple P c Q E) \<Longrightarrow> (\<not> b \<Longrightarrow> triple P d Q E) \<Longrightarrow> triple P (if b then c else d) Q E"
  by simp

lemma triple_pure: "(A \<Longrightarrow> triple P c Q E) \<Longrightarrow> triple (\<lambda>s. P s \<and> A) c Q E"
  by (auto simp: triple_def)

lemma triple_cong: "(\<And>s. P s \<Longrightarrow> c s = d s) \<Longrightarrow> triple P d Q E \<Longrightarrow> triple P c Q E"
  by (auto simp: triple_def)

lemma triple_conseq:
  assumes "triple P' c Q' E'" and "\<And>s. P s \<Longrightarrow> P' s" and "\<And>x s. Q' x s \<Longrightarrow> Q x s"
    and "\<And>s. E' s \<Longrightarrow> E s"
  shows "triple P c Q E"
  by (rule tripleI) (use triple_Ok [OF assms(1)] triple_fail [OF assms(1)] assms(2-4) in blast)+

lemma triple_log_err:
  assumes "triple P c (\<lambda>_. Q) Q" and "\<And>s. Q s \<Longrightarrow> E s"
  shows "triple P (log_err c) (\<lambda>_. Q) E"
proof (rule tripleI)
  fix s s' and x :: unit
  assume "P s" and run: "log_err c s = (Ok x, s')"
  obtain r1 s1 where c: "c s = (r1, s1)" by (cases "c s")
  with run have "s' = s1" by (cases r1) (auto simp: log_err_def)
  with c show "Q s'"
    using triple_Ok [OF assms(1) \<open>P s\<close>] triple_fail [OF assms(1) \<open>P s\<close> c] by (cases r1) auto
next
  fix s s' and r :: "unit outcome"
  assume "P s" and run: "log_err c s = (r, s')" "\<not> is_Ok r"
  obtain r1 s1 where c: "c s = (r1, s1)" by (cases "c s")
  with run have "s' = s1" "\<not> is_Ok r1" by (cases r1; auto simp: log_err_def)+
  with c show "E s'"
    using triple_fail [OF assms(1) \<open>P s\<close> c] assms(2) by simp
qed

text \<open>A command on a part of the state keeps the rest.\<close>

lemma on_store_run:
  "on_store c m = (r, m') \<Longrightarrow> \<exists>s'. c (m_store m) = (r, s') \<and> m' = m\<lparr>m_store := s'\<rparr>"
  by (auto simp: on_store_def split: prod.splits)

lemma on_conns_run:
  "on_conns c m = (r, m') \<Longrightarrow> \<exists>s'. c (m_conns m) = (r, s') \<and> m' = m\<lparr>m_conns := s'\<rparr>"
  by (auto simp: on_conns_def split: prod.splits)

end
