(* ===== verification/Recovery.thy ===== *)
theory Recovery
  imports Triples
begin

text \<open>
  Crash recovery of \<open>applyBlock\<close> (\<open>src/block/block.go\<close>). Applying a block writes the block, then responses and state in one
  batch, then commits to the application, then writes the state again; the process may stop at any
  of these calls. What is on disk is then in one of four phases:

    \<^item> \<open>Fresh\<close>: the state before the block, the application before the block;
    \<^item> \<open>Executed\<close>: responses and the state of the executed block stored, the application as before;
    \<^item> \<open>Committed\<close>: the same, the application with the block;
    \<^item> \<open>Done\<close>: the final state stored, the application with the block.

  A restart followed by another application of the block moves forward through the phases and never
  back, and the result is the same up to the validators' priorities and the base height.
\<close>

subsection \<open>The setting\<close>

text \<open>
  \<open>core\<close> is a state without the validator sets, whose priorities rotate at every execution, and
  without the base height, which pruning moves.
\<close>

definition core :: "'vs State \<Rightarrow> unit State" where
  "core s =
     \<lparr>s_Version = s_Version s, s_ChainID = s_ChainID s, s_InitialHeight = s_InitialHeight s,
      s_LastBlockHeight = s_LastBlockHeight s, s_LastBlockID = s_LastBlockID s,
      s_LastBlockTime = s_LastBlockTime s, s_SLStateIndex = s_SLStateIndex s,
      s_NextValidators = (), s_Validators = (), s_LastValidators = (),
      s_LastHeightValidatorsChanged = s_LastHeightValidatorsChanged s,
      s_ConsensusParams = s_ConsensusParams s,
      s_LastHeightConsensusParamsChanged = s_LastHeightConsensusParamsChanged s,
      s_LastResultsHash = s_LastResultsHash s, s_LastStoreHeight = s_LastStoreHeight s,
      s_BaseHeight = 0, s_AppHash = s_AppHash s\<rparr>"

datatype phase = Fresh | Executed | Committed | Done

text \<open>
  Everything the statements refer to: the manager's environment, the contents of its database, the
  application's specification, the state and application state before the block, the validator
  sets that rotation may give, and the block.
\<close>

record ('db, 'app, 'mp, 'bus, 'vs, 'pvs, 'sl, 'da, 'net, 'w, 'd) scenario =
  u_M :: "('db, 'app, 'mp, 'bus, 'vs, 'pvs, 'sl, 'da, 'net) manager_env"
  u_look :: "'db \<Rightarrow> bytes \<rightharpoonup> bytes"
  u_eff :: "kv_write list \<Rightarrow> bytes \<Rightarrow> bytes option option"
  u_raw :: "bytes \<Rightarrow> bytes"
  u_sp :: "('w, 'd) app_spec"
  u_work :: "'app \<Rightarrow> 'w"
  u_durable :: "'app \<Rightarrow> 'd"
  u_state :: "'vs State"
  u_vals :: "'vs set"
  u_block :: Block
  u_app :: 'd

definition u_height ::
  "('db, 'app, 'mp, 'bus, 'vs, 'pvs, 'sl, 'da, 'net, 'w, 'd) scenario \<Rightarrow> u64" where
  "u_height u = h_Height (b_Header (u_block u))"

text \<open>The one execution of the block from the committed application state.\<close>

definition u_exec ::
  "('db, 'app, 'mp, 'bus, 'vs, 'pvs, 'sl, 'da, 'net, 'w, 'd) scenario \<Rightarrow> ABCIResponses \<times> 'w" where
  "u_exec u =
     sp_execute (u_sp u)
       (begin_block_request (me_exec (u_M u)) (me_executor (u_M u)) (u_state u) (u_block u))
       (d_Txs (b_Data (u_block u))) (int64_of (u_height u)) (sp_start (u_sp u) (u_app u))"

definition u_resp ::
  "('db, 'app, 'mp, 'bus, 'vs, 'pvs, 'sl, 'da, 'net, 'w, 'd) scenario \<Rightarrow> ABCIResponses" where
  "u_resp u = fst (u_exec u)"

definition u_commit ::
  "('db, 'app, 'mp, 'bus, 'vs, 'pvs, 'sl, 'da, 'net, 'w, 'd) scenario \<Rightarrow> ResponseCommit \<times> 'd" where
  "u_commit u = sp_commit (u_sp u) (snd (u_exec u))"

fun phase_app ::
  "('db, 'app, 'mp, 'bus, 'vs, 'pvs, 'sl, 'da, 'net, 'w, 'd) scenario \<Rightarrow> phase \<Rightarrow> 'd" where
  "phase_app u Fresh = u_app u"
| "phase_app u Executed = u_app u"
| "phase_app u Committed = snd (u_commit u)"
| "phase_app u Done = snd (u_commit u)"

definition executed_core ::
  "('db, 'app, 'mp, 'bus, 'vs, 'pvs, 'sl, 'da, 'net, 'w, 'd) scenario \<Rightarrow> unit State" where
  "executed_core u =
     (core (u_state u))
       \<lparr>s_LastBlockHeight := int64_of (u_height u),
        s_LastBlockTime := Unix_ns (h_Time (b_Header (u_block u))),
        s_LastBlockID :=
          \<lparr>bid_Hash = Header_Hash (xe_tm (me_exec (u_M u))) (b_Header (u_block u)),
           bid_PartSetHeader = \<lparr>ps_Total = 0, ps_Hash = []\<rparr>\<rparr>\<rparr>"

fun phase_core ::
  "('db, 'app, 'mp, 'bus, 'vs, 'pvs, 'sl, 'da, 'net, 'w, 'd) scenario \<Rightarrow> phase \<Rightarrow> unit State" where
  "phase_core u Fresh = core (u_state u)"
| "phase_core u Executed = executed_core u"
| "phase_core u Committed = executed_core u"
| "phase_core u Done =
     (executed_core u)
       \<lparr>s_AppHash := take 32 (rc_Data (fst (u_commit u))),
        s_LastResultsHash := go_copy (s_LastResultsHash (u_state u))
          (xe_NewResults_Hash (me_exec (u_M u)) (ar_DeliverTxs (u_resp u))),
        s_LastStoreHeight := u_height u\<rparr>"

text \<open>A state of a phase: its core, with validator sets among those of the rotation.\<close>

definition family ::
  "('db, 'app, 'mp, 'bus, 'vs, 'pvs, 'sl, 'da, 'net, 'w, 'd) scenario \<Rightarrow> phase \<Rightarrow> 'vs State \<Rightarrow> bool" where
  "family u p s \<longleftrightarrow>
     core s = phase_core u p \<and> s_NextValidators s \<in> u_vals u \<and> s_Validators s \<in> u_vals u \<and>
     s_LastValidators s \<in> u_vals u"

definition scenario_ok ::
  "('db, 'app, 'mp, 'bus, 'vs, 'pvs, 'sl, 'da, 'net, 'w, 'd) scenario \<Rightarrow> bool" where
  "scenario_ok u \<longleftrightarrow>
     (let M = u_M u; E = me_env M; vs = se_vs E; S = u_state u in
      kv_store (me_kv M) (u_look u) (u_eff u) (u_raw u) \<and>
      implements_abci (xe_app (me_exec M)) (u_sp u) (u_work u) (u_durable u) \<and>
      state_codec_ok (se_sc E) \<and> msg_codec_ok (se_responses E) \<and>
      (\<forall>v \<in> u_vals u. vs_IncrementProposerPriority vs v 1 \<in> u_vals u \<and>
         vs_Hash vs v = vs_Hash vs (s_Validators S)) \<and>
      family u Fresh S \<and>
      (\<forall>p s. family u p s \<longrightarrow> persistable E s) \<and>
      unat (s_LastStoreHeight S) + 1 < 2 ^ 63 \<and> u_height u = s_LastStoreHeight S + 1 \<and>
      uint64_of (ri_LastBlockHeight (sp_info (u_sp u) (u_app u))) = s_LastStoreHeight S \<and>
      32 \<le> length (rc_Data (fst (u_commit u))))"

lemma scenario_okD:
  assumes "scenario_ok u"
  shows "kv_store (me_kv (u_M u)) (u_look u) (u_eff u) (u_raw u)"
    and "implements_abci (xe_app (me_exec (u_M u))) (u_sp u) (u_work u) (u_durable u)"
    and "state_codec_ok (se_sc (me_env (u_M u)))"
    and "msg_codec_ok (se_responses (me_env (u_M u)))"
    and "v \<in> u_vals u \<Longrightarrow> vs_IncrementProposerPriority (xe_vs (me_exec (u_M u))) v 1 \<in> u_vals u"
    and "v \<in> u_vals u \<Longrightarrow> vs_Hash (xe_vs (me_exec (u_M u))) v =
      vs_Hash (xe_vs (me_exec (u_M u))) (s_Validators (u_state u))"
    and "family u Fresh (u_state u)"
    and "family u p s \<Longrightarrow> persistable (me_env (u_M u)) s"
    and "unat (s_LastStoreHeight (u_state u)) + 1 < 2 ^ 63"
    and "u_height u = s_LastStoreHeight (u_state u) + 1"
    and "uint64_of (ri_LastBlockHeight (sp_info (u_sp u) (u_app u))) = s_LastStoreHeight (u_state u)"
    and "32 \<le> length (rc_Data (fst (u_commit u)))"
  using assms unfolding scenario_ok_def Let_def by blast+

subsection \<open>What is stored\<close>

definition stored ::
  "('db, 'app, 'mp, 'bus, 'vs, 'pvs, 'sl, 'da, 'net, 'w, 'd) scenario \<Rightarrow> phase \<Rightarrow>
     ('db, 'app, 'mp, 'bus, 'vs, 'sl, 'da, 'net) Manager \<Rightarrow> bool" where
  "stored u p m \<longleftrightarrow>
     (let db = u_look u (st_db (m_store m)) in
      (\<exists>s blob. db getStateKey = Some blob \<and> state_blob (me_env (u_M u)) s = Ok blob \<and> family u p s) \<and>
      u_durable u (co_app (m_conns m)) = phase_app u p \<and>
      (p = Executed \<or> p = Committed \<longrightarrow>
         (\<exists>dat. db (getResponsesKey (u_height u)) = Some dat \<and>
            mc_Marshal (se_responses (me_env (u_M u))) (u_resp u) = Ok dat)))"

definition some_phase ::
  "('db, 'app, 'mp, 'bus, 'vs, 'pvs, 'sl, 'da, 'net, 'w, 'd) scenario \<Rightarrow>
     ('db, 'app, 'mp, 'bus, 'vs, 'sl, 'da, 'net) Manager \<Rightarrow> bool" where
  "some_phase u m \<longleftrightarrow> (\<exists>p. stored u p m)"

lemma some_phaseI: "stored u p m \<Longrightarrow> some_phase u m"
  by (auto simp: some_phase_def)

text \<open>A manager that may apply the block: its memory agrees with the phase.\<close>

definition ready ::
  "('db, 'app, 'mp, 'bus, 'vs, 'pvs, 'sl, 'da, 'net, 'w, 'd) scenario \<Rightarrow> phase \<Rightarrow>
     ('db, 'app, 'mp, 'bus, 'vs, 'sl, 'da, 'net) Manager \<Rightarrow> bool" where
  "ready u p m \<longleftrightarrow>
     stored u p m \<and> family u p (m_lastState m) \<and>
     st_height (m_store m) = s_LastStoreHeight (phase_core u p) \<and>
     u_work u (co_app (m_conns m)) = sp_start (u_sp u) (u_durable u (co_app (m_conns m)))"

text \<open>The same after the block was executed, before the application commits it.\<close>

definition ran ::
  "('db, 'app, 'mp, 'bus, 'vs, 'pvs, 'sl, 'da, 'net, 'w, 'd) scenario \<Rightarrow> phase \<Rightarrow>
     ('db, 'app, 'mp, 'bus, 'vs, 'sl, 'da, 'net) Manager \<Rightarrow> bool" where
  "ran u p m \<longleftrightarrow>
     stored u p m \<and> family u p (m_lastState m) \<and>
     st_height (m_store m) = s_LastStoreHeight (u_state u) \<and>
     u_work u (co_app (m_conns m)) = snd (u_exec u)"

lemma stored_cong:
  assumes "stored u p m"
    and "u_look u (st_db (m_store m')) getStateKey = u_look u (st_db (m_store m)) getStateKey"
    and "u_look u (st_db (m_store m')) (getResponsesKey (u_height u)) =
      u_look u (st_db (m_store m)) (getResponsesKey (u_height u))"
    and "u_durable u (co_app (m_conns m')) = u_durable u (co_app (m_conns m))"
  shows "stored u p m'"
  using assms by (simp add: stored_def Let_def)

lemma height_before [simp]:
  "s_LastStoreHeight (core s) = s_LastStoreHeight s"
  "s_LastStoreHeight (executed_core u) = s_LastStoreHeight (u_state u)"
  by (simp_all add: core_def executed_core_def)

lemma height_phase:
  "s_LastStoreHeight (phase_core u p) = (if p = Done then u_height u else s_LastStoreHeight (u_state u))"
  by (cases p) simp_all

lemma u_height_greater:
  assumes "scenario_ok u"
  shows "s_LastStoreHeight (u_state u) < u_height u" and "u_height u \<noteq> u_height u + 1"
    and "u_height u \<noteq> s_LastStoreHeight (u_state u)"
proof -
  have "unat (u_height u) = unat (s_LastStoreHeight (u_state u)) + 1"
    using scenario_okD(9,10) [OF assms] by (simp add: unat_word_ariths)
  then show "s_LastStoreHeight (u_state u) < u_height u"
    by (simp add: word_less_nat_alt)
  then show "u_height u \<noteq> s_LastStoreHeight (u_state u)"
    by auto
  show "u_height u \<noteq> u_height u + 1"
    by simp
qed

lemma info_committed:
  assumes "scenario_ok u"
  shows "sp_info (u_sp u) (snd (u_commit u)) =
    \<lparr>ri_LastBlockHeight = int64_of (u_height u), ri_LastBlockAppHash = rc_Data (fst (u_commit u))\<rparr>"
proof -
  obtain w where "snd (u_exec u) = snd (sp_end (u_sp u) (int64_of (u_height u)) w)"
    by (simp only: u_exec_def sp_execute_def split_def snd_conv)
  then show ?thesis
    using info_commit_law [OF scenario_okD(2) [OF assms]] by (simp add: u_commit_def)
qed

subsection \<open>The calls of \<open>applyBlock\<close>\<close>

lemma responses_key_kept:
  "getResponsesKey h \<notin> pruned_keys db lo hi \<longleftrightarrow> \<not> (lo \<le> h \<and> h < hi \<and> indexed db h \<noteq> None)"
  by (auto simp: pruned_keys_def prune_keys_def)

lemma align_before:
  assumes ok: "scenario_ok u" and p: "p = Fresh \<or> p = Executed"
  shows "triple (ready u p) (alignStoreWithApp (u_M u) (u_block u))
    (\<lambda>required m. \<not> required \<and> ready u p m) (some_phase u)"
proof (rule triple_runI)
  note info = info_law [OF scenario_okD(2) [OF ok]]
  fix m r m' assume m: "ready u p m" and run: "alignStoreWithApp (u_M u) (u_block u) m = (r, m')"
  have same: "m' = m \<and> (\<forall>b. r = Ok b \<longrightarrow> \<not> b)"
  proof (cases "app_Info (xe_app (me_exec (u_M u))) (co_app (m_conns m))")
    case (Ok i)
    have "uint64_of (ri_LastBlockHeight i) \<noteq> h_Height (b_Header (u_block u))"
      using info [OF Ok] m p scenario_okD(11) [OF ok] u_height_greater(3) [OF ok]
      by (auto simp: ready_def stored_def Let_def u_height_def)
    with run Ok show ?thesis
      by (auto simp: alignStoreWithApp_def GetAppInfo_def)
  qed (use run in \<open>auto simp: alignStoreWithApp_def GetAppInfo_def\<close>)
  then show "(\<forall>b. r = Ok b \<longrightarrow> \<not> b \<and> ready u p m') \<and> (\<not> is_Ok r \<longrightarrow> some_phase u m')"
    using m by (auto simp: ready_def intro: some_phaseI)
qed

text \<open>With the block committed by the application the alignment finishes the work.\<close>

lemma family_aligned:
  assumes "family u Committed s" and "32 \<le> length (rc_Data (fst (u_commit u)))"
  shows "family u Done (s\<lparr>s_AppHash := take 32 (rc_Data (fst (u_commit u))),
      s_LastStoreHeight := u_height u, s_LastValidators := s_Validators s,
      s_LastResultsHash := go_copy (s_LastResultsHash s)
        (xe_NewResults_Hash (me_exec (u_M u)) (ar_DeliverTxs (u_resp u)))\<rparr>)"
proof -
  have "s_LastResultsHash s = s_LastResultsHash (u_state u)"
    using assms(1) by (auto simp: family_def core_def executed_core_def)
  with assms(1) show ?thesis
    by (simp add: family_def core_def executed_core_def)
qed

lemma stored_UpdateState:
  assumes ok: "scenario_ok u" and m: "stored u p m"
    and run: "on_store (UpdateState (me_env (u_M u)) (me_kv (u_M u)) s None) m = (r, m')"
    and s: "family u q s" and q: "phase_app u q = phase_app u p"
      "q = Executed \<or> q = Committed \<Longrightarrow> p = Executed \<or> p = Committed"
  shows "(is_Ok r \<longrightarrow> stored u q m') \<and> (stored u p m' \<or> stored u q m') \<and>
    m_lastState m' = m_lastState m \<and> m_conns m' = m_conns m \<and>
    st_height (m_store m') = st_height (m_store m)"
proof -
  obtain t where t: "UpdateState (me_env (u_M u)) (me_kv (u_M u)) s None (m_store m) = (r, t)"
    and m': "m' = m\<lparr>m_store := t\<rparr>"
    using on_store_run [OF run] by blast
  note U = kv_store.UpdateState_None [OF scenario_okD(1) [OF ok] t]
  have "stored u q m'" if "state_blob (me_env (u_M u)) s = Ok blob"
    "u_look u (st_db t) = (u_look u (st_db (m_store m)))(getStateKey \<mapsto> blob)" for blob
    using m s q that by (auto simp: stored_def Let_def m')
  moreover have "stored u p m'" if "u_look u (st_db t) = u_look u (st_db (m_store m))"
    using m that by (simp add: stored_def m')
  ultimately show ?thesis
    using U m' by auto
qed

lemma align_committed:
  assumes ok: "scenario_ok u"
  shows "triple (ready u Committed) (alignStoreWithApp (u_M u) (u_block u))
    (\<lambda>required m. required \<and> ready u Done m) (some_phase u)"
proof (rule triple_runI)
  let ?M = "u_M u" and ?h = "u_height u" and ?c = "fst (u_commit u)"
  fix m r m' assume m: "ready u Committed m" and run: "alignStoreWithApp ?M (u_block u) m = (r, m')"
  have st: "stored u Committed m" and fam: "family u Committed (m_lastState m)"
    using m by (simp_all add: ready_def)
  obtain dat where dat: "u_look u (st_db (m_store m)) (getResponsesKey ?h) = Some dat"
    "mc_Marshal (se_responses (me_env ?M)) (u_resp u) = Ok dat"
    using st by (auto simp: stored_def Let_def)
  have resp: "LoadBlockResponses (me_env ?M) (me_kv ?M) (m_store m) ?h = Ok (u_resp u)"
    using dat scenario_okD(4) [OF ok]
    by (simp add: LoadBlockResponses_def kv_store.Get_law [OF scenario_okD(1) [OF ok]] msg_codec_ok_def)
  let ?s = "(m_lastState m)\<lparr>s_AppHash := take 32 (rc_Data ?c), s_LastStoreHeight := ?h,
      s_LastValidators := s_Validators (m_lastState m),
      s_LastResultsHash := go_copy (s_LastResultsHash (m_lastState m))
        (xe_NewResults_Hash (me_exec ?M) (ar_DeliverTxs (u_resp u)))\<rparr>"
  note fam' = family_aligned [OF fam scenario_okD(12) [OF ok]]
  have "stored u Committed (m\<lparr>m_lastState := ?s\<rparr>)"
    using st by (simp add: stored_def)
  note U = stored_UpdateState [OF ok this _ fam']
  show "(\<forall>b. r = Ok b \<longrightarrow> b \<and> ready u Done m') \<and> (\<not> is_Ok r \<longrightarrow> some_phase u m')"
  proof (cases "app_Info (xe_app (me_exec ?M)) (co_app (m_conns m))")
    case (Ok i)
    have i: "i = \<lparr>ri_LastBlockHeight = int64_of ?h, ri_LastBlockAppHash = rc_Data ?c\<rparr>"
      using info_law [OF scenario_okD(2) [OF ok] Ok] st info_committed [OF ok]
      by (simp add: stored_def Let_def)
    obtain r1 m1 where u1: "on_store (UpdateState (me_env ?M) (me_kv ?M) ?s None)
        (m\<lparr>m_lastState := ?s\<rparr>) = (r1, m1)"
      by (cases "on_store (UpdateState (me_env ?M) (me_kv ?M) ?s None) (m\<lparr>m_lastState := ?s\<rparr>)")
    have res: "r = (case r1 of Ok _ \<Rightarrow> Ok True | Err e \<Rightarrow> Err (Wrapf ''failed to update state'' e)
        | Panic q \<Rightarrow> Panic q)"
      "m' = (if is_Ok r1 then m1\<lparr>m_store := SetHeight ?h (m_store m1)\<rparr> else m1)"
      using run Ok i resp u1 scenario_okD(12) [OF ok]
      by (auto simp: alignStoreWithApp_def GetAppInfo_def Let_def u_height_def not_less
          split: outcome.splits)
    note U1 = U [OF u1]
    have fin: "ready u Done m'" if "is_Ok r1"
    proof -
      have "st_height (m_store m1) < ?h"
        using U1 m u_height_greater(1) [OF ok] by (simp add: ready_def)
      with U1 m fam' that show ?thesis
        by (auto simp: res(2) ready_def stored_def Let_def SetHeight_def)
    qed
    show ?thesis
      using fin U1 res by (cases r1) (auto intro: some_phaseI)
  qed (use run m in \<open>auto simp: alignStoreWithApp_def GetAppInfo_def ready_def intro: some_phaseI\<close>)
qed

lemma save_block:
  assumes ok: "scenario_ok u"
  shows "triple (ready u p)
    (on_store (SaveBlock (me_env (u_M u)) (me_kv (u_M u)) (u_block u) commit None))
    (\<lambda>_. ready u p) (some_phase u)"
proof (rule triple_runI)
  fix m r m' assume m: "ready u p m"
    and run: "on_store (SaveBlock (me_env (u_M u)) (me_kv (u_M u)) (u_block u) commit None) m = (r, m')"
  obtain t where t: "SaveBlock (me_env (u_M u)) (me_kv (u_M u)) (u_block u) commit None (m_store m) = (r, t)"
    and m': "m' = m\<lparr>m_store := t\<rparr>"
    using on_store_run [OF run] by blast
  note A = kv_store.SaveBlock_atomic [OF scenario_okD(1) [OF ok] t]
  have "stored u p m'"
    using m A by (auto simp: ready_def m' block_writes_def Let_def elim!: stored_cong)
  with A m show "(\<forall>x. r = Ok x \<longrightarrow> ready u p m') \<and> (\<not> is_Ok r \<longrightarrow> some_phase u m')"
    by (auto simp: ready_def m' intro: some_phaseI)
qed

lemma execute_block:
  assumes ok: "scenario_ok u" and p: "p = Fresh \<or> p = Executed"
  shows "triple (ready u p) (executeBlock (u_M u) (u_block u) commit)
    (\<lambda>resp m. resp = u_resp u \<and> ran u p m) (some_phase u)"
proof (rule triple_runI)
  let ?M = "u_M u" and ?X = "me_exec (u_M u)" and ?e = "me_executor (u_M u)"
  fix m r m' assume m: "ready u p m" and run: "executeBlock ?M (u_block u) commit m = (r, m')"
  have st: "stored u p m" and fam: "family u p (m_lastState m)"
    and w: "u_work u (co_app (m_conns m)) = sp_start (u_sp u) (u_app u)"
    and h: "st_height (m_store m) = s_LastStoreHeight (u_state u)"
    using m p by (auto simp: ready_def stored_def Let_def height_phase)
  have req: "begin_block_request ?X ?e (m_lastState m) (u_block u) =
      begin_block_request ?X ?e (u_state u) (u_block u)"
    using fam scenario_okD(6) [OF ok] by (simp add: begin_block_request_def family_def)
  have "m' = m \<and> \<not> is_Ok r \<or>
    (\<exists>c. Execute ?X ?e (m_lastState m) (u_block u) (m_conns m) = (r, c) \<and> m' = m\<lparr>m_conns := c\<rparr>)"
  proof (cases "sl_GetProposer (me_sl ?M) (m_sl m)")
    case None
    with run show ?thesis
      by (auto simp: executeBlock_def is_Ok_iff bind_out_Ok_iff)
  next
    case (Some q)
    with run show ?thesis
      by (cases "Validate ?X (m_lastState m) (u_block u) commit q")
         (auto simp: executeBlock_def bind_cmd_def lift_out_def dest: on_conns_run)
  qed
  then consider (stop) "m' = m" "\<not> is_Ok r"
    | (exec) c where "Execute ?X ?e (m_lastState m) (u_block u) (m_conns m) = (r, c)"
        "m' = m\<lparr>m_conns := c\<rparr>"
    by blast
  then show "(\<forall>x. r = Ok x \<longrightarrow> x = u_resp u \<and> ran u p m') \<and> (\<not> is_Ok r \<longrightarrow> some_phase u m')"
  proof cases
    case stop
    with st show ?thesis by (auto intro: some_phaseI)
  next
    case (exec c)
    note S = Execute_spec [OF scenario_okD(2) [OF ok] exec(1)]
    have st': "stored u p m'"
      using st S by (auto simp: exec(2) elim!: stored_cong)
    have "x = u_resp u \<and> u_work u (co_app c) = snd (u_exec u)" if "r = Ok x" for x
      using S that w by (simp add: req u_exec_def u_resp_def u_height_def)
    with st' fam h show ?thesis
      by (auto simp: ran_def exec(2) intro: some_phaseI)
  qed
qed

lemma update_state:
  assumes ok: "scenario_ok u"
  shows "triple (ran u p)
    (lift_out (\<lambda>m. UpdateStateFromResponses (me_exec (u_M u)) resp (m_lastState m) (u_block u)))
    (\<lambda>s m. (p = Fresh \<or> p = Executed \<longrightarrow> family u Executed s) \<and> ran u p m) (some_phase u)"
proof (rule triple_lift_out)
  fix m s assume m: "ran u p m"
    and s: "UpdateStateFromResponses (me_exec (u_M u)) resp (m_lastState m) (u_block u) = Ok s"
  have "family u Executed s" if p: "p = Fresh \<or> p = Executed"
  proof -
    have fam: "family u p (m_lastState m)"
      using m by (simp add: ran_def)
    obtain nv where nv: "nv \<in> u_vals u"
      and s': "s = (m_lastState m)
        \<lparr>s_LastBlockHeight := int64_of (u_height u),
         s_LastBlockTime := Unix_ns (h_Time (b_Header (u_block u))),
         s_LastBlockID :=
           \<lparr>bid_Hash = Header_Hash (xe_tm (me_exec (u_M u))) (b_Header (u_block u)),
            bid_PartSetHeader = \<lparr>ps_Total = 0, ps_Hash = []\<rparr>\<rparr>,
         s_NextValidators := nv, s_Validators := s_NextValidators (m_lastState m),
         s_LastHeightValidatorsChanged := s_LastHeightValidatorsChanged (m_lastState m)\<rparr>"
      using s fam scenario_okD(5) [OF ok]
      by (auto simp: UpdateStateFromResponses_def updateState_def Let_def family_def u_height_def
          split: if_splits)
    have "core s = (core (m_lastState m))
        \<lparr>s_LastBlockHeight := int64_of (u_height u),
         s_LastBlockTime := Unix_ns (h_Time (b_Header (u_block u))),
         s_LastBlockID :=
           \<lparr>bid_Hash = Header_Hash (xe_tm (me_exec (u_M u))) (b_Header (u_block u)),
            bid_PartSetHeader = \<lparr>ps_Total = 0, ps_Hash = []\<rparr>\<rparr>\<rparr>"
      by (simp add: s' core_def)
    also have "\<dots> = executed_core u"
      using fam p by (auto simp: family_def executed_core_def)
    finally show ?thesis
      using fam nv by (simp add: family_def s')
  qed
  with m show "(p = Fresh \<or> p = Executed \<longrightarrow> family u Executed s) \<and> ran u p m" by simp
qed (auto simp: ran_def intro: some_phaseI)

text \<open>Adding an entry to the batch changes nothing but the batch.\<close>

lemma on_store_batch:
  assumes ok: "scenario_ok u"
    and c: "\<And>s. c s = (case val of Ok v \<Rightarrow> save_key (me_kv (u_M u)) k v (Some b) s
      | Err e \<Rightarrow> (Err e, s) | Panic q \<Rightarrow> (Panic q, s))"
  shows "triple P (on_store c)
    (\<lambda>r m. P m \<and> (\<exists>v b'. val = Ok v \<and> r = Some b' \<and>
       u_eff u b' = (u_eff u b)(k := Some (Some v)))) P"
proof (rule triple_runI)
  fix m r m' assume "P m" and "on_store c m = (r, m')"
  then obtain t where t: "c (m_store m) = (r, t)" and m': "m' = m\<lparr>m_store := t\<rparr>"
    using on_store_run by blast
  note S = kv_store.save_key_Some [OF scenario_okD(1) [OF ok]]
  show "(\<forall>x. r = Ok x \<longrightarrow> P m' \<and> (\<exists>v b'. val = Ok v \<and> x = Some b' \<and>
      u_eff u b' = (u_eff u b)(k := Some (Some v)))) \<and> (\<not> is_Ok r \<longrightarrow> P m')"
  proof (cases val)
    case (Ok v)
    then have "save_key (me_kv (u_M u)) k v (Some b) (m_store m) = (r, t)"
      using c t by simp
    from S(1) [OF this] S(2) [OF this] \<open>P m\<close> Ok m' show ?thesis
      by auto
  qed (use c t m' \<open>P m\<close> in auto)
qed

lemma wrap_run:
  "bind_cmd (lift_out (\<lambda>_. x)) f s =
     (case x of Ok v \<Rightarrow> f v s | Err e \<Rightarrow> (Err e, s) | Panic q \<Rightarrow> (Panic q, s))"
  by (cases x) (simp_all add: bind_cmd_def lift_out_def)

definition on_disk ::
  "('db, 'app, 'mp, 'bus, 'vs, 'pvs, 'sl, 'da, 'net, 'w, 'd) scenario \<Rightarrow> phase \<Rightarrow>
     ('db, 'app, 'mp, 'bus, 'vs, 'sl, 'da, 'net) Manager \<Rightarrow> bool" where
  "on_disk u p m \<longleftrightarrow>
     stored u p m \<and> st_height (m_store m) = s_LastStoreHeight (u_state u) \<and>
     u_work u (co_app (m_conns m)) = snd (u_exec u)"

text \<open>The committed batch puts responses, state and validators on disk together or not at all.\<close>

definition block_batch :: "u64 \<Rightarrow> bytes \<Rightarrow> bytes \<Rightarrow> bytes \<Rightarrow> bytes \<Rightarrow> bytes option option" where
  "block_batch h resp blob vals =
     (\<lambda>_. None)(getResponsesKey h := Some (Some resp), getStateKey := Some (Some blob),
       getValidatorsKey h := Some (Some vals))"

lemma commit_batch:
  assumes ok: "scenario_ok u" and s: "family u Executed s" and p: "p = Fresh \<or> p = Executed"
    and b: "u_eff u b = block_batch (u_height u) resp blob vals"
      "mc_Marshal (se_responses (me_env (u_M u))) (u_resp u) = Ok resp"
      "state_blob (me_env (u_M u)) s = Ok blob"
  shows "triple (\<lambda>m. on_disk u p m \<and> m_lastState m = s) (on_store (on_db (batch_Commit (me_kv (u_M u)) b)))
    (\<lambda>_ m. on_disk u Executed m \<and> m_lastState m = s) (some_phase u)"
proof (rule triple_runI)
  note kv = scenario_okD(1) [OF ok]
  fix m r m' assume m: "on_disk u p m \<and> m_lastState m = s"
    and run: "on_store (on_db (batch_Commit (me_kv (u_M u)) b)) m = (r, m')"
  obtain db where db: "batch_Commit (me_kv (u_M u)) b (st_db (m_store m)) = (r, db)"
    and m': "m' = m\<lparr>m_store := (m_store m)\<lparr>st_db := db\<rparr>\<rparr>"
    using run by (auto simp: on_store_def on_db_def split: prod.splits)
  have new: "stored u Executed m'" if "u_look u db = over (u_look u (st_db (m_store m))) (u_eff u b)"
    using m s p that b(2,3)
    by (auto simp: stored_def on_disk_def Let_def m' b(1) block_batch_def over_upd)
  have old: "stored u p m'" if "u_look u db = u_look u (st_db (m_store m))"
    using m that by (simp add: stored_def on_disk_def m')
  have "stored u p m' \<or> stored u Executed m'"
    using kv_store.Commit_atomic [OF kv db] new old by blast
  moreover have "stored u Executed m'" if "r = Ok x" for x
    using kv_store.Commit_Ok [OF kv, of b] db that new by simp
  ultimately show "(\<forall>x. r = Ok x \<longrightarrow> on_disk u Executed m' \<and> m_lastState m' = s) \<and>
      (\<not> is_Ok r \<longrightarrow> some_phase u m')"
    using m by (auto simp: on_disk_def m' intro: some_phaseI)
qed

lemma add_to_batch:
  assumes "scenario_ok u" and "\<And>m. P m \<Longrightarrow> some_phase u m"
    and "\<And>s. c s = (case val of Ok v \<Rightarrow> save_key (me_kv (u_M u)) k v (Some b) s
      | Err e \<Rightarrow> (Err e, s) | Panic q \<Rightarrow> (Panic q, s))"
  shows "triple P (on_store c)
    (\<lambda>x m. P m \<and> (\<exists>v b'. val = Ok v \<and> x = Some b' \<and> u_eff u b' = (u_eff u b)(k := Some (Some v))))
    (some_phase u)"
  by (rule triple_conseq [OF on_store_batch [where P = P, OF assms(1,3)]]) (use assms(2) in auto)

lemma persist:
  assumes ok: "scenario_ok u" and s: "family u Executed s" and p: "p = Fresh \<or> p = Executed"
  shows "triple (on_disk u p) (persist_block (u_M u) (u_height u) (u_resp u) s)
    (\<lambda>_ m. on_disk u Executed m \<and> m_lastState m = s) (some_phase u)"
proof -
  let ?E = "me_env (u_M u)" and ?kv = "me_kv (u_M u)" and ?h = "u_height u"
  let ?D = "on_disk u p" and ?D' = "\<lambda>m. on_disk u p m \<and> m_lastState m = s"
  let ?add = "\<lambda>k b val x. \<exists>v b'. val = Ok v \<and> x = Some b' \<and> u_eff u b' = (u_eff u b)(k := Some (Some v))"
  have weak: "\<And>m. ?D m \<Longrightarrow> some_phase u m" "\<And>m. ?D' m \<Longrightarrow> some_phase u m"
    by (auto simp: on_disk_def intro: some_phaseI)
  obtain blob where blob: "state_blob ?E s = Ok blob"
    using persistable_blob [OF scenario_okD(8) [OF ok s] scenario_okD(3) [OF ok]] by blast
  let ?W = "wrap_err ''failed to marshal response'' (mc_Marshal (se_responses ?E) (u_resp u))"
  let ?V = "bind_out (wrap_err ''failed to marshal ValidatorSet to protobuf''
      (vs_ToProto (se_vs ?E) (s_Validators s))) (\<lambda>pv. wrap_err ''failed to marshal ValidatorSet''
      (mc_Marshal (sc_ValidatorSet (se_sc ?E)) pv))"
  have 1: "triple ?D (on_store (SaveBlockResponses ?E ?kv ?h (u_resp u) (Some b)))
    (\<lambda>x m. ?D m \<and> ?add (getResponsesKey ?h) b ?W x) (some_phase u)" for b
    by (rule add_to_batch [OF ok weak(1)]) (simp_all only: SaveBlockResponses_def wrap_run)
  have 2: "triple ?D' (on_store (UpdateState ?E ?kv s (Some b)))
    (\<lambda>x m. ?D' m \<and> ?add getStateKey b (state_blob ?E s) x) (some_phase u)" for b
    by (rule add_to_batch [OF ok weak(2)]) (simp_all add: UpdateState_blob blob)
  have 3: "triple ?D' (on_store (SaveValidators ?E ?kv ?h (s_Validators s) (Some b)))
    (\<lambda>x m. ?D' m \<and> ?add (getValidatorsKey ?h) b ?V x) (some_phase u)" for b
    by (rule add_to_batch [OF ok weak(2)]) (auto simp add: SaveValidators_def wrap_run split: outcome.splits)
  show ?thesis
    unfolding persist_block_def
    apply (rule triple_bind [OF 1], rule triple_pure, elim exE conjE)
    apply (rule triple_bind [where R = "\<lambda>_. ?D'"], rule triple_modify, simp add: on_disk_def stored_def)
    apply (simp only:, rule triple_bind [OF 2], rule triple_pure, elim exE conjE)
    apply (simp only:, rule triple_bind [OF 3], rule triple_pure, elim exE conjE)
    apply (simp only: option.case, rule commit_batch [OF ok s p])
      apply (simp_all add: block_batch_def kv_store.NewBatch_eff [OF scenario_okD(1) [OF ok]])
    done
qed

text \<open>The application commits: from here on the block is part of its state.\<close>

definition committed ::
  "('db, 'app, 'mp, 'bus, 'vs, 'pvs, 'sl, 'da, 'net, 'w, 'd) scenario \<Rightarrow> 'vs State \<Rightarrow>
     ('db, 'app, 'mp, 'bus, 'vs, 'sl, 'da, 'net) Manager \<Rightarrow> bool" where
  "committed u s m \<longleftrightarrow>
     stored u Committed m \<and> m_lastState m = s \<and>
     st_height (m_store m) = s_LastStoreHeight (u_state u) \<and>
     u_work u (co_app (m_conns m)) = sp_start (u_sp u) (u_durable u (co_app (m_conns m)))"

definition commit_state ::
  "('db, 'app, 'mp, 'bus, 'vs, 'pvs, 'sl, 'da, 'net, 'w, 'd) scenario \<Rightarrow> 'vs State \<Rightarrow> 'vs State" where
  "commit_state u s =
     s\<lparr>s_AppHash := go_copy (s_AppHash s) (rc_Data (fst (u_commit u))),
       s_LastResultsHash := go_copy (s_LastResultsHash s)
         (xe_NewResults_Hash (me_exec (u_M u)) (ar_DeliverTxs (u_resp u)))\<rparr>"

lemma commit_block:
  assumes ok: "scenario_ok u"
  shows "triple (\<lambda>m. on_disk u Executed m \<and> m_lastState m = s)
    (on_conns (executor_Commit (me_exec (u_M u)) s (u_block u) (u_resp u)))
    (\<lambda>x m. committed u s m \<and> fst x = commit_state u s)
    (some_phase u)"
proof (rule triple_runI)
  fix m r m' assume m: "on_disk u Executed m \<and> m_lastState m = s"
    and run: "on_conns (executor_Commit (me_exec (u_M u)) s (u_block u) (u_resp u)) m = (r, m')"
  obtain c where c: "executor_Commit (me_exec (u_M u)) s (u_block u) (u_resp u) (m_conns m) = (r, c)"
    and m': "m' = m\<lparr>m_conns := c\<rparr>"
    using on_conns_run [OF run] by blast
  have w: "sp_commit (u_sp u) (u_work u (co_app (m_conns m))) = u_commit u"
    using m by (simp add: on_disk_def u_commit_def)
  note C = executor_Commit_spec [OF scenario_okD(2) [OF ok] c, unfolded w]
  have old: "stored u Executed m'" if "u_durable u (co_app c) = u_durable u (co_app (m_conns m))"
    using m that by (auto simp: on_disk_def m' elim!: stored_cong)
  have new: "stored u Committed m'" if "u_durable u (co_app c) = snd (u_commit u)"
    using m that by (auto simp: on_disk_def stored_def Let_def m' family_def)
  have "stored u Executed m' \<and> \<not> is_Ok r \<or> stored u Committed m'"
    using conjunct1 [OF C] old new by blast
  then show "(\<forall>x. r = Ok x \<longrightarrow> committed u s m' \<and> fst x = commit_state u s) \<and>
    (\<not> is_Ok r \<longrightarrow> some_phase u m')"
    using conjunct2 [OF C] m by (auto simp: on_disk_def committed_def commit_state_def m' intro: some_phaseI)
qed

text \<open>Pruning stays below the stored height, so it does not touch the block being applied.\<close>

lemma prune_step:
  assumes ok: "scenario_ok u"
  shows "triple (committed u s) (pruneBlocks (u_M u) retain) (\<lambda>_. committed u s) (committed u s)"
proof (rule triple_runI)
  fix m r m' assume m: "committed u s m" and run: "pruneBlocks (u_M u) retain m = (r, m')"
  have "committed u s m'"
  proof (cases "retain > int64_of (m_syncTarget m)")
    case False
    obtain r1 t where t: "PruneBlocks (me_kv (u_M u)) retain (m_store m) = (r1, t)"
      by (cases "PruneBlocks (me_kv (u_M u)) retain (m_store m)")
    have m': "m' = m\<lparr>m_store := t\<rparr>"
      using run False t by (auto simp: pruneBlocks_def on_store_def split: outcome.splits)
    note P = kv_store.PruneBlocks_state [OF scenario_okD(1) [OF ok] t]
    obtain j where j: "st_baseHeight (m_store m) \<le> j"
      "j \<noteq> st_baseHeight (m_store m) \<longrightarrow> j \<le> st_height (m_store m)"
      and look: "u_look u (st_db t) = pruned_view (u_look u (st_db (m_store m))) (st_baseHeight (m_store m)) j"
      using P(2) by force
    have kept: "getResponsesKey (u_height u) \<notin>
        pruned_keys (u_look u (st_db (m_store m))) (st_baseHeight (m_store m)) j"
      using j u_height_greater(1) [OF ok] m by (auto simp: responses_key_kept committed_def)
    have "stored u Committed m'"
      using m kept by (auto simp: committed_def m' look pruned_view_def elim!: stored_cong)
    with m P(1) show ?thesis
      by (simp add: committed_def m')
  qed (use m run in \<open>simp add: pruneBlocks_def\<close>)
  then show "(\<forall>x. r = Ok x \<longrightarrow> committed u s m') \<and> (\<not> is_Ok r \<longrightarrow> committed u s m')"
    by simp
qed

lemma family_finished:
  assumes ok: "scenario_ok u" and s: "family u Executed s"
  shows "family u Done ((commit_state u s)\<lparr>s_LastValidators := s_Validators s,
    s_LastStoreHeight := u_height u, s_BaseHeight := base\<rparr>)"
proof -
  have "length (s_AppHash s) = 32"
    using scenario_okD(8) [OF ok s] by (simp add: persistable_def storable_State_def wf_State_def)
  moreover have "s_LastResultsHash s = s_LastResultsHash (u_state u)"
    using s by (auto simp: family_def core_def executed_core_def)
  ultimately show ?thesis
    using s scenario_okD(12) [OF ok]
    by (simp add: family_def core_def executed_core_def commit_state_def go_copy_def)
qed

lemma finish_step:
  assumes ok: "scenario_ok u" and s: "family u Executed s"
  shows "triple (committed u s)
    (finish_block (u_M u) (u_height u) (commit_state u s))
    (\<lambda>_. ready u Done) (some_phase u)"
proof (rule triple_runI)
  fix m r m' assume m: "committed u s m" and run: "finish_block (u_M u) (u_height u) (commit_state u s) m = (r, m')"
  let ?s2 = "(commit_state u s)\<lparr>s_LastValidators := s_Validators (m_lastState m), s_LastStoreHeight := u_height u,
      s_BaseHeight := st_baseHeight (m_store m)\<rparr>"
  have fam: "family u Done ?s2"
    using family_finished [OF ok s] m by (simp add: committed_def)
  obtain r1 m1 where u1: "on_store (UpdateState (me_env (u_M u)) (me_kv (u_M u)) ?s2 None) m = (r1, m1)"
    by (cases "on_store (UpdateState (me_env (u_M u)) (me_kv (u_M u)) ?s2 None) m")
  have st: "stored u Committed m"
    using m by (simp add: committed_def)
  note U = stored_UpdateState [OF ok st u1 fam]
  have run': "(r, m') = (case r1 of
      Ok _ \<Rightarrow> (Ok (), m1\<lparr>m_lastState := ?s2, m_store := SetHeight (u_height u) (m_store m1)\<rparr>)
    | Err e \<Rightarrow> (Err e, m1) | Panic q \<Rightarrow> (Panic q, m1))"
    unfolding run [symmetric] finish_block_def Let_def bind_cmd_def u1
    by (simp add: modify_def split: outcome.split)
  have res: "is_Ok r = is_Ok r1 \<and> m' = (if is_Ok r1
      then m1\<lparr>m_lastState := ?s2, m_store := SetHeight (u_height u) (m_store m1)\<rparr> else m1)"
    using run' by (cases r1) simp_all
  have "ready u Done m'" if "is_Ok r1"
  proof -
    have "st_height (m_store m1) < u_height u"
      using U m u_height_greater(1) [OF ok] by (simp add: committed_def)
    with U m fam that show ?thesis
      by (auto simp: res ready_def committed_def stored_def Let_def SetHeight_def)
  qed
  with U show "(\<forall>x. r = Ok x \<longrightarrow> ready u Done m') \<and> (\<not> is_Ok r \<longrightarrow> some_phase u m')"
    using res by (cases r1) (auto intro: some_phaseI)
qed

subsection \<open>Applying the block\<close>

definition apply_rest ::
  "('db, 'app, 'mp, 'bus, 'vs, 'pvs, 'sl, 'da, 'net) manager_env \<Rightarrow> Block \<Rightarrow> Commit \<Rightarrow>
     (('db, 'app, 'mp, 'bus, 'vs, 'sl, 'da, 'net) Manager, unit) cmd" where
  "apply_rest M block commit =
     bind_cmd (on_store (SaveBlock (me_env M) (me_kv M) block commit None)) (\<lambda>_.
     bind_cmd (executeBlock M block commit) (\<lambda>responses.
     bind_cmd (lift_out (\<lambda>m. UpdateStateFromResponses (me_exec M) responses (m_lastState m) block))
       (\<lambda>newState.
     bind_cmd (persist_block M (h_Height (b_Header block)) responses newState) (\<lambda>_.
     bind_cmd (on_conns (executor_Commit (me_exec M) newState block responses))
       (\<lambda>(newState', retainHeight).
     bind_cmd (if retainHeight > 0 then log_err (pruneBlocks M retainHeight) else ret ()) (\<lambda>_.
       finish_block M (h_Height (b_Header block)) newState'))))))"

lemma applyBlock_rest:
  "h_Height (b_Header block) = st_height (m_store m) + 1 \<Longrightarrow>
   applyBlock M block commit m =
     bind_cmd (alignStoreWithApp M block) (\<lambda>required. if required then ret () else apply_rest M block commit) m"
  unfolding applyBlock_def apply_rest_def by (simp only: simp_thms if_False)

lemma apply_rest_triple:
  assumes ok: "scenario_ok u" and p: "p = Fresh \<or> p = Executed"
  shows "triple (ready u p) (apply_rest (u_M u) (u_block u) commit) (\<lambda>_. ready u Done) (some_phase u)"
proof -
  have prune: "triple (committed u s) (if 0 < retain then log_err (pruneBlocks (u_M u) retain) else ret ())
    (\<lambda>_. committed u s) (some_phase u)" for s retain
    by (rule triple_if, rule triple_log_err [OF prune_step [OF ok]])
       (auto simp: committed_def intro: some_phaseI triple_ret)
  have tail: "triple (\<lambda>m. committed u s m \<and> fst x = commit_state u s)
    (case x of (newState', retainHeight) \<Rightarrow>
       bind_cmd (if retainHeight > 0 then log_err (pruneBlocks (u_M u) retainHeight) else ret ()) (\<lambda>_.
         finish_block (u_M u) (u_height u) newState')) (\<lambda>_. ready u Done) (some_phase u)"
    if "family u Executed s" for s x
    by (cases x, rule triple_pure, simp only: prod.case fst_conv,
        rule triple_bind [OF prune finish_step [OF ok that]])
  have body: "triple (ran u p)
    (bind_cmd (persist_block (u_M u) (u_height u) (u_resp u) s) (\<lambda>_.
     bind_cmd (on_conns (executor_Commit (me_exec (u_M u)) s (u_block u) (u_resp u)))
       (\<lambda>(newState', retainHeight).
     bind_cmd (if retainHeight > 0 then log_err (pruneBlocks (u_M u) retainHeight) else ret ()) (\<lambda>_.
       finish_block (u_M u) (u_height u) newState')))) (\<lambda>_. ready u Done) (some_phase u)"
    if "family u Executed s" for s
    by (rule triple_conseq [OF triple_bind [OF persist [OF ok that p]
          triple_bind [OF commit_block [OF ok] tail [OF that]]]])
       (auto simp: ran_def on_disk_def)
  show ?thesis
    unfolding apply_rest_def u_height_def [symmetric]
    apply (rule triple_bind [OF save_block [OF ok]], rule triple_bind [OF execute_block [OF ok p]])
    apply (rule triple_conseq [where P' = "\<lambda>m. ran u p m \<and> resp = u_resp u" for resp, rotated])
       apply (erule conjE, erule conjI, assumption)
      apply assumption
     apply assumption
    apply (rule triple_pure, simp only:)
    apply (rule triple_bind [OF update_state [OF ok]])
    apply (rule triple_conseq [where P' = "\<lambda>m. ran u p m \<and> family u Executed s" for s, rotated])
       apply (use p in blast)
      apply assumption
     apply assumption
    apply (rule triple_pure, erule body)
    done
qed

lemma applyBlock_triple:
  assumes ok: "scenario_ok u"
  shows "triple (ready u p) (applyBlock (u_M u) (u_block u) commit) (\<lambda>_. ready u Done) (some_phase u)"
proof (cases "p = Done")
  case True
  have "applyBlock (u_M u) (u_block u) commit m = (Ok (), m)" if "ready u p m" for m
    using that True by (simp add: applyBlock_def ready_def u_height_def)
  then show ?thesis
    by (intro tripleI) (auto simp: True)
next
  case False
  show ?thesis
  proof (rule triple_cong [OF applyBlock_rest])
    fix m assume "ready u p m"
    then show "h_Height (b_Header (u_block u)) = st_height (m_store m) + 1"
      using False scenario_okD(10) [OF ok] by (simp add: ready_def height_phase u_height_def)
  next
    show "triple (ready u p) (bind_cmd (alignStoreWithApp (u_M u) (u_block u))
        (\<lambda>required. if required then ret () else apply_rest (u_M u) (u_block u) commit))
      (\<lambda>_. ready u Done) (some_phase u)"
    proof (cases "p = Committed")
      case True
      show ?thesis
        unfolding True
        by (rule triple_bind [OF align_committed [OF ok]], rule tripleI) (auto simp: ret_def)
    next
      case early: False
      with False have p: "p = Fresh \<or> p = Executed"
        by (cases p) simp_all
      show ?thesis
        by (rule triple_bind [OF align_before [OF ok p]], rule triple_conseq
            [where P' = "\<lambda>m. ready u p m \<and> \<not> required" for required, rotated])
           (auto intro!: triple_pure apply_rest_triple [OF ok p])
    qed
  qed
qed

subsection \<open>Restarting the process\<close>

text \<open>
  A new process has the same database and a restarted application, and everything else anew: the
  arguments of \<open>NewManager\<close> other than these are a \<open>boot\<close>.
\<close>

record ('mp, 'bus, 'sl, 'da, 'net) boot =
  bt_namespaceID :: gostring
  bt_validateGenesis :: "GenesisDoc \<Rightarrow> GenesisDoc outcome"
  bt_ToTmPubKey :: "bytes \<Rightarrow> bytes outcome"
  bt_emptyHash :: bytes
  bt_mempool :: 'mp
  bt_bus :: 'bus
  bt_sl :: 'sl
  bt_da :: 'da
  bt_net :: 'net

definition restart_node ::
  "('db, 'app, 'mp, 'bus, 'vs, 'pvs, 'sl, 'da, 'net) manager_env \<Rightarrow>
     ('mp, 'bus, 'sl, 'da, 'net) boot \<Rightarrow> ('db, 'app, 'mp, 'bus, 'vs, 'sl, 'da, 'net) Manager \<Rightarrow>
     (('db, 'app, 'mp, 'bus, 'vs, 'pvs, 'sl, 'da, 'net) manager_env \<times>
      ('db, 'app, 'mp, 'bus, 'vs, 'sl, 'da, 'net) Manager) outcome" where
  "restart_node M bt m =
     NewManager M (bt_namespaceID bt) (bt_validateGenesis bt) (bt_ToTmPubKey bt) (bt_emptyHash bt)
       (New_store (st_db (m_store m)))
       \<lparr>co_app = app_Restart (xe_app (me_exec M)) (co_app (m_conns m)),
        co_mempool = bt_mempool bt, co_bus = bt_bus bt\<rparr>
       (bt_sl bt) (bt_da bt) (bt_net bt)"

text \<open>Attempts to apply a block, with a restart after each one that fails.\<close>

fun apply_with_restarts ::
  "('db, 'app, 'mp, 'bus, 'vs, 'pvs, 'sl, 'da, 'net) manager_env \<Rightarrow> Block \<Rightarrow> Commit \<Rightarrow>
     ('mp, 'bus, 'sl, 'da, 'net) boot list \<Rightarrow>
     (('db, 'app, 'mp, 'bus, 'vs, 'sl, 'da, 'net) Manager, unit) cmd" where
  "apply_with_restarts M block commit [] m = applyBlock M block commit m"
| "apply_with_restarts M block commit (bt # bts) m =
     (case applyBlock M block commit m of
        (Ok x, m') \<Rightarrow> (Ok x, m')
      | (_, m') \<Rightarrow>
          (case restart_node M bt m' of
             Ok (M', m'') \<Rightarrow> apply_with_restarts M' block commit bts m''
           | Err e \<Rightarrow> (Err e, m')
           | Panic p \<Rightarrow> (Panic p, m')))"

text \<open>The node's configuration did not change, and the block is not the first one of the chain.\<close>

definition same_config ::
  "('db, 'app, 'mp, 'bus, 'vs, 'pvs, 'sl, 'da, 'net) manager_env \<Rightarrow> gostring \<Rightarrow> bool" where
  "same_config M namespaceID \<longleftrightarrow>
     bind_out (me_getAddress M) (\<lambda>a. NewBlockExecutor a namespaceID (g_ChainID (me_genesis M))) =
       Ok (me_executor M)"

definition later_block ::
  "('db, 'app, 'mp, 'bus, 'vs, 'pvs, 'sl, 'da, 'net, 'w, 'd) scenario \<Rightarrow> bool" where
  "later_block u \<longleftrightarrow>
     i64 (s_LastBlockHeight (u_state u) + 1) \<noteq> g_InitialHeight (me_genesis (u_M u)) \<and>
     i64 (int64_of (u_height u) + 1) \<noteq> g_InitialHeight (me_genesis (u_M u))"

lemma family_height:
  "family u p s \<Longrightarrow> s_LastBlockHeight s =
     (if p = Fresh then s_LastBlockHeight (u_state u) else int64_of (u_height u)) \<and>
   s_LastStoreHeight s = s_LastStoreHeight (phase_core u p)"
  by (cases p) (auto simp: family_def core_def executed_core_def)

lemma restart_ready:
  assumes ok: "scenario_ok u" and later: "later_block u"
    and conf: "same_config (u_M u) (bt_namespaceID bt)" and m: "stored u p m"
  shows "\<exists>m'. restart_node (u_M u) bt m = Ok (u_M u, m') \<and> ready u p m'"
proof -
  let ?M = "u_M u" and ?E = "me_env (u_M u)" and ?s = "New_store (st_db (m_store m))"
  let ?c = "\<lparr>co_app = app_Restart (xe_app (me_exec ?M)) (co_app (m_conns m)),
      co_mempool = bt_mempool bt, co_bus = bt_bus bt\<rparr>"
  obtain s blob where s: "u_look u (st_db ?s) getStateKey = Some blob" "state_blob ?E s = Ok blob"
    "family u p s"
    using m by (auto simp: stored_def Let_def New_store_def)
  have load: "LoadState ?E (me_kv ?M) ?s =
    (Ok s, ?s\<lparr>st_height := s_LastStoreHeight s, st_baseHeight := s_BaseHeight s\<rparr>)"
    using kv_store.LoadState_blob [OF scenario_okD(1) [OF ok] s(1,2)] scenario_okD(3,8) [OF ok] s(3)
    by blast
  have no_init: "i64 (s_LastBlockHeight s + 1) \<noteq> g_InitialHeight (me_genesis ?M)"
    using family_height [OF s(3)] later by (simp add: later_block_def)
  have init: "initial_state ?M (bt_validateGenesis bt) (bt_ToTmPubKey bt) (bt_emptyHash bt) qs (?s, ?c) =
      (Ok s, (?s\<lparr>st_height := s_LastStoreHeight s, st_baseHeight := s_BaseHeight s\<rparr>, ?c))" for qs
    using no_init by (simp add: initial_state_def getInitialState_def load)
  obtain a where "me_getAddress ?M = Ok a"
    "NewBlockExecutor a (bt_namespaceID bt) (g_ChainID (me_genesis ?M)) = Ok (me_executor ?M)"
    using conf by (auto simp: same_config_def bind_out_Ok_iff)
  then obtain m' where run: "restart_node ?M bt m = Ok (?M, m')" and m': "m_lastState m' = s"
    "m_store m' = ?s\<lparr>st_height := s_LastStoreHeight s, st_baseHeight := s_BaseHeight s\<rparr>"
    "m_conns m' = ?c"
    by (simp add: restart_node_def NewManager_def init)
  note app = restart_law [OF scenario_okD(2) [OF ok]]
  have "stored u p m'"
    using m by (rule stored_cong) (simp_all add: m' New_store_def app)
  then have "ready u p m'"
    using s(3) family_height [OF s(3)] by (simp add: ready_def m' app)
  with run show ?thesis by blast
qed

lemma apply_with_restarts_phase:
  assumes ok: "scenario_ok u" and later: "later_block u"
    and conf: "\<forall>bt \<in> set bts. same_config (u_M u) (bt_namespaceID bt)"
    and m: "ready u p m" and run: "apply_with_restarts (u_M u) (u_block u) commit bts m = (r, m')"
  shows "if is_Ok r then ready u Done m' else some_phase u m'"
  using conf m run
proof (induction bts arbitrary: m p)
  case Nil
  with triple_Ok [OF applyBlock_triple [OF ok]] triple_fail [OF applyBlock_triple [OF ok]]
  show ?case by (auto simp: is_Ok_iff)
next
  case (Cons bt bts)
  obtain r1 m1 where a: "applyBlock (u_M u) (u_block u) commit m = (r1, m1)"
    by (cases "applyBlock (u_M u) (u_block u) commit m")
  show ?case
  proof (cases "is_Ok r1")
    case True
    with Cons.prems(3) a have "r = r1" "m' = m1" by (auto simp: is_Ok_iff)
    with True show ?thesis
      using triple_Ok [OF applyBlock_triple [OF ok] Cons.prems(2)] a by (auto simp: is_Ok_iff)
  next
    case False
    obtain q where "stored u q m1"
      using triple_fail [OF applyBlock_triple [OF ok] Cons.prems(2) a False] by (auto simp: some_phase_def)
    from restart_ready [OF ok later _ this, of bt] obtain m2 where
      m2: "restart_node (u_M u) bt m1 = Ok (u_M u, m2)" "ready u q m2"
      using Cons.prems(1) by auto
    have "apply_with_restarts (u_M u) (u_block u) commit bts m2 = (r, m')"
      using Cons.prems(3) a m2(1) False by (cases r1) auto
    with Cons.IH [OF _ m2(2)] Cons.prems(1) show ?thesis by simp
  qed
qed

subsection \<open>A concrete scenario\<close>

text \<open>
  The chain of theory \<open>Store\<close> at height 2, about to apply block 3, with an application whose states
  are a height.
\<close>

definition sample_spec :: "(int, int) app_spec" where
  "sample_spec =
     \<lparr>sp_begin = (\<lambda>q w. ([], w)),
      sp_deliver = (\<lambda>tx w.
        (\<lparr>dt_Code = 0, dt_Data = [], dt_Log = [], dt_Info = [], dt_GasWanted = 0, dt_GasUsed = 0,
          dt_Events = [], dt_Codespace = []\<rparr>, w)),
      sp_end = (\<lambda>h w. (\<lparr>eb_ValidatorUpdates = [], eb_ConsensusParamUpdates = None, eb_Events = []\<rparr>, h)),
      sp_commit = (\<lambda>w. (\<lparr>rc_Data = replicate 32 (word_of_int w), rc_RetainHeight = 1\<rparr>, w)),
      sp_start = (\<lambda>d. d),
      sp_info = (\<lambda>d. \<lparr>ri_LastBlockHeight = d, ri_LastBlockAppHash = replicate 32 (word_of_int d)\<rparr>)\<rparr>"

definition sample_app :: "(int \<times> int) abci_app" where
  "sample_app =
     \<lparr>app_Info = (\<lambda>(w, d). Ok (sp_info sample_spec d)),
      app_InitChain = (\<lambda>q a. (Ok \<lparr>ric_ConsensusParams = None, ric_AppHash = []\<rparr>, a)),
      app_BeginBlock = (\<lambda>q (w, d). case sp_begin sample_spec q w of (x, w') \<Rightarrow> (Ok x, (w', d))),
      app_DeliverTx = (\<lambda>tx (w, d). case sp_deliver sample_spec tx w of (x, w') \<Rightarrow> (Ok x, (w', d))),
      app_EndBlock = (\<lambda>h (w, d). case sp_end sample_spec h w of (x, w') \<Rightarrow> (Ok x, (w', d))),
      app_Commit = (\<lambda>(w, d). case sp_commit sample_spec w of (x, d') \<Rightarrow> (Ok x, (d', d'))),
      app_Restart = (\<lambda>(w, d). (d, d))\<rparr>"

definition sample_manager_env ::
  "(mem_db, int \<times> int, unit, unit, nat, nat, unit, unit, unit) manager_env" where
  "sample_manager_env =
     \<lparr>me_kv = mainKV mem_badger,
      me_exec =
        \<lparr>xe_env = sample_env, xe_app = sample_app,
         xe_mempool = \<lparr>mp_ReapMaxBytesMaxGas = (\<lambda>b g s. []), mp_FlushAppConn = ret (),
           mp_Update = (\<lambda>h txs rs pre post. ret ())\<rparr>,
         xe_eventBus = None, xe_HeaderPB_Marshal = (\<lambda>h. Ok (th_ChainID h)),
         xe_NewResults_Hash = (\<lambda>rs. zero_bytes 32), xe_ComputeProtoSizeForTxs = (\<lambda>txs. 0),
         xe_PubKeyToProto = Ok\<rparr>,
      me_executor = \<lparr>ex_proposerAddress = [1], ex_namespaceID = zero_bytes 8, ex_chainID = []\<rparr>,
      me_genesis = \<lparr>g_GenesisTime = 0, g_ChainID = [], g_InitialHeight = 1,
        g_ConsensusParams = None, g_AppHash = [], g_AppState = []\<rparr>,
      me_sl = \<lparr>sl_SubmitBatch = (\<lambda>b c r. ret ()),
        sl_RetrieveBatch = (\<lambda>i s.
          if i = Some 1
          then (Ok \<lparr>sr_Code = StatusSuccess, sr_Message = [], sr_StateIndex = 1,
                    sr_Batch = \<lparr>sb_StartHeight = 3, sb_EndHeight = 3, sb_AppHashes = [],
                      sb_MetaData = \<lparr>dm_Height = 1, dm_Client = []\<rparr>\<rparr>\<rparr>, s)
          else (Err ErrBatchNotFound, s)),
        sl_GetSequencersList = (\<lambda>s. []),
        sl_GetProposer = (\<lambda>s. Some \<lparr>sq_PublicKey = [7], sq_Status = Proposer\<rparr>)\<rparr>,
      me_da = \<lparr>da_SubmitBatch = (\<lambda>b s. (Panic [], s)), 
        da_RetrieveBatches = (\<lambda>h s.
          (Ok \<lparr>rr_Code = StatusSuccess, rr_Message = [], rr_DAHeight = h,
               rr_Batches = [Some \<lparr>ba_StartHeight = 3, ba_EndHeight = 3, ba_Blocks = [sample_block 3],
                 ba_Commits = [sample_commit 3]\<rparr>]\<rparr>, s)),
        da_GetClientType = []\<rparr>,
      me_GossipBlock = (\<lambda>b. ret ()), me_BlockBatchMaxSizeBytes = 500000, me_getAddress = Ok [1],
      me_Sign = (\<lambda>msg. Ok [7]), me_SignVote = (\<lambda>c v. Ok [7]), me_VerifyVote = (\<lambda>c v s. True)\<rparr>"

definition sample_scenario ::
  "(mem_db, int \<times> int, unit, unit, nat, nat, unit, unit, unit, int, int) scenario" where
  "sample_scenario =
     \<lparr>u_M = sample_manager_env, u_look = main_look mem_badger, u_eff = main_eff,
      u_raw = (\<lambda>k. mainPrefix @ k), u_sp = sample_spec, u_work = fst, u_durable = snd,
      u_state = sample_state 2, u_vals = {v. v < 8}, u_block = sample_block 3, u_app = 2\<rparr>"

definition sample_manager :: "fate list \<Rightarrow>
    (mem_db, int \<times> int, unit, unit, nat, unit, unit, unit) Manager" where
  "sample_manager fates =
     \<lparr>m_lastState = sample_state 2,
      m_store = \<lparr>st_db =
          \<lparr>mem_entries = [(mainPrefix @ getStateKey,
             case state_blob sample_env (sample_state 2) of Ok blob \<Rightarrow> blob | _ \<Rightarrow> [])],
           mem_fates = fates\<rparr>,
        st_height = 2, st_baseHeight = 0\<rparr>,
      m_conns = \<lparr>co_app = (2, 2), co_mempool = (), co_bus = ()\<rparr>,
      m_sl = (), m_da = (), m_net = (), m_syncTarget = 0, m_lastSubmissionTime = 0,
      m_batchInProcess = False, m_syncTargetDiode = None, m_shouldProduceBlocksCh = [],
      m_produceEmptyBlockCh = []\<rparr>"

definition sample_boot :: "(unit, unit, unit, unit, unit) boot" where
  "sample_boot =
     \<lparr>bt_namespaceID = [], bt_validateGenesis = Ok, bt_ToTmPubKey = Ok, bt_emptyHash = zero_bytes 32,
      bt_mempool = (), bt_bus = (), bt_sl = (), bt_da = (), bt_net = ()\<rparr>"

lemma sample_implements: "implements_abci sample_app sample_spec fst snd"
  by (auto simp: implements_abci_def sample_app_def sample_spec_def)

lemma sample_scenario_simps [simp]:
  "u_M sample_scenario = sample_manager_env" "u_look sample_scenario = main_look mem_badger"
  "u_eff sample_scenario = main_eff" "u_raw sample_scenario = (\<lambda>k. mainPrefix @ k)"
  "u_sp sample_scenario = sample_spec" "u_work sample_scenario = fst" "u_durable sample_scenario = snd"
  "u_state sample_scenario = sample_state 2" "u_vals sample_scenario = {v. v < 8}"
  "u_block sample_scenario = sample_block 3" "u_app sample_scenario = 2"
  "u_height sample_scenario = 3" "me_env sample_manager_env = sample_env"
  "me_kv sample_manager_env = mainKV mem_badger" "xe_app (me_exec sample_manager_env) = sample_app"
  by (simp_all add: sample_scenario_def u_height_def sample_block_def sample_header_def
      sample_manager_env_def)

lemma sample_exec: "u_exec sample_scenario = (sample_responses [], 3)"
  by (simp add: u_exec_def sp_execute_def sample_spec_def sample_block_def zero_Data_def
      sample_responses_def int64_of_def)

lemma sample_commits:
  "u_commit sample_scenario = (\<lparr>rc_Data = replicate 32 3, rc_RetainHeight = 1\<rparr>, 3)"
  by (simp add: u_commit_def sample_exec) (simp add: sample_spec_def)

lemma sample_family:
  assumes "family sample_scenario p s"
  obtains n v l base h k a where "s = (sample_state 2)\<lparr>s_SLStateIndex := 0, s_NextValidators := n,
      s_Validators := v, s_LastValidators := l, s_BaseHeight := base, s_LastBlockHeight := int64_of h,
      s_LastBlockID := sample_BlockID h, s_LastStoreHeight := k, s_AppHash := a\<rparr>"
    and "n < 8" "v < 8" "l < 8" "h \<in> {2, 3}" "k \<in> {2, 3}" "length a = 32"
proof -
  have fields: "n < 8" "v < 8" "l < 8" if "n = s_NextValidators s" "v = s_Validators s"
    "l = s_LastValidators s" for n v l
    using assms that by (simp_all add: family_def)
  have id: "\<lparr>bid_Hash = Header_Hash (se_tm sample_env) (b_Header (sample_block 3)),
      bid_PartSetHeader = \<lparr>ps_Total = 0, ps_Hash = []\<rparr>\<rparr> = sample_BlockID 3"
    by code_simp
  have time: "Unix_ns (h_Time (b_Header (sample_block 3))) = 0"
    by code_simp
  have hash: "xe_NewResults_Hash (me_exec sample_manager_env) rs = zero_bytes 32" for rs
    by (simp add: sample_manager_env_def)
  have core: "core s = phase_core sample_scenario p"
    using assms by (simp add: family_def)
  define c where "c = (case p of Fresh \<Rightarrow> (2 :: u64, 2 :: u64, zero_bytes 32)
    | Executed \<Rightarrow> (3, 2, zero_bytes 32) | Committed \<Rightarrow> (3, 2, zero_bytes 32) | Done \<Rightarrow> (3, 3, replicate 32 3))"
  obtain h k a where hka: "c = (h, k, a)" by (cases c)
  have ranges: "h \<in> {2, 3}" "k \<in> {2, 3}" "length a = 32"
    using hka by (cases p; auto simp: c_def zero_bytes_def)+
  have s: "s = (sample_state 2)\<lparr>s_SLStateIndex := 0, s_NextValidators := s_NextValidators s,
      s_Validators := s_Validators s, s_LastValidators := s_LastValidators s, s_BaseHeight := s_BaseHeight s,
      s_LastBlockHeight := int64_of h, s_LastBlockID := sample_BlockID h, s_LastStoreHeight := k,
      s_AppHash := a\<rparr>"
    using core hka by (cases p) (simp_all add: core_def executed_core_def sample_state_def id time hash
        c_def sample_commits)
  show thesis
    by (rule that [OF s fields [OF refl refl refl] ranges])
qed

lemma sample_marshals:
  "x < 8 \<Longrightarrow> is_Ok (mc_Marshal (sc_ValidatorSet (se_sc sample_env)) x)"
  "h \<in> {2, 3} \<Longrightarrow> is_Ok (mc_Marshal (sc_BlockID (se_sc sample_env)) (sample_BlockID h))"
  "is_Ok (mc_Marshal (sc_Version (se_sc sample_env)) (InitStateVersion sample_tm))"
  "is_Ok (mc_Marshal (sc_Time (se_sc sample_env)) 0)"
  "is_Ok (mc_Marshal (sc_ConsensusParams (se_sc sample_env)) sample_params)"
  by (auto simp: sample_env_def table_msg_codec_def table_Marshal_def)

lemma persistable_rotated:
  assumes "n < 8" "v < 8" "l < 8" "h \<in> {2, 3}" "k \<in> {2, 3}" "length a = 32"
  shows "persistable sample_env ((sample_state 2)\<lparr>s_SLStateIndex := i, s_NextValidators := n,
      s_Validators := v, s_LastValidators := l, s_BaseHeight := base, s_LastBlockHeight := int64_of h,
      s_LastBlockID := sample_BlockID h, s_LastStoreHeight := k, s_AppHash := a\<rparr>)"
    (is "persistable _ ?s")
proof -
  have size: "size_uint_field x \<le> 12" "size_uint_field2 x \<le> 12" "sov x \<le> 12" for x
    using sov_le [of x] by (simp_all add: size_uint_field_def size_uint_field2_def)
  obtain p where p: "State_ToProto sample_vset ?s = Ok p" and fields: "ps_ChainId p = []"
    "ps_NextValidators p = Some n" "ps_Validators p = Some v" "ps_LastValidators p = Some l"
    "ps_LastBlockID p = sample_BlockID h" "ps_LastBlockTime p = 0" "ps_ConsensusParams p = sample_params"
    "ps_Version p = Some (InitStateVersion sample_tm)" "length (ps_AppHash p) = 32"
    "length (ps_LastResultsHash p) = 32"
    using assms(6) by (simp add: State_ToProto_def sample_state_def sample_vset_def zero_bytes_def)
  have delim: "size_delimited 1 \<le> 14" "size_bytes_field (ps_AppHash p) \<le> 45"
    "size_bytes_field (ps_LastResultsHash p) \<le> 45" "size_bytes_field (ps_ChainId p) = 0"
    using size(3) by (simp_all add: size_delimited_def size_bytes_field_def Let_def fields)
  have "State_Size (se_sc sample_env) p \<le> 1000"
    unfolding State_Size_def
    using delim size(1) [of "uint64_of (ps_InitialHeight p)"]
      size(1) [of "uint64_of (ps_LastBlockHeight p)"] size(1) [of "ps_SLStateIndex p"]
      size(1) [of "uint64_of (ps_LastHeightValidatorsChanged p)"]
      size(1) [of "uint64_of (ps_LastHeightConsensusParamsChanged p)"]
      size(2) [of "ps_LastStoreHeight p"] size(2) [of "ps_BaseHeight p"]
    by (simp add: sample_env_def table_msg_codec_def size_message_opt_def fields(2-8))
  moreover have "encodable_State (se_sc sample_env) p"
    using sample_marshals assms by (simp add: encodable_State_def fields)
  moreover have "storable_State sample_vset ?s"
    using assms
    by (auto simp: storable_State_def wf_State_def vset_round_trip_def sample_vset_def sample_state_def
        zero_bytes_def in_i64_def int64_of_def)
  moreover have "se_vs sample_env = sample_vset"
    by (simp add: sample_env_def)
  ultimately show ?thesis
    using p by (simp add: persistable_def)
qed

lemma sample_scenario_ok: "scenario_ok sample_scenario"
proof -
  have codec: "msg_codec_ok (se_responses sample_env)"
    by (simp add: sample_env_def table_msg_codec_ok)
  have rot: "\<forall>v \<in> {v. v < 8}. vs_IncrementProposerPriority (se_vs sample_env) v 1 \<in> {v. v < 8} \<and>
      vs_Hash (se_vs sample_env) v = vs_Hash (se_vs sample_env) (s_Validators (sample_state 2))"
    by (simp add: sample_env_def sample_vset_def)
  have fam: "family sample_scenario Fresh (sample_state 2)"
    by (simp add: family_def) (simp add: sample_state_def)
  have pers: "\<forall>p s. family sample_scenario p s \<longrightarrow> persistable sample_env s"
    by (intro allI impI, erule sample_family, simp only: persistable_rotated)
  have nums: "unat (s_LastStoreHeight (sample_state 2)) + 1 < 2 ^ 63"
    "(3 :: u64) = s_LastStoreHeight (sample_state 2) + 1"
    "uint64_of (ri_LastBlockHeight (sp_info sample_spec 2)) = s_LastStoreHeight (sample_state 2)"
    by (simp_all add: sample_state_def sample_spec_def uint64_of_def)
  show ?thesis
    unfolding scenario_ok_def Let_def sample_scenario_simps sample_commits
    using mem.mainKV_kv_store sample_implements sample_codec_ok codec rot fam pers nums
    by simp
qed

lemma sample_ready: "ready sample_scenario Fresh (sample_manager fates)"
proof -
  obtain blob where blob: "state_blob sample_env (sample_state 2) = Ok blob"
    using persistable_blob [OF persistable_sample sample_codec_ok] by blast
  have fam: "family sample_scenario Fresh (sample_state 2)"
    using sample_scenario_ok scenario_okD(7) by fastforce
  have "main_look mem_badger (st_db (m_store (sample_manager fates))) getStateKey = Some blob"
    by (simp add: sample_manager_def blob main_look_def prefix_look_def)
  with blob fam show ?thesis
    unfolding ready_def stored_def Let_def sample_scenario_simps
    by (auto simp: sample_manager_def sample_spec_def) (simp add: sample_state_def)
qed

subsection \<open>Properties\<close>


lemma sample_later: "later_block sample_scenario"
  unfolding later_block_def sample_scenario_simps by code_simp

lemma sample_config: "same_config sample_manager_env (bt_namespaceID sample_boot)"
  by code_simp

lemma sample_applied:
  "case applyBlock sample_manager_env (sample_block 3) (sample_commit 3) (sample_manager []) of
     (r, m') \<Rightarrow> is_Ok r \<and> mem_fates (st_db (m_store m')) = []"
  by code_simp


end
