(* ===== verification/Sync.thy ===== *)
theory Sync
  imports Recovery
begin

text \<open>
  Batch submission and synchronisation of the block manager, after \<open>src/block/submit.go\<close>,
  \<open>retriever.go\<close>, \<open>synctarget.go\<close> and the loops of \<open>produce.go\<close> and \<open>manager.go\<close>. A loop that the
  source does not bound is a \<open>partial_function\<close> whose value \<open>None\<close> is not returning. The goroutines
  of a node are a step relation in which one iteration of a loop is one step; a send on a channel
  is possible when the channel, of capacity 1, has room.
\<close>

subsection \<open>\<open>submit.go\<close>\<close>

text \<open>
  \<open>make\<close> with a capacity that no allocation can have panics: a slice of pointers takes 8 bytes per
  element, of at most \<open>2 ^ 48\<close>.
\<close>

definition maxSliceCap :: u64 where
  "maxSliceCap = 2 ^ 45"

definition batch_too_big :: "codec \<Rightarrow> u64 \<Rightarrow> Batch \<Rightarrow> bool" where
  "batch_too_big cd maxBytes batch \<longleftrightarrow> int (Batch_Size cd (Batch_ToProto batch)) > int64_of maxBytes"

partial_function (option) batch_loop ::
  "('vs, 'pvs) store_env \<Rightarrow> 'db KVStore \<Rightarrow> u64 \<Rightarrow> 'db DefaultStore \<Rightarrow> u64 \<Rightarrow> Batch \<Rightarrow> u64 \<Rightarrow>
     Batch outcome option" where
  "batch_loop E kv maxBytes s endHeight batch height =
     (if height \<le> endHeight then
        case LoadBlock E kv s height of
          Err e \<Rightarrow> Some (Err e)
        | Panic p \<Rightarrow> Some (Panic p)
        | Ok block \<Rightarrow>
            (case LoadCommit E kv s height of
               Err e \<Rightarrow> Some (Err e)
             | Panic p \<Rightarrow> Some (Panic p)
             | Ok commit \<Rightarrow>
                 let batch' = batch\<lparr>ba_Blocks := ba_Blocks batch @ [block],
                                    ba_Commits := ba_Commits batch @ [commit]\<rparr>
                 in if batch_too_big (se_codec E) maxBytes batch'
                    then Some (Ok (batch'\<lparr>ba_Blocks := butlast (ba_Blocks batch'),
                                          ba_Commits := butlast (ba_Commits batch'),
                                          ba_EndHeight := height - 1\<rparr>))
                    else batch_loop E kv maxBytes s endHeight batch' (height + 1))
      else Some (Ok (batch\<lparr>ba_EndHeight := height - 1\<rparr>)))"

definition createNextDABatch ::
  "('db, 'app, 'mp, 'bus, 'vs, 'pvs, 'sl, 'da, 'net) manager_env \<Rightarrow>
     ('db, 'app, 'mp, 'bus, 'vs, 'sl, 'da, 'net) Manager \<Rightarrow> u64 \<Rightarrow> u64 \<Rightarrow> Batch outcome option" where
  "createNextDABatch M m startHeight endHeight =
     (let batchSize = endHeight - startHeight + 1 in
      if batchSize > maxSliceCap then Some (Panic ''makeslice: cap out of range'')
      else batch_loop (me_env M) (me_kv M) (me_BlockBatchMaxSizeBytes M) (m_store m) endHeight
             \<lparr>ba_StartHeight = startHeight, ba_EndHeight = endHeight, ba_Blocks = [], ba_Commits = []\<rparr>
             startHeight)"

definition validateLastBlockInBatchIsEmpty ::
  "('db, 'app, 'mp, 'bus, 'vs, 'pvs, 'sl, 'da, 'net) manager_env \<Rightarrow>
     ('db, 'app, 'mp, 'bus, 'vs, 'sl, 'da, 'net) Manager \<Rightarrow> u64 \<Rightarrow> bool outcome" where
  "validateLastBlockInBatchIsEmpty M m endHeight =
     bind_out (LoadBlock (me_env M) (me_kv M) (m_store m) endHeight) (\<lambda>lastBlock.
       Ok (length (d_Txs (b_Data lastBlock)) = 0))"

text \<open>Both layers get the batch; an error before that is logged.\<close>

definition submit_to_layers ::
  "('db, 'app, 'mp, 'bus, 'vs, 'pvs, 'sl, 'da, 'net) manager_env \<Rightarrow> Batch \<Rightarrow>
     (('db, 'app, 'mp, 'bus, 'vs, 'sl, 'da, 'net) Manager, unit) cmd" where
  "submit_to_layers M batch =
     bind_cmd (on_da (da_SubmitBatch (me_da M) batch)) (\<lambda>resultSubmitToDA.
       if rs_Code resultSubmitToDA \<noteq> StatusSuccess
       then lift_out (\<lambda>_. Panic ''Failed to submit next batch to DA Layer'')
       else on_sl (sl_SubmitBatch (me_sl M) batch (da_GetClientType (me_da M)) resultSubmitToDA))"

definition submitNextBatch ::
  "('db, 'app, 'mp, 'bus, 'vs, 'pvs, 'sl, 'da, 'net) manager_env \<Rightarrow>
     ('db, 'app, 'mp, 'bus, 'vs, 'sl, 'da, 'net) Manager \<Rightarrow>
     (unit outcome \<times> ('db, 'app, 'mp, 'bus, 'vs, 'sl, 'da, 'net) Manager) option" where
  "submitNextBatch M m =
     (let startHeight = m_syncTarget m + 1;
          endHeight = uint64_of (s_LastBlockHeight (m_lastState m))
      in case validateLastBlockInBatchIsEmpty M m endHeight of
           Err e \<Rightarrow> Some (Ok (), m)
         | Panic p \<Rightarrow> Some (Panic p, m)
         | Ok isLastBlockEmpty \<Rightarrow>
             let m1 = (if isLastBlockEmpty then m
                       else m\<lparr>m_produceEmptyBlockCh := m_produceEmptyBlockCh m @ [True]\<rparr>)
             in (case createNextDABatch M m1 startHeight endHeight of
                   None \<Rightarrow> None
                 | Some (Err e) \<Rightarrow> Some (Ok (), m1)
                 | Some (Panic p) \<Rightarrow> Some (Panic p, m1)
                 | Some (Ok nextBatch) \<Rightarrow> Some (submit_to_layers M nextBatch m1)))"

text \<open>One tick of \<open>SubmitLoop\<close>; the flag says whether a batch submission was started.\<close>

definition submit_tick ::
  "('db, 'app, 'mp, 'bus, 'vs, 'pvs, 'sl, 'da, 'net) manager_env \<Rightarrow> int \<Rightarrow> gotime \<Rightarrow>
     ('db, 'app, 'mp, 'bus, 'vs, 'sl, 'da, 'net) Manager \<Rightarrow>
     (bool \<times> unit outcome \<times> ('db, 'app, 'mp, 'bus, 'vs, 'sl, 'da, 'net) Manager) option" where
  "submit_tick M now voteTimestamp m =
     (if st_height (m_store m) - m_syncTarget m = 0 then Some (False, Ok (), m)
      else if m_batchInProcess m then Some (False, Ok (), m)
      else
        case log_err (produceBlock M now voteTimestamp True) (m\<lparr>m_batchInProcess := True\<rparr>) of
          (Ok _, m1) \<Rightarrow>
            (case submitNextBatch M m1 of None \<Rightarrow> None | Some (r, m2) \<Rightarrow> Some (True, r, m2))
        | (Err e, m1) \<Rightarrow> Some (True, Err e, m1)
        | (Panic p, m1) \<Rightarrow> Some (True, Panic p, m1))"

subsection \<open>\<open>retriever.go\<close>\<close>

definition fetchBatch ::
  "('db, 'app, 'mp, 'bus, 'vs, 'pvs, 'sl, 'da, 'net) manager_env \<Rightarrow> u64 \<Rightarrow>
     (('db, 'app, 'mp, 'bus, 'vs, 'sl, 'da, 'net) Manager, ResultRetrieveBatch) cmd" where
  "fetchBatch M daHeight =
     bind_cmd (on_da (da_RetrieveBatches (me_da M) daHeight)) (\<lambda>batchRes.
       case rr_Code batchRes of
         StatusError \<Rightarrow> lift_out (\<lambda>_. Err (Errorf ''failed to retrieve batch''))
       | StatusTimeout \<Rightarrow> lift_out (\<lambda>_. Err (Errorf ''timeout during retrieve batch''))
       | _ \<Rightarrow> ret batchRes)"

text \<open>The inner loop, from block \<open>i\<close> on: the commit is the one at the same index.\<close>

fun apply_blocks ::
  "('db, 'app, 'mp, 'bus, 'vs, 'pvs, 'sl, 'da, 'net) manager_env \<Rightarrow> Commit list \<Rightarrow> nat \<Rightarrow> Block list \<Rightarrow>
     (('db, 'app, 'mp, 'bus, 'vs, 'sl, 'da, 'net) Manager, unit) cmd" where
  "apply_blocks M commits i [] = ret ()"
| "apply_blocks M commits i (block # blocks) =
     (if i < length commits
      then bind_cmd (applyBlock M block (commits ! i)) (\<lambda>_. apply_blocks M commits (Suc i) blocks)
      else lift_out (\<lambda>_. Panic ''index out of range''))"

fun apply_batches ::
  "('db, 'app, 'mp, 'bus, 'vs, 'pvs, 'sl, 'da, 'net) manager_env \<Rightarrow> Batch option list \<Rightarrow>
     (('db, 'app, 'mp, 'bus, 'vs, 'sl, 'da, 'net) Manager, unit) cmd" where
  "apply_batches M [] = ret ()"
| "apply_batches M (None # batches) = lift_out (\<lambda>_. Panic ''nil pointer dereference'')"
| "apply_batches M (Some batch # batches) =
     bind_cmd (apply_blocks M (ba_Commits batch) 0 (ba_Blocks batch)) (\<lambda>_. apply_batches M batches)"

definition processNextDABatch ::
  "('db, 'app, 'mp, 'bus, 'vs, 'pvs, 'sl, 'da, 'net) manager_env \<Rightarrow> u64 \<Rightarrow>
     (('db, 'app, 'mp, 'bus, 'vs, 'sl, 'da, 'net) Manager, unit) cmd" where
  "processNextDABatch M daHeight =
     bind_cmd (fetchBatch M daHeight) (\<lambda>batchResp. apply_batches M (rr_Batches batchResp))"

definition updateStateIndex ::
  "('db, 'app, 'mp, 'bus, 'vs, 'pvs, 'sl, 'da, 'net) manager_env \<Rightarrow> u64 \<Rightarrow>
     (('db, 'app, 'mp, 'bus, 'vs, 'sl, 'da, 'net) Manager, unit) cmd" where
  "updateStateIndex M stateIndex =
     bind_cmd (modify (\<lambda>m. m\<lparr>m_lastState := (m_lastState m)\<lparr>s_SLStateIndex := stateIndex\<rparr>\<rparr>)) (\<lambda>_ m.
     bind_cmd (on_store (UpdateState (me_env M) (me_kv M) (m_lastState m) None)) (\<lambda>_. ret ()) m)"

text \<open>Errors of the settlement layer are retried, the others end the loop.\<close>

partial_function (option) sync_loop ::
  "('db, 'app, 'mp, 'bus, 'vs, 'pvs, 'sl, 'da, 'net) manager_env \<Rightarrow> u64 \<Rightarrow> u64 \<Rightarrow>
     ('db, 'app, 'mp, 'bus, 'vs, 'sl, 'da, 'net) Manager \<Rightarrow>
     (unit outcome \<times> ('db, 'app, 'mp, 'bus, 'vs, 'sl, 'da, 'net) Manager) option" where
  "sync_loop M syncTarget currentHeight m =
     (if currentHeight < syncTarget then
        case on_sl (sl_RetrieveBatch (me_sl M) (Some (s_SLStateIndex (m_lastState m) + 1))) m of
          (Err e, m1) \<Rightarrow> sync_loop M syncTarget currentHeight m1
        | (Panic p, m1) \<Rightarrow> Some (Panic p, m1)
        | (Ok res, m1) \<Rightarrow>
            (case processNextDABatch M (dm_Height (sb_MetaData (sr_Batch res))) m1 of
               (Err e, m2) \<Rightarrow> Some (Ok (), m2)
             | (Panic p, m2) \<Rightarrow> Some (Panic p, m2)
             | (Ok _, m2) \<Rightarrow>
                 (case updateStateIndex M (sr_StateIndex res) m2 of
                    (Err e, m3) \<Rightarrow> Some (Ok (), m3)
                  | (Panic p, m3) \<Rightarrow> Some (Panic p, m3)
                  | (Ok _, m3) \<Rightarrow> sync_loop M syncTarget (st_height (m_store m3)) m3))
      else Some (Ok (), m))"

definition syncUntilTarget ::
  "('db, 'app, 'mp, 'bus, 'vs, 'pvs, 'sl, 'da, 'net) manager_env \<Rightarrow> u64 \<Rightarrow>
     ('db, 'app, 'mp, 'bus, 'vs, 'sl, 'da, 'net) Manager \<Rightarrow>
     (unit outcome \<times> ('db, 'app, 'mp, 'bus, 'vs, 'sl, 'da, 'net) Manager) option" where
  "syncUntilTarget M syncTarget m = sync_loop M syncTarget (st_height (m_store m)) m"

text \<open>
  One iteration of \<open>RetriveLoop\<close>, for a sync target taken from the diode; the flag says whether
  \<open>isSyncedCond\<close> is signalled.
\<close>

definition retrieve_iteration ::
  "('db, 'app, 'mp, 'bus, 'vs, 'pvs, 'sl, 'da, 'net) manager_env \<Rightarrow> u64 \<Rightarrow>
     ('db, 'app, 'mp, 'bus, 'vs, 'sl, 'da, 'net) Manager \<Rightarrow>
     (bool \<times> unit outcome \<times> ('db, 'app, 'mp, 'bus, 'vs, 'sl, 'da, 'net) Manager) option" where
  "retrieve_iteration M target m =
     (case syncUntilTarget M target (m\<lparr>m_syncTargetDiode := None\<rparr>) of
        None \<Rightarrow> None
      | Some (r, m1) \<Rightarrow> Some (is_Ok r \<and> st_height (m_store m1) \<ge> m_syncTarget m1, r, m1))"

subsection \<open>\<open>synctarget.go\<close> and \<open>getLatestBatchFromSL\<close>\<close>

definition updateSyncParams ::
  "int \<Rightarrow> u64 \<Rightarrow> (('db, 'app, 'mp, 'bus, 'vs, 'sl, 'da, 'net) Manager, unit) cmd" where
  "updateSyncParams now endHeight =
     modify (\<lambda>m. m\<lparr>m_syncTarget := endHeight, m_lastSubmissionTime := now,
                    m_syncTargetDiode := Some endHeight\<rparr>)"

text \<open>\<open>retry.Do\<close> with one attempt is one call.\<close>

definition getLatestBatchFromSL ::
  "('db, 'app, 'mp, 'bus, 'vs, 'pvs, 'sl, 'da, 'net) manager_env \<Rightarrow>
     (('db, 'app, 'mp, 'bus, 'vs, 'sl, 'da, 'net) Manager, SLResultRetrieveBatch) cmd" where
  "getLatestBatchFromSL M = on_sl (sl_RetrieveBatch (me_sl M) None)"

text \<open>The beginning of \<open>SyncTargetLoop\<close> and its reaction to an event.\<close>

definition sync_target_start ::
  "('db, 'app, 'mp, 'bus, 'vs, 'pvs, 'sl, 'da, 'net) manager_env \<Rightarrow> int \<Rightarrow>
     (('db, 'app, 'mp, 'bus, 'vs, 'sl, 'da, 'net) Manager, unit) cmd" where
  "sync_target_start M now =
     log_err (bind_cmd (getLatestBatchFromSL M) (\<lambda>res. updateSyncParams now (sb_EndHeight (sr_Batch res))))"

definition batch_accepted ::
  "int \<Rightarrow> u64 \<Rightarrow> (('db, 'app, 'mp, 'bus, 'vs, 'sl, 'da, 'net) Manager, unit) cmd" where
  "batch_accepted now endHeight =
     bind_cmd (updateSyncParams now endHeight) (\<lambda>_. modify (\<lambda>m. m\<lparr>m_batchInProcess := False\<rparr>))"

subsection \<open>\<open>waitForSync\<close>\<close>

text \<open>The part before the wait; the result says whether the producer has to wait for the sync.\<close>

definition waitForSync_begin ::
  "('db, 'app, 'mp, 'bus, 'vs, 'pvs, 'sl, 'da, 'net) manager_env \<Rightarrow> int \<Rightarrow>
     (('db, 'app, 'mp, 'bus, 'vs, 'sl, 'da, 'net) Manager, bool) cmd" where
  "waitForSync_begin M now m =
     (case getLatestBatchFromSL M m of
        (Err e, m1) \<Rightarrow>
          if e = ErrBatchNotFound
          then (Ok False, m1\<lparr>m_syncTarget := uint64_of (g_InitialHeight (me_genesis M) - 1)\<rparr>)
          else (Err e, m1)
      | (Panic p, m1) \<Rightarrow> (Panic p, m1)
      | (Ok res, m1) \<Rightarrow>
          bind_cmd (updateSyncParams now (sb_EndHeight (sr_Batch res))) (\<lambda>_. ret True) m1)"

subsection \<open>The blocks of a batch\<close>

definition heights_from :: "u64 \<Rightarrow> nat \<Rightarrow> u64 list" where
  "heights_from start n = map (\<lambda>i. start + word_of_nat i) [0..<n]"

lemma heights_from_Suc: "heights_from start (Suc n) = start # heights_from (start + 1) n"
  by (simp add: heights_from_def map_upt_Suc add_ac del: upt_Suc)

lemma heights_from_0 [simp]: "heights_from start 0 = []"
  by (simp add: heights_from_def)

definition with_blocks :: "Batch \<Rightarrow> Block list \<Rightarrow> Commit list \<Rightarrow> Batch" where
  "with_blocks b bs cs = b\<lparr>ba_Blocks := ba_Blocks b @ bs, ba_Commits := ba_Commits b @ cs\<rparr>"

lemma with_blocks_Nil [simp]: "with_blocks b [] [] = b"
  by (simp add: with_blocks_def)

text \<open>
  What the loop returns from \<open>batch\<close> at \<open>height\<close>: the blocks and commits of the next \<open>n\<close> heights,
  which fit, and either all heights are there or the block after them does not fit.
\<close>

definition batch_result ::
  "('vs, 'pvs) store_env \<Rightarrow> 'db KVStore \<Rightarrow> u64 \<Rightarrow> 'db DefaultStore \<Rightarrow> nat \<Rightarrow> Batch \<Rightarrow> u64 \<Rightarrow>
     nat \<Rightarrow> Block list \<Rightarrow> Commit list \<Rightarrow> bool" where
  "batch_result E kv maxBytes s room batch height n bs cs \<longleftrightarrow>
     n \<le> room \<and> map (LoadBlock E kv s) (heights_from height n) = map Ok bs \<and>
     map (LoadCommit E kv s) (heights_from height n) = map Ok cs \<and>
     (n > 0 \<longrightarrow> \<not> batch_too_big (se_codec E) maxBytes (with_blocks batch bs cs)) \<and>
     (n < room \<longrightarrow> (\<exists>block commit. LoadBlock E kv s (height + word_of_nat n) = Ok block \<and>
        LoadCommit E kv s (height + word_of_nat n) = Ok commit \<and>
        batch_too_big (se_codec E) maxBytes (with_blocks batch (bs @ [block]) (cs @ [commit]))))"

lemma with_blocks_merge [simp]: "with_blocks (with_blocks b us vs) xs ys = with_blocks b (us @ xs) (vs @ ys)"
  by (simp add: with_blocks_def)

lemma batch_result_Cons:
  assumes "LoadBlock E kv s height = Ok x" and "LoadCommit E kv s height = Ok y"
    and "\<not> batch_too_big (se_codec E) maxBytes (with_blocks batch [x] [y])"
    and "batch_result E kv maxBytes s room (with_blocks batch [x] [y]) (height + 1) n bs cs"
  shows "batch_result E kv maxBytes s (Suc room) batch height (Suc n) (x # bs) (y # cs)"
proof -
  have "n = 0 \<Longrightarrow> bs = [] \<and> cs = []"
    using assms(4) by (auto simp: batch_result_def)
  with assms show ?thesis
    by (cases "n = 0") (auto simp: batch_result_def heights_from_Suc add_ac)
qed

lemma batch_loop_step:
  assumes "height \<le> endHeight" and "LoadBlock E kv s height = Ok x" and "LoadCommit E kv s height = Ok y"
  shows "batch_loop E kv maxBytes s endHeight batch height =
    (if batch_too_big (se_codec E) maxBytes (with_blocks batch [x] [y])
     then Some (Ok (batch\<lparr>ba_EndHeight := height - 1\<rparr>))
     else batch_loop E kv maxBytes s endHeight (with_blocks batch [x] [y]) (height + 1))"
  by (subst batch_loop.simps) (simp add: assms with_blocks_def)

definition batch_outcome ::
  "('vs, 'pvs) store_env \<Rightarrow> 'db KVStore \<Rightarrow> u64 \<Rightarrow> 'db DefaultStore \<Rightarrow> nat \<Rightarrow> Batch \<Rightarrow> u64 \<Rightarrow>
     Batch outcome \<Rightarrow> bool" where
  "batch_outcome E kv maxBytes s room batch height r \<longleftrightarrow>
     (\<forall>b. r = Ok b \<longrightarrow> (\<exists>n bs cs. batch_result E kv maxBytes s room batch height n bs cs \<and>
        b = (with_blocks batch bs cs)\<lparr>ba_EndHeight := height + word_of_nat n - 1\<rparr>))"

lemma batch_outcome_Cons:
  assumes "LoadBlock E kv s height = Ok x" and "LoadCommit E kv s height = Ok y"
    and "\<not> batch_too_big (se_codec E) maxBytes (with_blocks batch [x] [y])"
    and "batch_outcome E kv maxBytes s room (with_blocks batch [x] [y]) (height + 1) r"
  shows "batch_outcome E kv maxBytes s (Suc room) batch height r"
  unfolding batch_outcome_def
proof (intro allI impI)
  fix b assume "r = Ok b"
  with assms(4) obtain n bs cs where
    n: "batch_result E kv maxBytes s room (with_blocks batch [x] [y]) (height + 1) n bs cs"
    and b: "b = (with_blocks (with_blocks batch [x] [y]) bs cs)
      \<lparr>ba_EndHeight := height + 1 + word_of_nat n - 1\<rparr>"
    unfolding batch_outcome_def by blast
  have "b = (with_blocks batch (x # bs) (y # cs))\<lparr>ba_EndHeight := height + word_of_nat (Suc n) - 1\<rparr>"
    by (simp add: b)
  with batch_result_Cons [OF assms(1-3) n]
  show "\<exists>n bs cs. batch_result E kv maxBytes s (Suc room) batch height n bs cs \<and>
      b = (with_blocks batch bs cs)\<lparr>ba_EndHeight := height + word_of_nat n - 1\<rparr>"
    by blast
qed

lemma batch_loop_ends:
  assumes "unat height + room = unat endHeight + 1" and "unat endHeight + 1 < 2 ^ 64"
  shows "\<exists>r. batch_loop E kv maxBytes s endHeight batch height = Some r \<and>
    batch_outcome E kv maxBytes s room batch height r"
  using assms(1)
proof (induction room arbitrary: height batch)
  case 0
  then have "batch_loop E kv maxBytes s endHeight batch height =
      Some (Ok ((with_blocks batch [] [])\<lparr>ba_EndHeight := height + word_of_nat 0 - 1\<rparr>))"
    by (simp add: batch_loop.simps word_le_nat_alt)
  moreover have "batch_result E kv maxBytes s 0 batch height 0 [] []"
    by (simp add: batch_result_def)
  ultimately show ?case
    unfolding batch_outcome_def by blast
next
  case (Suc room)
  then have le: "height \<le> endHeight"
    by (simp add: word_le_nat_alt)
  have "unat (height + 1) = Suc (unat height)"
    using Suc.prems assms(2) by (simp add: unat_word_ariths)
  then have next_height: "unat (height + 1) + room = unat endHeight + 1"
    using Suc.prems by simp
  show ?case
  proof (cases "\<exists>x y. LoadBlock E kv s height = Ok x \<and> LoadCommit E kv s height = Ok y")
    case True
    then obtain x y where x: "LoadBlock E kv s height = Ok x" and y: "LoadCommit E kv s height = Ok y"
      by blast
    show ?thesis
    proof (cases "batch_too_big (se_codec E) maxBytes (with_blocks batch [x] [y])")
      case True
      then have "batch_result E kv maxBytes s (Suc room) batch height 0 [] []"
        using x y by (simp add: batch_result_def)
      moreover have "batch\<lparr>ba_EndHeight := height - 1\<rparr> =
          (with_blocks batch [] [])\<lparr>ba_EndHeight := height + word_of_nat 0 - 1\<rparr>"
        by simp
      ultimately show ?thesis
        unfolding batch_loop_step [OF le x y] batch_outcome_def using True by (simp only: if_True) blast
    next
      case False
      with Suc.IH [OF next_height] batch_outcome_Cons [OF x y False] show ?thesis
        unfolding batch_loop_step [OF le x y] by (simp only: if_False) blast
    qed
  next
    case False
    then show ?thesis
      by (cases "LoadBlock E kv s height"; cases "LoadCommit E kv s height")
         (use le in \<open>simp_all add: batch_loop.simps [of _ _ _ _ _ _ height] batch_outcome_def\<close>)
  qed
qed

text \<open>The end height is lowered after the size was measured, which does not make the batch larger.\<close>

lemma sov_mono: "a \<le> b \<Longrightarrow> sov a \<le> sov b"
proof -
  assume "a \<le> b"
  then have "unat a < 2 ^ Len64 b"
    using bit_len_le_iff [of "unat b" "Len64 b"] by (simp add: Len64_def word_le_nat_alt)
  then have "Len64 a \<le> Len64 b"
    by (simp add: bit_len_le_iff Len64_def)
  then show ?thesis
    unfolding sov_eq by (intro div_le_mono add_right_mono max.mono order_refl)
qed

lemma size_uint_field_mono: "a \<le> b \<Longrightarrow> size_uint_field a \<le> size_uint_field b"
  using sov_mono [of a b] by (auto simp: size_uint_field_def)

lemma Batch_Size_EndHeight:
  "h \<le> ba_EndHeight b \<Longrightarrow>
   Batch_Size cd (Batch_ToProto (b\<lparr>ba_EndHeight := h\<rparr>)) \<le> Batch_Size cd (Batch_ToProto b)"
  using size_uint_field_mono [of h "ba_EndHeight b"] by (simp add: Batch_Size_def Batch_ToProto_def)

lemma batch_capacity:
  assumes "unat startHeight + room = unat endHeight + 1" and "room \<le> 2 ^ 45"
  shows "\<not> endHeight - startHeight + 1 > maxSliceCap"
proof -
  have "endHeight + 1 = startHeight + word_of_nat room"
    using arg_cong [OF assms(1), of "word_of_nat :: nat \<Rightarrow> u64"] by simp
  then have "endHeight - startHeight + 1 = word_of_nat room"
    by (simp add: algebra_simps)
  then show ?thesis
    using assms(2) by (simp add: maxSliceCap_def word_le_nat_alt unsigned_of_nat take_bit_nat_eq_self not_less)
qed

text \<open>
  The contract of \<open>createNextDABatch\<close>: a batch of the first \<open>n\<close> of \<open>room\<close> heights that respects the
  size limit and could not be longer.
\<close>

definition longest_batch ::
  "('vs, 'pvs) store_env \<Rightarrow> 'db KVStore \<Rightarrow> u64 \<Rightarrow> 'db DefaultStore \<Rightarrow> u64 \<Rightarrow> nat \<Rightarrow> nat \<Rightarrow> Batch \<Rightarrow> bool" where
  "longest_batch E kv maxBytes s startHeight room n b \<longleftrightarrow>
     n \<le> room \<and> ba_StartHeight b = startHeight \<and> ba_EndHeight b = startHeight + word_of_nat n - 1 \<and>
     map (LoadBlock E kv s) (heights_from startHeight n) = map Ok (ba_Blocks b) \<and>
     map (LoadCommit E kv s) (heights_from startHeight n) = map Ok (ba_Commits b) \<and>
     (n > 0 \<longrightarrow> int (Batch_Size (se_codec E) (Batch_ToProto b)) \<le> int64_of maxBytes) \<and>
     (n < room \<longrightarrow> (\<exists>block commit.
        LoadBlock E kv s (startHeight + word_of_nat n) = Ok block \<and>
        LoadCommit E kv s (startHeight + word_of_nat n) = Ok commit \<and>
        batch_too_big (se_codec E) maxBytes
          ((with_blocks b [block] [commit])\<lparr>ba_EndHeight := startHeight + word_of_nat room - 1\<rparr>)))"

lemma last_height_le:
  assumes "0 < unat startHeight" "unat startHeight + room = unat (endHeight :: u64) + 1" "n \<le> room"
    and "unat endHeight + 1 < 2 ^ 64"
  shows "startHeight + word_of_nat n - 1 \<le> endHeight"
proof -
  define k where "k = unat startHeight + n - 1"
  have "startHeight + word_of_nat n - 1 = word_of_nat k"
    using assms(1) by (simp add: k_def of_nat_diff)
  moreover have "k \<le> unat endHeight"
    using assms by (simp add: k_def)
  moreover from this have "unat (word_of_nat k :: u64) = k"
    using assms(4) by (simp add: unsigned_of_nat take_bit_nat_eq_self)
  ultimately show ?thesis
    unfolding word_le_nat_alt by (simp only:)
qed

lemma batch_result_longest:
  assumes start: "0 < unat startHeight" "unat startHeight + room = unat endHeight + 1"
    and bound: "unat endHeight + 1 < 2 ^ 64"
    and res: "batch_result E kv maxBytes s room
      \<lparr>ba_StartHeight = startHeight, ba_EndHeight = endHeight, ba_Blocks = [], ba_Commits = []\<rparr>
      startHeight n bs cs"
  shows "longest_batch E kv maxBytes s startHeight room n
    \<lparr>ba_StartHeight = startHeight, ba_EndHeight = startHeight + word_of_nat n - 1, ba_Blocks = bs,
     ba_Commits = cs\<rparr>"
proof -
  let ?b = "\<lambda>e bs cs. \<lparr>ba_StartHeight = startHeight, ba_EndHeight = e, ba_Blocks = bs, ba_Commits = cs\<rparr>"
  have n: "n \<le> room" using res by (simp add: batch_result_def)
  have "endHeight = startHeight + word_of_nat room - 1"
    using arg_cong [OF start(2), of "word_of_nat :: nat \<Rightarrow> u64"] by simp
  moreover have "Batch_Size (se_codec E) (Batch_ToProto (?b (startHeight + word_of_nat n - 1) bs cs)) \<le>
      Batch_Size (se_codec E) (Batch_ToProto (?b endHeight bs cs))"
    using Batch_Size_EndHeight [of "startHeight + word_of_nat n - 1" "?b endHeight bs cs"]
      last_height_le [OF start n bound] by simp
  ultimately show ?thesis
    using res by (auto simp: longest_batch_def batch_result_def with_blocks_def batch_too_big_def)
qed

text \<open>
  C4: createNextDABatch always returns, and a batch it returns holds exactly the stored blocks and
  commits of consecutive heights from the start height, its end height is the last of them, its
  encoding is within the configured size, and it is as long as possible: it ends at the requested
  height or the next block would exceed the size.
\<close>

theorem next_batch_contents:
  assumes "0 < unat startHeight" "unat startHeight + room = unat endHeight + 1"
    and "unat endHeight + 1 < 2 ^ 64" "room \<le> 2 ^ 45"
  shows "\<exists>r. createNextDABatch M m startHeight endHeight = Some r \<and>
    (\<forall>b. r = Ok b \<longrightarrow> (\<exists>n. longest_batch (me_env M) (me_kv M) (me_BlockBatchMaxSizeBytes M) (m_store m)
       startHeight room n b))"
proof -
  let ?b0 = "\<lparr>ba_StartHeight = startHeight, ba_EndHeight = endHeight, ba_Blocks = [], ba_Commits = []\<rparr>"
  let ?cd = "se_codec (me_env M)" and ?max = "me_BlockBatchMaxSizeBytes M"
  obtain r where run: "createNextDABatch M m startHeight endHeight = Some r"
    and out: "batch_outcome (me_env M) (me_kv M) ?max (m_store m) room ?b0 startHeight r"
    using batch_loop_ends [OF assms(2,3)] batch_capacity [OF assms(2,4)]
    unfolding createNextDABatch_def Let_def by fastforce
  have "\<exists>n. longest_batch (me_env M) (me_kv M) ?max (m_store m) startHeight room n b" if "r = Ok b" for b
    using out that batch_result_longest [OF assms(1-3)]
    by (fastforce simp: batch_outcome_def with_blocks_def)
  with run show ?thesis by blast
qed

lemma sample_saved:
  obtains s where "LoadBlock sample_env (mainKV mem_badger) s 2 = Ok (sample_block 2)"
    and "LoadCommit sample_env (mainKV mem_badger) s 2 = Ok (sample_commit 2)"
proof -
  have "no_faults (st_db sample_store)"
    by (simp add: no_faults_def sample_store_def New_store_def empty_mem_def)
  then obtain bb s where s: "SaveBlock sample_env (mainKV mem_badger) (sample_block 2)
      (sample_commit 2) None sample_store = (Ok bb, s)"
    using SaveBlock_working [OF working_mem _ storable_sample] by blast
  have "without_evidence (sample_block 2) = sample_block 2" "h_Height (b_Header (sample_block 2)) = 2"
    by (simp_all add: without_evidence_def sample_block_def zero_Data_def sample_header_def)
  with kv_store.LoadBlock_SaveBlock [OF mem.mainKV_kv_store s] storable_sample that show thesis
    by (simp add: storable_block_def)
qed

theorem next_batch_contents_witness:
  "\<exists>m b. createNextDABatch sample_manager_env m 2 2 = Some (Ok b) \<and>
     ba_Blocks b = [sample_block 2] \<and> ba_Commits b = [sample_commit 2] \<and> ba_EndHeight b = 2"
proof -
  obtain s where s: "LoadBlock sample_env (mainKV mem_badger) s 2 = Ok (sample_block 2)"
    "LoadCommit sample_env (mainKV mem_badger) s 2 = Ok (sample_commit 2)"
    by (rule sample_saved)
  define m where "m = (sample_manager [])\<lparr>m_store := s\<rparr>"
  have max: "me_BlockBatchMaxSizeBytes sample_manager_env = 500000"
    by (simp add: sample_manager_env_def)
  have fits: "\<not> batch_too_big (se_codec sample_env) 500000 (with_blocks
      \<lparr>ba_StartHeight = 2, ba_EndHeight = 2, ba_Blocks = [], ba_Commits = []\<rparr> [sample_block 2] [sample_commit 2])"
    by code_simp
  have "createNextDABatch sample_manager_env m 2 2 = Some (Ok
      ((with_blocks \<lparr>ba_StartHeight = 2, ba_EndHeight = 2, ba_Blocks = [], ba_Commits = []\<rparr>
         [sample_block 2] [sample_commit 2])\<lparr>ba_EndHeight := 2\<rparr>))"
    using fits s by (simp add: createNextDABatch_def maxSliceCap_def max m_def batch_loop_step
        batch_loop.simps [of _ _ _ _ 2 _ 3] del: with_blocks_merge)
  then obtain b where b: "createNextDABatch sample_manager_env m 2 2 = Some (Ok b)"
    by blast
  obtain n where "longest_batch sample_env (mainKV mem_badger) 500000 s 2 1 n b"
    using next_batch_contents [of 2 1 2 sample_manager_env m] b by (auto simp: max m_def)
  then have "n = 0 \<or> n = 1" "longest_batch sample_env (mainKV mem_badger) 500000 s 2 1 n b"
    by (auto simp: longest_batch_def)
  with fits s have "ba_Blocks b = [sample_block 2] \<and> ba_Commits b = [sample_commit 2] \<and> ba_EndHeight b = 2"
    by (cases b) (auto simp: longest_batch_def heights_from_def with_blocks_def)
  with b show ?thesis by blast
qed

text \<open>
  When the settlement layer's last batch ends above the node's own height - the submission loop
  only excludes equality - the number of blocks of the next batch wraps around, and creating the
  batch panics at the allocation.
\<close>

lemma batch_behind_target_panics:
  assumes "endHeight < syncTarget" and "syncTarget < 2 ^ 63"
  shows "createNextDABatch M m (syncTarget + 1) endHeight = Some (Panic ''makeslice: cap out of range'')"
proof -
  define e t where "e = uint endHeight" and "t = uint syncTarget"
  have bounds: "0 \<le> e" "e < t" "t < 9223372036854775808"
    using assms by (simp_all add: word_less_def e_def t_def)
  have "uint (endHeight - syncTarget) = (e - t) mod 18446744073709551616"
    by (simp add: uint_word_ariths e_def t_def)
  also have "(e - t) mod 18446744073709551616 = (e - t + 18446744073709551616) mod 18446744073709551616"
    by simp
  also have "\<dots> = e - t + 18446744073709551616"
    using bounds by (intro mod_pos_pos_trivial) linarith+
  finally have "uint (endHeight - syncTarget) > 35184372088832"
    using bounds by linarith
  then have "maxSliceCap < endHeight - syncTarget"
    by (simp add: word_less_def maxSliceCap_def)
  then show ?thesis
    by (simp add: createNextDABatch_def)
qed

end
