(* ===== verification/Node.thy ===== *)
theory Node
  imports Sync
begin

text \<open>
  A node's goroutines as a step relation: the block production loop, the submission loop, the sync
  target and retrieve loops and the event listeners that \<open>Manager.Start\<close> of
  \<open>src/block/manager.go\<close> starts. One iteration of a loop is one step, and the steps of the loops
  interleave. The channels have capacity 1, and a send waits for room.
\<close>

subsection \<open>State and steps\<close>

text \<open>
  Where \<open>ProduceBlockLoop\<close> is: before and in \<open>waitForSync\<close>, in its \<open>select\<close> (with
  \<open>produceEmptyBlock\<close>), at the send of a failed production, or stopped by a health event.
\<close>

datatype producer = Starting | Waiting | Woken | Looping bool | Reporting bool | Stopped bool

record ('db, 'app, 'mp, 'bus, 'vs, 'sl, 'da, 'net) node =
  nd_manager :: "('db, 'app, 'mp, 'bus, 'vs, 'sl, 'da, 'net) Manager"
  nd_producer :: producer
  nd_alive :: bool

text \<open>A panic of any goroutine ends the process.\<close>

definition continue ::
  "producer \<Rightarrow> 'a outcome \<times> ('db, 'app, 'mp, 'bus, 'vs, 'sl, 'da, 'net) Manager \<Rightarrow>
     ('db, 'app, 'mp, 'bus, 'vs, 'sl, 'da, 'net) node" where
  "continue pc rm =
     \<lparr>nd_manager = snd rm, nd_producer = pc,
      nd_alive = (case fst rm of Panic p \<Rightarrow> False | _ \<Rightarrow> True)\<rparr>"

text \<open>\<open>ProduceBlockLoop\<close> up to the wait; an error of \<open>waitForSync\<close> is a panic.\<close>

definition producer_start ::
  "('db, 'app, 'mp, 'bus, 'vs, 'pvs, 'sl, 'da, 'net) manager_env \<Rightarrow> int \<Rightarrow>
     ('db, 'app, 'mp, 'bus, 'vs, 'sl, 'da, 'net) Manager \<Rightarrow>
     ('db, 'app, 'mp, 'bus, 'vs, 'sl, 'da, 'net) node" where
  "producer_start M now m =
     (case waitForSync_begin M now (m\<lparr>m_lastSubmissionTime := now\<rparr>) of
        (Ok wait, m1) \<Rightarrow>
          continue (if wait \<and> st_height (m_store m1) < m_syncTarget m1 then Waiting else Looping True)
            (Ok (), m1)
      | (Err e, m1) \<Rightarrow> continue Starting (Panic ''failed to wait for sync'' :: unit outcome, m1)
      | (Panic p, m1) \<Rightarrow> continue Starting (Panic p :: unit outcome, m1))"

definition produce_tick ::
  "('db, 'app, 'mp, 'bus, 'vs, 'pvs, 'sl, 'da, 'net) manager_env \<Rightarrow> bool \<Rightarrow> int \<Rightarrow> gotime \<Rightarrow> bool \<Rightarrow>
     ('db, 'app, 'mp, 'bus, 'vs, 'sl, 'da, 'net) Manager \<Rightarrow>
     ('db, 'app, 'mp, 'bus, 'vs, 'sl, 'da, 'net) node" where
  "produce_tick M emptyBlocksTimer now voteTimestamp produceEmptyBlock m =
     (case produceBlock M now voteTimestamp produceEmptyBlock m of
        (Err e, m1) \<Rightarrow>
          continue (if e = ErrSkippedEmptyBlock then Looping produceEmptyBlock
                    else Reporting produceEmptyBlock) (Err e :: unit outcome, m1)
      | (Ok _, m1) \<Rightarrow>
          continue (Looping (if emptyBlocksTimer then False else produceEmptyBlock)) (Ok (), m1)
      | (Panic p, m1) \<Rightarrow> continue (Looping produceEmptyBlock) (Panic p :: unit outcome, m1))"

datatype label = SubmitStarted | BatchAccepted | Internal

text \<open>
  The steps. \<open>emptyBlocksTimer\<close> says that \<open>EmptyBlocksMaxTime\<close> is positive; the clock readings and
  the contents of events are arbitrary.
\<close>

inductive node_step ::
  "('db, 'app, 'mp, 'bus, 'vs, 'pvs, 'sl, 'da, 'net) manager_env \<Rightarrow> bool \<Rightarrow>
     ('db, 'app, 'mp, 'bus, 'vs, 'sl, 'da, 'net) node \<Rightarrow> label \<Rightarrow>
     ('db, 'app, 'mp, 'bus, 'vs, 'sl, 'da, 'net) node \<Rightarrow> bool"
  for M emptyBlocksTimer where
  start: "nd_alive n \<Longrightarrow> nd_producer n = Starting \<Longrightarrow>
    node_step M emptyBlocksTimer n Internal (producer_start M now (nd_manager n))"
| woken: "nd_alive n \<Longrightarrow> nd_producer n = Woken \<Longrightarrow>
    node_step M emptyBlocksTimer n Internal
      (n\<lparr>nd_producer := if st_height (m_store (nd_manager n)) < m_syncTarget (nd_manager n)
                        then Waiting else Looping True\<rparr>)"
| produce: "nd_alive n \<Longrightarrow> nd_producer n = Looping e \<Longrightarrow>
    node_step M emptyBlocksTimer n Internal
      (produce_tick M emptyBlocksTimer now voteTimestamp e (nd_manager n))"
| report: "nd_alive n \<Longrightarrow> nd_producer n = Reporting e \<Longrightarrow>
    length (m_shouldProduceBlocksCh (nd_manager n)) < 1 \<Longrightarrow>
    node_step M emptyBlocksTimer n Internal
      (continue (Looping e) (healthStatusEventCallback False (nd_manager n)))"
| empty_timer: "nd_alive n \<Longrightarrow> nd_producer n = Looping e \<Longrightarrow> emptyBlocksTimer \<Longrightarrow>
    node_step M emptyBlocksTimer n Internal (n\<lparr>nd_producer := Looping True\<rparr>)"
| empty_request: "nd_alive n \<Longrightarrow> nd_producer n = Looping e \<Longrightarrow>
    m_produceEmptyBlockCh (nd_manager n) = b # bs \<Longrightarrow>
    node_step M emptyBlocksTimer n Internal
      (n\<lparr>nd_producer := Looping True, nd_manager := (nd_manager n)\<lparr>m_produceEmptyBlockCh := bs\<rparr>\<rparr>)"
| health: "nd_alive n \<Longrightarrow> nd_producer n = Looping e \<or> nd_producer n = Stopped e \<Longrightarrow>
    m_shouldProduceBlocksCh (nd_manager n) = b # bs \<Longrightarrow>
    node_step M emptyBlocksTimer n Internal
      (n\<lparr>nd_producer := if b then Looping e else Stopped e,
         nd_manager := (nd_manager n)\<lparr>m_shouldProduceBlocksCh := bs\<rparr>\<rparr>)"
| health_event: "nd_alive n \<Longrightarrow> length (m_shouldProduceBlocksCh (nd_manager n)) < 1 \<Longrightarrow>
    node_step M emptyBlocksTimer n Internal
      (continue (nd_producer n) (healthStatusEventCallback healthy (nd_manager n)))"
| gossip: "nd_alive n \<Longrightarrow>
    node_step M emptyBlocksTimer n Internal
      (continue (nd_producer n) (applyBlockCallback M eventData (nd_manager n)))"
| sync_start: "nd_alive n \<Longrightarrow>
    node_step M emptyBlocksTimer n Internal
      (continue (nd_producer n) (sync_target_start M now (nd_manager n)))"
| accepted: "nd_alive n \<Longrightarrow>
    node_step M emptyBlocksTimer n BatchAccepted
      (continue (nd_producer n) (batch_accepted now endHeight (nd_manager n)))"
| retrieve: "nd_alive n \<Longrightarrow> m_syncTargetDiode (nd_manager n) = Some target \<Longrightarrow>
    retrieve_iteration M target (nd_manager n) = Some (signal, r, m1) \<Longrightarrow>
    node_step M emptyBlocksTimer n Internal
      (continue (if signal \<and> nd_producer n = Waiting then Woken else nd_producer n) (r, m1))"
| submit: "nd_alive n \<Longrightarrow> submit_tick M now voteTimestamp (nd_manager n) = Some (started, r, m1) \<Longrightarrow>
    length (m_produceEmptyBlockCh m1) \<le> 1 \<Longrightarrow>
    node_step M emptyBlocksTimer n (if started then SubmitStarted else Internal)
      (continue (nd_producer n) (r, m1))"

inductive node_run ::
  "('db, 'app, 'mp, 'bus, 'vs, 'pvs, 'sl, 'da, 'net) manager_env \<Rightarrow> bool \<Rightarrow>
     ('db, 'app, 'mp, 'bus, 'vs, 'sl, 'da, 'net) node \<Rightarrow> label list \<Rightarrow>
     ('db, 'app, 'mp, 'bus, 'vs, 'sl, 'da, 'net) node \<Rightarrow> bool"
  for M emptyBlocksTimer where
  run_refl: "node_run M emptyBlocksTimer n [] n"
| run_step: "node_run M emptyBlocksTimer n ls n1 \<Longrightarrow> node_step M emptyBlocksTimer n1 l n2 \<Longrightarrow>
    node_run M emptyBlocksTimer n (ls @ [l]) n2"

subsection \<open>What the manager's operations keep\<close>

text \<open>
  \<open>advances\<close>: the height does not go down and the fields that the loops use to coordinate are
  unchanged.
\<close>

definition advances ::
  "('db, 'app, 'mp, 'bus, 'vs, 'sl, 'da, 'net) Manager \<Rightarrow>
     ('db, 'app, 'mp, 'bus, 'vs, 'sl, 'da, 'net) Manager \<Rightarrow> bool" where
  "advances m m' \<longleftrightarrow>
     st_height (m_store m) \<le> st_height (m_store m') \<and> m_syncTarget m' = m_syncTarget m \<and>
     m_batchInProcess m' = m_batchInProcess m \<and> m_syncTargetDiode m' = m_syncTargetDiode m \<and>
     m_shouldProduceBlocksCh m' = m_shouldProduceBlocksCh m \<and>
     m_produceEmptyBlockCh m' = m_produceEmptyBlockCh m"

definition advancing :: "(('db, 'app, 'mp, 'bus, 'vs, 'sl, 'da, 'net) Manager, 'a) cmd \<Rightarrow> bool" where
  "advancing c \<longleftrightarrow> (\<forall>m r m'. c m = (r, m') \<longrightarrow> advances m m')"

lemma advances_refl [simp]: "advances m m"
  by (simp add: advances_def)

lemma advances_trans: "advances a b \<Longrightarrow> advances b c \<Longrightarrow> advances a c"
  by (auto simp: advances_def)

lemma advancingD: "advancing c \<Longrightarrow> c m = (r, m') \<Longrightarrow> advances m m'"
  by (simp add: advancing_def)

lemma advancing_bind:
  assumes "advancing c" and "\<And>x. advancing (f x)"
  shows "advancing (bind_cmd c f)"
  unfolding advancing_def
proof (intro allI impI)
  fix m r m' assume run: "bind_cmd c f m = (r, m')"
  obtain r1 m1 where c: "c m = (r1, m1)" by (cases "c m")
  have "advances m m1" by (rule advancingD [OF assms(1) c])
  moreover have "advances m1 m'"
    using run c advancingD [OF assms(2)] by (cases r1) (auto simp: bind_cmd_def)
  ultimately show "advances m m'" by (rule advances_trans)
qed

lemma advancing_simple [simp]:
  "advancing (ret x)" "advancing (lift_out f)" "advancing (on_conns c1)" "advancing (on_net c2)"
  "advancing (on_sl c3)" "advancing (on_da c4)"
  by (auto simp: advancing_def advances_def ret_def lift_out_def on_conns_def on_net_def on_sl_def
      on_da_def split: prod.splits)

lemma advancing_if [simp]: "advancing c \<Longrightarrow> advancing d \<Longrightarrow> advancing (if b then c else d)"
  by simp

lemma advancing_log_err: "advancing c \<Longrightarrow> advancing (log_err c)"
  by (auto simp: advancing_def log_err_def split: prod.splits outcome.splits)

lemma advancing_on_store:
  "(\<And>s r s'. c s = (r, s') \<Longrightarrow> st_height s \<le> st_height s') \<Longrightarrow> advancing (on_store c)"
  by (auto simp: advancing_def advances_def on_store_def split: prod.splits)

lemma save_key_height: "save_key kv k v b s = (r, s') \<Longrightarrow> st_height s' = st_height s"
  by (auto simp: save_key_def on_db_def split: option.splits prod.splits outcome.splits)

lemma lift_bind_height:
  "bind_cmd (lift_out f) c s = (r, s') \<Longrightarrow>
   (\<And>x s r s'. c x s = (r, s') \<Longrightarrow> st_height s' = st_height (s :: 'db DefaultStore)) \<Longrightarrow>
   st_height s' = st_height s"
  by (auto simp: bind_cmd_def lift_out_def split: outcome.splits)

lemma store_heights:
  "SaveBlockResponses E kv h resp b s = (r, s') \<Longrightarrow> st_height s' = st_height s"
  "UpdateState E kv st b s = (r, s') \<Longrightarrow> st_height s' = st_height s"
  "SaveValidators E kv h vals b s = (r, s') \<Longrightarrow> st_height s' = st_height s"
  unfolding SaveBlockResponses_def UpdateState_def SaveValidators_def
  by (auto elim!: lift_bind_height simp: save_key_height)

lemma on_db_advances: "on_db c s = (r, s') \<Longrightarrow> st_height s' = st_height s"
  by (auto simp: on_db_def split: prod.splits)

lemma SetHeight_advances: "st_height s \<le> st_height (SetHeight h s)"
  by (auto simp: SetHeight_def)

lemma finish_block_advancing: "advancing (finish_block M h st)"
  unfolding advancing_def
proof (intro allI impI)
  fix m r m' assume run: "finish_block M h st m = (r, m')"
  let ?st = "st\<lparr>s_LastValidators := s_Validators (m_lastState m), s_LastStoreHeight := h,
      s_BaseHeight := st_baseHeight (m_store m)\<rparr>"
  obtain r1 m1 where u: "on_store (UpdateState (me_env M) (me_kv M) ?st None) m = (r1, m1)"
    by (cases "on_store (UpdateState (me_env M) (me_kv M) ?st None) m")
  have "advances m m1"
    by (rule advancingD [OF advancing_on_store u]) (simp add: store_heights)
  moreover have "advances m1 m'"
    using run u SetHeight_advances [of "m_store m1" h]
    by (cases r1) (auto simp: finish_block_def bind_cmd_def modify_def advances_def)
  ultimately show "advances m m'" by (rule advances_trans)
qed

lemma align_cases:
  assumes "alignStoreWithApp M block m = (r, m')"
  obtains "m' = m" | st where "m' = m\<lparr>m_lastState := st\<rparr>"
    | st x r1 m1 where "on_store (UpdateState (me_env M) (me_kv M) x None) (m\<lparr>m_lastState := st\<rparr>) = (r1, m1)"
        and "m' = m1 \<or> m' = m1\<lparr>m_store := SetHeight (h_Height (b_Header block)) (m_store m1)\<rparr>"
  using assms
  by (simp add: alignStoreWithApp_def Let_def split: outcome.splits if_splits prod.splits) blast+

lemma align_advancing: "advancing (alignStoreWithApp M block)"
  unfolding advancing_def
proof (intro allI impI)
  fix m r m' assume "alignStoreWithApp M block m = (r, m')"
  then show "advances m m'"
  proof (cases rule: align_cases)
    case (3 st x r1 m1)
    have "advances (m\<lparr>m_lastState := st\<rparr>) m1"
      by (rule advancingD [OF advancing_on_store 3(1)]) (simp add: store_heights)
    with 3(2) SetHeight_advances [of "m_store m1"] show ?thesis
      by (auto simp: advances_def intro: order_trans)
  qed (simp_all add: advances_def)
qed

lemma persist_block_advancing: "advancing (persist_block M h resp st)"
  unfolding persist_block_def
  by (intro advancing_bind advancing_on_store)
     (auto simp: store_heights on_db_advances advancing_def modify_def advances_def lift_out_def
       split: option.splits dest!: on_store_run)

lemma executeBlock_advancing: "advancing (executeBlock M block commit)"
  unfolding advancing_def
proof (intro allI impI)
  fix m r m' assume run: "executeBlock M block commit m = (r, m')"
  show "advances m m'"
  proof (cases "sl_GetProposer (me_sl M) (m_sl m)")
    case (Some q)
    have "advancing (bind_cmd (lift_out (\<lambda>_. Validate (me_exec M) (m_lastState m) block commit q)) (\<lambda>_.
        on_conns (Execute (me_exec M) (me_executor M) (m_lastState m) block)))"
      by (intro advancing_bind) simp_all
    from advancingD [OF this] run Some show ?thesis
      by (simp add: executeBlock_def)
  qed (use run in \<open>simp add: executeBlock_def\<close>)
qed

lemma SaveBlock_advancing:
  assumes "kv_store kv look eff raw"
  shows "advancing (on_store (SaveBlock E kv block commit None))"
  by (rule advancing_on_store) (use kv_store.SaveBlock_atomic [OF assms] in fastforce)

lemma pruneBlocks_advancing:
  assumes "kv_store (me_kv M) look eff raw"
  shows "advancing (pruneBlocks M retain)"
proof -
  have "advancing (on_store (PruneBlocks (me_kv M) retain))"
    by (rule advancing_on_store) (use kv_store.PruneBlocks_state(1) [OF assms] in fastforce)
  then show ?thesis
    by (auto simp: advancing_def pruneBlocks_def split: prod.splits outcome.splits)
qed

lemma applyBlock_advancing:
  assumes kv: "kv_store (me_kv M) look eff raw"
  shows "advancing (applyBlock M block commit)"
proof -
  have rest: "advancing (apply_rest M block commit)"
    unfolding apply_rest_def
    by (intro advancing_bind SaveBlock_advancing [OF kv] executeBlock_advancing persist_block_advancing
        advancing_if advancing_log_err pruneBlocks_advancing [OF kv] finish_block_advancing
        advancing_simple, simp only: split_beta)
       (intro advancing_bind advancing_if advancing_log_err pruneBlocks_advancing [OF kv]
        finish_block_advancing advancing_simple)
  have whole: "advancing (bind_cmd (alignStoreWithApp M block)
      (\<lambda>required. if required then ret () else apply_rest M block commit))"
    by (intro advancing_bind advancing_if align_advancing rest advancing_simple)
  show ?thesis
    unfolding advancing_def
  proof (intro allI impI)
    fix m r m' assume run: "applyBlock M block commit m = (r, m')"
    show "advances m m'"
    proof (cases "h_Height (b_Header block) = st_height (m_store m) + 1")
      case True
      with run show ?thesis
        using advancingD [OF whole] by (simp only: applyBlock_rest)
    next
      case False
      then have "applyBlock M block commit m = (Ok (), m)"
        by (simp only: applyBlock_def simp_thms if_True)
      with run show ?thesis by simp
    qed
  qed
qed

lemma produceBlock_advancing:
  assumes "kv_store (me_kv M) look eff raw"
  shows "advancing (produceBlock M now ts allowEmpty)"
  unfolding produceBlock_def split_beta gossipBlock_def
  by (intro advancing_bind advancing_simple applyBlock_advancing [OF assms])

lemma apply_blocks_advancing:
  assumes "kv_store (me_kv M) look eff raw"
  shows "advancing (apply_blocks M commits i blocks)"
  by (induction blocks arbitrary: i)
     (auto intro!: advancing_bind applyBlock_advancing [OF assms] advancing_simple)

lemma apply_batches_advancing:
  assumes "kv_store (me_kv M) look eff raw"
  shows "advancing (apply_batches M batches)"
  using assms
  by (induction M batches rule: apply_batches.induct)
    (auto intro!: advancing_bind apply_blocks_advancing advancing_simple)

lemma processNextDABatch_advancing:
  assumes "kv_store (me_kv M) look eff raw"
  shows "advancing (processNextDABatch M daHeight)"
  unfolding processNextDABatch_def fetchBatch_def
  by (intro advancing_bind apply_batches_advancing [OF assms] advancing_simple)
     (auto split: StatusCode.splits)

lemma updateStateIndex_advancing: "advancing (updateStateIndex M i)"
  by (auto simp: updateStateIndex_def advancing_def bind_cmd_def modify_def ret_def advances_def
      on_store_def store_heights split: prod.splits outcome.splits)

lemma sync_calls_advance:
  "on_sl c m = (r1, m1) \<Longrightarrow> advances m m1"
  "kv_store (me_kv M) look eff raw \<Longrightarrow> processNextDABatch M daHeight m = (r2, m2) \<Longrightarrow> advances m m2"
  "updateStateIndex M i m = (r3, m3) \<Longrightarrow> advances m m3"
  by (blast intro: advancingD [OF advancing_simple(5)] advancingD [OF processNextDABatch_advancing]
      advancingD [OF updateStateIndex_advancing])+

lemma sync_loop_advances_aux:
  "sync_loop M target h m = Some y \<Longrightarrow> kv_store (me_kv M) look eff raw \<longrightarrow> advances m (snd y)"
proof (erule sync_loop.raw_induct [rotated], rule impI)
  fix loop M target h m y
  assume IH: "\<And>M target h m y. loop M target h m = Some y \<Longrightarrow> kv_store (me_kv M) look eff raw \<longrightarrow> advances m (snd y)"
    and run: "(if h < target then
        case on_sl (sl_RetrieveBatch (me_sl M) (Some (s_SLStateIndex (m_lastState m) + 1))) m of
          (Ok res, m1) \<Rightarrow>
            (case processNextDABatch M (dm_Height (sb_MetaData (sr_Batch res))) m1 of
               (Ok _, m2) \<Rightarrow>
                 (case updateStateIndex M (sr_StateIndex res) m2 of
                    (Ok _, m3) \<Rightarrow> loop M target (st_height (m_store m3)) m3
                  | (Err e, m3) \<Rightarrow> Some (Ok (), m3)
                  | (Panic p, m3) \<Rightarrow> Some (Panic p, m3))
             | (Err e, m2) \<Rightarrow> Some (Ok (), m2)
             | (Panic p, m2) \<Rightarrow> Some (Panic p, m2))
        | (Err e, m1) \<Rightarrow> loop M target h m1
        | (Panic p, m1) \<Rightarrow> Some (Panic p, m1)
      else Some (Ok (), m)) = Some y"
    and kv: "kv_store (me_kv M) look eff raw"
  note IH' = IH [rule_format, OF _ kv]
  have ends: "advances x (snd (updateStateIndex M i x))" "advances x (snd (processNextDABatch M d x))" for x i d
    using sync_calls_advance(2) [OF kv] sync_calls_advance(3) by (metis prod.collapse)+
  from run show "advances m (snd y)"
    by (auto split: if_splits prod.splits outcome.splits
        dest!: IH' sync_calls_advance(1) sync_calls_advance(2) [OF kv] sync_calls_advance(3)
        intro: advances_trans) (blast intro: advances_trans ends)+
qed

lemma sync_loop_advances:
  "kv_store (me_kv M) look eff raw \<Longrightarrow> sync_loop M target h m = Some (r, m') \<Longrightarrow> advances m m'"
  using sync_loop_advances_aux by fastforce

lemma submitNextBatch_frame:
  assumes "submitNextBatch M m = Some (r, m')"
  shows "m_store m' = m_store m \<and> m_shouldProduceBlocksCh m' = m_shouldProduceBlocksCh m \<and>
    m_batchInProcess m' = m_batchInProcess m"
proof -
  have layers: "m_store m2 = m_store m1 \<and> m_shouldProduceBlocksCh m2 = m_shouldProduceBlocksCh m1 \<and>
      m_batchInProcess m2 = m_batchInProcess m1" if "submit_to_layers M b m1 = (x, m2)" for b m1 x m2
    using that by (auto simp: submit_to_layers_def bind_cmd_def on_da_def on_sl_def lift_out_def
        split: prod.splits outcome.splits if_splits)
  from assms show ?thesis
    by (auto simp: submitNextBatch_def Let_def split: outcome.splits option.splits if_splits dest!: layers)
qed

lemma submit_tick_frame:
  assumes kv: "kv_store (me_kv M) look eff raw" and run: "submit_tick M now ts m = Some (started, r, m')"
  shows "st_height (m_store m) \<le> st_height (m_store m') \<and>
    m_shouldProduceBlocksCh m' = m_shouldProduceBlocksCh m \<and>
    (if started then \<not> m_batchInProcess m \<and> m_batchInProcess m' else m' = m)"
proof -
  obtain r1 m1 where p: "log_err (produceBlock M now ts True) (m\<lparr>m_batchInProcess := True\<rparr>) = (r1, m1)"
    by (cases "log_err (produceBlock M now ts True) (m\<lparr>m_batchInProcess := True\<rparr>)")
  have "advances (m\<lparr>m_batchInProcess := True\<rparr>) m1"
    by (rule advancingD [OF advancing_log_err [OF produceBlock_advancing [OF kv]] p])
  with run p show ?thesis
    by (auto simp: submit_tick_def advances_def split: if_splits outcome.splits option.splits
        dest!: submitNextBatch_frame)
qed

subsection \<open>Steps\<close>

abbreviation nd_height :: "('db, 'app, 'mp, 'bus, 'vs, 'sl, 'da, 'net) node \<Rightarrow> u64" where
  "nd_height n \<equiv> st_height (m_store (nd_manager n))"

abbreviation nd_submitting :: "('db, 'app, 'mp, 'bus, 'vs, 'sl, 'da, 'net) node \<Rightarrow> bool" where
  "nd_submitting n \<equiv> m_batchInProcess (nd_manager n)"

definition step_keeps ::
  "('db, 'app, 'mp, 'bus, 'vs, 'sl, 'da, 'net) node \<Rightarrow> label \<Rightarrow>
     ('db, 'app, 'mp, 'bus, 'vs, 'sl, 'da, 'net) node \<Rightarrow> bool" where
  "step_keeps n l n' \<longleftrightarrow>
     nd_height n \<le> nd_height n' \<and>
     nd_submitting n' = (case l of SubmitStarted \<Rightarrow> True | BatchAccepted \<Rightarrow> False | Internal \<Rightarrow> nd_submitting n) \<and>
     (l = SubmitStarted \<longrightarrow> \<not> nd_submitting n) \<and>
     (\<forall>e b. nd_producer n = Reporting e \<and> m_shouldProduceBlocksCh (nd_manager n) = [b] \<longrightarrow>
        nd_producer n' = Reporting e \<and> m_shouldProduceBlocksCh (nd_manager n') = [b])"

lemma continue_simps [simp]:
  "nd_manager (continue pc rm) = snd rm" "nd_producer (continue pc rm) = pc"
  by (simp_all add: continue_def)

lemma step_keeps_advances:
  assumes "c (nd_manager n) = (r, m')" and "advancing c"
  shows "step_keeps n Internal (continue (nd_producer n) (c (nd_manager n)))"
  using assms advancingD [OF assms(2,1)] by (simp add: step_keeps_def advances_def)

lemma getLatestBatch_keeps:
  assumes "getLatestBatchFromSL M m = (r, m')"
  shows "advances m m'"
  using advancingD [OF advancing_simple(5)] assms by (simp add: getLatestBatchFromSL_def)

lemma producer_start_keeps:
  "m_batchInProcess (nd_manager (producer_start M now m)) = m_batchInProcess m \<and>
   st_height (m_store m) \<le> st_height (m_store (nd_manager (producer_start M now m)))"
proof -
  obtain r m1 where g: "getLatestBatchFromSL M (m\<lparr>m_lastSubmissionTime := now\<rparr>) = (r, m1)"
    by (cases "getLatestBatchFromSL M (m\<lparr>m_lastSubmissionTime := now\<rparr>)")
  with getLatestBatch_keeps [OF g] show ?thesis
    by (cases r) (auto simp: producer_start_def waitForSync_begin_def bind_cmd_def updateSyncParams_def
        modify_def ret_def advances_def)
qed

lemma produce_tick_keeps:
  assumes "kv_store (me_kv M) look eff raw"
  shows "advances m (nd_manager (produce_tick M timer now ts e m))"
proof -
  obtain r m1 where p: "produceBlock M now ts e m = (r, m1)" by (cases "produceBlock M now ts e m")
  have "advances m m1" by (rule advancingD [OF produceBlock_advancing [OF assms] p])
  with p show ?thesis by (cases r) (simp_all add: produce_tick_def)
qed

lemma sync_target_start_keeps:
  assumes "sync_target_start M now m = (r, m')"
  shows "st_height (m_store m) \<le> st_height (m_store m') \<and> m_batchInProcess m' = m_batchInProcess m \<and>
    m_shouldProduceBlocksCh m' = m_shouldProduceBlocksCh m"
proof -
  obtain r1 m1 where g: "getLatestBatchFromSL M m = (r1, m1)" by (cases "getLatestBatchFromSL M m")
  with getLatestBatch_keeps [OF g] assms show ?thesis
    by (cases r1) (auto simp: sync_target_start_def log_err_def bind_cmd_def updateSyncParams_def
        modify_def advances_def)
qed

lemma retrieve_keeps:
  assumes "kv_store (me_kv M) look eff raw" and "retrieve_iteration M target m = Some (signal, r, m')"
  shows "st_height (m_store m) \<le> st_height (m_store m') \<and> m_batchInProcess m' = m_batchInProcess m \<and>
    m_shouldProduceBlocksCh m' = m_shouldProduceBlocksCh m"
  using assms(2) sync_loop_advances [OF assms(1)]
  by (fastforce simp: retrieve_iteration_def syncUntilTarget_def advances_def split: option.splits)

lemma node_step_keeps:
  assumes kv: "kv_store (me_kv M) look eff raw" and "node_step M timer n l n'"
  shows "step_keeps n l n'"
  using assms(2)
proof cases
  case (produce e now ts)
  then show ?thesis
    using produce_tick_keeps [OF kv] by (simp add: step_keeps_def advances_def)
next
  case (start now)
  then show ?thesis
    using producer_start_keeps [of M now "nd_manager n"] by (simp add: step_keeps_def)
next
  case (gossip eventData)
  obtain r m' where g: "applyBlockCallback M eventData (nd_manager n) = (r, m')"
    by (cases "applyBlockCallback M eventData (nd_manager n)")
  have "advancing (applyBlockCallback M eventData)"
    unfolding applyBlockCallback_def by (intro advancing_log_err applyBlock_advancing [OF kv])
  from step_keeps_advances [OF g this] gossip show ?thesis by simp
next
  case (sync_start now)
  obtain r m' where "sync_target_start M now (nd_manager n) = (r, m')"
    by (cases "sync_target_start M now (nd_manager n)")
  from sync_target_start_keeps [OF this] this sync_start show ?thesis
    by (simp add: step_keeps_def)
next
  case (retrieve target signal r m1)
  then show ?thesis
    using retrieve_keeps [OF kv retrieve(5)] by (simp add: step_keeps_def)
next
  case (submit now ts started r m1)
  then show ?thesis
    using submit_tick_frame [OF kv submit(4)] by (auto simp: step_keeps_def split: if_splits)
qed (auto simp: step_keeps_def healthStatusEventCallback_def batch_accepted_def updateSyncParams_def
    modify_def bind_cmd_def)

subsection \<open>Runs\<close>

inductive_cases node_run_NilE [elim!]: "node_run M timer n [] n'"

lemma node_run_height:
  assumes "kv_store (me_kv M) look eff raw" and "node_run M timer n ls n'"
  shows "nd_height n \<le> nd_height n'"
  using assms(2)
proof induction
  case (run_step n ls n1 l n2)
  then show ?case
    using node_step_keeps [OF assms(1) run_step.hyps(2)] by (auto simp: step_keeps_def)
qed simp

lemma node_run_submitting:
  assumes "kv_store (me_kv M) look eff raw" and "node_run M timer n ls n'" and "nd_submitting n"
    and "BatchAccepted \<notin> set ls"
  shows "nd_submitting n' \<and> SubmitStarted \<notin> set ls"
  using assms(2-4)
proof induction
  case (run_step n ls n1 l n2)
  then show ?case
    using node_step_keeps [OF assms(1) run_step.hyps(2)] by (cases l) (auto simp: step_keeps_def)
qed simp

lemma node_run_snocE:
  assumes "node_run M timer n (ls @ [l]) n'"
  obtains n1 where "node_run M timer n ls n1" and "node_step M timer n1 l n'"
  using assms by cases auto

lemma node_run_appendE:
  assumes "node_run M timer n (xs @ ys) n'"
  obtains n1 where "node_run M timer n xs n1" and "node_run M timer n1 ys n'"
  using assms
proof (induction ys arbitrary: n' thesis rule: rev_induct)
  case Nil
  then show ?case by (auto intro: run_refl)
next
  case (snoc y ys)
  then obtain n2 where "node_run M timer n (xs @ ys) n2" "node_step M timer n2 y n'"
    by (metis append_assoc node_run_snocE)
  with snoc show ?case by (metis run_step)
qed

lemma node_run_stuck:
  assumes "kv_store (me_kv M) look eff raw" and "node_run M timer n ls n'"
    and "nd_producer n = Reporting e" and "m_shouldProduceBlocksCh (nd_manager n) = [b]"
  shows "nd_producer n' = Reporting e \<and> m_shouldProduceBlocksCh (nd_manager n') = [b]"
  using assms(2-4)
proof induction
  case (run_step n ls n1 l n2)
  then show ?case
    using node_step_keeps [OF assms(1) run_step.hyps(2)] by (simp add: step_keeps_def)
qed simp

subsection \<open>A concrete node\<close>

text \<open>A node whose store lacks the last block: producing and submitting fail at once.\<close>

definition sample_node :: "(mem_db, int \<times> int, unit, unit, nat, unit, unit, unit) node" where
  "sample_node = \<lparr>nd_manager = sample_manager [], nd_producer = Looping True, nd_alive = True\<rparr>"

lemma sample_no_block:
  assumes "st_db s = st_db (m_store (sample_manager []))"
  shows "\<exists>e. LoadBlock sample_env (mainKV mem_badger) s h = Err e"
    and "\<exists>e. LoadCommit sample_env (mainKV mem_badger) s h = Err e"
proof -
  have "main_look mem_badger (st_db s) (getIndexKey h) = None"
    by (simp add: assms sample_manager_def main_look_def prefix_look_def)
  then have "\<exists>e. loadHashFromIndex (mainKV mem_badger) s h = Err e"
    by (simp add: loadHashFromIndex_def kv_store.Get_law [OF mem.mainKV_kv_store])
  then show "\<exists>e. LoadBlock sample_env (mainKV mem_badger) s h = Err e"
    and "\<exists>e. LoadCommit sample_env (mainKV mem_badger) s h = Err e"
    by (auto simp: LoadBlock_def LoadCommit_def)
qed

lemma sample_produce_fails:
  assumes "st_db (m_store m) = st_db (m_store (sample_manager []))" and "st_height (m_store m) = 2"
  shows "\<exists>e. produceBlock sample_manager_env now ts allowEmpty m = (Err (Wrapf ''error while loading last commit'' e), m)"
proof -
  obtain e where "LoadCommit sample_env (mainKV mem_badger) (m_store m) 2 = Err e"
    using sample_no_block(2) [OF assms(1)] by blast
  moreover have "(3 :: u64) \<noteq> uint64_of (g_InitialHeight (me_genesis sample_manager_env))"
    by (simp add: sample_manager_env_def uint64_of_def)
  ultimately have "last_commit_and_hash sample_manager_env m = Err (Wrapf ''error while loading last commit'' e)"
    by (simp add: last_commit_and_hash_def assms(2) Let_def)
  then show ?thesis
    by (auto simp: produceBlock_def bind_cmd_def lift_out_def)
qed

lemma sample_submits:
  assumes "st_db (m_store m) = st_db (m_store (sample_manager []))" and "st_height (m_store m) = 2"
    and "m_syncTarget m < 2" and "\<not> m_batchInProcess m" and "m_lastState m = sample_state 2"
  shows "submit_tick sample_manager_env now ts m = Some (True, Ok (), m\<lparr>m_batchInProcess := True\<rparr>)"
proof -
  let ?m = "m\<lparr>m_batchInProcess := True\<rparr>"
  have db: "st_db (m_store ?m) = st_db (m_store (sample_manager []))" "st_height (m_store ?m) = 2"
    using assms(1,2) by simp_all
  obtain e where "produceBlock sample_manager_env now ts True ?m = (Err (Wrapf ''error while loading last commit'' e), ?m)"
    using sample_produce_fails [OF db] by blast
  moreover obtain e' where "LoadBlock sample_env (mainKV mem_badger) (m_store ?m) 2 = Err e'"
    using sample_no_block(1) [OF db(1)] by blast
  moreover have "uint64_of (s_LastBlockHeight (sample_state 2)) = 2"
    by (simp add: sample_state_def)
  moreover have "2 - m_syncTarget m \<noteq> 0"
    using assms(3) by auto
  ultimately show ?thesis
    using assms by (simp add: submit_tick_def log_err_def submitNextBatch_def Let_def
        validateLastBlockInBatchIsEmpty_def)
qed

subsection \<open>Properties\<close>

lemma mainKV_contract:
  "badger_db bdg \<Longrightarrow> me_kv M = mainKV bdg \<Longrightarrow>
     kv_store (me_kv M) (main_look bdg) main_eff (\<lambda>k. mainPrefix @ k)"
  using badger_db.mainKV_kv_store by simp

text \<open>
  C3: In every interleaving of the node's loops there is one batch in flight: between two started
  batch submissions the settlement layer has reported an accepted batch.
\<close>

theorem one_batch_in_flight:
  assumes bdg: "badger_db bdg" "me_kv M = mainKV bdg"
    and run: "node_run M timer n (xs @ SubmitStarted # ys @ SubmitStarted # zs) n'"
  shows "BatchAccepted \<in> set ys"
proof (rule ccontr)
  note kv = mainKV_contract [OF bdg]
  assume none: "BatchAccepted \<notin> set ys"
  have "xs @ SubmitStarted # ys @ SubmitStarted # zs = (xs @ [SubmitStarted]) @ (ys @ [SubmitStarted]) @ zs"
    by simp
  with run obtain a b where "node_run M timer n (xs @ [SubmitStarted]) a"
    and "node_run M timer a (ys @ [SubmitStarted]) b"
    by (metis node_run_appendE)
  then obtain a' c where first: "node_step M timer a' SubmitStarted a" and mid: "node_run M timer a ys c"
    and second: "node_step M timer c SubmitStarted b"
    by (metis node_run_snocE)
  have "nd_submitting a" and "\<not> nd_submitting c"
    using node_step_keeps [OF kv first] node_step_keeps [OF kv second]
    by (simp_all add: step_keeps_def)
  with node_run_submitting [OF kv mid _ none] show False by simp
qed

theorem one_batch_in_flight_witness:
  "\<exists>n'. node_run sample_manager_env True sample_node [SubmitStarted, BatchAccepted, SubmitStarted] n' \<and>
     BatchAccepted \<in> set [BatchAccepted]"
proof -
  let ?m1 = "(sample_manager [])\<lparr>m_batchInProcess := True\<rparr>"
  let ?n1 = "sample_node\<lparr>nd_manager := ?m1\<rparr>"
  have m0: "st_height (m_store (sample_manager [])) = 2" "m_syncTarget (sample_manager []) = 0"
    "\<not> m_batchInProcess (sample_manager [])" "m_lastState (sample_manager []) = sample_state 2"
    "m_produceEmptyBlockCh (sample_manager []) = []"
    by (simp_all add: sample_manager_def)
  have "node_step sample_manager_env True sample_node SubmitStarted ?n1"
    using node_step.submit [where n = sample_node and M = sample_manager_env, OF _ sample_submits] m0
    by (simp add: sample_node_def continue_def)
  moreover obtain m2 where m2: "batch_accepted 0 1 ?m1 = (Ok (), m2)" "m_store m2 = m_store ?m1"
    "m_syncTarget m2 = 1" "\<not> m_batchInProcess m2" "m_lastState m2 = sample_state 2"
    "m_produceEmptyBlockCh m2 = []"
    by (simp add: batch_accepted_def updateSyncParams_def bind_cmd_def modify_def m0)
  then have "node_step sample_manager_env True ?n1 BatchAccepted (continue (Looping True) (Ok () :: unit outcome, m2))"
    using node_step.accepted [where n = ?n1 and M = sample_manager_env and now = 0 and endHeight = 1]
    by (simp add: sample_node_def)
  moreover have "\<exists>n3. node_step sample_manager_env True (continue (Looping True) (Ok () :: unit outcome, m2)) SubmitStarted n3"
    using node_step.submit [where n = "continue (Looping True) (Ok () :: unit outcome, m2)"
        and M = sample_manager_env, OF _ sample_submits] m2 m0
    by (auto simp: continue_def)
  ultimately obtain n' where run: "node_run sample_manager_env True sample_node
      [SubmitStarted, BatchAccepted, SubmitStarted] n'"
    using run_step [OF run_step [OF run_step [OF run_refl]]] by force
  have "me_kv sample_manager_env = mainKV mem_badger"
    by simp
  from one_batch_in_flight [OF mem.badger_db_axioms this, of True sample_node "[]" "[BatchAccepted]" "[]" n']
    run show ?thesis
    by auto
qed

text \<open>C35: In every interleaving of the node's loops the height of the store never goes down.\<close>

theorem node_height_monotone:
  assumes bdg: "badger_db bdg" "me_kv M = mainKV bdg" and "node_run M timer n ls n'"
  shows "nd_height n \<le> nd_height n'"
  using assms(3) by (rule node_run_height [OF mainKV_contract [OF bdg]])

theorem node_height_monotone_witness:
  "\<exists>n'. node_run sample_manager_env True sample_node [BatchAccepted] n' \<and>
     nd_height sample_node \<le> nd_height n'"
proof -
  have "node_step sample_manager_env True sample_node BatchAccepted
      (continue (nd_producer sample_node) (batch_accepted 0 1 (nd_manager sample_node)))"
    by (rule node_step.accepted) (simp add: sample_node_def)
  then obtain n' where run: "node_run sample_manager_env True sample_node [BatchAccepted] n'"
    using run_step [OF run_refl] by fastforce
  have "me_kv sample_manager_env = mainKV mem_badger"
    by simp
  from node_height_monotone [OF mem.badger_db_axioms this run] run show ?thesis
    by blast
qed

text \<open>
  C36: When producing a block fails while a health event waits in its channel, the production loop
  never gets past reporting the failure: the channel it waits to send on is one that only the loop
  itself reads. In no continuation is another block produced.
\<close>

theorem production_deadlock:
  assumes bdg: "badger_db bdg" "me_kv M = mainKV bdg" and "nd_producer n = Reporting e"
    and "m_shouldProduceBlocksCh (nd_manager n) = [b]" and "node_run M timer n ls n'"
  shows "nd_producer n' = Reporting e \<and> m_shouldProduceBlocksCh (nd_manager n') = [b]"
  using node_run_stuck [OF mainKV_contract [OF bdg]] assms(3-5) by blast

theorem production_deadlock_witness:
  "\<exists>n1 n2. node_run sample_manager_env True sample_node [Internal, Internal] n1 \<and>
     node_run sample_manager_env True n1 [BatchAccepted] n2 \<and> nd_producer n2 = Reporting True"
proof -
  define m1 where "m1 = (sample_manager [])\<lparr>m_shouldProduceBlocksCh := [True]\<rparr>"
  let ?n1 = "sample_node\<lparr>nd_manager := m1\<rparr>"
  have db: "st_db (m_store m1) = st_db (m_store (sample_manager []))" "st_height (m_store m1) = 2"
    by (simp_all add: m1_def) (simp add: sample_manager_def)
  obtain e where e: "produceBlock sample_manager_env 0 0 True m1 =
      (Err (Wrapf ''error while loading last commit'' e), m1)"
    using sample_produce_fails [OF db] by blast
  have s1: "node_step sample_manager_env True sample_node Internal ?n1"
    using node_step.health_event [where n = sample_node and healthy = True and M = sample_manager_env]
    by (simp add: sample_node_def continue_def healthStatusEventCallback_def modify_def m1_def)
       (simp add: sample_manager_def)
  let ?n2 = "\<lparr>nd_manager = m1, nd_producer = Reporting True, nd_alive = True\<rparr>"
  have s2: "node_step sample_manager_env True ?n1 Internal ?n2"
    using node_step.produce [where n = ?n1 and e = True and M = sample_manager_env and now = 0
        and voteTimestamp = 0 and emptyBlocksTimer = True] e
    by (simp add: sample_node_def produce_tick_def continue_def)
  have run: "node_run sample_manager_env True sample_node [Internal, Internal] ?n2"
    using run_step [OF run_step [OF run_refl s1] s2] by simp
  have "node_step sample_manager_env True ?n2 BatchAccepted
      (continue (nd_producer ?n2) (batch_accepted 0 1 (nd_manager ?n2)))"
    by (rule node_step.accepted) simp
  from run_step [OF run_refl this] obtain n3 where more: "node_run sample_manager_env True ?n2 [BatchAccepted] n3"
    by fastforce
  have "me_kv sample_manager_env = mainKV mem_badger"
    by simp
  from production_deadlock [OF mem.badger_db_axioms this _ _ more, of True True] run more show ?thesis
    by (auto simp: m1_def)
qed

text \<open>
  While the settlement layer answers with an error, syncUntilTarget asks again, at once and
  without end: it never returns for a target above the store's height.
\<close>

lemma sync_retries_forever:
  assumes "\<forall>i s. \<exists>e s'. sl_RetrieveBatch (me_sl M) i s = (Err e, s')"
    and "st_height (m_store m) < target"
  shows "syncUntilTarget M target m = None"
proof -
  have "sync_loop M target h m = Some y \<Longrightarrow>
      (\<forall>i s. \<exists>e s'. sl_RetrieveBatch (me_sl M) i s = (Err e, s')) \<longrightarrow> \<not> h < target" for M target h m y
  proof (erule sync_loop.raw_induct [rotated], intro impI notI)
    fix loop M target h m y
    assume IH: "\<And>M target h m y. loop M target h m = Some y \<Longrightarrow>
        (\<forall>i s. \<exists>e s'. sl_RetrieveBatch (me_sl M) i s = (Err e, s')) \<longrightarrow> \<not> h < target"
      and run: "(if h < target then
        case on_sl (sl_RetrieveBatch (me_sl M) (Some (s_SLStateIndex (m_lastState m) + 1))) m of
          (Ok res, m1) \<Rightarrow>
            (case processNextDABatch M (dm_Height (sb_MetaData (sr_Batch res))) m1 of
               (Ok _, m2) \<Rightarrow>
                 (case updateStateIndex M (sr_StateIndex res) m2 of
                    (Ok _, m3) \<Rightarrow> loop M target (st_height (m_store m3)) m3
                  | (Err e, m3) \<Rightarrow> Some (Ok (), m3)
                  | (Panic p, m3) \<Rightarrow> Some (Panic p, m3))
             | (Err e, m2) \<Rightarrow> Some (Ok (), m2)
             | (Panic p, m2) \<Rightarrow> Some (Panic p, m2))
        | (Err e, m1) \<Rightarrow> loop M target h m1
        | (Panic p, m1) \<Rightarrow> Some (Panic p, m1)
        else Some (Ok (), m)) = Some y"
      and err: "\<forall>i s. \<exists>e s'. sl_RetrieveBatch (me_sl M) i s = (Err e, s')" and "h < target"
    obtain e s' where "sl_RetrieveBatch (me_sl M) (Some (s_SLStateIndex (m_lastState m) + 1)) (m_sl m) = (Err e, s')"
      using err by blast
    with run \<open>h < target\<close> have "loop M target h (m\<lparr>m_sl := s'\<rparr>) = Some y"
      by (simp add: on_sl_def)
    with IH err \<open>h < target\<close> show False by blast
  qed
  with assms show ?thesis
    unfolding syncUntilTarget_def by (cases "sync_loop M target (st_height (m_store m)) m") blast+
qed

definition sync_round ::
  "('db, 'app, 'mp, 'bus, 'vs, 'pvs, 'sl, 'da, 'net) manager_env \<Rightarrow>
     (('db, 'app, 'mp, 'bus, 'vs, 'sl, 'da, 'net) Manager, unit) cmd" where
  "sync_round M m =
     bind_cmd (on_sl (sl_RetrieveBatch (me_sl M) (Some (s_SLStateIndex (m_lastState m) + 1)))) (\<lambda>res.
     bind_cmd (processNextDABatch M (dm_Height (sb_MetaData (sr_Batch res)))) (\<lambda>_.
       updateStateIndex M (sr_StateIndex res))) m"

lemma sync_loop_round:
  assumes "sync_round M m = (Ok (), m')" and "h < target"
  shows "sync_loop M target h m = sync_loop M target (st_height (m_store m')) m'"
proof -
  obtain res m1 m2 where
    "on_sl (sl_RetrieveBatch (me_sl M) (Some (s_SLStateIndex (m_lastState m) + 1))) m = (Ok res, m1)"
    "processNextDABatch M (dm_Height (sb_MetaData (sr_Batch res))) m1 = (Ok (), m2)"
    "updateStateIndex M (sr_StateIndex res) m2 = (Ok (), m')"
    using assms(1) by (auto simp: sync_round_def bind_cmd_def split: prod.splits outcome.splits)
  with assms(2) show ?thesis
    by (simp add: sync_loop.simps [of M target h m])
qed

text \<open>
  C8: If below the target every round - asking the settlement layer, fetching and applying the
  batch, saving the state index - succeeds and raises the height, syncUntilTarget ends with the
  store at the target or above it.
\<close>

theorem sync_reaches_target:
  assumes "\<forall>m. I m \<and> st_height (m_store m) < target \<longrightarrow>
      (\<exists>m'. sync_round M m = (Ok (), m') \<and> I m' \<and> st_height (m_store m) < st_height (m_store m'))"
    and "I m"
  shows "\<exists>m'. syncUntilTarget M target m = Some (Ok (), m') \<and> I m' \<and> target \<le> st_height (m_store m')"
  using assms(2)
proof (induction "unat target - unat (st_height (m_store m))" arbitrary: m rule: less_induct)
  case less
  show ?case
  proof (cases "st_height (m_store m) < target")
    case True
    with assms(1) less.prems obtain m' where m': "sync_round M m = (Ok (), m')" "I m'"
      "st_height (m_store m) < st_height (m_store m')"
      by blast
    have "unat target - unat (st_height (m_store m')) < unat target - unat (st_height (m_store m))"
      using True m'(3) by (simp add: word_less_nat_alt)
    from less.hyps [OF this m'(2)] sync_loop_round [OF m'(1) True] show ?thesis
      by (simp add: syncUntilTarget_def)
  next
    case False
    with less.prems show ?thesis
      by (simp add: syncUntilTarget_def sync_loop.simps)
  qed
qed

lemma sample_reindexed:
  assumes "family sample_scenario p s"
  shows "persistable sample_env (s\<lparr>s_SLStateIndex := i\<rparr>)"
  using assms
proof (rule sample_family)
  fix n v l base h k a
  assume st: "s = (sample_state 2)\<lparr>s_SLStateIndex := 0, s_NextValidators := n,
      s_Validators := v, s_LastValidators := l, s_BaseHeight := base,
      s_LastBlockHeight := int64_of h, s_LastBlockID := sample_BlockID h, s_LastStoreHeight := k,
      s_AppHash := a\<rparr>"
    and bounds: "n < 8" "v < 8" "l < 8" "h \<in> {2, 3}" "k \<in> {2, 3}" "length a = 32"
  have "s\<lparr>s_SLStateIndex := i\<rparr> = (sample_state 2)\<lparr>s_SLStateIndex := i,
      s_NextValidators := n, s_Validators := v, s_LastValidators := l, s_BaseHeight := base,
      s_LastBlockHeight := int64_of h, s_LastBlockID := sample_BlockID h, s_LastStoreHeight := k,
      s_AppHash := a\<rparr>"
    by (simp add: st sample_state_def)
  then show ?thesis
    by (simp only: persistable_rotated [OF bounds])
qed

lemma sample_round:
  "\<exists>m'. sync_round sample_manager_env (sample_manager []) = (Ok (), m') \<and> st_height (m_store m') = 3"
proof -
  let ?M = sample_manager_env and ?m = "sample_manager []"
  obtain r m1 where run: "applyBlock ?M (sample_block 3) (sample_commit 3) ?m = (r, m1)"
    by (cases "applyBlock ?M (sample_block 3) (sample_commit 3) ?m")
  with sample_applied have r: "r = Ok ()" and f: "no_faults (st_db (m_store m1))"
    by (auto simp: is_Ok_iff no_faults_def)
  have fin: "ready sample_scenario Done m1"
    using triple_Ok [OF applyBlock_triple [OF sample_scenario_ok] sample_ready] run r by simp
  have height: "st_height (m_store m1) = 3"
    using fin by (simp add: ready_def height_phase)
  let ?m2 = "m1\<lparr>m_lastState := (m_lastState m1)\<lparr>s_SLStateIndex := 1\<rparr>\<rparr>"
  have "persistable sample_env ((m_lastState m1)\<lparr>s_SLStateIndex := 1\<rparr>)"
    using fin by (auto simp: ready_def intro: sample_reindexed)
  then obtain b s where s: "UpdateState sample_env (mainKV mem_badger) ((m_lastState m1)\<lparr>s_SLStateIndex := 1\<rparr>)
      None (m_store m1) = (Ok b, s)"
    using UpdateState_working [OF working_mem f _ sample_codec_ok] by blast
  have sl: "on_sl (sl_RetrieveBatch (me_sl ?M) (Some (s_SLStateIndex (m_lastState ?m) + 1))) ?m =
      (Ok \<lparr>sr_Code = StatusSuccess, sr_Message = [], sr_StateIndex = 1,
           sr_Batch = \<lparr>sb_StartHeight = 3, sb_EndHeight = 3, sb_AppHashes = [],
             sb_MetaData = \<lparr>dm_Height = 1, dm_Client = []\<rparr>\<rparr>\<rparr>, ?m)"
    by (simp add: sample_manager_env_def sample_manager_def sample_state_def on_sl_def)
  have da: "on_da (da_RetrieveBatches (me_da ?M) 1) ?m =
      (Ok \<lparr>rr_Code = StatusSuccess, rr_Message = [], rr_DAHeight = 1,
           rr_Batches = [Some \<lparr>ba_StartHeight = 3, ba_EndHeight = 3, ba_Blocks = [sample_block 3],
             ba_Commits = [sample_commit 3]\<rparr>]\<rparr>, ?m)"
    by (simp add: sample_manager_env_def sample_manager_def on_da_def)
  have "sync_round ?M ?m = (Ok (), ?m2\<lparr>m_store := s\<rparr>)"
    using run r s
    by (simp add: sync_round_def bind_cmd_def sl processNextDABatch_def fetchBatch_def da
        updateStateIndex_def modify_def on_store_def ret_def)
  moreover have "st_height s = 3"
    using store_heights(2) [OF s] height by simp
  ultimately show ?thesis by simp
qed

theorem sync_reaches_target_witness:
  "\<exists>m'. syncUntilTarget sample_manager_env 3 (sample_manager []) = Some (Ok (), m') \<and>
     3 \<le> st_height (m_store m')"
proof -
  have "st_height (m_store (sample_manager [])) = 2"
    by (simp add: sample_manager_def)
  with sync_reaches_target [of "\<lambda>m. m = sample_manager [] \<or> 3 \<le> st_height (m_store m)" 3 sample_manager_env
      "sample_manager []"] sample_round show ?thesis
    by fastforce
qed

end
