(* ===== verification/QueryRange.thy ===== *)
theory QueryRange
  imports Layers "HOL-Library.AList"
begin

text \<open>
  Ranges in search queries (\<open>src/state/indexer/query_range.go\<close>) and what the two indexers share of
  the search: collecting the matches of one condition and intersecting them with the matches so far.
  Queries are parsed by tendermint's pubsub library; the conditions it returns are the argument. An
  operand is one of the types the library's conditions carry.
\<close>

subsection \<open>Conditions\<close>

datatype Operator = OpLessEqual | OpGreaterEqual | OpLess | OpGreater | OpEqual | OpContains | OpExists

text \<open>The \<open>interface{}\<close> operand; a \<open>float64\<close> is given by its bits.\<close>

datatype operand = OInt int | OTime gotime | OFloat u64 | OString gostring

record Condition =
  c_CompositeKey :: gostring
  c_Op :: Operator
  c_Operand :: "operand option"

subsection \<open>Ranges\<close>

record QueryRange =
  qr_LowerBound :: "operand option"
  qr_UpperBound :: "operand option"
  qr_Key :: gostring
  qr_IncludeLowerBound :: bool
  qr_IncludeUpperBound :: bool

definition AnyBound :: "QueryRange \<Rightarrow> operand option" where
  "AnyBound qr = (if qr_LowerBound qr \<noteq> None then qr_LowerBound qr else qr_UpperBound qr)"

text \<open>\<open>t.Unix()\<close>, the seconds of a time.\<close>

definition time_Unix :: "gotime \<Rightarrow> int" where
  "time_Unix t = t div 1000000000"

definition LowerBoundValue :: "QueryRange \<Rightarrow> operand option outcome" where
  "LowerBoundValue qr =
     (case qr_LowerBound qr of
        None \<Rightarrow> Ok None
      | Some b \<Rightarrow>
          if qr_IncludeLowerBound qr then Ok (Some b)
          else (case b of
                  OInt t \<Rightarrow> Ok (Some (OInt (i64 (t + 1))))
                | OTime t \<Rightarrow> Ok (Some (OInt (i64 (time_Unix t + 1))))
                | _ \<Rightarrow> Panic ''not implemented''))"

definition UpperBoundValue :: "QueryRange \<Rightarrow> operand option outcome" where
  "UpperBoundValue qr =
     (case qr_UpperBound qr of
        None \<Rightarrow> Ok None
      | Some b \<Rightarrow>
          if qr_IncludeUpperBound qr then Ok (Some b)
          else (case b of
                  OInt t \<Rightarrow> Ok (Some (OInt (i64 (t - 1))))
                | OTime t \<Rightarrow> Ok (Some (OInt (i64 (time_Unix t - 1))))
                | _ \<Rightarrow> Panic ''not implemented''))"

definition IsRangeOperation :: "Operator \<Rightarrow> bool" where
  "IsRangeOperation op \<longleftrightarrow> op = OpGreater \<or> op = OpGreaterEqual \<or> op = OpLess \<or> op = OpLessEqual"

definition narrow :: "Condition \<Rightarrow> QueryRange \<Rightarrow> QueryRange" where
  "narrow c r =
     (case c_Op c of
        OpGreater \<Rightarrow> r\<lparr>qr_LowerBound := c_Operand c\<rparr>
      | OpGreaterEqual \<Rightarrow> r\<lparr>qr_IncludeLowerBound := True, qr_LowerBound := c_Operand c\<rparr>
      | OpLess \<Rightarrow> r\<lparr>qr_UpperBound := c_Operand c\<rparr>
      | OpLessEqual \<Rightarrow> r\<lparr>qr_IncludeUpperBound := True, qr_UpperBound := c_Operand c\<rparr>
      | _ \<Rightarrow> r)"

definition new_range :: "gostring \<Rightarrow> QueryRange" where
  "new_range key =
     \<lparr>qr_LowerBound = None, qr_UpperBound = None, qr_Key = key, qr_IncludeLowerBound = False, qr_IncludeUpperBound = False\<rparr>"

text \<open>The map of ranges is an association list; \<open>i\<close> is the position of the first condition.\<close>

fun ranges_from :: "nat \<Rightarrow> (gostring \<times> QueryRange) list \<Rightarrow> Condition list \<Rightarrow> (gostring \<times> QueryRange) list \<times> nat list" where
  "ranges_from i ranges [] = (ranges, [])"
| "ranges_from i ranges (c # cs) =
     (if IsRangeOperation (c_Op c)
      then
        let r = (case map_of ranges (c_CompositeKey c) of None \<Rightarrow> new_range (c_CompositeKey c) | Some r \<Rightarrow> r);
            (ranges', indexes) = ranges_from (Suc i) (AList.update (c_CompositeKey c) (narrow c r) ranges) cs
        in (ranges', i # indexes)
      else ranges_from (Suc i) ranges cs)"

definition LookForRanges :: "Condition list \<Rightarrow> (gostring \<times> QueryRange) list \<times> nat list" where
  "LookForRanges conditions = ranges_from 0 [] conditions"

subsection \<open>Signed decimal numbers of \<open>strconv\<close>\<close>

definition FormatInt :: "int \<Rightarrow> gostring" where
  "FormatInt n = (if n < 0 then 0x2d # digits (nat (- n)) else digits (nat n))"

definition ParseInt :: "gostring \<Rightarrow> int outcome" where
  "ParseInt s =
     (case s of
        [] \<Rightarrow> Err (Errorf ''invalid syntax'')
      | c # s' \<Rightarrow>
          let neg = (c = 0x2d); ds = (if c = 0x2d \<or> c = 0x2b then s' else s)
          in if ds = [] then Err (Errorf ''invalid syntax'')
             else (case digits_value ds 0 of
                     None \<Rightarrow> Err (Errorf ''invalid syntax'')
                   | Some n \<Rightarrow>
                       if neg then if n \<le> 2 ^ 63 then Ok (- int n) else Err (Errorf ''value out of range'')
                       else if n < 2 ^ 63 then Ok (int n) else Err (Errorf ''value out of range'')))"

subsection \<open>The context of a search\<close>

text \<open>
  A search looks at its context once in a while: \<open>Some n\<close> is a context that is found done after
  \<open>n\<close> more looks, \<open>None\<close> one that never is.
\<close>

type_synonym ctx = "nat option"

fun ctx_Done :: "ctx \<Rightarrow> bool \<times> ctx" where
  "ctx_Done None = (False, None)"
| "ctx_Done (Some 0) = (True, Some 0)"
| "ctx_Done (Some (Suc n)) = (False, Some n)"

subsection \<open>Collecting and intersecting matches\<close>

text \<open>
  A map from a value of the store to itself is a list without repetitions. \<open>collect\<close> walks the items
  of an iterator: \<open>pick\<close> says whether an item is skipped without a look at the context (\<open>Ok None\<close>),
  and otherwise whether its value is a match.
\<close>

fun collect :: "(bytes \<times> bytes \<Rightarrow> bool option outcome) \<Rightarrow> (bytes \<times> bytes) list \<Rightarrow> bytes list \<Rightarrow> ctx \<Rightarrow>
    (bytes list \<times> ctx) outcome" where
  "collect pick [] tmp ctx = Ok (tmp, ctx)"
| "collect pick ((k, v) # items) tmp ctx =
     bind_out (pick (k, v)) (\<lambda>b.
       case b of
         None \<Rightarrow> collect pick items tmp ctx
       | Some isMatch \<Rightarrow>
           let tmp' = (if isMatch then List.insert v tmp else tmp)
           in case ctx_Done ctx of
                (True, ctx') \<Rightarrow> Ok (tmp', ctx')
              | (False, ctx') \<Rightarrow> collect pick items tmp' ctx')"

text \<open>
  Dropping from the matches so far those that the current condition does not have. The context is
  looked at after a deletion.
\<close>

fun reduce :: "bytes list \<Rightarrow> bytes list \<Rightarrow> ctx \<Rightarrow> bytes list \<times> ctx" where
  "reduce tmp [] ctx = ([], ctx)"
| "reduce tmp (k # ks) ctx =
     (if k \<in> set tmp then (case reduce tmp ks ctx of (r, ctx') \<Rightarrow> (k # r, ctx'))
      else (case ctx_Done ctx of
              (True, ctx') \<Rightarrow> (ks, ctx')
            | (False, ctx') \<Rightarrow> reduce tmp ks ctx'))"

definition merge_matches :: "bytes list \<Rightarrow> bool \<Rightarrow> bytes list \<times> ctx \<Rightarrow> bytes list \<times> ctx" where
  "merge_matches filtered firstRun t =
     (case t of (tmp, ctx) \<Rightarrow> if tmp = [] \<or> firstRun then (tmp, ctx) else reduce tmp filtered ctx)"

text \<open>Whether a number lies within the bounds, with the type assertions of the comparison.\<close>

definition above :: "operand option \<Rightarrow> int \<Rightarrow> bool outcome" where
  "above lower v =
     (case lower of None \<Rightarrow> Ok True | Some (OInt b) \<Rightarrow> Ok (\<not> v < b) | Some _ \<Rightarrow> Panic ''interface conversion'')"

definition below :: "operand option \<Rightarrow> int \<Rightarrow> bool outcome" where
  "below upper v =
     (case upper of None \<Rightarrow> Ok True | Some (OInt b) \<Rightarrow> Ok (\<not> v > b) | Some _ \<Rightarrow> Panic ''interface conversion'')"

definition in_bounds :: "operand option \<Rightarrow> operand option \<Rightarrow> int \<Rightarrow> bool outcome" where
  "in_bounds lower upper v = bind_out (above lower v) (\<lambda>a. bind_out (below upper v) (\<lambda>b. Ok (a \<and> b)))"

text \<open>The body of the loop over the items of a range; \<open>value\<close> is how the indexer reads the value out of a key.\<close>

definition pick_in_range :: "QueryRange \<Rightarrow> operand option \<Rightarrow> operand option \<Rightarrow> (bytes \<Rightarrow> gostring option) \<Rightarrow>
    bytes \<times> bytes \<Rightarrow> bool option outcome" where
  "pick_in_range qr lower upper value_of item =
     (case value_of (fst item) of
        None \<Rightarrow> Ok None
      | Some s \<Rightarrow>
          (case AnyBound qr of
             Some (OInt _) \<Rightarrow>
               (case ParseInt s of
                  Ok v \<Rightarrow> bind_out (in_bounds lower upper v) (\<lambda>b. Ok (Some b))
                | _ \<Rightarrow> Ok None)
           | _ \<Rightarrow> Ok (Some False)))"

subsection \<open>Searches whose context is not cancelled\<close>

lemma collect_all:
  assumes "\<And>item. item \<in> set items \<Longrightarrow> \<exists>b. pick item = Ok b"
  shows "\<exists>tmp'. collect pick items tmp None = Ok (tmp', None) \<and>
    set tmp' = set tmp \<union> {v. \<exists>k. (k, v) \<in> set items \<and> pick (k, v) = Ok (Some True)}"
  using assms
proof (induction items arbitrary: tmp)
  case (Cons item items)
  obtain k v where item: "item = (k, v)" by (cases item)
  obtain b where b: "pick (k, v) = Ok b"
    using Cons.prems [of item] by (auto simp: item)
  define tmp1 where "tmp1 = (if b = Some True then List.insert v tmp else tmp)"
  have "collect pick (item # items) tmp None = collect pick items tmp1 None"
    using b by (auto simp: item tmp1_def split: option.split)
  moreover obtain tmp2 where "collect pick items tmp1 None = Ok (tmp2, None)"
    "set tmp2 = set tmp1 \<union> {v. \<exists>k. (k, v) \<in> set items \<and> pick (k, v) = Ok (Some True)}"
    using Cons.IH [of tmp1] Cons.prems by auto
  moreover have "set tmp1 = set tmp \<union> {u. u = v \<and> b = Some True}"
    by (auto simp: tmp1_def)
  ultimately show ?case
    using b by (auto simp: item)
qed simp

lemma reduce_all: "reduce tmp ks None = (filter (\<lambda>k. k \<in> set tmp) ks, None)"
  by (induction ks) auto

lemma merge_all:
  "\<exists>r. merge_matches filtered firstRun (tmp, None) = (r, None) \<and>
    set r = (if firstRun then set tmp else set tmp \<inter> set filtered) \<and> (distinct tmp \<longrightarrow> distinct filtered \<longrightarrow> distinct r)"
  by (auto simp: merge_matches_def reduce_all)

lemma collect_distinct:
  "collect pick items tmp ctx = Ok (tmp', ctx') \<Longrightarrow> distinct tmp \<Longrightarrow> distinct tmp'"
proof (induction items arbitrary: tmp ctx)
  case (Cons item items)
  obtain k v b where item: "item = (k, v)" and b: "pick (k, v) = Ok b"
    using Cons.prems(1) by (cases item) (auto simp: bind_out_Ok_iff)
  show ?case
  proof (cases b)
    case None
    with Cons b show ?thesis by (simp add: item)
  next
    case (Some isMatch)
    let ?tmp = "if isMatch then List.insert v tmp else tmp"
    have "distinct ?tmp" using Cons.prems(2) by simp
    with Cons Some b show ?thesis by (cases "ctx_Done ctx"; cases "fst (ctx_Done ctx)") (auto simp: item Let_def split: if_splits)
  qed
qed simp

subsection \<open>Ranges stand for their conditions\<close>

text \<open>What a range condition says of a number.\<close>

definition satisfies :: "Condition \<Rightarrow> int \<Rightarrow> bool" where
  "satisfies c v \<longleftrightarrow>
     (case c_Operand c of
        Some (OInt b) \<Rightarrow>
          (case c_Op c of OpGreater \<Rightarrow> b < v | OpGreaterEqual \<Rightarrow> b \<le> v | OpLess \<Rightarrow> v < b | OpLessEqual \<Rightarrow> v \<le> b | _ \<Rightarrow> True)
      | _ \<Rightarrow> False)"

definition range_admits :: "QueryRange \<Rightarrow> int \<Rightarrow> bool outcome" where
  "range_admits qr v =
     bind_out (LowerBoundValue qr) (\<lambda>l. bind_out (UpperBoundValue qr) (\<lambda>u. in_bounds l u v))"

definition is_lower :: "Condition \<Rightarrow> bool" where
  "is_lower c \<longleftrightarrow> c_Op c = OpGreater \<or> c_Op c = OpGreaterEqual"

definition is_upper :: "Condition \<Rightarrow> bool" where
  "is_upper c \<longleftrightarrow> c_Op c = OpLess \<or> c_Op c = OpLessEqual"

text \<open>
  At most one lower and one upper bound for a key, all of them numbers, and none excludes the last
  number in its direction.
\<close>

definition sole_bounds :: "Condition list \<Rightarrow> bool" where
  "sole_bounds cs \<longleftrightarrow>
     (\<forall>key. length (filter (\<lambda>c. is_lower c \<and> c_CompositeKey c = key) cs) \<le> 1 \<and>
            length (filter (\<lambda>c. is_upper c \<and> c_CompositeKey c = key) cs) \<le> 1) \<and>
     (\<forall>c \<in> set cs. is_lower c \<or> is_upper c \<longrightarrow>
        (\<exists>b. c_Operand c = Some (OInt b) \<and> - (2 ^ 63) < b \<and> b < 2 ^ 63 - 1))"

text \<open>The range a key ends up with: its only lower and its only upper condition, as far as there are.\<close>

definition bound_of :: "(Condition \<Rightarrow> bool) \<Rightarrow> gostring \<Rightarrow> Condition list \<Rightarrow> Condition option" where
  "bound_of P key cs = List.find (\<lambda>c. P c \<and> c_CompositeKey c = key) cs"

definition range_of :: "gostring \<Rightarrow> Condition list \<Rightarrow> QueryRange" where
  "range_of key cs =
     \<lparr>qr_LowerBound = Option.bind (bound_of is_lower key cs) c_Operand,
      qr_UpperBound = Option.bind (bound_of is_upper key cs) c_Operand, qr_Key = key,
      qr_IncludeLowerBound = (case bound_of is_lower key cs of None \<Rightarrow> False | Some c \<Rightarrow> c_Op c = OpGreaterEqual),
      qr_IncludeUpperBound = (case bound_of is_upper key cs of None \<Rightarrow> False | Some c \<Rightarrow> c_Op c = OpLessEqual)\<rparr>"

lemma find_snoc: "List.find P (xs @ [x]) = (case List.find P xs of None \<Rightarrow> if P x then Some x else None | Some y \<Rightarrow> Some y)"
  by (induction xs) auto

lemma bound_of_None: "filter (\<lambda>c. P c \<and> c_CompositeKey c = key) cs = [] \<longleftrightarrow> bound_of P key cs = None"
  by (auto simp: bound_of_def find_None_iff filter_empty_conv)

lemma range_op_cases: "IsRangeOperation (c_Op c) \<longleftrightarrow> is_lower c \<or> is_upper c" "\<not> (is_lower c \<and> is_upper c)"
  by (auto simp: IsRangeOperation_def is_lower_def is_upper_def)

lemma sole_bounds_snoc:
  assumes "sole_bounds (ps @ c # cs)"
  shows "is_lower c \<Longrightarrow> bound_of is_lower (c_CompositeKey c) ps = None"
    and "is_upper c \<Longrightarrow> bound_of is_upper (c_CompositeKey c) ps = None"
  using assms unfolding sole_bounds_def bound_of_None [symmetric]
  by (auto simp: le_Suc_eq dest!: spec [of _ "c_CompositeKey c"])

lemma narrow_range_of:
  assumes "sole_bounds (ps @ c # cs)" and "IsRangeOperation (c_Op c)"
  shows "narrow c (range_of (c_CompositeKey c) ps) = range_of (c_CompositeKey c) (ps @ [c])"
proof (cases "is_lower c")
  case True
  then have "\<not> is_upper c" using range_op_cases(2) by blast
  with True sole_bounds_snoc(1) [OF assms(1) True] show ?thesis
    by (auto simp: narrow_def range_of_def bound_of_def find_snoc is_lower_def split: option.splits)
next
  case False
  then have up: "is_upper c" using assms(2) range_op_cases(1) by blast
  with False sole_bounds_snoc(2) [OF assms(1) up] show ?thesis
    by (auto simp: narrow_def range_of_def bound_of_def find_snoc is_upper_def split: option.splits)
qed

lemma range_of_snoc_other:
  "c_CompositeKey c \<noteq> key \<or> \<not> IsRangeOperation (c_Op c) \<Longrightarrow> range_of key (ps @ [c]) = range_of key ps"
  by (auto simp: range_of_def bound_of_def find_snoc range_op_cases(1) split: option.splits)

definition ranged :: "gostring \<Rightarrow> Condition list \<Rightarrow> bool" where
  "ranged key cs \<longleftrightarrow> (\<exists>c \<in> set cs. IsRangeOperation (c_Op c) \<and> c_CompositeKey c = key)"

lemma range_of_unranged:
  assumes "\<not> ranged key ps"
  shows "range_of key ps = new_range key"
proof -
  have "bound_of is_lower key ps = None" "bound_of is_upper key ps = None"
    using assms by (auto simp: ranged_def bound_of_def range_op_cases(1) find_None_iff)
  then show ?thesis
    by (simp add: range_of_def new_range_def)
qed

lemma ranges_from_run:
  assumes "\<And>key. map_of ranges key = (if ranged key ps then Some (range_of key ps) else None)"
    and "sole_bounds (ps @ cs)"
  shows "map_of (fst (ranges_from i ranges cs)) key = (if ranged key (ps @ cs) then Some (range_of key (ps @ cs)) else None)"
  using assms
proof (induction cs arbitrary: i ranges ps)
  case (Cons c cs)
  show ?case
  proof (cases "IsRangeOperation (c_Op c)")
    case True
    let ?r = "case map_of ranges (c_CompositeKey c) of None \<Rightarrow> new_range (c_CompositeKey c) | Some r \<Rightarrow> r"
    have "?r = range_of (c_CompositeKey c) ps"
      using Cons.prems(1) [of "c_CompositeKey c"] by (simp add: range_of_unranged)
    then have r: "narrow c ?r = range_of (c_CompositeKey c) (ps @ [c])"
      using narrow_range_of [OF Cons.prems(2) True] by simp
    have "map_of (AList.update (c_CompositeKey c) (narrow c ?r) ranges) k =
        (if ranged k (ps @ [c]) then Some (range_of k (ps @ [c])) else None)" for k
      unfolding r using Cons.prems(1) [of k] True
      by (auto simp: AList.update_conv' ranged_def range_of_snoc_other)
    from Cons.IH [OF this, of "Suc i"] Cons.prems(2) True show ?thesis
      by (simp add: Let_def case_prod_unfold)
  next
    case False
    have "map_of ranges k = (if ranged k (ps @ [c]) then Some (range_of k (ps @ [c])) else None)" for k
      using Cons.prems(1) [of k] False by (auto simp: ranged_def range_of_snoc_other)
    from Cons.IH [OF this, of "Suc i"] Cons.prems(2) False show ?thesis by simp
  qed
qed simp

lemma LookForRanges_run:
  assumes "sole_bounds cs"
  shows "map_of (fst (LookForRanges cs)) key = (if ranged key cs then Some (range_of key cs) else None)"
  using ranges_from_run [of "[]" "[]" cs 0 key] assms by (simp add: LookForRanges_def ranged_def)

lemma ranges_from_indexes:
  "set (snd (ranges_from i ranges cs)) = {i + j | j. j < length cs \<and> IsRangeOperation (c_Op (cs ! j))}"
proof (induction cs arbitrary: i ranges)
  case (Cons c cs)
  have shift: "{i + j | j. j < length (c # cs) \<and> IsRangeOperation (c_Op ((c # cs) ! j))} =
      (if IsRangeOperation (c_Op c) then {i} else {}) \<union> {Suc i + j | j. j < length cs \<and> IsRangeOperation (c_Op (cs ! j))}"
    by (auto simp: less_Suc_eq_0_disj)
  show ?case
    unfolding shift using Cons.IH by (simp add: Let_def case_prod_unfold)
qed simp

lemma LookForRanges_indexes:
  "set (snd (LookForRanges cs)) = {j. j < length cs \<and> IsRangeOperation (c_Op (cs ! j))}"
  using ranges_from_indexes [of 0 "[]" cs] by (simp add: LookForRanges_def)

lemma bound_of_Some:
  assumes "bound_of P key cs = Some c"
  shows "c \<in> set cs" "P c" "c_CompositeKey c = key"
  using assms by (auto simp: bound_of_def find_Some_iff)

lemma bound_unique:
  assumes "length (filter (\<lambda>c. P c \<and> c_CompositeKey c = key) cs) \<le> 1" and "bound_of P key cs = Some c"
    and "c' \<in> set cs" "P c'" "c_CompositeKey c' = key"
  shows "c' = c"
proof -
  let ?f = "filter (\<lambda>c. P c \<and> c_CompositeKey c = key) cs"
  have "c \<in> set ?f" "c' \<in> set ?f"
    using assms bound_of_Some [OF assms(2)] by auto
  then show ?thesis
    using assms(1) by (cases ?f; cases "tl ?f") auto
qed

text \<open>The two halves of a range.\<close>

lemma lower_admits:
  assumes "sole_bounds cs"
  shows "\<exists>l. LowerBoundValue (range_of key cs) = Ok l \<and>
    above l v = Ok (\<forall>c \<in> set cs. is_lower c \<and> c_CompositeKey c = key \<longrightarrow> satisfies c v)"
proof (cases "bound_of is_lower key cs")
  case None
  then have "\<not> (is_lower c \<and> c_CompositeKey c = key)" if "c \<in> set cs" for c
    using that by (auto simp: bound_of_def find_None_iff)
  with None show ?thesis
    by (auto simp: LowerBoundValue_def range_of_def above_def)
next
  case (Some c)
  note c = bound_of_Some [OF Some]
  have "(\<forall>c' \<in> set cs. is_lower c' \<and> c_CompositeKey c' = key \<longrightarrow> satisfies c' v) \<longleftrightarrow> satisfies c v"
    using c bound_unique [OF _ Some] assms unfolding sole_bounds_def by blast
  moreover obtain b where "c_Operand c = Some (OInt b)" "- (2 ^ 63) < b" "b < 2 ^ 63 - 1"
    using assms c unfolding sole_bounds_def by blast
  moreover from this have "i64 (b + 1) = b + 1"
    by (intro i64_id) (simp add: in_i64_def)
  ultimately show ?thesis
    using c(2) Some by (auto simp: LowerBoundValue_def range_of_def above_def satisfies_def is_lower_def)
qed

lemma upper_admits:
  assumes "sole_bounds cs"
  shows "\<exists>u. UpperBoundValue (range_of key cs) = Ok u \<and>
    below u v = Ok (\<forall>c \<in> set cs. is_upper c \<and> c_CompositeKey c = key \<longrightarrow> satisfies c v)"
proof (cases "bound_of is_upper key cs")
  case None
  then have "\<not> (is_upper c \<and> c_CompositeKey c = key)" if "c \<in> set cs" for c
    using that by (auto simp: bound_of_def find_None_iff)
  with None show ?thesis
    by (auto simp: UpperBoundValue_def range_of_def below_def)
next
  case (Some c)
  note c = bound_of_Some [OF Some]
  have "(\<forall>c' \<in> set cs. is_upper c' \<and> c_CompositeKey c' = key \<longrightarrow> satisfies c' v) \<longleftrightarrow> satisfies c v"
    using c bound_unique [OF _ Some] assms unfolding sole_bounds_def by blast
  moreover obtain b where "c_Operand c = Some (OInt b)" "- (2 ^ 63) < b" "b < 2 ^ 63 - 1"
    using assms c unfolding sole_bounds_def by blast
  moreover from this have "i64 (b - 1) = b - 1"
    by (intro i64_id) (simp add: in_i64_def)
  ultimately show ?thesis
    using c(2) Some by (auto simp: UpperBoundValue_def range_of_def below_def satisfies_def is_upper_def)
qed

lemma range_bounds:
  assumes "sole_bounds cs"
  shows "\<exists>l u. LowerBoundValue (range_of key cs) = Ok l \<and> UpperBoundValue (range_of key cs) = Ok u \<and>
    (\<forall>v. in_bounds l u v = Ok (\<forall>c \<in> set cs. IsRangeOperation (c_Op c) \<and> c_CompositeKey c = key \<longrightarrow> satisfies c v))"
proof -
  obtain l u where lu: "LowerBoundValue (range_of key cs) = Ok l" "UpperBoundValue (range_of key cs) = Ok u"
    using lower_admits [OF assms, of key 0] upper_admits [OF assms, of key 0] by blast
  have "in_bounds l u v = Ok (\<forall>c \<in> set cs. IsRangeOperation (c_Op c) \<and> c_CompositeKey c = key \<longrightarrow> satisfies c v)" for v
    using lower_admits [OF assms, of key v] upper_admits [OF assms, of key v] lu
    by (auto simp: in_bounds_def range_op_cases(1))
  with lu show ?thesis by blast
qed

lemma AnyBound_ranged:
  assumes "sole_bounds cs" and "ranged key cs"
  shows "\<exists>b. AnyBound (range_of key cs) = Some (OInt b)"
proof -
  have num: "\<exists>b. c_Operand c = Some (OInt b)" if "bound_of P key cs = Some c" "P = is_lower \<or> P = is_upper" for P c
    using bound_of_Some [OF that(1)] that(2) assms(1) unfolding sole_bounds_def by blast
  have "bound_of is_lower key cs \<noteq> None \<or> bound_of is_upper key cs \<noteq> None"
    using assms(2) unfolding ranged_def bound_of_None [symmetric] by (auto simp: range_op_cases(1) filter_empty_conv)
  then show ?thesis
    using num [of is_lower] num [of is_upper]
    by (cases "bound_of is_lower key cs"; cases "bound_of is_upper key cs") (auto simp: AnyBound_def range_of_def)
qed

lemma ranges_from_distinct: "distinct (map fst ranges) \<Longrightarrow> distinct (map fst (fst (ranges_from i ranges cs)))"
  by (induction cs arbitrary: i ranges) (simp_all add: Let_def case_prod_unfold AList.distinct_update)

lemma LookForRanges_set:
  assumes "sole_bounds cs"
  shows "(key, qr) \<in> set (fst (LookForRanges cs)) \<longleftrightarrow> ranged key cs \<and> qr = range_of key cs"
proof -
  have "distinct (map fst (fst (LookForRanges cs)))"
    by (simp add: LookForRanges_def ranges_from_distinct)
  from map_of_eq_Some_iff [OF this, of key qr] show ?thesis
    using LookForRanges_run [OF assms, of key] by (auto split: if_splits)
qed

lemma range_of_admits:
  assumes "sole_bounds cs"
  shows "range_admits (range_of key cs) v =
    Ok (\<forall>c \<in> set cs. IsRangeOperation (c_Op c) \<and> c_CompositeKey c = key \<longrightarrow> satisfies c v)"
  using lower_admits [OF assms, of key v] upper_admits [OF assms, of key v]
  by (auto simp: range_admits_def in_bounds_def range_op_cases(1))

subsection \<open>Properties\<close>



text \<open>
  Of two lower bounds on a key the later one counts, but it inherits the inclusion of the earlier
  one: with \<open>x >= 5 AND x > 7\<close> the number 7 is admitted. Excluding the greatest number wraps around and
  admits every number. An excluded bound that is not a whole number panics.
\<close>

lemma range_bounds_go_wrong:
  "map_option (\<lambda>qr. range_admits qr 7) (map_of (fst (LookForRanges
      [\<lparr>c_CompositeKey = key, c_Op = OpGreaterEqual, c_Operand = Some (OInt 5)\<rparr>,
       \<lparr>c_CompositeKey = key, c_Op = OpGreater, c_Operand = Some (OInt 7)\<rparr>])) key) = Some (Ok True) \<and>
   map_option (\<lambda>qr. range_admits qr (- (2 ^ 63))) (map_of (fst (LookForRanges
      [\<lparr>c_CompositeKey = key, c_Op = OpGreater, c_Operand = Some (OInt (2 ^ 63 - 1))\<rparr>])) key) = Some (Ok True) \<and>
   map_option (\<lambda>qr. range_admits qr v) (map_of (fst (LookForRanges
      [\<lparr>c_CompositeKey = key, c_Op = OpLess, c_Operand = Some (OFloat f)\<rparr>])) key) = Some (Panic ''not implemented'')"
proof -
  have "i64 (2 ^ 63) = - (2 ^ 63)"
    by (simp add: i64_def signed_take_bit_eq_if_positive signed_take_bit_int_eq_self_iff)
  then show ?thesis
    by (simp add: LookForRanges_def IsRangeOperation_def narrow_def new_range_def range_admits_def LowerBoundValue_def
        UpperBoundValue_def in_bounds_def above_def below_def)
qed

end
