(* ===== verification/TxIndex.thy ===== *)
theory TxIndex
  imports Executor QueryRange
begin

text \<open>
  The transaction index of \<open>src/state/txindex\<close>: results of transactions are stored under their hash,
  and the hash under a key for the height and for every indexed attribute of their events. A search
  intersects what its conditions find in the index. The hash of a transaction, the wire format of a
  result and the printing of operands that are neither numbers nor strings are outside the
  repository, as are the names of the keys for hash and height: they are fields of \<open>txindex_env\<close>.
  Stores are those of theory \<open>KVStore\<close>.
\<close>

subsection \<open>Results and keys\<close>

record TxResult =
  tr_Height :: int
  tr_Index :: u32
  tr_Tx :: Tx
  tr_Result :: ResponseDeliverTx

record txindex_env =
  te_Hash :: "Tx \<Rightarrow> bytes"
  te_Marshal :: "TxResult \<Rightarrow> bytes outcome"
  te_Unmarshal :: "bytes \<Rightarrow> TxResult outcome"
  te_TxHashKey :: gostring
  te_TxHeightKey :: gostring
  te_print :: "operand option \<Rightarrow> gostring"

definition slash :: byte where
  "slash = 0x2f"

text \<open>\<open>fmt.Sprintf("%v", operand)\<close>.\<close>

definition print_operand :: "txindex_env \<Rightarrow> operand option \<Rightarrow> gostring" where
  "print_operand E x =
     (case x of Some (OInt n) \<Rightarrow> FormatInt n | Some (OString s) \<Rightarrow> s | _ \<Rightarrow> te_print E x)"

definition isTagKey :: "bytes \<Rightarrow> bool" where
  "isTagKey key \<longleftrightarrow> length (filter (\<lambda>c. c = slash) key) = 3"

text \<open>\<open>strings.SplitN(key, "/", 3)[1]\<close>.\<close>

definition extractValueFromKey :: "bytes \<Rightarrow> gostring outcome" where
  "extractValueFromKey key =
     (case dropWhile (\<lambda>c. c \<noteq> slash) key of
        [] \<Rightarrow> Panic ''index out of range''
      | _ # rest \<Rightarrow> Ok (takeWhile (\<lambda>c. c \<noteq> slash) rest))"

definition keyForEvent :: "gostring \<Rightarrow> bytes \<Rightarrow> TxResult \<Rightarrow> bytes" where
  "keyForEvent key val result =
     key @ [slash] @ val @ [slash] @ FormatInt (tr_Height result) @ [slash] @ digits (unat (tr_Index result))"

definition keyForHeight :: "txindex_env \<Rightarrow> TxResult \<Rightarrow> bytes" where
  "keyForHeight E result =
     te_TxHeightKey E @ [slash] @ FormatInt (tr_Height result) @ [slash] @ FormatInt (tr_Height result) @ [slash] @
     digits (unat (tr_Index result))"

definition startKey :: "gostring list \<Rightarrow> bytes" where
  "startKey fs = concat (map (\<lambda>f. f @ [slash]) fs)"

definition startKeyForCondition :: "txindex_env \<Rightarrow> Condition \<Rightarrow> int \<Rightarrow> bytes" where
  "startKeyForCondition E c height =
     (if height > 0 then startKey [c_CompositeKey c, print_operand E (c_Operand c), FormatInt height]
      else startKey [c_CompositeKey c, print_operand E (c_Operand c)])"

subsection \<open>Batches of results\<close>

text \<open>\<open>NewBatch(n)\<close> has \<open>n\<close> nil results.\<close>

type_synonym tx_batch = "TxResult option list"

definition NewBatch :: "int \<Rightarrow> tx_batch outcome" where
  "NewBatch n = (if n < 0 then Panic ''makeslice: len out of range'' else Ok (replicate (nat n) None))"

definition Batch_Add :: "TxResult \<Rightarrow> tx_batch \<Rightarrow> tx_batch outcome" where
  "Batch_Add result b =
     (if unat (tr_Index result) < length b then Ok (b[unat (tr_Index result) := Some result])
      else Panic ''index out of range'')"

definition txbatch_Size :: "tx_batch \<Rightarrow> nat" where
  "txbatch_Size b = length b"

subsection \<open>Writing the index\<close>

fun index_attributes :: "'db KVStore \<Rightarrow> 'db \<Rightarrow> TxResult \<Rightarrow> bytes \<Rightarrow> gostring \<Rightarrow> EventAttribute list \<Rightarrow>
    kv_write list \<Rightarrow> kv_write list outcome" where
  "index_attributes kv db result hash typ [] b = Ok b"
| "index_attributes kv db result hash typ (attr # attrs) b =
     (if ea_Key attr = [] then index_attributes kv db result hash typ attrs b
      else
        let compositeTag = typ @ [dot] @ ea_Key attr in
        if ea_Index attr
        then bind_out (batch_Set kv db b (keyForEvent compositeTag (ea_Value attr) result) hash)
               (\<lambda>b'. index_attributes kv db result hash typ attrs b')
        else index_attributes kv db result hash typ attrs b)"

fun indexEvents :: "'db KVStore \<Rightarrow> 'db \<Rightarrow> TxResult \<Rightarrow> bytes \<Rightarrow> Event list \<Rightarrow> kv_write list \<Rightarrow> kv_write list outcome" where
  "indexEvents kv db result hash [] b = Ok b"
| "indexEvents kv db result hash (event # events) b =
     (if e_Type event = [] then indexEvents kv db result hash events b
      else bind_out (index_attributes kv db result hash (e_Type event) (e_Attributes event) b)
             (\<lambda>b'. indexEvents kv db result hash events b'))"

text \<open>The writes for one result, in the loop of \<open>AddBatch\<close> and in \<open>Index\<close>.\<close>

definition index_result :: "txindex_env \<Rightarrow> 'db KVStore \<Rightarrow> 'db \<Rightarrow> TxResult \<Rightarrow> kv_write list \<Rightarrow> kv_write list outcome" where
  "index_result E kv db result b =
     (let hash = te_Hash E (tr_Tx result) in
      bind_out (indexEvents kv db result hash (dt_Events (tr_Result result)) b) (\<lambda>b1.
      bind_out (batch_Set kv db b1 (keyForHeight E result) hash) (\<lambda>b2.
      bind_out (te_Marshal E result) (\<lambda>rawBytes.
        batch_Set kv db b2 hash rawBytes))))"

fun index_results :: "txindex_env \<Rightarrow> 'db KVStore \<Rightarrow> 'db \<Rightarrow> tx_batch \<Rightarrow> kv_write list \<Rightarrow> kv_write list outcome" where
  "index_results E kv db [] b = Ok b"
| "index_results E kv db (None # ops) b = Panic ''nil pointer dereference''"
| "index_results E kv db (Some result # ops) b =
     bind_out (index_result E kv db result b) (\<lambda>b'. index_results E kv db ops b')"

definition AddBatch :: "txindex_env \<Rightarrow> 'db KVStore \<Rightarrow> tx_batch \<Rightarrow> ('db, unit) cmd" where
  "AddBatch E kv ops db =
     (case index_results E kv db ops (kv_NewBatch kv) of
        Ok b \<Rightarrow> batch_Commit kv b db
      | Err e \<Rightarrow> (Err e, db)
      | Panic p \<Rightarrow> (Panic p, db))"

definition TxIndex_Index :: "txindex_env \<Rightarrow> 'db KVStore \<Rightarrow> TxResult \<Rightarrow> ('db, unit) cmd" where
  "TxIndex_Index E kv result db =
     (case index_result E kv db result (kv_NewBatch kv) of
        Ok b \<Rightarrow> batch_Commit kv b db
      | Err e \<Rightarrow> (Err e, db)
      | Panic p \<Rightarrow> (Panic p, db))"

subsection \<open>Reading the index\<close>

text \<open>An empty stored value comes back as nil.\<close>

definition TxIndex_Get :: "txindex_env \<Rightarrow> 'db KVStore \<Rightarrow> 'db \<Rightarrow> bytes \<Rightarrow> TxResult option outcome" where
  "TxIndex_Get E kv db hash =
     (if hash = [] then Err (Errorf ''transaction hash cannot be empty'')
      else
        case kv_Get kv db hash of
          Panic p \<Rightarrow> Panic p
        | Err _ \<Rightarrow> Ok None
        | Ok rawBytes \<Rightarrow>
            if rawBytes = [] then Ok None
            else wrap_err ''error reading TxResult'' (bind_out (te_Unmarshal E rawBytes) (\<lambda>r. Ok (Some r))))"

fun lookForHash :: "txindex_env \<Rightarrow> Condition list \<Rightarrow> bytes option outcome" where
  "lookForHash E [] = Ok None"
| "lookForHash E (c # cs) =
     (if c_CompositeKey c = te_TxHashKey E
      then (case c_Operand c of
              Some (OString s) \<Rightarrow> bind_out (DecodeString s) (\<lambda>h. Ok (Some h))
            | _ \<Rightarrow> Panic ''interface conversion'')
      else lookForHash E cs)"

fun lookForHeight :: "txindex_env \<Rightarrow> Condition list \<Rightarrow> int outcome" where
  "lookForHeight E [] = Ok 0"
| "lookForHeight E (c # cs) =
     (if c_CompositeKey c = te_TxHeightKey E \<and> c_Op c = OpEqual
      then (case c_Operand c of Some (OInt n) \<Rightarrow> Ok n | _ \<Rightarrow> Panic ''interface conversion'')
      else lookForHeight E cs)"

text \<open>\<open>strings.Contains\<close>.\<close>

definition Contains :: "gostring \<Rightarrow> gostring \<Rightarrow> bool" where
  "Contains s sub \<longleftrightarrow> sublist sub s"

definition value_of_tag :: "bytes \<Rightarrow> gostring option" where
  "value_of_tag key =
     (if isTagKey key then (case extractValueFromKey key of Ok s \<Rightarrow> Some s | _ \<Rightarrow> None) else None)"

definition pick_containing :: "Condition \<Rightarrow> bytes \<times> bytes \<Rightarrow> bool option outcome" where
  "pick_containing c item =
     (case value_of_tag (fst item) of
        None \<Rightarrow> Ok None
      | Some s \<Rightarrow>
          (case c_Operand c of
             Some (OString sub) \<Rightarrow> Ok (Some (Contains s sub))
           | _ \<Rightarrow> Panic ''interface conversion''))"

definition txi_match :: "'db KVStore \<Rightarrow> 'db \<Rightarrow> Condition \<Rightarrow> bytes \<Rightarrow> bytes list \<Rightarrow> bool \<Rightarrow> ctx \<Rightarrow>
    (bytes list \<times> ctx) outcome" where
  "txi_match kv db c startKeyBz filteredHashes firstRun ctx =
     (if \<not> firstRun \<and> filteredHashes = [] then Ok (filteredHashes, ctx)
      else
        bind_out
          (case c_Op c of
             OpEqual \<Rightarrow> collect (\<lambda>_. Ok (Some True)) (kv_PrefixIterator kv db startKeyBz) [] ctx
           | OpExists \<Rightarrow> collect (\<lambda>_. Ok (Some True)) (kv_PrefixIterator kv db (startKey [c_CompositeKey c])) [] ctx
           | OpContains \<Rightarrow> collect (pick_containing c) (kv_PrefixIterator kv db (startKey [c_CompositeKey c])) [] ctx
           | _ \<Rightarrow> Panic ''other operators should be handled already'')
          (\<lambda>t. Ok (merge_matches filteredHashes firstRun t)))"

definition txi_matchRange :: "'db KVStore \<Rightarrow> 'db \<Rightarrow> QueryRange \<Rightarrow> bytes \<Rightarrow> bytes list \<Rightarrow> bool \<Rightarrow> ctx \<Rightarrow>
    (bytes list \<times> ctx) outcome" where
  "txi_matchRange kv db qr startKeyBz filteredHashes firstRun ctx =
     (if \<not> firstRun \<and> filteredHashes = [] then Ok (filteredHashes, ctx)
      else
        bind_out (LowerBoundValue qr) (\<lambda>lowerBound.
        bind_out (UpperBoundValue qr) (\<lambda>upperBound.
        bind_out (collect (pick_in_range qr lowerBound upperBound value_of_tag) (kv_PrefixIterator kv db startKeyBz) [] ctx)
          (\<lambda>t. Ok (merge_matches filteredHashes firstRun t)))))"

text \<open>
  The two loops of the search over ranges and over the other conditions: each carries whether a
  condition was matched before, and stops when the first match finds nothing. The step is the same
  but for what it matches.
\<close>

fun match_all :: "('a \<Rightarrow> bytes list \<Rightarrow> bool \<Rightarrow> ctx \<Rightarrow> (bytes list \<times> ctx) outcome) \<Rightarrow> 'a list \<Rightarrow>
    bytes list \<times> bool \<times> ctx \<Rightarrow> (bytes list \<times> bool \<times> ctx) outcome" where
  "match_all m [] (filtered, initialized, ctx) = Ok (filtered, initialized, ctx)"
| "match_all m (x # xs) (filtered, initialized, ctx) =
     bind_out (m x filtered (\<not> initialized) ctx) (\<lambda>(filtered', ctx').
       if \<not> initialized \<and> filtered' = [] then Ok (filtered', True, ctx')
       else match_all m xs (filtered', True, ctx'))"

definition intInSlice :: "nat \<Rightarrow> nat list \<Rightarrow> bool" where
  "intInSlice a list \<longleftrightarrow> a \<in> set list"

definition other_conditions :: "Condition list \<Rightarrow> nat list \<Rightarrow> Condition list" where
  "other_conditions conditions skipIndexes =
     map snd (filter (\<lambda>(i, c). \<not> intInSlice i skipIndexes) (zip [0..<length conditions] conditions))"

fun get_results :: "txindex_env \<Rightarrow> 'db KVStore \<Rightarrow> 'db \<Rightarrow> bytes list \<Rightarrow> ctx \<Rightarrow> TxResult list outcome" where
  "get_results E kv db [] ctx = Ok []"
| "get_results E kv db (h # hs) ctx =
     bind_out (wrap_err ''failed to get Tx'' (TxIndex_Get E kv db h)) (\<lambda>res.
       case res of
         None \<Rightarrow> get_results E kv db hs ctx
       | Some r \<Rightarrow>
           (case ctx_Done ctx of
              (True, _) \<Rightarrow> Ok [r]
            | (False, ctx') \<Rightarrow> bind_out (get_results E kv db hs ctx') (\<lambda>rs. Ok (r # rs))))"

definition search_hashes :: "txindex_env \<Rightarrow> 'db KVStore \<Rightarrow> 'db \<Rightarrow> Condition list \<Rightarrow> ctx \<Rightarrow> (bytes list \<times> ctx) outcome" where
  "search_hashes E kv db conditions ctx =
     (let (ranges, rangeIndexes) = LookForRanges conditions in
      bind_out (match_all (\<lambda>(key, qr). txi_matchRange kv db qr (startKey [qr_Key qr])) ranges ([], False, ctx)) (\<lambda>st.
      bind_out (lookForHeight E conditions) (\<lambda>height.
      bind_out (match_all (\<lambda>c. txi_match kv db c (startKeyForCondition E c height))
          (other_conditions conditions rangeIndexes) st) (\<lambda>(filtered, _, ctx'). Ok (filtered, ctx')))))"

definition TxIndex_Search :: "txindex_env \<Rightarrow> 'db KVStore \<Rightarrow> 'db \<Rightarrow> Condition list outcome \<Rightarrow> ctx \<Rightarrow> TxResult list outcome" where
  "TxIndex_Search E kv db q ctx =
     (case ctx_Done ctx of
        (True, _) \<Rightarrow> Ok []
      | (False, ctx1) \<Rightarrow>
          bind_out (wrap_err ''error during parsing conditions from query'' q) (\<lambda>conditions.
          bind_out (wrap_err ''error during searching for a hash in the query'' (lookForHash E conditions)) (\<lambda>found.
            case found of
              Some hash \<Rightarrow>
                bind_out (wrap_err ''error while retrieving the result'' (TxIndex_Get E kv db hash)) (\<lambda>res.
                  Ok (case res of None \<Rightarrow> [] | Some r \<Rightarrow> [r]))
            | None \<Rightarrow>
                bind_out (search_hashes E kv db conditions ctx1) (\<lambda>(filteredHashes, ctx2).
                  get_results E kv db filteredHashes ctx2))))"

subsection \<open>Keys and their parts\<close>

lemma slash_split:
  assumes "slash \<notin> set s" and "slash \<notin> set t"
  shows "prefix (s @ slash # p) (t @ slash # q) \<longleftrightarrow> s = t \<and> prefix p q"
    and "s @ slash # p = t @ slash # q \<longleftrightarrow> s = t \<and> p = q"
proof -
  have "(prefix (s @ slash # p) (t @ slash # q) \<longleftrightarrow> s = t \<and> prefix p q) \<and>
      (s @ slash # p = t @ slash # q \<longleftrightarrow> s = t \<and> p = q)"
    using assms
  proof (induction s arbitrary: t)
    case Nil
    then show ?case by (cases t) auto
  next
    case (Cons c s)
    then show ?case by (cases t) auto
  qed
  then show "prefix (s @ slash # p) (t @ slash # q) \<longleftrightarrow> s = t \<and> prefix p q"
    "s @ slash # p = t @ slash # q \<longleftrightarrow> s = t \<and> p = q" by blast+
qed

lemma slash_digit: "d < 10 \<Longrightarrow> 0x30 + word_of_nat d \<noteq> slash"
proof -
  assume "d < 10"
  then have "d \<in> {0, 1, 2, 3, 4, 5, 6, 7, 8, 9}" by auto
  then show ?thesis by (auto simp: slash_def)
qed

lemma digits_range: "c \<in> set (digits n) \<Longrightarrow> \<exists>d < 10. c = 0x30 + word_of_nat d"
proof (induction n arbitrary: c rule: digits.induct)
  case (1 n)
  show ?case
  proof (cases "n < 10")
    case True
    with 1(2) show ?thesis by (auto simp: digits.simps [of n])
  next
    case False
    with 1(2) have "c \<in> set (digits (n div 10)) \<or> c = 0x30 + word_of_nat (n mod 10)"
      by (auto simp: digits.simps [of n])
    with 1(1) [OF False] show ?thesis by (metis mod_less_divisor zero_less_numeral)
  qed
qed

lemma slash_notin_digits [simp]: "slash \<notin> set (digits n)"
  using digits_range [of slash n] slash_digit by metis

lemma slash_notin_FormatInt [simp]: "slash \<notin> set (FormatInt n)"
proof -
  have "slash \<noteq> 0x2d" by (simp add: slash_def)
  then show ?thesis by (simp add: FormatInt_def)
qed

lemma digits_inject [simp]: "digits m = digits n \<longleftrightarrow> m = n"
  by (metis digits_value_digits option.inject)

lemma sign_notin_digits: "0x2d \<notin> set (digits n)" "0x2b \<notin> set (digits n)"
proof -
  have "(0x2d :: byte) \<noteq> 0x30 + word_of_nat d" "(0x2b :: byte) \<noteq> 0x30 + word_of_nat d" if "d < 10" for d
  proof -
    have "d \<in> {0, 1, 2, 3, 4, 5, 6, 7, 8, 9}" using that by auto
    then show "(0x2d :: byte) \<noteq> 0x30 + word_of_nat d" "(0x2b :: byte) \<noteq> 0x30 + word_of_nat d" by auto
  qed
  then show "0x2d \<notin> set (digits n)" "0x2b \<notin> set (digits n)"
    using digits_range by blast+
qed

lemmas minus_notin_digits = sign_notin_digits(1) and plus_notin_digits = sign_notin_digits(2)

lemma FormatInt_inject [simp]: "FormatInt m = FormatInt n \<longleftrightarrow> m = n"
  using minus_notin_digits [of "nat m"] minus_notin_digits [of "nat n"]
  by (auto simp: FormatInt_def) (metis list.set_intros(1))+

lemma ParseInt_FormatInt:
  assumes "in_i64 n"
  shows "ParseInt (FormatInt n) = Ok n"
proof (cases "n < 0")
  case True
  then have "nat (- n) \<le> 2 ^ 63"
    using assms by (simp add: in_i64_def)
  with True show ?thesis
    by (simp add: ParseInt_def FormatInt_def digits_value_digits)
next
  case False
  then have small: "nat n < 2 ^ 63"
    using assms by (simp add: in_i64_def nat_less_iff)
  obtain c s where s: "digits (nat n) = c # s"
    by (cases "digits (nat n)") simp_all
  have "c \<noteq> 0x2d" "c \<noteq> 0x2b"
    using minus_notin_digits [of "nat n"] plus_notin_digits [of "nat n"] by (auto simp: s)
  moreover have "digits_value (c # s) 0 = Some (nat n)"
    using digits_value_digits [of "nat n"] by (simp add: s)
  ultimately show ?thesis
    using False small by (simp add: ParseInt_def FormatInt_def s)
qed

text \<open>The parts of a key for an event whose tag and value have no slash.\<close>

lemma event_key_prefix:
  assumes "slash \<notin> set t" "slash \<notin> set x" "slash \<notin> set k" "slash \<notin> set v"
  shows "prefix (startKey [k]) (keyForEvent t x r) \<longleftrightarrow> k = t"
    and "prefix (startKey [k, v]) (keyForEvent t x r) \<longleftrightarrow> k = t \<and> v = x"
    and "prefix (startKey [k, v, FormatInt n]) (keyForEvent t x r) \<longleftrightarrow> k = t \<and> v = x \<and> n = tr_Height r"
  using assms by (simp_all add: startKey_def keyForEvent_def slash_split)

lemma event_key_inject:
  assumes "slash \<notin> set t" "slash \<notin> set x" "slash \<notin> set t'" "slash \<notin> set x'"
  shows "keyForEvent t x r = keyForEvent t' x' r' \<longleftrightarrow>
    t = t' \<and> x = x' \<and> tr_Height r = tr_Height r' \<and> tr_Index r = tr_Index r'"
proof -
  have "unat (tr_Index r) = unat (tr_Index r') \<longleftrightarrow> tr_Index r = tr_Index r'"
    by (metis unsigned_word_eqI)
  then show ?thesis
    using assms by (simp add: keyForEvent_def slash_split)
qed

lemma event_key_value:
  assumes "slash \<notin> set t" "slash \<notin> set x"
  shows "value_of_tag (keyForEvent t x r) = Some x"
  using assms
  by (simp add: value_of_tag_def isTagKey_def keyForEvent_def extractValueFromKey_def dropWhile_append3 filter_empty_conv)

subsection \<open>What the index holds\<close>

text \<open>The tags of a result: its height, and its indexed attributes with their composite keys.\<close>

definition attributes_of :: "TxResult \<Rightarrow> (gostring \<times> bytes) list" where
  "attributes_of r =
     concat (map (\<lambda>e. if e_Type e = [] then []
                      else map (\<lambda>a. (e_Type e @ [dot] @ ea_Key a, ea_Value a))
                             (filter (\<lambda>a. ea_Key a \<noteq> [] \<and> ea_Index a) (e_Attributes e)))
              (dt_Events (tr_Result r)))"

definition tags_of :: "txindex_env \<Rightarrow> TxResult \<Rightarrow> (gostring \<times> bytes) list" where
  "tags_of E r = attributes_of r @ [(te_TxHeightKey E, FormatInt (tr_Height r))]"

definition hash_of :: "txindex_env \<Rightarrow> TxResult \<Rightarrow> bytes" where
  "hash_of E r = te_Hash E (tr_Tx r)"

definition tag_entries :: "txindex_env \<Rightarrow> TxResult \<Rightarrow> (bytes \<times> bytes) list" where
  "tag_entries E r = map (\<lambda>(t, x). (keyForEvent t x r, hash_of E r)) (tags_of E r)"

definition entries :: "txindex_env \<Rightarrow> TxResult \<Rightarrow> (bytes \<times> bytes) list" where
  "entries E r = tag_entries E r @ (case te_Marshal E r of Ok bs \<Rightarrow> [(hash_of E r, bs)] | _ \<Rightarrow> [])"

text \<open>
  Results that do not disturb each other in the index, with \<open>T\<close> the tag names in use: they differ in
  their hashes and in their places in the chain, no tag or value has a slash, no hash starts like a
  tag key, no event claims the name of the height, and the wire format round-trips.
\<close>

definition clean :: "txindex_env \<Rightarrow> gostring set \<Rightarrow> TxResult list \<Rightarrow> bool" where
  "clean E T rs \<longleftrightarrow>
     inj_on (hash_of E) (set rs) \<and> inj_on (\<lambda>r. (tr_Height r, tr_Index r)) (set rs) \<and>
     (\<forall>t \<in> T. slash \<notin> set t) \<and>
     (\<forall>r \<in> set rs.
        in_i64 (tr_Height r) \<and> hash_of E r \<noteq> [] \<and> (\<forall>t \<in> T. \<not> prefix (t @ [slash]) (hash_of E r)) \<and>
        (\<forall>(t, x) \<in> set (tags_of E r). t \<in> T \<and> slash \<notin> set x) \<and>
        (\<forall>(t, x) \<in> set (attributes_of r). t \<noteq> te_TxHeightKey E) \<and>
        (\<exists>bs. te_Marshal E r = Ok bs \<and> bs \<noteq> [] \<and> te_Unmarshal E bs = Ok r))"

text \<open>The index of \<open>rs\<close>; keys that no search on \<open>T\<close> reads are left open.\<close>

definition holds_index :: "txindex_env \<Rightarrow> gostring set \<Rightarrow> (bytes \<rightharpoonup> bytes) \<Rightarrow> TxResult list \<Rightarrow> bool" where
  "holds_index E T M rs \<longleftrightarrow>
     (\<forall>t \<in> T. \<forall>k v. prefix (t @ [slash]) k \<longrightarrow> (M k = Some v \<longleftrightarrow> (\<exists>r \<in> set rs. (k, v) \<in> set (tag_entries E r)))) \<and>
     (\<forall>r \<in> set rs. \<exists>bs. te_Marshal E r = Ok bs \<and> M (hash_of E r) = Some bs)"

lemma cleanD:
  assumes "clean E T rs" and "r \<in> set rs"
  shows "in_i64 (tr_Height r)" "hash_of E r \<noteq> []" "\<And>t. t \<in> T \<Longrightarrow> \<not> prefix (t @ [slash]) (hash_of E r)"
    "\<And>t x. (t, x) \<in> set (tags_of E r) \<Longrightarrow> t \<in> T \<and> slash \<notin> set x \<and> slash \<notin> set t"
    "\<And>x. (te_TxHeightKey E, x) \<notin> set (attributes_of r)"
    "\<exists>bs. te_Marshal E r = Ok bs \<and> bs \<noteq> [] \<and> te_Unmarshal E bs = Ok r"
  using assms unfolding clean_def by fast+

lemma clean_mono: "clean E T rs \<Longrightarrow> set rs' \<subseteq> set rs \<Longrightarrow> clean E T rs'"
  unfolding clean_def by (intro conjI; (elim conjE)?) (blast intro: inj_on_subset)+

lemma tag_entries_iff:
  "(k, v) \<in> set (tag_entries E r) \<longleftrightarrow> (\<exists>t x. (t, x) \<in> set (tags_of E r) \<and> k = keyForEvent t x r \<and> v = hash_of E r)"
  by (auto simp: tag_entries_def)

text \<open>Two results write the same tag key only if they are the same.\<close>

lemma tag_entries_agree:
  assumes "clean E T rs" and "r \<in> set rs" "r' \<in> set rs"
    and "(k, v) \<in> set (tag_entries E r)" "(k, v') \<in> set (tag_entries E r')"
  shows "v = v'"
proof -
  obtain t x t' x' where tx: "(t, x) \<in> set (tags_of E r)" "(t', x') \<in> set (tags_of E r')"
    and k: "k = keyForEvent t x r" "k = keyForEvent t' x' r'" and v: "v = hash_of E r" "v' = hash_of E r'"
    using assms(4,5) by (auto simp: tag_entries_iff)
  then have "tr_Height r = tr_Height r'" "tr_Index r = tr_Index r'"
    using event_key_inject [of t x t' x' r r'] cleanD(4) [OF assms(1)] assms(2,3) by auto
  then have "r = r'"
    using assms(1-3) unfolding clean_def by (auto dest: inj_onD)
  with v show ?thesis by simp
qed

lemma tag_key_prefix:
  assumes "clean E T rs" and "r \<in> set rs" and "(k, v) \<in> set (tag_entries E r)"
  shows "\<exists>t \<in> T. prefix (t @ [slash]) k"
proof -
  obtain t x where "(t, x) \<in> set (tags_of E r)" "k = keyForEvent t x r"
    using assms(3) by (auto simp: tag_entries_iff)
  moreover from this have "t \<in> T" using cleanD(4) [OF assms(1,2)] by blast
  ultimately show ?thesis by (intro bexI [of _ t]) (simp_all add: keyForEvent_def)
qed

subsection \<open>Writing keeps the index\<close>

definition set_all :: "('k \<times> 'v) list \<Rightarrow> ('k \<rightharpoonup> 'v) \<Rightarrow> 'k \<rightharpoonup> 'v" where
  "set_all es m = fold (\<lambda>(k, v) m. m(k \<mapsto> v)) es m"

lemma set_all_simps [simp]:
  "set_all [] m = m" "set_all ((k, v) # es) m = set_all es (m(k \<mapsto> v))" "set_all (es @ es') m = set_all es' (set_all es m)"
  by (simp_all add: set_all_def)

lemma set_all_iff:
  assumes "\<And>v v'. (k, v) \<in> set es \<Longrightarrow> (k, v') \<in> set es \<Longrightarrow> v = v'"
  shows "set_all es m k = Some v \<longleftrightarrow> (k, v) \<in> set es \<or> ((\<forall>u. (k, u) \<notin> set es) \<and> m k = Some v)"
  using assms
proof (induction es arbitrary: m)
  case (Cons e es)
  obtain k' v' where e: "e = (k', v')" by (cases e)
  have "set_all es (m(k' \<mapsto> v')) k = Some v \<longleftrightarrow> (k, v) \<in> set es \<or> ((\<forall>u. (k, u) \<notin> set es) \<and> (m(k' \<mapsto> v')) k = Some v)"
    by (rule Cons.IH) (use Cons.prems in auto)
  moreover have "u = v'" if "(k, u) \<in> set es" "k = k'" for u
    using Cons.prems [of u v'] that by (simp add: e)
  ultimately show ?case by (auto simp: e)
qed simp

context kv_store
begin

lemma over_batch_Set: "batch_Set kv db b k v = Ok b' \<Longrightarrow> over m (eff b') = (over m (eff b))(k \<mapsto> v)"
  by (simp add: batch_Set_eff over_upd)

lemma index_attributes_run:
  assumes "index_attributes kv db r h typ attrs b = Ok b'"
  shows "over m (eff b') = set_all (map (\<lambda>a. (keyForEvent (typ @ [dot] @ ea_Key a) (ea_Value a) r, h))
    (filter (\<lambda>a. ea_Key a \<noteq> [] \<and> ea_Index a) attrs)) (over m (eff b))"
  using assms
  by (induction attrs arbitrary: b) (auto simp: Let_def bind_out_Ok_iff over_batch_Set split: if_splits)

lemma indexEvents_run:
  assumes "indexEvents kv db r h evs b = Ok b'"
  shows "over m (eff b') = set_all (map (\<lambda>(t, x). (keyForEvent t x r, h))
    (concat (map (\<lambda>e. if e_Type e = [] then []
                      else map (\<lambda>a. (e_Type e @ [dot] @ ea_Key a, ea_Value a))
                             (filter (\<lambda>a. ea_Key a \<noteq> [] \<and> ea_Index a) (e_Attributes e))) evs))) (over m (eff b))"
  using assms
proof (induction evs arbitrary: b)
  case (Cons e evs)
  show ?case
  proof (cases "e_Type e = []")
    case False
    with Cons.prems obtain b1 where b1: "index_attributes kv db r h (e_Type e) (e_Attributes e) b = Ok b1"
      and rest: "indexEvents kv db r h evs b1 = Ok b'"
      by (auto simp: bind_out_Ok_iff)
    show ?thesis
      using False Cons.IH [OF rest] index_attributes_run [OF b1, of m] by (simp add: comp_def)
  qed (use Cons in simp)
qed simp

lemma index_result_run:
  assumes "index_result E kv db r b = Ok b'"
  shows "over m (eff b') = set_all (entries E r) (over m (eff b))"
proof -
  obtain b1 b2 bs where b1: "indexEvents kv db r (hash_of E r) (dt_Events (tr_Result r)) b = Ok b1"
    and b2: "batch_Set kv db b1 (keyForHeight E r) (hash_of E r) = Ok b2" and bs: "te_Marshal E r = Ok bs"
    and b': "batch_Set kv db b2 (hash_of E r) bs = Ok b'"
    using assms by (auto simp: index_result_def Let_def bind_out_Ok_iff hash_of_def)
  have "keyForHeight E r = keyForEvent (te_TxHeightKey E) (FormatInt (tr_Height r)) r"
    by (simp add: keyForHeight_def keyForEvent_def)
  then show ?thesis
    using indexEvents_run [OF b1, of m] over_batch_Set [OF b2, of m] over_batch_Set [OF b', of m] bs
    by (simp add: entries_def tag_entries_def tags_of_def attributes_of_def)
qed

lemma index_results_run:
  assumes "index_results E kv db (map Some rs) b = Ok b'"
  shows "over m (eff b') = set_all (concat (map (entries E) rs)) (over m (eff b))"
  using assms
  by (induction rs arbitrary: b) (auto simp: bind_out_Ok_iff index_result_run)

lemma AddBatch_run:
  assumes "AddBatch E kv (map Some rs) db = (Ok (), db')"
  shows "look db' = set_all (concat (map (entries E) rs)) (look db)"
proof -
  obtain b where b: "index_results E kv db (map Some rs) (kv_NewBatch kv) = Ok b" "batch_Commit kv b db = (Ok (), db')"
    using assms by (auto simp: AddBatch_def split: outcome.splits)
  show ?thesis
    using index_results_run [OF b(1), of "look db"] Commit_Ok [OF b(2)] by (simp add: NewBatch_eff)
qed

end

lemma entries_tag_key:
  assumes "clean E T rs" and "r \<in> set rs" and "t \<in> T" "prefix (t @ [slash]) k"
  shows "(k, v) \<in> set (entries E r) \<longleftrightarrow> (k, v) \<in> set (tag_entries E r)"
  using cleanD(3) [OF assms(1,2,3)] assms(4) by (auto simp: entries_def split: outcome.splits)

lemma entries_hash_key:
  assumes "clean E T rs" and "r \<in> set rs" "r' \<in> set rs"
  shows "(hash_of E r, v) \<in> set (entries E r') \<longleftrightarrow> r' = r \<and> te_Marshal E r = Ok v"
proof -
  have "(hash_of E r, v) \<notin> set (tag_entries E r')"
    using tag_key_prefix [OF assms(1,3)] cleanD(3) [OF assms(1,2)] by blast
  moreover have "hash_of E r' = hash_of E r \<longleftrightarrow> r' = r"
    using assms unfolding clean_def by (auto dest: inj_onD)
  ultimately show ?thesis
    using cleanD(6) [OF assms(1,3)] by (auto simp: entries_def split: outcome.splits)
qed

lemma set_all_tags:
  assumes M: "holds_index E T M rs" and clean: "clean E T (rs @ bs)" and t: "t \<in> T" "prefix (t @ [slash]) k"
  shows "set_all (concat (map (entries E) bs)) M k = Some v \<longleftrightarrow>
    (\<exists>r \<in> set (rs @ bs). (k, v) \<in> set (tag_entries E r))"
proof -
  have es: "(k, u) \<in> set (concat (map (entries E) bs)) \<longleftrightarrow> (\<exists>r \<in> set bs. (k, u) \<in> set (tag_entries E r))" for u
    using entries_tag_key [OF clean _ t] by auto
  have agree: "u = u'" if "r \<in> set (rs @ bs)" "r' \<in> set (rs @ bs)" "(k, u) \<in> set (tag_entries E r)"
    "(k, u') \<in> set (tag_entries E r')" for r r' u u'
    using tag_entries_agree [OF clean that] .
  have "set_all (concat (map (entries E) bs)) M k = Some v \<longleftrightarrow>
      (k, v) \<in> set (concat (map (entries E) bs)) \<or> ((\<forall>u. (k, u) \<notin> set (concat (map (entries E) bs))) \<and> M k = Some v)"
  proof (rule set_all_iff)
    fix u u' assume "(k, u) \<in> set (concat (map (entries E) bs))" "(k, u') \<in> set (concat (map (entries E) bs))"
    then show "u = u'" unfolding es using agree by auto
  qed
  moreover have "M k = Some v \<longleftrightarrow> (\<exists>r \<in> set rs. (k, v) \<in> set (tag_entries E r))"
    using M t unfolding holds_index_def by blast
  ultimately show ?thesis
    unfolding es using agree by (metis Un_iff set_append)
qed

lemma set_all_hash:
  assumes M: "holds_index E T M rs" and clean: "clean E T (rs @ bs)" and r: "r \<in> set (rs @ bs)"
  shows "\<exists>b. te_Marshal E r = Ok b \<and> set_all (concat (map (entries E) bs)) M (hash_of E r) = Some b"
proof -
  obtain b where b: "te_Marshal E r = Ok b" using cleanD(6) [OF clean r] by blast
  have es: "(hash_of E r, u) \<in> set (concat (map (entries E) bs)) \<longleftrightarrow> r \<in> set bs \<and> u = b" for u
    using entries_hash_key [OF clean r] b by auto
  have "set_all (concat (map (entries E) bs)) M (hash_of E r) = Some b \<longleftrightarrow>
      (hash_of E r, b) \<in> set (concat (map (entries E) bs)) \<or>
      ((\<forall>u. (hash_of E r, u) \<notin> set (concat (map (entries E) bs))) \<and> M (hash_of E r) = Some b)"
    by (rule set_all_iff) (simp only: es)
  moreover have "M (hash_of E r) = Some b" if "r \<in> set rs"
    using M b that unfolding holds_index_def by fastforce
  ultimately show ?thesis
    unfolding es using b r by auto
qed

lemma set_all_holds:
  assumes "holds_index E T M rs" and "clean E T (rs @ bs)"
  shows "holds_index E T (set_all (concat (map (entries E) bs)) M) (rs @ bs)"
  using set_all_tags [OF assms] set_all_hash [OF assms] unfolding holds_index_def by blast

lemma Get_held:
  assumes "kv_store kv look eff raw" and "holds_index E T (look db) rs" "clean E T rs" "r \<in> set rs"
  shows "TxIndex_Get E kv db (hash_of E r) = Ok (Some r)"
proof -
  obtain b where b: "te_Marshal E r = Ok b" "b \<noteq> []" "te_Unmarshal E b = Ok r"
    using cleanD(6) [OF assms(3,4)] by blast
  then have "look db (hash_of E r) = Some b"
    using assms(2,4) unfolding holds_index_def by fastforce
  then have "kv_Get kv db (hash_of E r) = Ok b"
    using kv_store.Get_Ok_iff [OF assms(1)] by blast
  then show ?thesis
    using b cleanD(2) [OF assms(3,4)] by (simp add: TxIndex_Get_def)
qed

subsection \<open>Searching\<close>

text \<open>
  What a condition that is not a range asks of tags with values, \<open>pr\<close> being how its operand is printed,
  and what the range conditions on a key ask: one value that satisfies them all.
\<close>

definition tags_meet :: "(operand option \<Rightarrow> gostring) \<Rightarrow> Condition \<Rightarrow> (gostring \<times> bytes) list \<Rightarrow> bool" where
  "tags_meet pr c tags \<longleftrightarrow>
     (case c_Op c of
        OpEqual \<Rightarrow> (c_CompositeKey c, pr (c_Operand c)) \<in> set tags
      | OpExists \<Rightarrow> \<exists>x. (c_CompositeKey c, x) \<in> set tags
      | OpContains \<Rightarrow> \<exists>x. (c_CompositeKey c, x) \<in> set tags \<and> (\<exists>s. c_Operand c = Some (OString s) \<and> sublist s x)
      | _ \<Rightarrow> True)"

definition tags_meet_ranges :: "Condition list \<Rightarrow> gostring \<Rightarrow> (gostring \<times> bytes) list \<Rightarrow> bool" where
  "tags_meet_ranges cs key tags \<longleftrightarrow>
     (\<exists>x v. (key, x) \<in> set tags \<and> ParseInt x = Ok v \<and>
        (\<forall>c \<in> set cs. IsRangeOperation (c_Op c) \<and> c_CompositeKey c = key \<longrightarrow> satisfies c v))"

definition tags_meet_query :: "(operand option \<Rightarrow> gostring) \<Rightarrow> Condition list \<Rightarrow> (gostring \<times> bytes) list \<Rightarrow> bool" where
  "tags_meet_query pr cs tags \<longleftrightarrow>
     (\<forall>c \<in> set cs. tags_meet pr c tags) \<and> (\<forall>key. ranged key cs \<longrightarrow> tags_meet_ranges cs key tags)"

abbreviation meets :: "txindex_env \<Rightarrow> Condition \<Rightarrow> TxResult \<Rightarrow> bool" where
  "meets E c r \<equiv> tags_meet (print_operand E) c (tags_of E r)"

abbreviation meets_ranges :: "txindex_env \<Rightarrow> Condition list \<Rightarrow> gostring \<Rightarrow> TxResult \<Rightarrow> bool" where
  "meets_ranges E cs key r \<equiv> tags_meet_ranges cs key (tags_of E r)"

abbreviation meets_query :: "txindex_env \<Rightarrow> Condition list \<Rightarrow> TxResult \<Rightarrow> bool" where
  "meets_query E cs r \<equiv> tags_meet_query (print_operand E) cs (tags_of E r)"

text \<open>Queries on the tags \<open>T\<close>, other than by hash.\<close>

definition plain_query :: "txindex_env \<Rightarrow> gostring set \<Rightarrow> Condition list \<Rightarrow> bool" where
  "plain_query E T cs \<longleftrightarrow>
     cs \<noteq> [] \<and> sole_bounds cs \<and>
     (\<forall>c \<in> set cs. c_CompositeKey c \<in> T \<and> c_CompositeKey c \<noteq> te_TxHashKey E \<and>
        (c_Op c = OpEqual \<longrightarrow> slash \<notin> set (print_operand E (c_Operand c))) \<and>
        (c_Op c = OpContains \<longrightarrow> (\<exists>s. c_Operand c = Some (OString s))) \<and>
        (c_Op c = OpEqual \<and> c_CompositeKey c = te_TxHeightKey E \<longrightarrow> (\<exists>n. c_Operand c = Some (OInt n))))"

text \<open>One condition: the results it finds, and the intersection with those found so far.\<close>

lemma match_step:
  assumes "\<And>item. item \<in> set items \<Longrightarrow> \<exists>b. pick item = Ok b"
    and "{v. \<exists>k. (k, v) \<in> set items \<and> pick (k, v) = Ok (Some True)} = F"
  shows "\<exists>f'. bind_out (collect pick items [] None) (\<lambda>t. Ok (merge_matches f first t)) = Ok (f', None) \<and>
    set f' = (if first then F else F \<inter> set f) \<and> (distinct f \<longrightarrow> distinct f')"
proof -
  obtain tmp where tmp: "collect pick items [] None = Ok (tmp, None)" "set tmp = F"
    using collect_all [of items pick "[]"] assms by auto
  then have "distinct tmp"
    using collect_distinct by (metis distinct.simps(1))
  with tmp merge_all [of f first tmp] show ?thesis by auto
qed

lemma match_step_all:
  assumes "{v. \<exists>k. (k, v) \<in> set items} = F"
  shows "\<exists>f'. bind_out (collect (\<lambda>_. Ok (Some True)) items [] None) (\<lambda>t. Ok (merge_matches f first t)) = Ok (f', None) \<and>
    set f' = (if first then F else F \<inter> set f) \<and> (distinct f \<longrightarrow> distinct f')"
  by (rule match_step) (use assms in simp_all)

text \<open>A loop over conditions keeps the results that meet all of them.\<close>

lemma match_all_run:
  assumes inj: "inj_on h U"
    and step: "\<And>x f first. x \<in> set xs \<Longrightarrow> \<exists>f'. m x f first None = Ok (f', None) \<and>
      set f' = (if first then h ` {r \<in> U. P x r} else h ` {r \<in> U. P x r} \<inter> set f) \<and> (distinct f \<longrightarrow> distinct f')"
    and "distinct f" and "i \<Longrightarrow> set f = h ` {r \<in> U. Q r}"
  shows "\<exists>f'. match_all m xs (f, i, None) = Ok (f', i \<or> xs \<noteq> [], None) \<and> distinct f' \<and>
    (i \<or> xs \<noteq> [] \<longrightarrow> set f' = h ` {r \<in> U. (i \<longrightarrow> Q r) \<and> (\<forall>x \<in> set xs. P x r)})"
  using assms(2-)
proof (induction xs arbitrary: f i Q)
  case (Cons x xs)
  obtain f1 where f1: "m x f (\<not> i) None = Ok (f1, None)" "distinct f1"
    and s1: "set f1 = (if \<not> i then h ` {r \<in> U. P x r} else h ` {r \<in> U. P x r} \<inter> set f)"
    using Cons.prems(1) [of x f "\<not> i"] Cons.prems(2) by auto
  have set1: "set f1 = h ` {r \<in> U. (i \<longrightarrow> Q r) \<and> P x r}"
  proof (cases i)
    case True
    have "h ` {r \<in> U. P x r} \<inter> h ` {r \<in> U. Q r} = h ` ({r \<in> U. P x r} \<inter> {r \<in> U. Q r})"
      using inj by (intro inj_on_image_Int [symmetric, of h U]) auto
    with True s1 Cons.prems(3) show ?thesis by auto
  qed (use s1 in auto)
  show ?case
  proof (cases "\<not> i \<and> f1 = []")
    case True
    with set1 have "{r \<in> U. P x r} = {}" by auto
    with True f1 show ?thesis by auto
  next
    case False
    obtain f2 where f2: "match_all m xs (f1, True, None) = Ok (f2, True, None)" "distinct f2"
      "set f2 = h ` {r \<in> U. ((i \<longrightarrow> Q r) \<and> P x r) \<and> (\<forall>x \<in> set xs. P x r)}"
      using Cons.IH [of f1 True "\<lambda>r. (i \<longrightarrow> Q r) \<and> P x r"] Cons.prems(1) f1(2) set1 by auto
    have "match_all m (x # xs) (f, i, None) = Ok (f2, True, None)"
      using False f1 f2 by auto
    then show ?thesis using f2 by (simp add: conj_assoc)
  qed
qed simp

lemma other_conditions_set:
  "set (other_conditions cs (snd (LookForRanges cs))) = {c \<in> set cs. \<not> IsRangeOperation (c_Op c)}"
  unfolding other_conditions_def intInSlice_def LookForRanges_indexes
  by (force simp: set_zip in_set_conv_nth)

text \<open>The loops over ranges and over the other conditions, one after the other.\<close>

lemma match_loops:
  assumes inj: "inj_on h U" and sole: "sole_bounds cs" and ne: "cs \<noteq> []"
    and range: "\<And>key f first. ranged key cs \<Longrightarrow> \<exists>f'. m1 (key, range_of key cs) f first None = Ok (f', None) \<and>
      set f' = (if first then h ` {r \<in> U. R key r} else h ` {r \<in> U. R key r} \<inter> set f) \<and> (distinct f \<longrightarrow> distinct f')"
    and other: "\<And>c f first. c \<in> set cs \<Longrightarrow> \<not> IsRangeOperation (c_Op c) \<Longrightarrow> \<exists>f'. m2 c f first None = Ok (f', None) \<and>
      set f' = (if first then h ` {r \<in> U. P c r} else h ` {r \<in> U. P c r} \<inter> set f) \<and> (distinct f \<longrightarrow> distinct f')"
  shows "\<exists>f1 i f2. match_all m1 (fst (LookForRanges cs)) ([], False, None) = Ok (f1, i, None) \<and>
    match_all m2 (other_conditions cs (snd (LookForRanges cs))) (f1, i, None) = Ok (f2, True, None) \<and> distinct f2 \<and>
    set f2 = h ` {r \<in> U. (\<forall>key. ranged key cs \<longrightarrow> R key r) \<and> (\<forall>c \<in> set cs. \<not> IsRangeOperation (c_Op c) \<longrightarrow> P c r)}"
proof -
  define ranges where "ranges = fst (LookForRanges cs)"
  define others where "others = other_conditions cs (snd (LookForRanges cs))"
  note rg = LookForRanges_set [OF sole, folded ranges_def]
  have oc: "set others = {c \<in> set cs. \<not> IsRangeOperation (c_Op c)}"
    by (simp add: others_def other_conditions_set)
  have all: "(\<forall>x \<in> set ranges. R (fst x) r) \<longleftrightarrow> (\<forall>key. ranged key cs \<longrightarrow> R key r)" for r
    using rg by (metis fst_conv prod.collapse)
  have "\<exists>f1. match_all m1 ranges ([], False, None) = Ok (f1, False \<or> ranges \<noteq> [], None) \<and> distinct f1 \<and>
    (False \<or> ranges \<noteq> [] \<longrightarrow> set f1 = h ` {r \<in> U. (False \<longrightarrow> True) \<and> (\<forall>x \<in> set ranges. R (fst x) r)})"
  proof (rule match_all_run [OF inj])
    show "\<exists>f'. m1 x f first None = Ok (f', None) \<and>
        set f' = (if first then h ` {r \<in> U. R (fst x) r} else h ` {r \<in> U. R (fst x) r} \<inter> set f) \<and> (distinct f \<longrightarrow> distinct f')"
      if "x \<in> set ranges" for x f first
    proof -
      obtain key where x: "x = (key, range_of key cs)" and "ranged key cs"
        using rg [of "fst x" "snd x"] \<open>x \<in> set ranges\<close> by (metis prod.collapse)
      from range [OF this(2), of f first] show ?thesis unfolding x fst_conv .
    qed
  qed simp_all
  then obtain f1 where f1: "match_all m1 ranges ([], False, None) = Ok (f1, ranges \<noteq> [], None)" "distinct f1"
    "ranges \<noteq> [] \<Longrightarrow> set f1 = h ` {r \<in> U. \<forall>key. ranged key cs \<longrightarrow> R key r}"
    unfolding all by auto
  have "\<exists>f2. match_all m2 others (f1, ranges \<noteq> [], None) = Ok (f2, ranges \<noteq> [] \<or> others \<noteq> [], None) \<and> distinct f2 \<and>
    (ranges \<noteq> [] \<or> others \<noteq> [] \<longrightarrow> set f2 = h ` {r \<in> U. (ranges \<noteq> [] \<longrightarrow> (\<forall>key. ranged key cs \<longrightarrow> R key r)) \<and> (\<forall>c \<in> set others. P c r)})"
    by (rule match_all_run [OF inj]) (use other oc f1 in auto)
  moreover have "ranges = [] \<Longrightarrow> \<not> ranged key cs" for key
    using rg [of key "range_of key cs"] by auto
  moreover have "ranges \<noteq> [] \<or> others \<noteq> []"
  proof (rule ccontr)
    assume "\<not> ?thesis"
    then have "set others = {}" "ranges = []" by auto
    moreover have "hd cs \<in> set cs" using ne by simp
    ultimately show False using \<open>\<And>key. ranges = [] \<Longrightarrow> \<not> ranged key cs\<close> unfolding oc ranged_def by blast
  qed
  ultimately obtain f2 where "match_all m2 others (f1, ranges \<noteq> [], None) = Ok (f2, True, None)" "distinct f2"
    "set f2 = h ` {r \<in> U. (\<forall>key. ranged key cs \<longrightarrow> R key r) \<and> (\<forall>c \<in> set others. P c r)}"
    by (cases "ranges = []") auto
  moreover have "(\<forall>c \<in> set others. P c r) \<longleftrightarrow> (\<forall>c \<in> set cs. \<not> IsRangeOperation (c_Op c) \<longrightarrow> P c r)" for r
    using oc by blast
  ultimately show ?thesis
    using f1(1) unfolding ranges_def others_def by auto
qed

lemma tags_meet_range_op: "IsRangeOperation (c_Op c) \<Longrightarrow> tags_meet pr c tags"
  by (auto simp: tags_meet_def IsRangeOperation_def)

locale tx_store = kv_store kv look eff raw
  for kv :: "'db KVStore" and look eff raw +
  assumes raw_value: "value_of_tag (raw k) = value_of_tag k"
begin

lemma tag_items:
  assumes "holds_index E T (look db) rs" and "t \<in> T" and "prefix (t @ [slash]) p"
    and "\<And>u x r. r \<in> set rs \<Longrightarrow> (u, x) \<in> set (tags_of E r) \<Longrightarrow> prefix p (keyForEvent u x r) \<longleftrightarrow> Q u x r"
  shows "(k, v) \<in> set (kv_PrefixIterator kv db p) \<longleftrightarrow>
    (\<exists>u x r. r \<in> set rs \<and> (u, x) \<in> set (tags_of E r) \<and> Q u x r \<and> k = raw (keyForEvent u x r) \<and> v = hash_of E r)"
proof -
  have "look db k = Some v \<longleftrightarrow> (\<exists>r \<in> set rs. (k, v) \<in> set (tag_entries E r))" if "prefix p k" for k v
    using assms(1,2) prefix_order.trans [OF assms(3) that] unfolding holds_index_def by blast
  then have "(k, v) \<in> set (kv_PrefixIterator kv db p) \<longleftrightarrow>
      (\<exists>u x r. r \<in> set rs \<and> (u, x) \<in> set (tags_of E r) \<and> prefix p (keyForEvent u x r) \<and>
        k = raw (keyForEvent u x r) \<and> v = hash_of E r)"
    unfolding Iterator_set tag_entries_iff by blast
  then show ?thesis
    using assms(4) by blast
qed

lemma txi_match_run:
  assumes M: "holds_index E T (look db) rs" and clean: "clean E T rs" and c: "c_CompositeKey c \<in> T"
    and op: "\<not> IsRangeOperation (c_Op c)"
    and eq: "c_Op c = OpEqual \<Longrightarrow> slash \<notin> set (print_operand E (c_Operand c))"
    and sub: "c_Op c = OpContains \<Longrightarrow> \<exists>s. c_Operand c = Some (OString s)"
  shows "\<exists>f'. txi_match kv db c (startKeyForCondition E c height) f first None = Ok (f', None) \<and>
    set f' = (if first then hash_of E ` {r \<in> set rs. meets E c r \<and> (c_Op c = OpEqual \<and> height > 0 \<longrightarrow> tr_Height r = height)}
      else hash_of E ` {r \<in> set rs. meets E c r \<and> (c_Op c = OpEqual \<and> height > 0 \<longrightarrow> tr_Height r = height)} \<inter> set f) \<and>
    (distinct f \<longrightarrow> distinct f')"
  (is "\<exists>f'. _ \<and> set f' = (if first then ?F else ?F \<inter> set f) \<and> _")
proof (cases "\<not> first \<and> f = []")
  case False
  let ?k = "c_CompositeKey c"
  have slash: "slash \<notin> set ?k" using clean c unfolding clean_def by blast
  note tag = cleanD(4) [OF clean]
  have items: "(k, v) \<in> set (kv_PrefixIterator kv db (startKey [?k])) \<longleftrightarrow>
      (\<exists>u x r. r \<in> set rs \<and> (u, x) \<in> set (tags_of E r) \<and> ?k = u \<and> k = raw (keyForEvent u x r) \<and> v = hash_of E r)" for k v
    by (rule tag_items [OF M c]) (simp add: startKey_def, use event_key_prefix(1) [OF _ _ slash slash] tag in blast)
  consider "c_Op c = OpEqual" | "c_Op c = OpExists" | "c_Op c = OpContains"
    using op by (cases "c_Op c") (auto simp: IsRangeOperation_def)
  then show ?thesis
  proof cases
    case 1
    let ?o = "print_operand E (c_Operand c)"
    have "(k, v) \<in> set (kv_PrefixIterator kv db (startKeyForCondition E c height)) \<longleftrightarrow>
        (\<exists>u x r. r \<in> set rs \<and> (u, x) \<in> set (tags_of E r) \<and> (?k = u \<and> ?o = x \<and> (height > 0 \<longrightarrow> height = tr_Height r)) \<and>
          k = raw (keyForEvent u x r) \<and> v = hash_of E r)" for k v
    proof (rule tag_items [OF M c])
      show "prefix (?k @ [slash]) (startKeyForCondition E c height)"
        by (simp add: startKeyForCondition_def startKey_def)
      show "prefix (startKeyForCondition E c height) (keyForEvent u x r) \<longleftrightarrow>
          ?k = u \<and> ?o = x \<and> (height > 0 \<longrightarrow> height = tr_Height r)" if "r \<in> set rs" "(u, x) \<in> set (tags_of E r)" for u x r
        using event_key_prefix(2,3) [OF _ _ slash eq [OF 1], of u x] tag [OF that] by (simp add: startKeyForCondition_def)
    qed
    then have "{v. \<exists>k. (k, v) \<in> set (kv_PrefixIterator kv db (startKeyForCondition E c height))} = ?F"
      using 1 by (auto simp: tags_meet_def)
    from match_step_all [OF this, of f first] 1 False show ?thesis
      by (simp add: txi_match_def)
  next
    case 2
    then have "{v. \<exists>k. (k, v) \<in> set (kv_PrefixIterator kv db (startKey [?k]))} = ?F"
      unfolding items by (auto simp: tags_meet_def)
    from match_step_all [OF this, of f first] 2 False show ?thesis
      by (simp add: txi_match_def)
  next
    case 3
    obtain s where s: "c_Operand c = Some (OString s)" using sub [OF 3] by blast
    have pick: "pick_containing c (raw (keyForEvent u x r), h) = Ok (Some (sublist s x))"
      if "r \<in> set rs" "(u, x) \<in> set (tags_of E r)" for u x r h
      using event_key_value [of u x r] tag [OF that] by (simp add: pick_containing_def raw_value s Contains_def)
    have "\<exists>f'. bind_out (collect (pick_containing c) (kv_PrefixIterator kv db (startKey [?k])) [] None)
        (\<lambda>t. Ok (merge_matches f first t)) = Ok (f', None) \<and>
      set f' = (if first then ?F else ?F \<inter> set f) \<and> (distinct f \<longrightarrow> distinct f')"
    proof (rule match_step)
      show "\<exists>b. pick_containing c item = Ok b" if "item \<in> set (kv_PrefixIterator kv db (startKey [?k]))" for item
        using items [of "fst item" "snd item"] pick that by (metis prod.collapse)
      show "{v. \<exists>k. (k, v) \<in> set (kv_PrefixIterator kv db (startKey [?k])) \<and> pick_containing c (k, v) = Ok (Some True)} = ?F"
      proof -
        have "meets E c r \<longleftrightarrow> (\<exists>x. (?k, x) \<in> set (tags_of E r) \<and> sublist s x)" for r
          by (simp add: tags_meet_def 3 s)
        moreover have "pick_containing c (raw (keyForEvent u x r), h) = Ok (Some True) \<longleftrightarrow> sublist s x"
          if "r \<in> set rs" "(u, x) \<in> set (tags_of E r)" for u x r h
          using pick [OF that] by simp
        ultimately show ?thesis
          unfolding items 3 by blast
      qed
    qed
    with 3 False show ?thesis by (simp add: txi_match_def)
  qed
qed (auto simp: txi_match_def)

lemma txi_matchRange_run:
  assumes M: "holds_index E T (look db) rs" and clean: "clean E T rs" and key: "key \<in> T"
    and cs: "sole_bounds cs" "ranged key cs"
  shows "\<exists>f'. txi_matchRange kv db (range_of key cs) (startKey [key]) f first None = Ok (f', None) \<and>
    set f' = (if first then hash_of E ` {r \<in> set rs. meets_ranges E cs key r}
      else hash_of E ` {r \<in> set rs. meets_ranges E cs key r} \<inter> set f) \<and> (distinct f \<longrightarrow> distinct f')"
  (is "\<exists>f'. _ \<and> set f' = (if first then ?F else ?F \<inter> set f) \<and> _")
proof (cases "\<not> first \<and> f = []")
  case False
  let ?all = "\<lambda>v. \<forall>c \<in> set cs. IsRangeOperation (c_Op c) \<and> c_CompositeKey c = key \<longrightarrow> satisfies c v"
  have slash: "slash \<notin> set key" using clean key unfolding clean_def by blast
  note tag = cleanD(4) [OF clean]
  have items: "(k, v) \<in> set (kv_PrefixIterator kv db (startKey [key])) \<longleftrightarrow>
      (\<exists>u x r. r \<in> set rs \<and> (u, x) \<in> set (tags_of E r) \<and> key = u \<and> k = raw (keyForEvent u x r) \<and> v = hash_of E r)" for k v
    by (rule tag_items [OF M key]) (simp add: startKey_def, use event_key_prefix(1) [OF _ _ slash slash] tag in blast)
  obtain l u where lu: "LowerBoundValue (range_of key cs) = Ok l" "UpperBoundValue (range_of key cs) = Ok u"
      "\<And>v. in_bounds l u v = Ok (?all v)"
    using range_bounds [OF cs(1), of key] by blast
  obtain b where b: "AnyBound (range_of key cs) = Some (OInt b)"
    using AnyBound_ranged [OF cs] by blast
  let ?pick = "pick_in_range (range_of key cs) l u value_of_tag"
  have pick: "?pick (raw (keyForEvent t x r), h) = (case ParseInt x of Ok v \<Rightarrow> Ok (Some (?all v)) | _ \<Rightarrow> Ok None)"
    if "r \<in> set rs" "(t, x) \<in> set (tags_of E r)" for t x r h
    using event_key_value [of t x r] tag [OF that] b lu(3)
    by (simp add: pick_in_range_def raw_value split: outcome.split)
  have "\<exists>f'. bind_out (collect ?pick (kv_PrefixIterator kv db (startKey [key])) [] None)
      (\<lambda>t. Ok (merge_matches f first t)) = Ok (f', None) \<and>
    set f' = (if first then ?F else ?F \<inter> set f) \<and> (distinct f \<longrightarrow> distinct f')"
  proof (rule match_step)
    show "\<exists>b. ?pick item = Ok b" for item
      using b lu(3) by (simp add: pick_in_range_def split: option.split outcome.split)
    have "?pick (raw (keyForEvent t x r), h) = Ok (Some True) \<longleftrightarrow> (\<exists>v. ParseInt x = Ok v \<and> ?all v)"
      if "r \<in> set rs" "(t, x) \<in> set (tags_of E r)" for t x r h
      unfolding pick [OF that] by (simp split: outcome.split)
    then show "{v. \<exists>k. (k, v) \<in> set (kv_PrefixIterator kv db (startKey [key])) \<and> ?pick (k, v) = Ok (Some True)} = ?F"
      unfolding items tags_meet_ranges_def by blast
  qed
  with False lu show ?thesis by (simp add: txi_matchRange_def)
qed (auto simp: txi_matchRange_def)

lemma get_results_run:
  assumes M: "holds_index E T (look db) rs" and clean: "clean E T rs"
    and "set hs \<subseteq> hash_of E ` set rs"
  shows "\<exists>out. get_results E kv db hs None = Ok out \<and> set out \<subseteq> set rs \<and> map (hash_of E) out = hs"
  using assms(3)
proof (induction hs)
  case (Cons h hs)
  then obtain r out where r: "r \<in> set rs" "h = hash_of E r" and out: "get_results E kv db hs None = Ok out"
    "set out \<subseteq> set rs" "map (hash_of E) out = hs"
    by auto
  have "TxIndex_Get E kv db h = Ok (Some r)"
    using Get_held [OF kv_store_axioms M clean r(1)] r(2) by simp
  with out r show ?case by auto
qed simp

text \<open>The whole search.\<close>

lemma lookForHash_none: "(\<And>c. c \<in> set cs \<Longrightarrow> c_CompositeKey c \<noteq> te_TxHashKey E) \<Longrightarrow> lookForHash E cs = Ok None"
  by (induction cs) auto

text \<open>The height is that of a condition of the query, so that asking for it in the other conditions changes nothing.\<close>

lemma lookForHeight_run:
  assumes "\<And>c. c \<in> set cs \<Longrightarrow> c_Op c = OpEqual \<Longrightarrow> c_CompositeKey c = te_TxHeightKey E \<Longrightarrow> \<exists>n. c_Operand c = Some (OInt n)"
  shows "\<exists>n. lookForHeight E cs = Ok n \<and>
    (n = 0 \<or> (\<exists>c \<in> set cs. c_Op c = OpEqual \<and> c_CompositeKey c = te_TxHeightKey E \<and> c_Operand c = Some (OInt n)))"
  using assms
proof (induction cs)
  case (Cons c cs)
  show ?case
  proof (cases "c_CompositeKey c = te_TxHeightKey E \<and> c_Op c = OpEqual")
    case True
    with Cons.prems [of c] show ?thesis by auto
  next
    case False
    moreover obtain n where "lookForHeight E cs = Ok n"
      "n = 0 \<or> (\<exists>c \<in> set cs. c_Op c = OpEqual \<and> c_CompositeKey c = te_TxHeightKey E \<and> c_Operand c = Some (OInt n))"
      using Cons by auto
    ultimately show ?thesis by (intro exI [of _ n]) auto
  qed
qed simp

lemma meets_height:
  assumes "clean E T rs" "r \<in> set rs" and "c_Op c = OpEqual" "c_CompositeKey c = te_TxHeightKey E" "c_Operand c = Some (OInt n)"
  shows "meets E c r \<longleftrightarrow> tr_Height r = n"
  using assms cleanD(5) [OF assms(1,2)] by (auto simp: tags_meet_def tags_of_def print_operand_def)

lemma search_hashes_run:
  assumes M: "holds_index E T (look db) rs" and clean: "clean E T rs" and q: "plain_query E T cs"
  shows "\<exists>hs. search_hashes E kv db cs None = Ok (hs, None) \<and> distinct hs \<and>
    set hs = hash_of E ` {r \<in> set rs. meets_query E cs r}"
proof -
  have sole: "sole_bounds cs" and ne: "cs \<noteq> []" using q by (simp_all add: plain_query_def)
  obtain n where n: "lookForHeight E cs = Ok n"
    "n = 0 \<or> (\<exists>c \<in> set cs. c_Op c = OpEqual \<and> c_CompositeKey c = te_TxHeightKey E \<and> c_Operand c = Some (OInt n))"
    using lookForHeight_run [of cs E] q unfolding plain_query_def by blast
  let ?P = "\<lambda>c r. meets E c r \<and> (c_Op c = OpEqual \<and> n > 0 \<longrightarrow> tr_Height r = n)"
  have "\<exists>f1 i f2. match_all (\<lambda>(key, qr). txi_matchRange kv db qr (startKey [qr_Key qr])) (fst (LookForRanges cs)) ([], False, None) =
      Ok (f1, i, None) \<and>
    match_all (\<lambda>c. txi_match kv db c (startKeyForCondition E c n)) (other_conditions cs (snd (LookForRanges cs))) (f1, i, None) =
      Ok (f2, True, None) \<and> distinct f2 \<and>
    set f2 = hash_of E ` {r \<in> set rs. (\<forall>key. ranged key cs \<longrightarrow> meets_ranges E cs key r) \<and>
      (\<forall>c \<in> set cs. \<not> IsRangeOperation (c_Op c) \<longrightarrow> ?P c r)}"
  proof (rule match_loops)
    show "inj_on (hash_of E) (set rs)" using clean by (simp add: clean_def)
    show "\<exists>f'. (\<lambda>(key, qr). txi_matchRange kv db qr (startKey [qr_Key qr])) (key, range_of key cs) f first None = Ok (f', None) \<and>
        set f' = (if first then hash_of E ` {r \<in> set rs. meets_ranges E cs key r}
          else hash_of E ` {r \<in> set rs. meets_ranges E cs key r} \<inter> set f) \<and> (distinct f \<longrightarrow> distinct f')"
      if "ranged key cs" for key f first
    proof -
      have "key \<in> T" using q that unfolding plain_query_def ranged_def by blast
      moreover have "qr_Key (range_of key cs) = key" by (simp add: range_of_def)
      ultimately show ?thesis
        using txi_matchRange_run [OF M clean _ sole that, of f first] unfolding prod.case by simp
    qed
    show "\<exists>f'. txi_match kv db c (startKeyForCondition E c n) f first None = Ok (f', None) \<and>
        set f' = (if first then hash_of E ` {r \<in> set rs. ?P c r} else hash_of E ` {r \<in> set rs. ?P c r} \<inter> set f) \<and>
        (distinct f \<longrightarrow> distinct f')" if "c \<in> set cs" "\<not> IsRangeOperation (c_Op c)" for c f first
      using q that unfolding plain_query_def by (intro txi_match_run [OF M clean]) auto
  qed (fact sole ne)+
  then obtain f2 where run: "search_hashes E kv db cs None = Ok (f2, None)" "distinct f2"
    and f2: "set f2 = hash_of E ` {r \<in> set rs. (\<forall>key. ranged key cs \<longrightarrow> meets_ranges E cs key r) \<and>
      (\<forall>c \<in> set cs. \<not> IsRangeOperation (c_Op c) \<longrightarrow> ?P c r)}"
    by (auto simp: search_hashes_def case_prod_unfold n(1))
  have "(\<forall>key. ranged key cs \<longrightarrow> meets_ranges E cs key r) \<and> (\<forall>c \<in> set cs. \<not> IsRangeOperation (c_Op c) \<longrightarrow> ?P c r) \<longleftrightarrow>
      meets_query E cs r" if r: "r \<in> set rs" for r
  proof -
    have "tr_Height r = n" if "\<forall>c \<in> set cs. \<not> IsRangeOperation (c_Op c) \<longrightarrow> meets E c r" "n > 0"
      using n(2) that meets_height [OF clean r] by (auto simp: IsRangeOperation_def)
    then show ?thesis
      unfolding tags_meet_query_def using tags_meet_range_op by blast
  qed
  then have "set f2 = hash_of E ` {r \<in> set rs. meets_query E cs r}"
    unfolding f2 by (simp cong: conj_cong)
  with run show ?thesis by blast
qed

lemma Search_run:
  assumes M: "holds_index E T (look db) rs" and clean: "clean E T rs" and q: "plain_query E T cs"
  shows "\<exists>out. TxIndex_Search E kv db (Ok cs) None = Ok out \<and> distinct out \<and> set out = {r \<in> set rs. meets_query E cs r}"
proof -
  obtain hs where hs: "search_hashes E kv db cs None = Ok (hs, None)" "distinct hs"
    "set hs = hash_of E ` {r \<in> set rs. meets_query E cs r}"
    using search_hashes_run [OF assms] by blast
  then obtain out where out: "get_results E kv db hs None = Ok out" "set out \<subseteq> set rs" "map (hash_of E) out = hs"
    using get_results_run [OF M clean, of hs] by auto
  have inj: "inj_on (hash_of E) (set rs)" using clean by (simp add: clean_def)
  have "hash_of E ` set out = hash_of E ` {r \<in> set rs. meets_query E cs r}"
    using out(3) hs(3) by (metis list.set_map)
  then have "set out = {r \<in> set rs. meets_query E cs r}"
    using inj_on_image_eq_iff [OF inj out(2), of "{r \<in> set rs. meets_query E cs r}"] by simp
  moreover have "distinct out"
    using out(3) hs(2) by (metis distinct_map)
  moreover have "lookForHash E cs = Ok None"
    using q by (intro lookForHash_none) (auto simp: plain_query_def)
  ultimately show ?thesis
    using hs out by (simp add: TxIndex_Search_def)
qed

end

subsection \<open>The store of the indexers\<close>

definition indexer_look :: "'db badger \<Rightarrow> 'db \<Rightarrow> bytes \<rightharpoonup> bytes" where
  "indexer_look bdg = prefix_look (badger_look bdg) indexerPrefix"

definition indexer_eff :: "kv_write list \<Rightarrow> bytes \<Rightarrow> bytes option option" where
  "indexer_eff = prefix_eff write_eff indexerPrefix"

lemma value_of_tag_indexerPrefix: "value_of_tag (indexerPrefix @ k) = value_of_tag k"
  by (simp add: value_of_tag_def isTagKey_def extractValueFromKey_def indexerPrefix_def slash_def)

sublocale badger_db \<subseteq> txs: tx_store "indexerKV bdg" "indexer_look bdg" indexer_eff "\<lambda>k. indexerPrefix @ k"
proof (rule tx_store.intro)
  show "kv_store (indexerKV bdg) (indexer_look bdg) indexer_eff (\<lambda>k. indexerPrefix @ k)"
    using indexer.sub.kv_store_axioms by (simp add: indexerKV_def indexer_look_def indexer_eff_def)
  show "tx_store_axioms (\<lambda>k. indexerPrefix @ k)"
    by unfold_locales (rule value_of_tag_indexerPrefix)
qed

context badger_db
begin

lemma indexerKV_tx_store: "tx_store (indexerKV bdg) (indexer_look bdg) indexer_eff (\<lambda>k. indexerPrefix @ k)"
  by (rule txs.tx_store_axioms)

end

context kv_store
begin

text \<open>A batch that is not committed leaves the index, one that crashes leaves it or has been written.\<close>

lemma index_results_no_panic:
  assumes "\<And>r. r \<in> set rs \<Longrightarrow> \<exists>bs. te_Marshal E r = Ok bs"
  shows "index_results E kv db (map Some rs) b \<noteq> Panic p"
proof -
  have attrs: "index_attributes kv db r h ty as b \<noteq> Panic p" for r h ty as b
    by (induction as arbitrary: b) (auto simp: Let_def bind_out_Panic_iff batch_Set_no_panic)
  have evs: "indexEvents kv db r h evs b \<noteq> Panic p" for r h evs b
    by (induction evs arbitrary: b) (auto simp: bind_out_Panic_iff attrs)
  have "index_result E kv db r b \<noteq> Panic p" if "r \<in> set rs" for r b
    using assms [OF that] by (auto simp: index_result_def Let_def bind_out_Panic_iff evs batch_Set_no_panic)
  then show ?thesis
    by (induction rs arbitrary: b) (auto simp: bind_out_Panic_iff)
qed

lemma AddBatch_atomic:
  assumes "AddBatch E kv (map Some rs) db = (r, db')" and "\<And>r. r \<in> set rs \<Longrightarrow> \<exists>bs. te_Marshal E r = Ok bs"
  shows "look db' = (if is_Ok r then set_all (concat (map (entries E) rs)) (look db) else look db) \<or>
    (\<exists>p. r = Panic p) \<and> look db' = set_all (concat (map (entries E) rs)) (look db)"
proof (cases "index_results E kv db (map Some rs) (kv_NewBatch kv)")
  case (Ok b)
  then have "over (look db) (eff b) = set_all (concat (map (entries E) rs)) (look db)"
    using index_results_run [OF Ok, of "look db"] by (simp add: NewBatch_eff)
  then show ?thesis
    using assms(1) Ok by (cases r) (auto simp: AddBatch_def dest: Commit_Ok Commit_Err Commit_Panic)
next
  case (Err e)
  with assms(1) show ?thesis by (auto simp: AddBatch_def)
next
  case (Panic p)
  with index_results_no_panic [OF assms(2)] show ?thesis by blast
qed

end

subsection \<open>Properties\<close>

definition sample_event :: "bytes \<Rightarrow> Event" where
  "sample_event v = \<lparr>e_Type = [0x61], e_Attributes = [\<lparr>ea_Key = [0x62], ea_Value = v, ea_Index = True\<rparr>]\<rparr>"

definition sample_result :: "u32 \<Rightarrow> bytes \<Rightarrow> TxResult" where
  "sample_result i v =
     \<lparr>tr_Height = 7, tr_Index = i, tr_Tx = [ucast i],
      tr_Result = \<lparr>dt_Code = 0, dt_Data = [], dt_Log = [], dt_Info = [], dt_GasWanted = 0, dt_GasUsed = 0,
        dt_Events = [sample_event v], dt_Codespace = []\<rparr>\<rparr>"

definition sample_index_env :: "(bytes \<times> TxResult) list \<Rightarrow> txindex_env" where
  "sample_index_env rs =
     \<lparr>te_Hash = (\<lambda>tx. 0xff # tx),
      te_Marshal = (\<lambda>r. case find (\<lambda>x. snd x = r) rs of None \<Rightarrow> Err (Errorf ''marshal'') | Some x \<Rightarrow> Ok (fst x)),
      te_Unmarshal = (\<lambda>b. case map_of rs b of None \<Rightarrow> Err (Errorf ''unmarshal'') | Some r \<Rightarrow> Ok r),
      te_TxHashKey = [0x78], te_TxHeightKey = [0x68], te_print = (\<lambda>_. [])\<rparr>"

definition sample_results :: "(bytes \<times> TxResult) list" where
  "sample_results = [([1], sample_result 0 (FormatInt 3)), ([2], sample_result 1 (FormatInt 9))]"

definition sample_tags :: "gostring set" where
  "sample_tags = {[0x68], [0x61, 0x2e, 0x62]}"

definition sample_query :: "Condition list" where
  "sample_query = [\<lparr>c_CompositeKey = [0x61, 0x2e, 0x62], c_Op = OpGreater, c_Operand = Some (OInt 5)\<rparr>,
     \<lparr>c_CompositeKey = [0x68], c_Op = OpEqual, c_Operand = Some (OInt 7)\<rparr>]"

lemma sample_clean: "clean (sample_index_env sample_results) sample_tags (map snd sample_results)"
proof -
  have "FormatInt 3 = [0x33]" "FormatInt 9 = [0x39]" "FormatInt 7 = [0x37]"
    by (simp_all add: FormatInt_def digits.simps)
  then show ?thesis
    by (simp add: clean_def sample_index_env_def sample_results_def sample_tags_def sample_result_def sample_event_def
        hash_of_def tags_of_def attributes_of_def in_i64_def slash_def dot_def)
qed

lemma sample_plain: "plain_query (sample_index_env sample_results) sample_tags sample_query"
  by (simp add: plain_query_def sample_query_def sole_bounds_def is_lower_def is_upper_def sample_tags_def
      sample_index_env_def print_operand_def)

lemma sample_added:
  "fst (AddBatch (sample_index_env sample_results) (indexerKV mem_badger) (map Some (map snd sample_results)) (empty_mem [])) = Ok ()"
  by code_simp

lemma sample_empty: "holds_index E T (indexer_look mem_badger (empty_mem fs)) []"
  by (simp add: holds_index_def indexer_look_def prefix_look_def empty_mem_def)

lemma sample_holds:
  "holds_index (sample_index_env sample_results) sample_tags (indexer_look mem_badger
     (snd (AddBatch (sample_index_env sample_results) (indexerKV mem_badger) (map Some (map snd sample_results)) (empty_mem []))))
     (map snd sample_results)"
proof -
  let ?E = "sample_index_env sample_results"
  let ?run = "AddBatch ?E (indexerKV mem_badger) (map Some (map snd sample_results)) (empty_mem [])"
  have ok: "?run = (Ok (), snd ?run)"
    by (metis sample_added prod.collapse)
  show ?thesis
    using set_all_holds [OF sample_empty, of ?E sample_tags "map snd sample_results" "[]"] sample_clean
      kv_store.AddBatch_run [OF tx_store.axioms(1) [OF mem.indexerKV_tx_store] ok]
    by simp
qed





text \<open>
  A value with a slash is found by an equality with the part before the slash, though the result
  does not meet it: the indexed value \<open>v/1\<close> is found by the query for \<open>v\<close>.
\<close>

lemma slash_in_value_matches:
  "let r = sample_result 0 [0x76, slash, 0x31]; E = sample_index_env [([1], r)];
       db = snd (AddBatch E (indexerKV mem_badger) [Some r] (empty_mem []));
       q = [\<lparr>c_CompositeKey = [0x61, 0x2e, 0x62], c_Op = OpEqual, c_Operand = Some (OString [0x76])\<rparr>]
   in TxIndex_Search E (indexerKV mem_badger) db (Ok q) None = Ok [r] \<and> \<not> meets_query E q r"
proof -
  have "TxIndex_Search (sample_index_env [([1], sample_result 0 [0x76, slash, 0x31])]) (indexerKV mem_badger)
      (snd (AddBatch (sample_index_env [([1], sample_result 0 [0x76, slash, 0x31])]) (indexerKV mem_badger)
        [Some (sample_result 0 [0x76, slash, 0x31])] (empty_mem [])))
      (Ok [\<lparr>c_CompositeKey = [0x61, 0x2e, 0x62], c_Op = OpEqual, c_Operand = Some (OString [0x76])\<rparr>]) None =
      Ok [sample_result 0 [0x76, slash, 0x31]]"
    by code_simp
  moreover have "\<not> meets_query E [\<lparr>c_CompositeKey = [0x61, 0x2e, 0x62], c_Op = OpEqual, c_Operand = Some (OString [0x76])\<rparr>]
      (sample_result 0 [0x76, slash, 0x31])" if "te_TxHeightKey E = [0x68]" for E
    using that by (simp add: tags_meet_query_def tags_meet_def tags_of_def attributes_of_def sample_result_def sample_event_def
        print_operand_def dot_def slash_def)
  ultimately show ?thesis
    by (simp add: Let_def sample_index_env_def)
qed

end
