(* ===== verification/BlockIndex.thy ===== *)
theory BlockIndex
  imports TxIndex
begin

text \<open>
  The block index of \<open>src/state/indexer/block/kv\<close>: heights are stored under a key for the height and
  under a key for every indexed attribute of the events of a block, and a search returns the heights
  that meet its conditions. Keys are built and parsed by the third-party package \<open>orderedcode\<close>, the
  fields \<open>be_Append\<close> and \<open>be_Parse\<close> of \<open>blockindex_env\<close>; \<open>ordered_code\<close> states what the package documents.
  The null indexers, which index nothing, are at the end of the definitions.
\<close>

subsection \<open>Keys\<close>

datatype oc_item = OcString gostring | OcInt int

datatype oc_kind = KString | KInt

text \<open>
  \<open>be_Append\<close> is \<open>orderedcode.Append(nil, items...)\<close>, \<open>be_Parse\<close> is \<open>orderedcode.Parse\<close> for items of the
  given kinds, with the rest of the input. The name of the key for heights is tendermint's.
\<close>

record blockindex_env =
  be_Append :: "oc_item list \<Rightarrow> bytes outcome"
  be_Parse :: "oc_kind list \<Rightarrow> bytes \<Rightarrow> (oc_item list \<times> bytes) outcome"
  be_BlockHeightKey :: gostring
  be_print :: "operand option \<Rightarrow> gostring"

text \<open>\<open>binary.Varint\<close> and \<open>binary.PutVarint\<close>: the sign moves to the lowest bit.\<close>

fun Uvarint :: "bytes \<Rightarrow> nat \<Rightarrow> u64 \<Rightarrow> u64" where
  "Uvarint [] i x = 0"
| "Uvarint (b # buf) i x =
     (if i = 10 then 0
      else if b < 0x80 then (if i = 9 \<and> b > 1 then 0 else x OR push_bit (7 * i) (ucast b))
      else Uvarint buf (i + 1) (x OR push_bit (7 * i) (ucast (b AND 0x7f))))"

definition int64FromBytes :: "bytes \<Rightarrow> int" where
  "int64FromBytes bz =
     (let ux = Uvarint bz 0 0; x = drop_bit 1 ux
      in int64_of (if bit ux 0 then NOT x else x))"

definition int64ToBytes :: "int \<Rightarrow> bytes" where
  "int64ToBytes i =
     (let ux = push_bit 1 (uint64_of i) in varint (if i < 0 then NOT ux else ux))"

definition heightKey :: "blockindex_env \<Rightarrow> int \<Rightarrow> bytes outcome" where
  "heightKey E height = be_Append E [OcString (be_BlockHeightKey E), OcInt height]"

definition eventKey :: "blockindex_env \<Rightarrow> gostring \<Rightarrow> gostring \<Rightarrow> gostring \<Rightarrow> int \<Rightarrow> bytes outcome" where
  "eventKey E compositeKey ty eventValue height =
     be_Append E [OcString compositeKey, OcString eventValue, OcInt height, OcString ty]"

definition parseValueFromPrimaryKey :: "blockindex_env \<Rightarrow> bytes \<Rightarrow> gostring outcome" where
  "parseValueFromPrimaryKey E key =
     bind_out (wrap_err ''failed to parse event key'' (be_Parse E [KString, KInt] key)) (\<lambda>(items, remaining).
       if remaining \<noteq> [] then Err (Errorf ''unexpected remainder in key'')
       else (case items of [OcString _, OcInt height] \<Rightarrow> Ok (FormatInt height) | _ \<Rightarrow> Err (Errorf ''failed to parse event key'')))"

definition parseValueFromEventKey :: "blockindex_env \<Rightarrow> bytes \<Rightarrow> gostring outcome" where
  "parseValueFromEventKey E key =
     bind_out (wrap_err ''failed to parse event key'' (be_Parse E [KString, KString, KInt, KString] key)) (\<lambda>(items, remaining).
       if remaining \<noteq> [] then Err (Errorf ''unexpected remainder in key'')
       else (case items of
               [OcString _, OcString eventValue, OcInt _, OcString _] \<Rightarrow> Ok eventValue
             | _ \<Rightarrow> Err (Errorf ''failed to parse event key'')))"

fun block_lookForHeight :: "blockindex_env \<Rightarrow> Condition list \<Rightarrow> int option outcome" where
  "block_lookForHeight E [] = Ok None"
| "block_lookForHeight E (c # cs) =
     (if c_CompositeKey c = be_BlockHeightKey E \<and> c_Op c = OpEqual
      then (case c_Operand c of Some (OInt n) \<Rightarrow> Ok (Some n) | _ \<Rightarrow> Panic ''interface conversion'')
      else block_lookForHeight E cs)"

subsection \<open>Writing the index\<close>

text \<open>What is read of \<open>EventDataNewBlockHeader\<close>.\<close>

record NewBlockHeader =
  bh_Height :: int
  bh_NumTxs :: int
  bh_BeginEvents :: "Event list"
  bh_EndEvents :: "Event list"

definition Has :: "blockindex_env \<Rightarrow> 'db KVStore \<Rightarrow> 'db \<Rightarrow> int \<Rightarrow> bool outcome" where
  "Has E kv db height =
     bind_out (wrap_err ''failed to create block height index key'' (heightKey E height)) (\<lambda>key.
       case kv_Get kv db key of
         Ok _ \<Rightarrow> Ok True
       | Err e \<Rightarrow> if e = ErrKeyNotFound then Ok False else Err e
       | Panic p \<Rightarrow> Panic p)"

fun block_attributes :: "blockindex_env \<Rightarrow> 'db KVStore \<Rightarrow> 'db \<Rightarrow> gostring \<Rightarrow> gostring \<Rightarrow> int \<Rightarrow> EventAttribute list \<Rightarrow>
    kv_write list \<Rightarrow> kv_write list outcome" where
  "block_attributes E kv db etype ty height [] b = Ok b"
| "block_attributes E kv db etype ty height (attr # attrs) b =
     (if ea_Key attr = [] then block_attributes E kv db etype ty height attrs b
      else
        let compositeKey = etype @ [dot] @ ea_Key attr in
        if compositeKey = be_BlockHeightKey E
        then Err (Errorf ''event type and attribute key is reserved; please use a different key'')
        else if ea_Index attr
        then
          bind_out (wrap_err ''failed to create block index key'' (eventKey E compositeKey ty (ea_Value attr) height)) (\<lambda>key.
          bind_out (batch_Set kv db b key (int64ToBytes height)) (\<lambda>b'.
            block_attributes E kv db etype ty height attrs b'))
        else block_attributes E kv db etype ty height attrs b)"

fun block_indexEvents :: "blockindex_env \<Rightarrow> 'db KVStore \<Rightarrow> 'db \<Rightarrow> gostring \<Rightarrow> int \<Rightarrow> Event list \<Rightarrow> kv_write list \<Rightarrow>
    kv_write list outcome" where
  "block_indexEvents E kv db ty height [] b = Ok b"
| "block_indexEvents E kv db ty height (event # events) b =
     (if e_Type event = [] then block_indexEvents E kv db ty height events b
      else bind_out (block_attributes E kv db (e_Type event) ty height (e_Attributes event) b)
             (\<lambda>b'. block_indexEvents E kv db ty height events b'))"

definition begin_block :: gostring where
  "begin_block = [0x62, 0x65, 0x67, 0x69, 0x6e, 0x5f, 0x62, 0x6c, 0x6f, 0x63, 0x6b]"

definition end_block :: gostring where
  "end_block = [0x65, 0x6e, 0x64, 0x5f, 0x62, 0x6c, 0x6f, 0x63, 0x6b]"

definition block_index_writes :: "blockindex_env \<Rightarrow> 'db KVStore \<Rightarrow> 'db \<Rightarrow> NewBlockHeader \<Rightarrow> kv_write list outcome" where
  "block_index_writes E kv db bh =
     (let height = bh_Height bh in
      bind_out (wrap_err ''failed to create block height index key'' (heightKey E height)) (\<lambda>key.
      bind_out (batch_Set kv db (kv_NewBatch kv) key (int64ToBytes height)) (\<lambda>b1.
      bind_out (wrap_err ''failed to index BeginBlock events''
          (block_indexEvents E kv db begin_block height (bh_BeginEvents bh) b1)) (\<lambda>b2.
        wrap_err ''failed to index EndBlock events''
          (block_indexEvents E kv db end_block height (bh_EndEvents bh) b2)))))"

definition Block_Index :: "blockindex_env \<Rightarrow> 'db KVStore \<Rightarrow> NewBlockHeader \<Rightarrow> ('db, unit) cmd" where
  "Block_Index E kv bh db =
     (case block_index_writes E kv db bh of
        Ok b \<Rightarrow> batch_Commit kv b db
      | Err e \<Rightarrow> (Err e, db)
      | Panic p \<Rightarrow> (Panic p, db))"

subsection \<open>Reading the index\<close>

definition value_in_range :: "blockindex_env \<Rightarrow> gostring \<Rightarrow> bytes \<Rightarrow> gostring option" where
  "value_in_range E rkey key =
     (case (if rkey = be_BlockHeightKey E then parseValueFromPrimaryKey E key else parseValueFromEventKey E key) of
        Ok s \<Rightarrow> Some s | _ \<Rightarrow> None)"

definition block_matchRange :: "blockindex_env \<Rightarrow> 'db KVStore \<Rightarrow> 'db \<Rightarrow> QueryRange \<Rightarrow> bytes \<Rightarrow> bytes list \<Rightarrow> bool \<Rightarrow> ctx \<Rightarrow>
    (bytes list \<times> ctx) outcome" where
  "block_matchRange E kv db qr start filteredHeights firstRun ctx =
     (if \<not> firstRun \<and> filteredHeights = [] then Ok (filteredHeights, ctx)
      else
        bind_out (LowerBoundValue qr) (\<lambda>lowerBound.
        bind_out (UpperBoundValue qr) (\<lambda>upperBound.
        bind_out (collect (pick_in_range qr lowerBound upperBound (value_in_range E (qr_Key qr)))
            (kv_PrefixIterator kv db start) [] ctx)
          (\<lambda>t. Ok (merge_matches filteredHeights firstRun t)))))"

definition block_containing :: "blockindex_env \<Rightarrow> Condition \<Rightarrow> bytes \<times> bytes \<Rightarrow> bool option outcome" where
  "block_containing E c item =
     (case parseValueFromEventKey E (fst item) of
        Ok s \<Rightarrow>
          (case c_Operand c of
             Some (OString sub) \<Rightarrow> Ok (Some (Contains s sub))
           | _ \<Rightarrow> Panic ''interface conversion'')
      | _ \<Rightarrow> Ok None)"

definition block_match :: "blockindex_env \<Rightarrow> 'db KVStore \<Rightarrow> 'db \<Rightarrow> Condition \<Rightarrow> bytes \<Rightarrow> bytes list \<Rightarrow> bool \<Rightarrow> ctx \<Rightarrow>
    (bytes list \<times> ctx) outcome" where
  "block_match E kv db c startKeyBz filteredHeights firstRun ctx =
     (if \<not> firstRun \<and> filteredHeights = [] then Ok (filteredHeights, ctx)
      else
        bind_out
          (case c_Op c of
             OpEqual \<Rightarrow> collect (\<lambda>_. Ok (Some True)) (kv_PrefixIterator kv db startKeyBz) [] ctx
           | OpExists \<Rightarrow>
               bind_out (be_Append E [OcString (c_CompositeKey c)]) (\<lambda>pre.
                 collect (\<lambda>_. Ok (Some True)) (kv_PrefixIterator kv db pre) [] ctx)
           | OpContains \<Rightarrow>
               bind_out (be_Append E [OcString (c_CompositeKey c)]) (\<lambda>pre.
                 collect (block_containing E c) (kv_PrefixIterator kv db pre) [] ctx)
           | _ \<Rightarrow> Err (Errorf ''other operators should be handled already''))
          (\<lambda>t. Ok (merge_matches filteredHeights firstRun t)))"

definition block_print :: "blockindex_env \<Rightarrow> operand option \<Rightarrow> gostring" where
  "block_print E x =
     (case x of Some (OInt n) \<Rightarrow> FormatInt n | Some (OString s) \<Rightarrow> s | _ \<Rightarrow> be_print E x)"

definition search_heights :: "blockindex_env \<Rightarrow> 'db KVStore \<Rightarrow> 'db \<Rightarrow> Condition list \<Rightarrow> ctx \<Rightarrow> (bytes list \<times> ctx) outcome" where
  "search_heights E kv db conditions ctx =
     (let (ranges, rangeIndexes) = LookForRanges conditions in
      bind_out (match_all
          (\<lambda>(key, qr) filtered firstRun ctx.
             bind_out (wrap_err ''failed to create prefix key'' (be_Append E [OcString (qr_Key qr)])) (\<lambda>pre.
               block_matchRange E kv db qr pre filtered firstRun ctx))
          ranges ([], False, ctx)) (\<lambda>st.
      bind_out (match_all
          (\<lambda>c filtered firstRun ctx.
             bind_out (be_Append E [OcString (c_CompositeKey c), OcString (block_print E (c_Operand c))]) (\<lambda>start.
               block_match E kv db c start filtered firstRun ctx))
          (other_conditions conditions rangeIndexes) st) (\<lambda>(filtered, _, ctx'). Ok (filtered, ctx'))))"

fun fetch_heights :: "blockindex_env \<Rightarrow> 'db KVStore \<Rightarrow> 'db \<Rightarrow> bytes list \<Rightarrow> ctx \<Rightarrow> int list outcome" where
  "fetch_heights E kv db [] ctx = Ok []"
| "fetch_heights E kv db (hBz # hs) ctx =
     (let h = int64FromBytes hBz in
      bind_out (Has E kv db h) (\<lambda>ok.
        case ctx_Done ctx of
          (True, _) \<Rightarrow> Ok (if ok then [h] else [])
        | (False, ctx') \<Rightarrow> bind_out (fetch_heights E kv db hs ctx') (\<lambda>rs. Ok (if ok then h # rs else rs))))"

definition Block_Search :: "blockindex_env \<Rightarrow> 'db KVStore \<Rightarrow> 'db \<Rightarrow> Condition list outcome \<Rightarrow> ctx \<Rightarrow> int list outcome" where
  "Block_Search E kv db q ctx =
     (case ctx_Done ctx of
        (True, _) \<Rightarrow> Ok []
      | (False, ctx1) \<Rightarrow>
          bind_out (wrap_err ''failed to parse query conditions'' q) (\<lambda>conditions.
          bind_out (block_lookForHeight E conditions) (\<lambda>found.
            case found of
              Some height \<Rightarrow> bind_out (Has E kv db height) (\<lambda>ok. Ok (if ok then [height] else []))
            | None \<Rightarrow>
                bind_out (search_heights E kv db conditions ctx1) (\<lambda>(filteredHeights, ctx2).
                bind_out (fetch_heights E kv db filteredHeights ctx2) (\<lambda>results. Ok (sort results))))))"

subsection \<open>The null indexers\<close>

definition null_Get :: "bytes \<Rightarrow> TxResult option outcome" where
  "null_Get hash = Err (Errorf ''indexing is disabled (set tx_index = kv in config)'')"

definition null_AddBatch :: "tx_batch \<Rightarrow> unit outcome" where
  "null_AddBatch batch = Ok ()"

definition null_Index :: "TxResult \<Rightarrow> unit outcome" where
  "null_Index result = Ok ()"

definition null_Search :: "Condition list outcome \<Rightarrow> TxResult list outcome" where
  "null_Search q = Ok []"

definition null_block_Has :: "int \<Rightarrow> bool outcome" where
  "null_block_Has height = Err (Errorf ''indexing is disabled (set tx_index = kv in config)'')"

definition null_block_Index :: "NewBlockHeader \<Rightarrow> unit outcome" where
  "null_block_Index bh = Ok ()"

definition null_block_Search :: "Condition list outcome \<Rightarrow> int list outcome" where
  "null_block_Search q = Ok []"

subsection \<open>Heights as bytes\<close>

lemma Uvarint_varint:
  assumes "7 * i < 64" and "unat v < 2 ^ (64 - 7 * i)"
  shows "Uvarint (varint v) i acc = acc OR push_bit (7 * i) v"
  using assms
proof (induction v arbitrary: i acc rule: varint.induct)
  case (1 v)
  show ?case
  proof (cases "v \<ge> 128")
    case True
    have "(2::nat) ^ 7 < 2 ^ (64 - 7 * i)"
      using True "1.prems"(2) by (auto simp: word_le_nat_alt)
    then have shift: "7 * i + 7 < 64"
      by (simp add: power_strict_increasing_iff del: power_numeral)
    then have "2 ^ (64 - 7 * i) = (2::nat) ^ (64 - 7 * Suc i) * 128"
      using power_add [of "2::nat" "64 - 7 * Suc i" 7] by simp
    then have small: "unat (drop_bit 7 v) < 2 ^ (64 - 7 * Suc i)"
      using "1.prems"(2) by (simp add: unat_drop_bit_7 less_mult_imp_div_less)
    have "Uvarint (varint v) i acc = Uvarint (varint (drop_bit 7 v)) (Suc i) (acc OR push_bit (7 * i) (v AND 0x7f))"
      using True shift varint_byte_more [of v] varint_byte_more2 [of v] by (simp add: varint.simps [of v])
    also have "\<dots> = (acc OR push_bit (7 * i) (v AND 0x7f)) OR push_bit (7 * Suc i) (drop_bit 7 v)"
      by (rule "1.IH") (use True shift small in simp_all)
    finally show ?thesis
      using push_split [of "7 * i" v] by (simp add: or.assoc add.commute)
  next
    case False
    then have v: "v < 128" by simp
    have un: "unat (ucast v :: byte) = unat v"
      using v by (simp add: word_less_nat_alt unsigned_ucast_eq take_bit_nat_eq_self)
    then have last: "ucast (ucast v :: byte) = v"
      by (simp add: unsigned_ucast_eq flip: unsigned_take_bit_eq) (rule unsigned_word_eqI)
    have "\<not> (i = 9 \<and> 1 < (ucast v :: byte))"
      using "1.prems"(2) un by (auto simp: word_less_nat_alt)
    then show ?thesis
      using False varint_byte_last2 [OF v] last "1.prems"(1) by (auto simp: varint.simps [of v])
  qed
qed

lemma zigzag:
  fixes w :: u64
  assumes "n = (1::nat)"
  shows "bit w 63 \<Longrightarrow> NOT (drop_bit n (NOT (push_bit n w))) = w" and "\<not> bit w 63 \<Longrightarrow> drop_bit n (push_bit n w) = w"
    and "bit (NOT (push_bit n w)) 0" and "\<not> bit (push_bit n w) 0"
proof -
  have k: "k < 64 \<Longrightarrow> \<not> n + k < 64 \<longleftrightarrow> k = 63" for k using assms by linarith
  show "NOT (drop_bit n (NOT (push_bit n w))) = w" if "bit w 63"
  proof (rule bit_word_eqI)
    fix k :: nat assume "k < LENGTH(64)"
    then show "bit (NOT (drop_bit n (NOT (push_bit n w)))) k = bit w k"
      using that k [of k] by (auto simp: bit_simps)
  qed
  show "drop_bit n (push_bit n w) = w" if "\<not> bit w 63"
  proof (rule bit_word_eqI)
    fix k :: nat assume "k < LENGTH(64)"
    then show "bit (drop_bit n (push_bit n w)) k = bit w k"
      using that k [of k] by (auto simp: bit_simps)
  qed
  have "0 < n" using assms by simp
  then show "bit (NOT (push_bit n w)) 0" "\<not> bit (push_bit n w) 0"
    by (simp_all add: bit_not_iff bit_push_bit_iff del: bit_0)
qed

lemma int64FromBytes_ToBytes:
  assumes "in_i64 h"
  shows "int64FromBytes (int64ToBytes h) = h"
proof -
  let ?w = "uint64_of h"
  have dec: "Uvarint (varint v) 0 0 = v" for v
    using Uvarint_varint [of 0 v 0] unsigned_less [of v] by simp
  have self: "signed_take_bit 63 h = h"
    using i64_id [OF assms] by (simp add: i64_def)
  then have same: "int64_of ?w = h"
    using sint_sbintrunc' [where 'a = 64, of h] by (simp add: int64_of_def uint64_of_def)
  have "bit ?w 63 \<longleftrightarrow> h < 0"
    using signed_take_bit_negative_iff [of 63 h] self by (simp add: uint64_of_def bit_word_of_int_iff)
  then show ?thesis
    using zigzag [of 1 ?w] same unfolding int64FromBytes_def int64ToBytes_def Let_def dec
    by (cases "h < 0") (simp_all only: if_True if_False refl simp_thms)
qed

lemma int64ToBytes_inject:
  "in_i64 h \<Longrightarrow> in_i64 h' \<Longrightarrow> int64ToBytes h = int64ToBytes h' \<longleftrightarrow> h = h'"
  by (metis int64FromBytes_ToBytes)

subsection \<open>What is relied on of \<open>orderedcode\<close>\<close>

primrec kind :: "oc_item \<Rightarrow> oc_kind" where
  "kind (OcString s) = KString"
| "kind (OcInt n) = KInt"

primrec item_fits :: "oc_item \<Rightarrow> bool" where
  "item_fits (OcString s) = True"
| "item_fits (OcInt n) = in_i64 n"

text \<open>
  Items are encoded one after the other and parsed back, whatever follows; bytes that need no escape
  stand for themselves at the start of a string.
\<close>

definition ordered_code :: "blockindex_env \<Rightarrow> (oc_item \<Rightarrow> bytes) \<Rightarrow> bool" where
  "ordered_code E enc \<longleftrightarrow>
     (\<forall>items. list_all item_fits items \<longrightarrow> be_Append E items = Ok (concat (map enc items))) \<and>
     (\<forall>items rest. list_all item_fits items \<longrightarrow> be_Parse E (map kind items) (concat (map enc items) @ rest) = Ok (items, rest)) \<and>
     (\<forall>p s. 0 \<notin> set p \<and> 0xff \<notin> set p \<longrightarrow> enc (OcString (p @ s)) = p @ enc (OcString s))"

lemma ordered_codeD:
  assumes "ordered_code E enc"
  shows "list_all item_fits items \<Longrightarrow> be_Append E items = Ok (concat (map enc items))"
    and "list_all item_fits items \<Longrightarrow> be_Parse E (map kind items) (concat (map enc items) @ rest) = Ok (items, rest)"
    and "0 \<notin> set p \<Longrightarrow> 0xff \<notin> set p \<Longrightarrow> enc (OcString (p @ s)) = p @ enc (OcString s)"
  using assms by (simp_all add: ordered_code_def)

lemma enc_split:
  assumes "ordered_code E enc" and "kind a = kind b" "item_fits a" "item_fits b"
  shows "enc a @ x = enc b @ y \<longleftrightarrow> a = b \<and> x = y"
proof
  assume eq: "enc a @ x = enc b @ y"
  have "be_Parse E [kind a] (enc a @ x) = Ok ([a], x)" "be_Parse E [kind b] (enc b @ y) = Ok ([b], y)"
    using ordered_codeD(2) [OF assms(1), of "[a]" x] ordered_codeD(2) [OF assms(1), of "[b]" y] assms(3,4) by simp_all
  then show "a = b \<and> x = y" unfolding eq assms(2) by simp
qed simp

lemma enc_prefix:
  assumes "ordered_code E enc" and "kind a = kind b" "item_fits a" "item_fits b"
  shows "prefix (enc a @ x) (enc b @ y) \<longleftrightarrow> a = b \<and> prefix x y"
proof
  assume "prefix (enc a @ x) (enc b @ y)"
  then obtain zs where "enc a @ x @ zs = enc b @ y" by (auto simp: prefix_def)
  then show "a = b \<and> prefix x y" using enc_split [OF assms] by auto
qed simp

definition hkey :: "blockindex_env \<Rightarrow> (oc_item \<Rightarrow> bytes) \<Rightarrow> int \<Rightarrow> bytes" where
  "hkey E enc h = enc (OcString (be_BlockHeightKey E)) @ enc (OcInt h)"

definition ekey :: "(oc_item \<Rightarrow> bytes) \<Rightarrow> gostring \<Rightarrow> gostring \<Rightarrow> int \<Rightarrow> gostring \<Rightarrow> bytes" where
  "ekey enc t x h ty = enc (OcString t) @ enc (OcString x) @ enc (OcInt h) @ enc (OcString ty)"

lemma made_keys:
  assumes "ordered_code E enc" and "in_i64 h"
  shows "heightKey E h = Ok (hkey E enc h)" and "eventKey E t ty x h = Ok (ekey enc t x h ty)"
  using ordered_codeD(1) [OF assms(1)] assms(2) by (simp_all add: heightKey_def eventKey_def hkey_def ekey_def)

lemma parsed_keys:
  assumes "ordered_code E enc" and "in_i64 h" and "0 \<notin> set p" "0xff \<notin> set p"
  shows "parseValueFromPrimaryKey E (p @ hkey E enc h) = Ok (FormatInt h)"
    and "parseValueFromEventKey E (p @ ekey enc t x h ty) = Ok x"
  using ordered_codeD(2) [OF assms(1), of "[OcString (p @ be_BlockHeightKey E), OcInt h]" "[]"]
    ordered_codeD(2) [OF assms(1), of "[OcString (p @ t), OcString x, OcInt h, OcString ty]" "[]"]
    ordered_codeD(3) [OF assms(1,3,4)] assms(2)
  by (simp_all add: parseValueFromPrimaryKey_def parseValueFromEventKey_def hkey_def ekey_def)

lemma key_prefixes:
  assumes "ordered_code E enc" and "in_i64 h" "in_i64 h'"
  shows "prefix (enc (OcString k)) (hkey E enc h) \<longleftrightarrow> k = be_BlockHeightKey E"
    and "prefix (enc (OcString k)) (ekey enc t x h ty) \<longleftrightarrow> k = t"
    and "prefix (enc (OcString k) @ enc (OcString v)) (ekey enc t x h ty) \<longleftrightarrow> k = t \<and> v = x"
    and "hkey E enc h = hkey E enc h' \<longleftrightarrow> h = h'"
    and "ekey enc t x h ty = ekey enc t' x' h' ty' \<Longrightarrow> h = h'"
    and "k \<noteq> be_BlockHeightKey E \<Longrightarrow> \<not> prefix (enc (OcString k) @ enc (OcString v)) (hkey E enc h)"
    and "t \<noteq> be_BlockHeightKey E \<Longrightarrow> hkey E enc h \<noteq> ekey enc t x h' ty"
  using enc_prefix [OF assms(1), of "OcString k" _ "[]"] enc_prefix [OF assms(1), of "OcString k"]
    enc_prefix [OF assms(1), of "OcString v" _ "[]"] enc_split [OF assms(1)] enc_split [OF assms(1), of "OcInt h" "OcInt h'" "[]" "[]"] assms(2,3)
  by (auto simp: hkey_def ekey_def)

subsection \<open>What the index holds\<close>

text \<open>The indexed attributes of events, and the tags of a block: its height and these.\<close>

definition event_tags :: "Event list \<Rightarrow> (gostring \<times> bytes) list" where
  "event_tags evs =
     concat (map (\<lambda>e. if e_Type e = [] then []
                      else map (\<lambda>a. (e_Type e @ [dot] @ ea_Key a, ea_Value a))
                             (filter (\<lambda>a. ea_Key a \<noteq> [] \<and> ea_Index a) (e_Attributes e))) evs)"

definition block_tags :: "blockindex_env \<Rightarrow> NewBlockHeader \<Rightarrow> (gostring \<times> bytes) list" where
  "block_tags E bh = (be_BlockHeightKey E, FormatInt (bh_Height bh)) # event_tags (bh_BeginEvents bh @ bh_EndEvents bh)"

definition block_entries :: "blockindex_env \<Rightarrow> (oc_item \<Rightarrow> bytes) \<Rightarrow> NewBlockHeader \<Rightarrow> (bytes \<times> bytes) list" where
  "block_entries E enc bh =
     (hkey E enc (bh_Height bh), int64ToBytes (bh_Height bh)) #
     map (\<lambda>(t, x). (ekey enc t x (bh_Height bh) begin_block, int64ToBytes (bh_Height bh))) (event_tags (bh_BeginEvents bh)) @
     map (\<lambda>(t, x). (ekey enc t x (bh_Height bh) end_block, int64ToBytes (bh_Height bh))) (event_tags (bh_EndEvents bh))"

definition holds_blocks :: "blockindex_env \<Rightarrow> (oc_item \<Rightarrow> bytes) \<Rightarrow> (bytes \<rightharpoonup> bytes) \<Rightarrow> NewBlockHeader list \<Rightarrow> bool" where
  "holds_blocks E enc M bhs \<longleftrightarrow>
     (\<forall>key k v. prefix (enc (OcString key)) k \<longrightarrow>
        (M k = Some v \<longleftrightarrow> (\<exists>bh \<in> set bhs. (k, v) \<in> set (block_entries E enc bh))))"

text \<open>Blocks of different heights without attributes under the reserved name.\<close>

definition clean_blocks :: "blockindex_env \<Rightarrow> NewBlockHeader list \<Rightarrow> bool" where
  "clean_blocks E bhs \<longleftrightarrow>
     inj_on bh_Height (set bhs) \<and>
     (\<forall>bh \<in> set bhs. in_i64 (bh_Height bh) \<and>
        (\<forall>(t, x) \<in> set (event_tags (bh_BeginEvents bh @ bh_EndEvents bh)). t \<noteq> be_BlockHeightKey E))"

lemma event_tags_append [simp]: "event_tags (evs @ evs') = event_tags evs @ event_tags evs'"
  by (simp add: event_tags_def)

lemma clean_blocksD:
  assumes "clean_blocks E bhs" and "bh \<in> set bhs"
  shows "in_i64 (bh_Height bh)"
    "(t, x) \<in> set (event_tags (bh_BeginEvents bh)) \<union> set (event_tags (bh_EndEvents bh)) \<Longrightarrow> t \<noteq> be_BlockHeightKey E"
  using assms unfolding clean_blocks_def by fastforce+

lemma block_entries_iff:
  "(k, v) \<in> set (block_entries E enc bh) \<longleftrightarrow> v = int64ToBytes (bh_Height bh) \<and>
    (k = hkey E enc (bh_Height bh) \<or>
     (\<exists>t x. (t, x) \<in> set (event_tags (bh_BeginEvents bh)) \<and> k = ekey enc t x (bh_Height bh) begin_block) \<or>
     (\<exists>t x. (t, x) \<in> set (event_tags (bh_EndEvents bh)) \<and> k = ekey enc t x (bh_Height bh) end_block))"
  by (auto simp: block_entries_def)

lemma block_entries_agree:
  assumes code: "ordered_code E enc" and clean: "clean_blocks E bhs" and bh: "bh \<in> set bhs" "bh' \<in> set bhs"
    and "(k, v) \<in> set (block_entries E enc bh)" "(k, v') \<in> set (block_entries E enc bh')"
  shows "v = v'"
proof -
  note h = clean_blocksD(1) [OF clean bh(1)] clean_blocksD(1) [OF clean bh(2)]
  have "bh_Height bh = bh_Height bh'"
    using assms(5,6) key_prefixes(4) [OF code h] key_prefixes(5) [OF code h] key_prefixes(7) [OF code h]
      key_prefixes(7) [OF code h(2,1)] clean_blocksD(2) [OF clean bh(1)] clean_blocksD(2) [OF clean bh(2)]
    unfolding block_entries_iff by (metis UnCI)
  then show ?thesis using assms(5,6) by (simp add: block_entries_iff)
qed

lemma set_all_blocks:
  assumes M: "holds_blocks E enc M bhs" and clean: "clean_blocks E (bhs @ [bh])" and code: "ordered_code E enc"
  shows "holds_blocks E enc (set_all (block_entries E enc bh) M) (bhs @ [bh])"
  unfolding holds_blocks_def
proof (intro allI impI)
  fix key k v
  assume pre: "prefix (enc (OcString key)) k"
  have "set_all (block_entries E enc bh) M k = Some v \<longleftrightarrow>
      (k, v) \<in> set (block_entries E enc bh) \<or> ((\<forall>u. (k, u) \<notin> set (block_entries E enc bh)) \<and> M k = Some v)"
    by (rule set_all_iff) (simp add: block_entries_iff)
  moreover have "M k = Some v \<longleftrightarrow> (\<exists>bh \<in> set bhs. (k, v) \<in> set (block_entries E enc bh))"
    using M pre unfolding holds_blocks_def by blast
  moreover have "u = v" if "(k, u) \<in> set (block_entries E enc bh)" "bh' \<in> set bhs" "(k, v) \<in> set (block_entries E enc bh')" for u bh'
    using block_entries_agree [OF code clean _ _ that(1,3)] that(2) by simp
  ultimately show "set_all (block_entries E enc bh) M k = Some v \<longleftrightarrow>
      (\<exists>bh \<in> set (bhs @ [bh]). (k, v) \<in> set (block_entries E enc bh))"
    by auto
qed

context kv_store
begin

lemma block_attributes_run:
  assumes "ordered_code E enc" "in_i64 h" and "block_attributes E kv db etype ty h attrs b = Ok b'"
  shows "over m (eff b') = set_all (map (\<lambda>a. (ekey enc (etype @ [dot] @ ea_Key a) (ea_Value a) h ty, int64ToBytes h))
    (filter (\<lambda>a. ea_Key a \<noteq> [] \<and> ea_Index a) attrs)) (over m (eff b))"
  using assms(3)
  by (induction attrs arbitrary: b)
     (auto simp: Let_def bind_out_Ok_iff made_keys [OF assms(1,2)] over_batch_Set split: if_splits)

lemma block_indexEvents_run:
  assumes "ordered_code E enc" "in_i64 h" and "block_indexEvents E kv db ty h evs b = Ok b'"
  shows "over m (eff b') = set_all (map (\<lambda>(t, x). (ekey enc t x h ty, int64ToBytes h)) (event_tags evs)) (over m (eff b))"
  using assms(3)
proof (induction evs arbitrary: b)
  case (Cons e evs)
  show ?case
  proof (cases "e_Type e = []")
    case False
    with Cons.prems obtain b1 where b1: "block_attributes E kv db (e_Type e) ty h (e_Attributes e) b = Ok b1"
      and rest: "block_indexEvents E kv db ty h evs b1 = Ok b'"
      by (auto simp: bind_out_Ok_iff)
    show ?thesis
      using False Cons.IH [OF rest] block_attributes_run [OF assms(1,2) b1, of m] by (simp add: comp_def event_tags_def)
  qed (use Cons in \<open>simp add: event_tags_def\<close>)
qed (simp add: event_tags_def)

lemma block_index_writes_run:
  assumes "ordered_code E enc" "in_i64 (bh_Height bh)" and "block_index_writes E kv db bh = Ok b"
  shows "over m (eff b) = set_all (block_entries E enc bh) m"
proof -
  let ?h = "bh_Height bh"
  obtain b1 b2 where b1: "batch_Set kv db (kv_NewBatch kv) (hkey E enc ?h) (int64ToBytes ?h) = Ok b1"
    and b2: "block_indexEvents E kv db begin_block ?h (bh_BeginEvents bh) b1 = Ok b2"
    and b: "block_indexEvents E kv db end_block ?h (bh_EndEvents bh) b2 = Ok b"
    using assms(3) by (auto simp: block_index_writes_def Let_def bind_out_Ok_iff made_keys [OF assms(1,2)])
  show ?thesis
    using over_batch_Set [OF b1, of m] block_indexEvents_run [OF assms(1,2) b2, of m] block_indexEvents_run [OF assms(1,2) b, of m]
    by (simp add: NewBatch_eff block_entries_def)
qed

lemma block_index_writes_no_panic:
  assumes "ordered_code E enc" "in_i64 (bh_Height bh)"
  shows "block_index_writes E kv db bh \<noteq> Panic p"
proof -
  have attrs: "block_attributes E kv db etype ty (bh_Height bh) as b \<noteq> Panic p" for etype ty as b
    by (induction as arbitrary: b) (auto simp: Let_def bind_out_Panic_iff batch_Set_no_panic made_keys [OF assms])
  have evs: "block_indexEvents E kv db ty (bh_Height bh) evs b \<noteq> Panic p" for ty evs b
    by (induction evs arbitrary: b) (auto simp: bind_out_Panic_iff attrs)
  have wrap: "wrap_err c (block_indexEvents E kv db ty (bh_Height bh) evs b) \<noteq> Panic p" for c ty evs b
    using evs [of ty evs b] by (cases "block_indexEvents E kv db ty (bh_Height bh) evs b") auto
  show ?thesis
    by (auto simp: block_index_writes_def Let_def bind_out_Panic_iff batch_Set_no_panic made_keys [OF assms] wrap)
qed

lemma Block_Index_atomic:
  assumes "ordered_code E enc" "in_i64 (bh_Height bh)" and "Block_Index E kv bh db = (r, db')"
  shows "look db' = (if is_Ok r then set_all (block_entries E enc bh) (look db) else look db) \<or>
    (\<exists>p. r = Panic p) \<and> look db' = set_all (block_entries E enc bh) (look db)"
proof (cases "block_index_writes E kv db bh")
  case (Ok b)
  show ?thesis
    using assms(3) Ok block_index_writes_run [OF assms(1,2) Ok, of "look db"]
    by (cases r) (auto simp: Block_Index_def dest: Commit_Ok Commit_Err Commit_Panic)
qed (use assms(3) block_index_writes_no_panic [OF assms(1,2)] in \<open>auto simp: Block_Index_def\<close>)

lemma Has_held:
  assumes "ordered_code E enc" and "holds_blocks E enc (look db) bhs" "clean_blocks E bhs" and "in_i64 h"
  shows "Has E kv db h = Ok (h \<in> bh_Height ` set bhs)"
proof -
  have "look db (hkey E enc h) = Some v \<longleftrightarrow> (\<exists>bh \<in> set bhs. (hkey E enc h, v) \<in> set (block_entries E enc bh))" for v
    using assms(2) key_prefixes(1) [OF assms(1,4,4)] unfolding holds_blocks_def by blast
  moreover have "(hkey E enc h, v) \<in> set (block_entries E enc bh) \<longleftrightarrow> v = int64ToBytes h \<and> h = bh_Height bh"
    if "bh \<in> set bhs" for bh v
    using key_prefixes(4) [OF assms(1,4) clean_blocksD(1) [OF assms(3) that]]
      key_prefixes(7) [OF assms(1,4) clean_blocksD(1) [OF assms(3) that]] clean_blocksD(2) [OF assms(3) that]
    unfolding block_entries_iff by (metis UnCI)
  ultimately have held: "look db (hkey E enc h) = Some v \<longleftrightarrow> v = int64ToBytes h \<and> h \<in> bh_Height ` set bhs" for v
    by auto
  show ?thesis
  proof (cases "look db (hkey E enc h)")
    case None
    with held have "h \<notin> bh_Height ` set bhs" by auto
    with None show ?thesis by (simp add: Has_def made_keys [OF assms(1,4)] Get_law)
  next
    case (Some v)
    with held have "h \<in> bh_Height ` set bhs" by blast
    with Some show ?thesis by (simp add: Has_def made_keys [OF assms(1,4)] Get_law)
  qed
qed

end

subsection \<open>Searching\<close>

text \<open>Queries other than by height.\<close>

definition plain_block_query :: "blockindex_env \<Rightarrow> Condition list \<Rightarrow> bool" where
  "plain_block_query E cs \<longleftrightarrow>
     cs \<noteq> [] \<and> sole_bounds cs \<and>
     (\<forall>c \<in> set cs.
        (c_CompositeKey c = be_BlockHeightKey E \<longrightarrow> c_Op c \<noteq> OpEqual \<and> c_Op c \<noteq> OpContains) \<and>
        (c_Op c = OpContains \<longrightarrow> (\<exists>s. c_Operand c = Some (OString s))))"

abbreviation height_bytes :: "NewBlockHeader \<Rightarrow> bytes" where
  "height_bytes bh \<equiv> int64ToBytes (bh_Height bh)"

definition at_tag :: "NewBlockHeader \<Rightarrow> gostring \<Rightarrow> bytes \<Rightarrow> gostring \<Rightarrow> bool" where
  "at_tag bh t x ty \<longleftrightarrow>
     (t, x) \<in> set (event_tags (bh_BeginEvents bh)) \<and> ty = begin_block \<or> (t, x) \<in> set (event_tags (bh_EndEvents bh)) \<and> ty = end_block"

lemma block_entries_at:
  "(k, v) \<in> set (block_entries E enc bh) \<longleftrightarrow> v = height_bytes bh \<and>
    (k = hkey E enc (bh_Height bh) \<or> (\<exists>t x ty. at_tag bh t x ty \<and> k = ekey enc t x (bh_Height bh) ty))"
  unfolding block_entries_iff at_tag_def by blast

lemma block_tags_at:
  assumes "clean_blocks E bhs" and "bh \<in> set bhs"
  shows "key \<noteq> be_BlockHeightKey E \<Longrightarrow> (key, x) \<in> set (block_tags E bh) \<longleftrightarrow> (\<exists>ty. at_tag bh key x ty)"
    and "(be_BlockHeightKey E, x) \<in> set (block_tags E bh) \<longleftrightarrow> x = FormatInt (bh_Height bh)"
    and "at_tag bh t x ty \<Longrightarrow> t \<noteq> be_BlockHeightKey E"
  using clean_blocksD(2) [OF assms] by (auto simp: block_tags_def at_tag_def)

locale block_store = kv_store kv look eff raw
  for kv :: "'db KVStore" and look eff raw +
  fixes pre :: bytes
  assumes raw_pre: "raw k = pre @ k"
    and pre_plain: "0 \<notin> set pre" "0xff \<notin> set pre"
begin

lemma block_items:
  assumes "holds_blocks E enc (look db) bhs" and "prefix (enc (OcString key)) p"
  shows "(k, v) \<in> set (kv_PrefixIterator kv db p) \<longleftrightarrow>
    (\<exists>bh k'. bh \<in> set bhs \<and> (k', v) \<in> set (block_entries E enc bh) \<and> prefix p k' \<and> k = pre @ k')"
proof -
  have "look db k = Some v \<longleftrightarrow> (\<exists>bh \<in> set bhs. (k, v) \<in> set (block_entries E enc bh))" if "prefix p k" for k v
    using assms(1) prefix_order.trans [OF assms(2) that] unfolding holds_blocks_def by blast
  then show ?thesis
    unfolding Iterator_set raw_pre by blast
qed

text \<open>The items under the name of the height, under another name, and under a name with a value.\<close>

lemma height_items:
  assumes code: "ordered_code E enc" and M: "holds_blocks E enc (look db) bhs" and clean: "clean_blocks E bhs"
  shows "(k, v) \<in> set (kv_PrefixIterator kv db (enc (OcString (be_BlockHeightKey E)))) \<longleftrightarrow>
    (\<exists>bh. bh \<in> set bhs \<and> k = pre @ hkey E enc (bh_Height bh) \<and> v = height_bytes bh)"
proof -
  have "(k', v) \<in> set (block_entries E enc bh) \<and> prefix (enc (OcString (be_BlockHeightKey E))) k' \<longleftrightarrow>
      k' = hkey E enc (bh_Height bh) \<and> v = height_bytes bh" if "bh \<in> set bhs" for bh k'
    using key_prefixes(1,2) [OF code clean_blocksD(1) [OF clean that] clean_blocksD(1) [OF clean that]] clean_blocksD(2) [OF clean that]
    unfolding block_entries_iff by (metis UnCI)
  then show ?thesis
    unfolding block_items [OF M prefix_order.refl] by blast
qed

lemma event_items:
  assumes code: "ordered_code E enc" and M: "holds_blocks E enc (look db) bhs" and clean: "clean_blocks E bhs"
    and key: "key \<noteq> be_BlockHeightKey E"
  shows "(k, v) \<in> set (kv_PrefixIterator kv db (enc (OcString key))) \<longleftrightarrow>
    (\<exists>bh x ty. bh \<in> set bhs \<and> at_tag bh key x ty \<and> k = pre @ ekey enc key x (bh_Height bh) ty \<and> v = height_bytes bh)"
proof -
  have "(k', v) \<in> set (block_entries E enc bh) \<and> prefix (enc (OcString key)) k' \<longleftrightarrow>
      (\<exists>x ty. at_tag bh key x ty \<and> k' = ekey enc key x (bh_Height bh) ty \<and> v = height_bytes bh)" if "bh \<in> set bhs" for bh k'
    using key_prefixes(1,2) [OF code clean_blocksD(1) [OF clean that] clean_blocksD(1) [OF clean that]] key
    unfolding block_entries_at by metis
  then show ?thesis
    unfolding block_items [OF M prefix_order.refl] by blast
qed

lemma value_items:
  assumes code: "ordered_code E enc" and M: "holds_blocks E enc (look db) bhs" and clean: "clean_blocks E bhs"
    and key: "key \<noteq> be_BlockHeightKey E"
  shows "(k, v) \<in> set (kv_PrefixIterator kv db (enc (OcString key) @ enc (OcString x))) \<longleftrightarrow>
    (\<exists>bh ty. bh \<in> set bhs \<and> at_tag bh key x ty \<and> k = pre @ ekey enc key x (bh_Height bh) ty \<and> v = height_bytes bh)"
proof -
  have "(k', v) \<in> set (block_entries E enc bh) \<and> prefix (enc (OcString key) @ enc (OcString x)) k' \<longleftrightarrow>
      (\<exists>ty. at_tag bh key x ty \<and> k' = ekey enc key x (bh_Height bh) ty \<and> v = height_bytes bh)" if "bh \<in> set bhs" for bh k'
    using key_prefixes(3,6) [OF code clean_blocksD(1) [OF clean that] clean_blocksD(1) [OF clean that]] key
    unfolding block_entries_at by metis
  moreover have "prefix (enc (OcString key)) (enc (OcString key) @ enc (OcString x))" by simp
  ultimately show ?thesis
    unfolding block_items [OF M \<open>prefix _ _\<close>] by blast
qed

lemma block_match_run:
  assumes code: "ordered_code E enc" and M: "holds_blocks E enc (look db) bhs" and clean: "clean_blocks E bhs"
    and op: "\<not> IsRangeOperation (c_Op c)"
    and height: "c_CompositeKey c = be_BlockHeightKey E \<Longrightarrow> c_Op c \<noteq> OpEqual \<and> c_Op c \<noteq> OpContains"
    and sub: "c_Op c = OpContains \<Longrightarrow> \<exists>s. c_Operand c = Some (OString s)"
  shows "\<exists>f'. block_match E kv db c (enc (OcString (c_CompositeKey c)) @ enc (OcString (block_print E (c_Operand c)))) f first None =
      Ok (f', None) \<and>
    set f' = (if first then height_bytes ` {bh \<in> set bhs. tags_meet (block_print E) c (block_tags E bh)}
      else height_bytes ` {bh \<in> set bhs. tags_meet (block_print E) c (block_tags E bh)} \<inter> set f) \<and>
    (distinct f \<longrightarrow> distinct f')"
  (is "\<exists>f'. _ \<and> set f' = (if first then ?F else ?F \<inter> set f) \<and> _")
proof (cases "\<not> first \<and> f = []")
  case False
  let ?k = "c_CompositeKey c"
  have app: "be_Append E [OcString ?k] = Ok (enc (OcString ?k))"
    using ordered_codeD(1) [OF code, of "[OcString ?k]"] by simp
  note tags = block_tags_at [OF clean]
  consider "c_Op c = OpEqual" "?k \<noteq> be_BlockHeightKey E" | "c_Op c = OpExists" "?k \<noteq> be_BlockHeightKey E"
    | "c_Op c = OpExists" "?k = be_BlockHeightKey E" | "c_Op c = OpContains" "?k \<noteq> be_BlockHeightKey E"
    using op height by (cases "c_Op c") (auto simp: IsRangeOperation_def)
  then show ?thesis
  proof cases
    case 1
    have "tags_meet (block_print E) c (block_tags E bh) \<longleftrightarrow> (\<exists>ty. at_tag bh ?k (block_print E (c_Operand c)) ty)"
      if "bh \<in> set bhs" for bh
      using 1 tags(1) [OF that] by (simp add: tags_meet_def)
    then have "{v. \<exists>k. (k, v) \<in> set (kv_PrefixIterator kv db (enc (OcString ?k) @ enc (OcString (block_print E (c_Operand c)))))} = ?F"
      unfolding value_items [OF code M clean 1(2)] by blast
    from match_step_all [OF this, of f first] 1 False show ?thesis by (simp add: block_match_def)
  next
    case 2
    have "tags_meet (block_print E) c (block_tags E bh) \<longleftrightarrow> (\<exists>x ty. at_tag bh ?k x ty)" if "bh \<in> set bhs" for bh
      using 2 tags(1) [OF that] by (simp add: tags_meet_def)
    then have "{v. \<exists>k. (k, v) \<in> set (kv_PrefixIterator kv db (enc (OcString ?k)))} = ?F"
      unfolding event_items [OF code M clean 2(2)] by blast
    from match_step_all [OF this, of f first] 2 False app show ?thesis by (simp add: block_match_def)
  next
    case 3
    have "{v. \<exists>k. (k, v) \<in> set (kv_PrefixIterator kv db (enc (OcString ?k)))} = ?F"
      unfolding 3(2) height_items [OF code M clean] using 3 tags(2) by (auto simp: tags_meet_def)
    from match_step_all [OF this, of f first] 3 False app show ?thesis by (simp add: block_match_def)
  next
    case 4
    obtain s where s: "c_Operand c = Some (OString s)" using sub [OF 4(1)] by blast
    have pick: "block_containing E c (pre @ ekey enc ?k x (bh_Height bh) ty, v) = Ok (Some (sublist s x))"
      if "bh \<in> set bhs" for bh x ty v
      using parsed_keys(2) [OF code clean_blocksD(1) [OF clean that] pre_plain] by (simp add: block_containing_def s Contains_def)
    have "\<exists>f'. bind_out (collect (block_containing E c) (kv_PrefixIterator kv db (enc (OcString ?k))) [] None)
        (\<lambda>t. Ok (merge_matches f first t)) = Ok (f', None) \<and>
      set f' = (if first then ?F else ?F \<inter> set f) \<and> (distinct f \<longrightarrow> distinct f')"
    proof (rule match_step)
      show "\<exists>b. block_containing E c item = Ok b" for item
        by (simp add: block_containing_def s split: outcome.split)
      have "tags_meet (block_print E) c (block_tags E bh) \<longleftrightarrow> (\<exists>x ty. at_tag bh ?k x ty \<and> sublist s x)" if "bh \<in> set bhs" for bh
        using 4 tags(1) [OF that] by (auto simp: tags_meet_def s)
      moreover have "block_containing E c (pre @ ekey enc ?k x (bh_Height bh) ty, v) = Ok (Some True) \<longleftrightarrow> sublist s x"
        if "bh \<in> set bhs" for bh x ty v
        using pick [OF that] by simp
      ultimately show "{v. \<exists>k. (k, v) \<in> set (kv_PrefixIterator kv db (enc (OcString ?k))) \<and> block_containing E c (k, v) = Ok (Some True)} = ?F"
        unfolding event_items [OF code M clean 4(2)] by blast
    qed
    with 4 False app show ?thesis by (simp add: block_match_def)
  qed
qed (auto simp: block_match_def)

lemma block_matchRange_run:
  assumes code: "ordered_code E enc" and M: "holds_blocks E enc (look db) bhs" and clean: "clean_blocks E bhs"
    and cs: "sole_bounds cs" "ranged key cs"
  shows "\<exists>f'. block_matchRange E kv db (range_of key cs) (enc (OcString key)) f first None = Ok (f', None) \<and>
    set f' = (if first then height_bytes ` {bh \<in> set bhs. tags_meet_ranges cs key (block_tags E bh)}
      else height_bytes ` {bh \<in> set bhs. tags_meet_ranges cs key (block_tags E bh)} \<inter> set f) \<and> (distinct f \<longrightarrow> distinct f')"
  (is "\<exists>f'. _ \<and> set f' = (if first then ?F else ?F \<inter> set f) \<and> _")
proof (cases "\<not> first \<and> f = []")
  case False
  let ?all = "\<lambda>v. \<forall>c \<in> set cs. IsRangeOperation (c_Op c) \<and> c_CompositeKey c = key \<longrightarrow> satisfies c v"
  obtain l u where lu: "LowerBoundValue (range_of key cs) = Ok l" "UpperBoundValue (range_of key cs) = Ok u"
      "\<And>v. in_bounds l u v = Ok (?all v)"
    using range_bounds [OF cs(1), of key] by blast
  obtain b where b: "AnyBound (range_of key cs) = Some (OInt b)"
    using AnyBound_ranged [OF cs] by blast
  let ?pick = "pick_in_range (range_of key cs) l u (value_in_range E key)"
  have pick: "?pick (k, v) = Ok (Some True) \<longleftrightarrow> (\<exists>n. ParseInt x = Ok n \<and> ?all n)" if "value_in_range E key k = Some x" for k v x
    using that b lu(3) by (simp add: pick_in_range_def split: outcome.split)
  have found: "{v. \<exists>k. (k, v) \<in> set (kv_PrefixIterator kv db (enc (OcString key))) \<and> ?pick (k, v) = Ok (Some True)} = ?F"
  proof (cases "key = be_BlockHeightKey E")
    case True
    have "?pick (pre @ hkey E enc (bh_Height bh), v) = Ok (Some True) \<longleftrightarrow> tags_meet_ranges cs key (block_tags E bh)"
      if "bh \<in> set bhs" for bh v
      using pick [of "pre @ hkey E enc (bh_Height bh)" "FormatInt (bh_Height bh)" v] block_tags_at(2) [OF clean that]
        parsed_keys(1) [OF code clean_blocksD(1) [OF clean that] pre_plain] True
      by (simp add: value_in_range_def tags_meet_ranges_def)
    then show ?thesis
      unfolding True height_items [OF code M clean] by blast
  next
    case other: False
    have "?pick (pre @ ekey enc key x (bh_Height bh) ty, v) = Ok (Some True) \<longleftrightarrow> (\<exists>n. ParseInt x = Ok n \<and> ?all n)"
      if "bh \<in> set bhs" for bh x ty v
      by (rule pick) (use parsed_keys(2) [OF code clean_blocksD(1) [OF clean that] pre_plain] other in \<open>simp add: value_in_range_def\<close>)
    moreover have "tags_meet_ranges cs key (block_tags E bh) \<longleftrightarrow> (\<exists>x ty. at_tag bh key x ty \<and> (\<exists>n. ParseInt x = Ok n \<and> ?all n))"
      if "bh \<in> set bhs" for bh
      using block_tags_at(1) [OF clean that other] unfolding tags_meet_ranges_def by blast
    ultimately show ?thesis
      unfolding event_items [OF code M clean other] by blast
  qed
  have "\<exists>f'. bind_out (collect ?pick (kv_PrefixIterator kv db (enc (OcString key))) [] None)
      (\<lambda>t. Ok (merge_matches f first t)) = Ok (f', None) \<and>
    set f' = (if first then ?F else ?F \<inter> set f) \<and> (distinct f \<longrightarrow> distinct f')"
  proof (rule match_step [OF _ found])
    show "\<exists>b. ?pick item = Ok b" for item
      using b lu(3) by (simp add: pick_in_range_def split: option.split outcome.split)
  qed
  moreover have "qr_Key (range_of key cs) = key" by (simp add: range_of_def)
  ultimately show ?thesis using False lu by (simp add: block_matchRange_def)
qed (auto simp: block_matchRange_def)

lemma search_heights_run:
  assumes code: "ordered_code E enc" and M: "holds_blocks E enc (look db) bhs" and clean: "clean_blocks E bhs"
    and q: "plain_block_query E cs"
  shows "\<exists>hs. search_heights E kv db cs None = Ok (hs, None) \<and> distinct hs \<and>
    set hs = height_bytes ` {bh \<in> set bhs. tags_meet_query (block_print E) cs (block_tags E bh)}"
proof -
  have sole: "sole_bounds cs" and ne: "cs \<noteq> []" using q by (simp_all add: plain_block_query_def)
  let ?m1 = "\<lambda>(key, qr) filtered firstRun ctx.
    bind_out (wrap_err ''failed to create prefix key'' (be_Append E [OcString (qr_Key qr)])) (\<lambda>pre.
      block_matchRange E kv db qr pre filtered firstRun ctx)"
  let ?m2 = "\<lambda>c filtered firstRun ctx.
    bind_out (be_Append E [OcString (c_CompositeKey c), OcString (block_print E (c_Operand c))]) (\<lambda>start.
      block_match E kv db c start filtered firstRun ctx)"
  let ?R = "\<lambda>key bh. tags_meet_ranges cs key (block_tags E bh)"
  let ?P = "\<lambda>c bh. tags_meet (block_print E) c (block_tags E bh)"
  have "\<exists>f1 i f2. match_all ?m1 (fst (LookForRanges cs)) ([], False, None) = Ok (f1, i, None) \<and>
    match_all ?m2 (other_conditions cs (snd (LookForRanges cs))) (f1, i, None) = Ok (f2, True, None) \<and> distinct f2 \<and>
    set f2 = height_bytes ` {bh \<in> set bhs. (\<forall>key. ranged key cs \<longrightarrow> ?R key bh) \<and>
      (\<forall>c \<in> set cs. \<not> IsRangeOperation (c_Op c) \<longrightarrow> ?P c bh)}"
  proof (rule match_loops)
    show "inj_on height_bytes (set bhs)"
      using clean int64ToBytes_inject unfolding clean_blocks_def inj_on_def by blast
    show "\<exists>f'. ?m1 (key, range_of key cs) f first None = Ok (f', None) \<and>
        set f' = (if first then height_bytes ` {bh \<in> set bhs. ?R key bh} else height_bytes ` {bh \<in> set bhs. ?R key bh} \<inter> set f) \<and>
        (distinct f \<longrightarrow> distinct f')" if "ranged key cs" for key f first
      using block_matchRange_run [OF code M clean sole that, of f first] ordered_codeD(1) [OF code, of "[OcString key]"]
      by (simp add: range_of_def)
    show "\<exists>f'. ?m2 c f first None = Ok (f', None) \<and>
        set f' = (if first then height_bytes ` {bh \<in> set bhs. ?P c bh} else height_bytes ` {bh \<in> set bhs. ?P c bh} \<inter> set f) \<and>
        (distinct f \<longrightarrow> distinct f')" if "c \<in> set cs" "\<not> IsRangeOperation (c_Op c)" for c f first
      using block_match_run [OF code M clean that(2), of f first] q that(1)
        ordered_codeD(1) [OF code, of "[OcString (c_CompositeKey c), OcString (block_print E (c_Operand c))]"]
      unfolding plain_block_query_def by simp
  qed (fact sole ne)+
  moreover have "(\<forall>key. ranged key cs \<longrightarrow> ?R key bh) \<and> (\<forall>c \<in> set cs. \<not> IsRangeOperation (c_Op c) \<longrightarrow> ?P c bh) \<longleftrightarrow>
      tags_meet_query (block_print E) cs (block_tags E bh)" for bh
    unfolding tags_meet_query_def using tags_meet_range_op by blast
  ultimately show ?thesis
    by (auto simp: search_heights_def case_prod_unfold)
qed

lemma fetch_heights_run:
  assumes code: "ordered_code E enc" and M: "holds_blocks E enc (look db) bhs" and clean: "clean_blocks E bhs"
    and "set hs \<subseteq> height_bytes ` set bhs"
  shows "fetch_heights E kv db hs None = Ok (map int64FromBytes hs)"
  using assms(4)
proof (induction hs)
  case (Cons h hs)
  then obtain bh where "bh \<in> set bhs" "h = height_bytes bh" by auto
  then have "int64FromBytes h = bh_Height bh" "in_i64 (bh_Height bh)"
    using int64FromBytes_ToBytes clean_blocksD(1) [OF clean] by auto
  with Cons \<open>bh \<in> set bhs\<close> Has_held [OF code M clean, of "bh_Height bh"] show ?case by simp
qed simp

lemma block_lookForHeight_none:
  "(\<And>c. c \<in> set cs \<Longrightarrow> c_CompositeKey c = be_BlockHeightKey E \<Longrightarrow> c_Op c \<noteq> OpEqual) \<Longrightarrow> block_lookForHeight E cs = Ok None"
  by (induction cs) auto

lemma Block_Search_run:
  assumes code: "ordered_code E enc" and M: "holds_blocks E enc (look db) bhs" and clean: "clean_blocks E bhs"
    and q: "plain_block_query E cs"
  shows "Block_Search E kv db (Ok cs) None =
    Ok (sorted_list_of_set (bh_Height ` {bh \<in> set bhs. tags_meet_query (block_print E) cs (block_tags E bh)}))"
proof -
  let ?B = "{bh \<in> set bhs. tags_meet_query (block_print E) cs (block_tags E bh)}"
  obtain hs where hs: "search_heights E kv db cs None = Ok (hs, None)" "distinct hs" "set hs = height_bytes ` ?B"
    using search_heights_run [OF assms] by blast
  have fetch: "fetch_heights E kv db hs None = Ok (map int64FromBytes hs)"
    by (rule fetch_heights_run [OF code M clean]) (use hs(3) in auto)
  have same: "int64FromBytes (height_bytes bh) = bh_Height bh" if "bh \<in> set bhs" for bh
    using int64FromBytes_ToBytes clean_blocksD(1) [OF clean that] by blast
  then have "set (map int64FromBytes hs) = bh_Height ` ?B"
    using hs(3) by (force simp: image_iff)
  moreover have "distinct (map int64FromBytes hs)"
    using hs(2,3) same by (auto simp: distinct_map inj_on_def)
  ultimately have "sort (map int64FromBytes hs) = sorted_list_of_set (bh_Height ` ?B)"
    by (metis distinct_remdups_id sorted_list_of_set_sort_remdups)
  moreover have "block_lookForHeight E cs = Ok None"
    using q by (intro block_lookForHeight_none) (auto simp: plain_block_query_def)
  ultimately show ?thesis
    using hs fetch by (simp add: Block_Search_def)
qed

end

subsection \<open>The store of the block index\<close>

text \<open>\<open>node.go\<close> puts the block index into the store of the transaction index, under a prefix.\<close>

definition blockEventsPrefix :: bytes where
  "blockEventsPrefix = [0x62, 0x6c, 0x6f, 0x63, 0x6b, 0x5f, 0x65, 0x76, 0x65, 0x6e, 0x74, 0x73]"

definition blockKV :: "'db badger \<Rightarrow> 'db KVStore" where
  "blockKV bdg = PrefixKV (indexerKV bdg) blockEventsPrefix"

definition block_look :: "'db badger \<Rightarrow> 'db \<Rightarrow> bytes \<rightharpoonup> bytes" where
  "block_look bdg = prefix_look (indexer_look bdg) blockEventsPrefix"

definition block_eff :: "kv_write list \<Rightarrow> bytes \<Rightarrow> bytes option option" where
  "block_eff = prefix_eff indexer_eff blockEventsPrefix"

sublocale badger_db \<subseteq> blocks: prefixed_store "indexerKV bdg" "indexer_look bdg" indexer_eff "\<lambda>k. indexerPrefix @ k" blockEventsPrefix
  by unfold_locales

sublocale badger_db \<subseteq> blks: block_store "blockKV bdg" "block_look bdg" block_eff "\<lambda>k. indexerPrefix @ blockEventsPrefix @ k"
    "indexerPrefix @ blockEventsPrefix"
proof (rule block_store.intro)
  show "kv_store (blockKV bdg) (block_look bdg) block_eff (\<lambda>k. indexerPrefix @ blockEventsPrefix @ k)"
    using blocks.sub.kv_store_axioms by (simp add: blockKV_def block_look_def block_eff_def)
  show "block_store_axioms (\<lambda>k. indexerPrefix @ blockEventsPrefix @ k) (indexerPrefix @ blockEventsPrefix)"
    by unfold_locales (auto simp: indexerPrefix_def blockEventsPrefix_def)
qed

context badger_db
begin

lemma blockKV_block_store:
  "block_store (blockKV bdg) (block_look bdg) block_eff (\<lambda>k. indexerPrefix @ blockEventsPrefix @ k) (indexerPrefix @ blockEventsPrefix)"
  by (rule blks.block_store_axioms)

end

lemma Block_Index_holds:
  assumes "badger_db bdg" and "ordered_code E enc" and "holds_blocks E enc (block_look bdg db) bhs"
    and "clean_blocks E (bhs @ [bh])" and "Block_Index E (blockKV bdg) bh db = (Ok (), db')"
  shows "holds_blocks E enc (block_look bdg db') (bhs @ [bh])"
proof -
  have kv: "kv_store (blockKV bdg) (block_look bdg) block_eff (\<lambda>k. indexerPrefix @ blockEventsPrefix @ k)"
    by (rule block_store.axioms(1) [OF badger_db.blockKV_block_store [OF assms(1)]])
  have "in_i64 (bh_Height bh)" using clean_blocksD(1) [OF assms(4)] by simp
  from kv_store.Block_Index_atomic [OF kv assms(2) this assms(5)]
  have "block_look bdg db' = set_all (block_entries E enc bh) (block_look bdg db)" by simp
  with set_all_blocks [OF assms(3,4,2)] show ?thesis by simp
qed

subsection \<open>An instance of the key encoding\<close>

text \<open>
  A code that satisfies \<open>ordered_code\<close>: strings escaped as the package does it, numbers in decimal
  with a terminator.
\<close>

fun esc :: "bytes \<Rightarrow> bytes" where
  "esc [] = [0, 1]"
| "esc (c # cs) = (if c = 0 then [0, 0xff] else if c = 0xff then [0xff, 0] else [c]) @ esc cs"

fun unesc :: "bytes \<Rightarrow> (bytes \<times> bytes) option" where
  "unesc [] = None"
| "unesc (c # r) =
     (if c = 0
      then (case r of
              [] \<Rightarrow> None
            | d # r' \<Rightarrow> if d = 1 then Some ([], r') else map_option (apfst ((#) 0)) (unesc r'))
      else if c = 0xff
      then (case r of [] \<Rightarrow> None | d # r' \<Rightarrow> map_option (apfst ((#) 0xff)) (unesc r'))
      else map_option (apfst ((#) c)) (unesc r))"

primrec sample_enc :: "oc_item \<Rightarrow> bytes" where
  "sample_enc (OcString s) = esc s"
| "sample_enc (OcInt n) = FormatInt n @ [0]"

fun sample_parse :: "oc_kind list \<Rightarrow> bytes \<Rightarrow> (oc_item list \<times> bytes) outcome" where
  "sample_parse [] d = Ok ([], d)"
| "sample_parse (KString # ks) d =
     (case unesc d of
        None \<Rightarrow> Err (Errorf ''corrupt input'')
      | Some (s, r) \<Rightarrow> bind_out (sample_parse ks r) (\<lambda>(items, r'). Ok (OcString s # items, r')))"
| "sample_parse (KInt # ks) d =
     bind_out (ParseInt (takeWhile (\<lambda>c. c \<noteq> 0) d)) (\<lambda>n.
     bind_out (sample_parse ks (tl (dropWhile (\<lambda>c. c \<noteq> 0) d))) (\<lambda>(items, r'). Ok (OcInt n # items, r')))"

definition sample_block_env :: blockindex_env where
  "sample_block_env =
     \<lparr>be_Append = (\<lambda>items. Ok (concat (map sample_enc items))), be_Parse = sample_parse,
      be_BlockHeightKey = [0x68], be_print = (\<lambda>_. [])\<rparr>"

lemma unesc_esc: "unesc (esc s @ r) = Some (s, r)"
  by (induction s) auto

lemma esc_plain: "0 \<notin> set p \<Longrightarrow> 0xff \<notin> set p \<Longrightarrow> esc (p @ s) = p @ esc s"
  by (induction p) auto

lemma zero_notin_FormatInt: "0 \<notin> set (FormatInt n)"
proof -
  have "(0 :: byte) \<noteq> 0x30 + word_of_nat d" if "d < 10" for d
  proof -
    have "d \<in> {0, 1, 2, 3, 4, 5, 6, 7, 8, 9}" using that by auto
    then show ?thesis by auto
  qed
  then have "0 \<notin> set (digits n)" for n
    using digits_range by blast
  then show ?thesis by (simp add: FormatInt_def)
qed

lemma sample_parse_enc:
  "list_all item_fits items \<Longrightarrow> sample_parse (map kind items) (concat (map sample_enc items) @ rest) = Ok (items, rest)"
proof (induction items)
  case (Cons item items)
  show ?case
  proof (cases item)
    case (OcString s)
    with Cons show ?thesis by (simp add: unesc_esc)
  next
    case (OcInt n)
    have "\<forall>c \<in> set (FormatInt n). c \<noteq> 0" using zero_notin_FormatInt by metis
    then have "takeWhile (\<lambda>c. c \<noteq> 0) (FormatInt n @ 0 # r) = FormatInt n" "dropWhile (\<lambda>c. c \<noteq> 0) (FormatInt n @ 0 # r) = 0 # r" for r
      by (simp_all add: takeWhile_append2 dropWhile_append2)
    with Cons OcInt show ?thesis by (simp add: ParseInt_FormatInt)
  qed
qed simp

lemma sample_ordered_code: "ordered_code sample_block_env sample_enc"
  by (simp add: ordered_code_def sample_block_env_def sample_parse_enc esc_plain)

definition sample_new_header :: "int \<Rightarrow> NewBlockHeader" where
  "sample_new_header h = \<lparr>bh_Height = h, bh_NumTxs = 0, bh_BeginEvents = [], bh_EndEvents = [sample_event (FormatInt h)]\<rparr>"

lemma sample_clean_blocks: "clean_blocks sample_block_env [sample_new_header 7, sample_new_header 9]"
  by (simp add: clean_blocks_def sample_new_header_def sample_block_env_def event_tags_def sample_event_def in_i64_def dot_def)

lemma no_blocks: "holds_blocks E enc (block_look mem_badger (empty_mem fs)) []"
  by (simp add: holds_blocks_def block_look_def indexer_look_def prefix_look_def empty_mem_def)

subsection \<open>Properties\<close>


lemma sample_blocks_added:
  "fst (Block_Index sample_block_env (blockKV mem_badger) (sample_new_header 7) (empty_mem [])) = Ok ()"
  "fst (Block_Index sample_block_env (blockKV mem_badger) (sample_new_header 9)
     (snd (Block_Index sample_block_env (blockKV mem_badger) (sample_new_header 7) (empty_mem [])))) = Ok ()"
  by code_simp+

definition sample_block_query :: "Condition list" where
  "sample_block_query = [\<lparr>c_CompositeKey = [0x68], c_Op = OpGreaterEqual, c_Operand = Some (OInt 8)\<rparr>,
     \<lparr>c_CompositeKey = [0x61, 0x2e, 0x62], c_Op = OpExists, c_Operand = None\<rparr>]"


end
