(* ===== verification/IndexerService.thy ===== *)
theory IndexerService
  imports BlockIndex
begin

text \<open>
  The indexer service (\<open>src/state/txindex/indexer_service.go\<close>) between the events of the executor and
  the two indexes. Its subscriptions to tendermint's event bus are two queues; one round of its loop
  takes a header event, then as many transaction events as the header announces, and writes both
  indexes. That both indexes live in one store without disturbing each other, and that the events
  published for a block end up in them, is shown here.
\<close>

subsection \<open>The loop\<close>

record 'db indexer_service =
  is_headers :: "NewBlockHeader list"
  is_txs :: "TxResult list"
  is_db :: 'db

text \<open>What a published event puts into the queues.\<close>

fun deliver :: "bus_event \<Rightarrow> 'db indexer_service \<Rightarrow> 'db indexer_service" where
  "deliver (EventDataNewBlock b begin end) s = s"
| "deliver (EventDataNewBlockHeader hdr n begin end) s =
     s\<lparr>is_headers := is_headers s @
         [\<lparr>bh_Height = th_Height hdr, bh_NumTxs = n, bh_BeginEvents = begin, bh_EndEvents = eb_Events end\<rparr>]\<rparr>"
| "deliver (EventDataTx h i tx res) s =
     s\<lparr>is_txs := is_txs s @ [\<lparr>tr_Height = h, tr_Index = i, tr_Tx = tx, tr_Result = res\<rparr>]\<rparr>"

text \<open>
  The inner loop, with the number of events still to come; \<open>None\<close> is waiting for the next one. An
  error of \<open>Add\<close> is logged.
\<close>

fun receive :: "nat \<Rightarrow> TxResult list \<Rightarrow> tx_batch \<Rightarrow> (tx_batch \<times> TxResult list) outcome option" where
  "receive 0 q b = Some (Ok (b, q))"
| "receive (Suc n) [] b = None"
| "receive (Suc n) (r # q) b =
     (case Batch_Add r b of
        Ok b' \<Rightarrow> receive n q b'
      | Err e \<Rightarrow> receive n q b
      | Panic p \<Rightarrow> Some (Panic p))"

text \<open>Errors of the indexers are logged; a panic ends the process.\<close>

definition write_indexes :: "txindex_env \<Rightarrow> blockindex_env \<Rightarrow> 'db KVStore \<Rightarrow> 'db KVStore \<Rightarrow> NewBlockHeader \<Rightarrow> tx_batch \<Rightarrow>
    ('db, unit) cmd" where
  "write_indexes E B txkv blockkv bh batch db =
     (case Block_Index B blockkv bh db of
        (Panic p, db1) \<Rightarrow> (Panic p, db1)
      | (_, db1) \<Rightarrow>
          (case AddBatch E txkv batch db1 of
             (Panic p, db2) \<Rightarrow> (Panic p, db2)
           | (_, db2) \<Rightarrow> (Ok (), db2)))"

definition index_next :: "txindex_env \<Rightarrow> blockindex_env \<Rightarrow> 'db KVStore \<Rightarrow> 'db KVStore \<Rightarrow> 'db indexer_service \<Rightarrow>
    (unit outcome \<times> 'db indexer_service) option" where
  "index_next E B txkv blockkv s =
     (case is_headers s of
        [] \<Rightarrow> None
      | bh # headers \<Rightarrow>
          (case NewBatch (bh_NumTxs bh) of
             Ok batch0 \<Rightarrow>
               (case receive (nat (bh_NumTxs bh)) (is_txs s) batch0 of
                  None \<Rightarrow> None
                | Some (Ok (batch, q)) \<Rightarrow>
                    (case write_indexes E B txkv blockkv bh batch (is_db s) of
                       (r, db) \<Rightarrow> Some (r, s\<lparr>is_headers := headers, is_txs := q, is_db := db\<rparr>))
                | Some (Err e) \<Rightarrow> Some (Err e, s)
                | Some (Panic p) \<Rightarrow> Some (Panic p, s))
           | Err e \<Rightarrow> Some (Err e, s)
           | Panic p \<Rightarrow> Some (Panic p, s)))"

subsection \<open>Receiving the results of a block\<close>

definition numbered :: "TxResult list \<Rightarrow> bool" where
  "numbered rs \<longleftrightarrow> length rs < 2 ^ 32 \<and> (\<forall>i < length rs. tr_Index (rs ! i) = word_of_nat i)"

lemma receive_numbered:
  assumes "numbered (done' @ rs)"
  shows "receive (length rs) (rs @ q) (map Some done' @ replicate (length rs) None) = Some (Ok (map Some (done' @ rs), q))"
  using assms
proof (induction rs arbitrary: done')
  case (Cons r rs)
  have "tr_Index r = word_of_nat (length done')" "length done' < 2 ^ 32"
    using Cons.prems by (auto simp: numbered_def nth_append dest!: spec [of _ "length done'"])
  then have "unat (tr_Index r) = length done'"
    by (simp add: unsigned_of_nat take_bit_nat_eq_self)
  then have "Batch_Add r (map Some done' @ replicate (length (r # rs)) None) =
      Ok (map Some (done' @ [r]) @ replicate (length rs) None)"
    by (simp add: Batch_Add_def list_update_append)
  with Cons.IH [of "done' @ [r]"] Cons.prems show ?case by simp
qed simp

lemma receive_block:
  assumes "numbered rs"
  shows "NewBatch (int (length rs)) = Ok (replicate (length rs) None)"
    and "receive (length rs) (rs @ q) (replicate (length rs) None) = Some (Ok (map Some rs, q))"
  using receive_numbered [of "[]" rs q] assms by (simp_all add: NewBatch_def)

subsection \<open>Two indexes in one store\<close>

text \<open>No tag name and no hash of a transaction starts like the keys of the block index.\<close>

definition apart :: "txindex_env \<Rightarrow> gostring set \<Rightarrow> TxResult list \<Rightarrow> bool" where
  "apart E T rs \<longleftrightarrow>
     (\<forall>t \<in> T. \<not> prefix blockEventsPrefix t) \<and> (\<forall>r \<in> set rs. \<not> prefix blockEventsPrefix (hash_of E r))"

lemma apart_tag_key:
  assumes "\<not> prefix blockEventsPrefix t" and "prefix (t @ [slash]) k"
  shows "\<not> prefix blockEventsPrefix k"
proof
  assume "prefix blockEventsPrefix k"
  with assms(2) have "prefix (t @ [slash]) blockEventsPrefix \<or> prefix blockEventsPrefix (t @ [slash])"
    using prefix_same_cases by blast
  moreover have no: "slash \<notin> set blockEventsPrefix"
    by (simp add: slash_def blockEventsPrefix_def)
  then have "\<not> prefix (t @ [slash]) blockEventsPrefix"
    using set_mono_prefix [of "t @ [slash]" blockEventsPrefix] by auto
  moreover have "blockEventsPrefix \<noteq> t @ [slash]"
    using no by (metis in_set_conv_decomp)
  then have "\<not> prefix blockEventsPrefix (t @ [slash])"
    using assms(1) by (simp add: prefix_snoc)
  ultimately show False by blast
qed

lemma holds_index_outside:
  assumes "holds_index E T M rs" and "apart E T rs" and "\<And>k. \<not> prefix blockEventsPrefix k \<Longrightarrow> M' k = M k"
  shows "holds_index E T M' rs"
proof -
  have "M' k = M k" if "t \<in> T" "prefix (t @ [slash]) k" for t k
    using assms(2,3) apart_tag_key that unfolding apart_def by blast
  moreover have "M' (hash_of E r) = M (hash_of E r)" if "r \<in> set rs" for r
    using assms(2,3) that unfolding apart_def by blast
  ultimately show ?thesis
    using assms(1) unfolding holds_index_def by simp
qed

lemma entries_outside:
  assumes "clean E T rs" and "apart E T rs" and "r \<in> set rs" and "(k, v) \<in> set (entries E r)"
  shows "\<not> prefix blockEventsPrefix k"
proof (cases "(k, v) \<in> set (tag_entries E r)")
  case True
  then obtain t where "t \<in> T" "prefix (t @ [slash]) k" using tag_key_prefix [OF assms(1,3)] by blast
  with assms(2) show ?thesis using apart_tag_key unfolding apart_def by blast
next
  case False
  with assms(4) have "k = hash_of E r" by (auto simp: entries_def split: outcome.splits)
  with assms(2,3) show ?thesis by (simp add: apart_def)
qed

lemma set_all_outside: "(\<And>v. (k, v) \<notin> set es) \<Longrightarrow> set_all es m k = m k"
proof (induction es arbitrary: m)
  case (Cons e es)
  have "fst e \<noteq> k" using Cons.prems [of "snd e"] by auto
  with Cons show ?case by (cases e) auto
qed simp

text \<open>Indexing transactions leaves the block index.\<close>

lemma AddBatch_block_look:
  assumes "badger_db bdg" and "clean E T bs" "apart E T bs"
    and "AddBatch E (indexerKV bdg) (map Some bs) db = (Ok (), db')"
  shows "block_look bdg db' = block_look bdg db"
proof
  fix k
  have "indexer_look bdg db' = set_all (concat (map (entries E) bs)) (indexer_look bdg db)"
    by (rule kv_store.AddBatch_run [OF tx_store.axioms(1) [OF badger_db.indexerKV_tx_store [OF assms(1)]] assms(4)])
  moreover have "(blockEventsPrefix @ k, v) \<notin> set (concat (map (entries E) bs))" for v
    using entries_outside [OF assms(2,3)] by fastforce
  ultimately show "block_look bdg db' k = block_look bdg db k"
    by (simp add: block_look_def prefix_look_def set_all_outside)
qed

text \<open>A batch of the block index writes only under its prefix.\<close>

context kv_store
begin

lemma confined_Set:
  assumes "batch_Set (PrefixKV kv p) db b k v = Ok b'" and "\<And>k. \<not> prefix p k \<Longrightarrow> eff b k = None"
  shows "\<not> prefix p k' \<Longrightarrow> eff b' k' = None"
  using assms batch_Set_eff [of db b "p @ k" v b'] by (auto simp: PrefixKV_def)

lemma confined_attributes:
  assumes "block_attributes B (PrefixKV kv p) db etype ty h attrs b = Ok b'" and "\<And>k. \<not> prefix p k \<Longrightarrow> eff b k = None"
  shows "\<not> prefix p k' \<Longrightarrow> eff b' k' = None"
  using assms
proof (induction attrs arbitrary: b)
  case (Cons a attrs)
  show ?case
  proof (cases "ea_Key a = [] \<or> \<not> ea_Index a")
    case True
    with Cons show ?thesis by (auto simp: Let_def split: if_splits)
  next
    case False
    with Cons.prems(2) obtain key b1 where "batch_Set (PrefixKV kv p) db b key (int64ToBytes h) = Ok b1"
      "block_attributes B (PrefixKV kv p) db etype ty h attrs b1 = Ok b'"
      by (auto simp: Let_def bind_out_Ok_iff split: if_splits)
    with Cons.IH [OF Cons.prems(1)] confined_Set Cons.prems(3) show ?thesis by blast
  qed
qed simp

lemma confined_events:
  assumes "block_indexEvents B (PrefixKV kv p) db ty h evs b = Ok b'" and "\<And>k. \<not> prefix p k \<Longrightarrow> eff b k = None"
  shows "\<not> prefix p k' \<Longrightarrow> eff b' k' = None"
  using assms
proof (induction evs arbitrary: b)
  case (Cons e evs)
  show ?case
  proof (cases "e_Type e = []")
    case False
    with Cons.prems(2) obtain b1 where "block_attributes B (PrefixKV kv p) db (e_Type e) ty h (e_Attributes e) b = Ok b1"
      "block_indexEvents B (PrefixKV kv p) db ty h evs b1 = Ok b'"
      by (auto simp: bind_out_Ok_iff)
    with Cons.IH [OF Cons.prems(1)] confined_attributes Cons.prems(3) show ?thesis by blast
  qed (use Cons in simp)
qed simp

lemma Block_Index_outside:
  assumes "Block_Index B (PrefixKV kv p) bh db = (Ok (), db')" and "\<not> prefix p k"
  shows "look db' k = look db k"
proof -
  have new: "eff (kv_NewBatch (PrefixKV kv p)) k = None" for k
    by (simp add: PrefixKV_def NewBatch_eff)
  obtain key b1 b2 b where "batch_Set (PrefixKV kv p) db (kv_NewBatch (PrefixKV kv p)) key (int64ToBytes (bh_Height bh)) = Ok b1"
    "block_indexEvents B (PrefixKV kv p) db begin_block (bh_Height bh) (bh_BeginEvents bh) b1 = Ok b2"
    "block_indexEvents B (PrefixKV kv p) db end_block (bh_Height bh) (bh_EndEvents bh) b2 = Ok b"
    and commit: "batch_Commit kv b db = (Ok (), db')"
    using assms(1)
    by (auto simp: Block_Index_def block_index_writes_def Let_def bind_out_Ok_iff PrefixKV_def split: outcome.splits)
  then have "eff b k = None"
    using confined_events [of B p db] confined_Set [of p db] new assms(2) by metis
  with Commit_Ok [OF commit] show ?thesis by (simp add: over_def)
qed

end

subsection \<open>A store that does not fail\<close>

lemma working_prefix: "working kv P \<Longrightarrow> working (PrefixKV kv p) P"
  unfolding working_def PrefixKV_def by simp

lemma AddBatch_succeeds:
  assumes "working kv P" "P db" and "\<And>r. r \<in> set rs \<Longrightarrow> \<exists>bs. te_Marshal E r = Ok bs"
  shows "\<exists>db'. AddBatch E kv (map Some rs) db = (Ok (), db') \<and> P db'"
proof -
  note set_ok = workingD(2) [OF assms(1,2)]
  have attrs: "\<exists>b'. index_attributes kv db r h ty as b = Ok b'" for r h ty as b
  proof (induction as arbitrary: b)
    case (Cons a as)
    obtain b1 where "batch_Set kv db b (keyForEvent (ty @ [dot] @ ea_Key a) (ea_Value a) r) h = Ok b1"
      using set_ok by blast
    with Cons.IH [of b] Cons.IH [of b1] show ?case by (simp add: Let_def)
  qed simp
  have evs: "\<exists>b'. indexEvents kv db r h evs b = Ok b'" for r h evs b
  proof (induction evs arbitrary: b)
    case (Cons e evs)
    obtain b1 where "index_attributes kv db r h (e_Type e) (e_Attributes e) b = Ok b1"
      using attrs by blast
    with Cons.IH [of b] Cons.IH [of b1] show ?case by simp
  qed simp
  have one: "\<exists>b'. index_result E kv db r b = Ok b'" if "r \<in> set rs" for r b
  proof -
    obtain b1 where b1: "indexEvents kv db r (te_Hash E (tr_Tx r)) (dt_Events (tr_Result r)) b = Ok b1" using evs by blast
    obtain b2 where b2: "batch_Set kv db b1 (keyForHeight E r) (te_Hash E (tr_Tx r)) = Ok b2" using set_ok by blast
    obtain bs where bs: "te_Marshal E r = Ok bs" using assms(3) \<open>r \<in> set rs\<close> by blast
    from b1 b2 bs set_ok [of b2 "te_Hash E (tr_Tx r)" bs] show ?thesis by (simp add: index_result_def Let_def)
  qed
  have "\<exists>b'. index_results E kv db (map Some rs') b = Ok b'" if "set rs' \<subseteq> set rs" for rs' b
    using that
  proof (induction rs' arbitrary: b)
    case (Cons r rs')
    then obtain b1 where "index_result E kv db r b = Ok b1" using one [of r b] by auto
    with Cons show ?case by simp
  qed simp
  then obtain b where "index_results E kv db (map Some rs) (kv_NewBatch kv) = Ok b" by blast
  with workingD(4) [OF assms(1,2), of b] show ?thesis by (simp add: AddBatch_def)
qed

definition unreserved :: "blockindex_env \<Rightarrow> Event list \<Rightarrow> bool" where
  "unreserved B evs \<longleftrightarrow>
     (\<forall>e \<in> set evs. e_Type e \<noteq> [] \<longrightarrow>
        (\<forall>a \<in> set (e_Attributes e). ea_Key a \<noteq> [] \<longrightarrow> e_Type e @ [dot] @ ea_Key a \<noteq> be_BlockHeightKey B))"

lemma Block_Index_succeeds:
  assumes "working kv P" "P db" and code: "ordered_code B enc" "in_i64 (bh_Height bh)"
    and "unreserved B (bh_BeginEvents bh)" "unreserved B (bh_EndEvents bh)"
  shows "\<exists>db'. Block_Index B kv bh db = (Ok (), db') \<and> P db'"
proof -
  note set_ok = workingD(2) [OF assms(1,2)]
  have attrs: "\<exists>b'. block_attributes B kv db etype ty (bh_Height bh) as b = Ok b'"
    if "\<forall>a \<in> set as. ea_Key a \<noteq> [] \<longrightarrow> etype @ [dot] @ ea_Key a \<noteq> be_BlockHeightKey B" for etype ty as b
    using that
  proof (induction as arbitrary: b)
    case (Cons a as)
    obtain b1 where "batch_Set kv db b (ekey enc (etype @ [dot] @ ea_Key a) (ea_Value a) (bh_Height bh) ty) (int64ToBytes (bh_Height bh)) = Ok b1"
      using set_ok by blast
    with Cons.IH [of b] Cons.IH [of b1] Cons.prems show ?case by (simp add: Let_def made_keys [OF code])
  qed simp
  have evs: "\<exists>b'. block_indexEvents B kv db ty (bh_Height bh) evs b = Ok b'" if "unreserved B evs" for ty evs b
    using that
  proof (induction evs arbitrary: b)
    case (Cons e evs)
    show ?case
    proof (cases "e_Type e = []")
      case False
      obtain b1 where "block_attributes B kv db (e_Type e) ty (bh_Height bh) (e_Attributes e) b = Ok b1"
        using attrs [of "e_Attributes e" "e_Type e" ty b] Cons.prems False by (auto simp: unreserved_def)
      with Cons.IH [of b1] Cons.prems False show ?thesis by (simp add: unreserved_def)
    qed (use Cons in \<open>simp add: unreserved_def\<close>)
  qed simp
  obtain b1 where b1: "batch_Set kv db (kv_NewBatch kv) (hkey B enc (bh_Height bh)) (int64ToBytes (bh_Height bh)) = Ok b1"
    using set_ok by blast
  obtain b2 where b2: "block_indexEvents B kv db begin_block (bh_Height bh) (bh_BeginEvents bh) b1 = Ok b2"
    using evs [OF assms(5)] by blast
  obtain b3 where b3: "block_indexEvents B kv db end_block (bh_Height bh) (bh_EndEvents bh) b2 = Ok b3"
    using evs [OF assms(6)] by blast
  show ?thesis
    using b1 b2 b3 workingD(4) [OF assms(1,2), of b3]
    by (simp add: Block_Index_def block_index_writes_def Let_def made_keys [OF code])
qed

subsection \<open>From the executor's events to the indexes\<close>

definition block_results :: "ABCIResponses \<Rightarrow> Block \<Rightarrow> TxResult list" where
  "block_results resp block =
     map (\<lambda>(i, tx, dtx). \<lparr>tr_Height = int64_of (h_Height (b_Header block)), tr_Index = word_of_nat i, tr_Tx = tx, tr_Result = dtx\<rparr>)
       (zip [0..<length (ar_DeliverTxs resp)] (zip (d_Txs (b_Data block)) (ar_DeliverTxs resp)))"

definition block_header :: "Event list \<Rightarrow> ResponseEndBlock \<Rightarrow> Block \<Rightarrow> NewBlockHeader" where
  "block_header begin end block =
     \<lparr>bh_Height = int64_of (h_Height (b_Header block)), bh_NumTxs = int (length (d_Txs (b_Data block))),
      bh_BeginEvents = begin, bh_EndEvents = eb_Events end\<rparr>"

lemma publish_delivers: "publish_all (\<lambda>ev s. (Ok (), deliver ev s)) evs [] s = (Ok (), fold deliver evs s)"
  by (induction evs arbitrary: s) auto

lemma delivered_txs:
  "fold deliver (map (\<lambda>(i, tx, dtx). EventDataTx h (word_of_nat i) tx dtx) xs) s =
    s\<lparr>is_txs := is_txs s @ map (\<lambda>(i, tx, dtx). \<lparr>tr_Height = h, tr_Index = word_of_nat i, tr_Tx = tx, tr_Result = dtx\<rparr>) xs\<rparr>"
  by (induction xs arbitrary: s) auto

lemma deliver_block:
  "fold deliver (block_events X begin end resp block state) s =
    s\<lparr>is_headers := is_headers s @ [block_header begin end block], is_txs := is_txs s @ block_results resp block\<rparr>"
  by (simp add: block_events_def Let_def delivered_txs block_header_def block_results_def ToABCIBlock_def ToABCIHeader_def
      ToABCIBlockDataTxs_def)

lemma numbered_results:
  assumes "length (ar_DeliverTxs resp) = length (d_Txs (b_Data block))" "length (d_Txs (b_Data block)) < 2 ^ 32"
  shows "numbered (block_results resp block)" "length (block_results resp block) = length (d_Txs (b_Data block))"
  using assms by (simp_all add: numbered_def block_results_def)

lemma write_indexes_run:
  assumes bdg: "badger_db bdg" and "working (indexerKV bdg) P" "P db" and code: "ordered_code B enc"
    and M: "holds_index E T (indexer_look bdg db) rs" "holds_blocks B enc (block_look bdg db) bhs"
    and clean: "clean E T (rs @ bs)" "apart E T (rs @ bs)" "clean_blocks B (bhs @ [bh])"
    and "unreserved B (bh_BeginEvents bh)" "unreserved B (bh_EndEvents bh)"
  shows "\<exists>db'. write_indexes E B (indexerKV bdg) (blockKV bdg) bh (map Some bs) db = (Ok (), db') \<and>
    holds_index E T (indexer_look bdg db') (rs @ bs) \<and> holds_blocks B enc (block_look bdg db') (bhs @ [bh])"
proof -
  have kv: "kv_store (indexerKV bdg) (indexer_look bdg) indexer_eff (\<lambda>k. indexerPrefix @ k)"
    by (rule tx_store.axioms(1) [OF badger_db.indexerKV_tx_store [OF bdg]])
  have new: "set bs \<subseteq> set (rs @ bs)" "set rs \<subseteq> set (rs @ bs)" by auto
  have apart: "apart E T rs" "apart E T bs" using clean(2) by (simp_all add: apart_def)
  obtain db1 where db1: "Block_Index B (blockKV bdg) bh db = (Ok (), db1)" "P db1"
    using Block_Index_succeeds [OF working_prefix [OF assms(2)] assms(3) code _ assms(10,11), of blockEventsPrefix] clean_blocksD(1) [OF clean(3)]
    by (auto simp: blockKV_def)
  obtain db2 where db2: "AddBatch E (indexerKV bdg) (map Some bs) db1 = (Ok (), db2)"
    using AddBatch_succeeds [OF assms(2) db1(2), of bs E] cleanD(6) [OF clean(1)] by auto
  have "holds_index E T (indexer_look bdg db1) rs"
    by (rule holds_index_outside [OF M(1) apart(1)])
       (rule kv_store.Block_Index_outside [OF kv db1(1) [unfolded blockKV_def]])
  then have "holds_index E T (indexer_look bdg db2) (rs @ bs)"
    using set_all_holds [OF _ clean(1)] kv_store.AddBatch_run [OF kv db2] by simp
  moreover have "block_look bdg db2 = block_look bdg db1"
    by (rule AddBatch_block_look [OF bdg clean_mono [OF clean(1) new(1)] apart(2) db2])
  then have "holds_blocks B enc (block_look bdg db2) (bhs @ [bh])"
    using Block_Index_holds [OF bdg code M(2) clean(3) db1(1)] by simp
  ultimately show ?thesis
    using db1 db2 by (simp add: write_indexes_def)
qed

subsection \<open>Properties\<close>


definition sample_indexed_block :: Block where
  "sample_indexed_block = (sample_block 7)\<lparr>b_Data := zero_Data\<lparr>d_Txs := [[0], [1]]\<rparr>\<rparr>"

definition sample_indexed_responses :: ABCIResponses where
  "sample_indexed_responses = sample_responses (map (tr_Result \<circ> snd) sample_results)"

definition sample_end :: ResponseEndBlock where
  "sample_end = \<lparr>eb_ValidatorUpdates = [], eb_ConsensusParamUpdates = None, eb_Events = [sample_event (FormatInt 7)]\<rparr>"

lemma sample_block_results: "block_results sample_indexed_responses sample_indexed_block = map snd sample_results"
  by (simp add: block_results_def sample_indexed_responses_def sample_indexed_block_def sample_responses_def sample_results_def
      sample_result_def sample_block_def sample_header_def zero_Header_def int64_of_def)

lemma working_indexer_mem: "working (indexerKV mem_badger) no_faults"
  by (auto simp: working_def no_faults_def indexerKV_def PrefixKV_def BadgerKV_def BadgerKV_Set_def
      BadgerBatch_Set_def BadgerBatch_Delete_def mem_Commit_def Let_def)


end
