(* ===== verification/CList.thy ===== *)
theory CList
  imports Prelude
begin

text \<open>
  The concurrent list of \<open>src/mempool/clist/clist.go\<close>. Elements are shared by pointer - the mempool
  keeps pointers to them in its indexes - so they live in a heap, and a pointer is an address. The
  wait group and the wait channel of a direction are always released together: they are one flag,
  and releasing them again is the panic of a negative counter.

  An operation runs under the list's lock from its beginning to its end; the waiting of readers is
  the flag they wait for.
\<close>

type_synonym addr = nat

record 'v CElement =
  ce_prev :: "addr option"
  ce_prevDone :: bool
  ce_next :: "addr option"
  ce_nextDone :: bool
  ce_removed :: bool
  ce_Value :: 'v

record 'v CList =
  cl_heap :: "addr \<rightharpoonup> 'v CElement"
  cl_fresh :: addr
  cl_waitDone :: bool
  cl_head :: "addr option"
  cl_tail :: "addr option"
  cl_len :: int
  cl_maxLen :: int

subsection \<open>Elements\<close>

text \<open>A change of the element at an address; a dangling address does not occur in Go.\<close>

definition on_elem ::
  "addr \<Rightarrow> ('v CElement \<Rightarrow> 'v CElement outcome) \<Rightarrow> ('v CList, unit) cmd" where
  "on_elem a f l =
     (case cl_heap l a of
        None \<Rightarrow> (Panic ''nil pointer dereference'', l)
      | Some e \<Rightarrow>
          (case f e of
             Ok e' \<Rightarrow> (Ok (), l\<lparr>cl_heap := (cl_heap l)(a \<mapsto> e')\<rparr>)
           | Err err \<Rightarrow> (Err err, l)
           | Panic p \<Rightarrow> (Panic p, l)))"

definition set_next :: "addr option \<Rightarrow> 'v CElement \<Rightarrow> 'v CElement outcome" where
  "set_next newNext e =
     (let oldNext = ce_next e;
          e1 = e\<lparr>ce_next := newNext\<rparr>;
          e2 = (if oldNext \<noteq> None \<and> newNext = None then e1\<lparr>ce_nextDone := False\<rparr> else e1)
      in if oldNext = None \<and> newNext \<noteq> None
         then if ce_nextDone e2 then Panic ''sync: negative WaitGroup counter''
              else Ok (e2\<lparr>ce_nextDone := True\<rparr>)
         else Ok e2)"

definition set_prev :: "addr option \<Rightarrow> 'v CElement \<Rightarrow> 'v CElement outcome" where
  "set_prev newPrev e =
     (let oldPrev = ce_prev e;
          e1 = e\<lparr>ce_prev := newPrev\<rparr>;
          e2 = (if oldPrev \<noteq> None \<and> newPrev = None then e1\<lparr>ce_prevDone := False\<rparr> else e1)
      in if oldPrev = None \<and> newPrev \<noteq> None
         then if ce_prevDone e2 then Panic ''sync: negative WaitGroup counter''
              else Ok (e2\<lparr>ce_prevDone := True\<rparr>)
         else Ok e2)"

definition set_removed :: "'v CElement \<Rightarrow> 'v CElement outcome" where
  "set_removed e =
     (let e1 = e\<lparr>ce_removed := True\<rparr> in
      if ce_prev e1 = None \<and> ce_prevDone e1 then Panic ''sync: negative WaitGroup counter''
      else
        let e2 = (if ce_prev e1 = None then e1\<lparr>ce_prevDone := True\<rparr> else e1) in
        if ce_next e2 = None \<and> ce_nextDone e2 then Panic ''sync: negative WaitGroup counter''
        else Ok (if ce_next e2 = None then e2\<lparr>ce_nextDone := True\<rparr> else e2))"

definition detach_next :: "'v CElement \<Rightarrow> 'v CElement outcome" where
  "detach_next e =
     (if \<not> ce_removed e then Panic ''DetachNext() must be called after Remove(e)''
      else Ok (e\<lparr>ce_next := None\<rparr>))"

definition detach_prev :: "'v CElement \<Rightarrow> 'v CElement outcome" where
  "detach_prev e =
     (if \<not> ce_removed e then Panic ''DetachPrev() must be called after Remove(e)''
      else Ok (e\<lparr>ce_prev := None\<rparr>))"

definition SetNext :: "addr \<Rightarrow> addr option \<Rightarrow> ('v CList, unit) cmd" where
  "SetNext a newNext = on_elem a (set_next newNext)"

definition SetPrev :: "addr \<Rightarrow> addr option \<Rightarrow> ('v CList, unit) cmd" where
  "SetPrev a newPrev = on_elem a (set_prev newPrev)"

definition SetRemoved :: "addr \<Rightarrow> ('v CList, unit) cmd" where
  "SetRemoved a = on_elem a set_removed"

definition DetachNext :: "addr \<Rightarrow> ('v CList, unit) cmd" where
  "DetachNext a = on_elem a detach_next"

definition DetachPrev :: "addr \<Rightarrow> ('v CList, unit) cmd" where
  "DetachPrev a = on_elem a detach_prev"

text \<open>
  \<open>NextWait\<close> and \<open>PrevWait\<close> return when the element has a neighbour or was removed; \<open>None\<close> is to
  wait.
\<close>

definition NextWait :: "'v CElement \<Rightarrow> addr option option" where
  "NextWait e = (if ce_next e \<noteq> None \<or> ce_removed e then Some (ce_next e) else None)"

definition PrevWait :: "'v CElement \<Rightarrow> addr option option" where
  "PrevWait e = (if ce_prev e \<noteq> None \<or> ce_removed e then Some (ce_prev e) else None)"

text \<open>The channels a reader may wait on instead are closed when the flag is set.\<close>

definition NextWaitChan :: "'v CElement \<Rightarrow> bool" where
  "NextWaitChan e = ce_nextDone e"

definition PrevWaitChan :: "'v CElement \<Rightarrow> bool" where
  "PrevWaitChan e = ce_prevDone e"

subsection \<open>The list\<close>

definition MaxLength :: int where
  "MaxLength = 2 ^ 63 - 1"

definition clist_Init :: "'v CList \<Rightarrow> 'v CList" where
  "clist_Init l = l\<lparr>cl_waitDone := False, cl_head := None, cl_tail := None, cl_len := 0\<rparr>"

definition newWithMax :: "int \<Rightarrow> 'v CList" where
  "newWithMax maxLength =
     clist_Init \<lparr>cl_heap = Map.empty, cl_fresh = 0, cl_waitDone = True, cl_head = None, cl_tail = None,
       cl_len = 0, cl_maxLen = maxLength\<rparr>"

definition clist_Len :: "'v CList \<Rightarrow> int" where
  "clist_Len l = cl_len l"

definition clist_Front :: "'v CList \<Rightarrow> addr option" where
  "clist_Front l = cl_head l"

definition clist_Back :: "'v CList \<Rightarrow> addr option" where
  "clist_Back l = cl_tail l"

text \<open>Again \<open>None\<close> is to wait, for the flag of the list.\<close>

definition FrontWait :: "'v CList \<Rightarrow> addr option" where
  "FrontWait l = cl_head l"

definition BackWait :: "'v CList \<Rightarrow> addr option" where
  "BackWait l = cl_tail l"

definition WaitChan :: "'v CList \<Rightarrow> bool" where
  "WaitChan l = cl_waitDone l"

definition PushBack :: "'v \<Rightarrow> ('v CList, addr) cmd" where
  "PushBack v l =
     (let a = cl_fresh l;
          e = \<lparr>ce_prev = None, ce_prevDone = False, ce_next = None, ce_nextDone = False,
               ce_removed = False, ce_Value = v\<rparr>;
          l1 = l\<lparr>cl_heap := (cl_heap l)(a \<mapsto> e), cl_fresh := Suc a\<rparr>
      in if cl_len l1 = 0 \<and> cl_waitDone l1 then (Panic ''sync: negative WaitGroup counter'', l1)
         else
           let l2 = (if cl_len l1 = 0 then l1\<lparr>cl_waitDone := True\<rparr> else l1)
           in if cl_len l2 \<ge> cl_maxLen l2 then (Panic ''clist: maximum length list reached'', l2)
              else
                let l3 = l2\<lparr>cl_len := cl_len l2 + 1\<rparr>
                in (case cl_tail l3 of
                      None \<Rightarrow> (Ok a, l3\<lparr>cl_head := Some a, cl_tail := Some a\<rparr>)
                    | Some t \<Rightarrow>
                        bind_cmd (SetPrev a (Some t)) (\<lambda>_.
                        bind_cmd (SetNext t (Some a)) (\<lambda>_ l4.
                          (Ok a, l4\<lparr>cl_tail := Some a\<rparr>))) l3))"

text \<open>The part of \<open>Remove\<close> after its checks: the neighbours, head and tail, and the element.\<close>

definition unlink :: "addr \<Rightarrow> addr option \<Rightarrow> addr option \<Rightarrow> ('v CList, unit) cmd" where
  "unlink a prev next =
     bind_cmd (\<lambda>l. case prev of None \<Rightarrow> (Ok (), l\<lparr>cl_head := next\<rparr>) | Some p \<Rightarrow> SetNext p next l) (\<lambda>_.
     bind_cmd (\<lambda>l. case next of None \<Rightarrow> (Ok (), l\<lparr>cl_tail := prev\<rparr>) | Some n \<Rightarrow> SetPrev n prev l) (\<lambda>_.
       SetRemoved a))"

definition clist_Remove :: "addr \<Rightarrow> ('v CList, 'v) cmd" where
  "clist_Remove a l =
     (case cl_heap l a of
        None \<Rightarrow> (Panic ''nil pointer dereference'', l)
      | Some e \<Rightarrow>
          let prev = ce_prev e; next = ce_next e in
          if cl_head l = None \<or> cl_tail l = None then (Panic ''Remove(e) on empty CList'', l)
          else if prev = None \<and> cl_head l \<noteq> Some a then (Panic ''Remove(e) with false head'', l)
          else if next = None \<and> cl_tail l \<noteq> Some a then (Panic ''Remove(e) with false tail'', l)
          else
            let l1 = (if cl_len l = 1 then l\<lparr>cl_waitDone := False\<rparr> else l);
                l2 = l1\<lparr>cl_len := cl_len l1 - 1\<rparr>
            in bind_cmd (unlink a prev next) (\<lambda>_. ret (ce_Value e)) l2)"

text \<open>The loop \<open>for e := l.Front(); e != nil; e = e.Next()\<close>, which the callers write; \<open>fuel\<close> bounds it.\<close>

fun walk :: "nat \<Rightarrow> 'v CList \<Rightarrow> addr option \<Rightarrow> addr list" where
  "walk 0 l _ = []"
| "walk (Suc fuel) l None = []"
| "walk (Suc fuel) l (Some a) =
     (case cl_heap l a of None \<Rightarrow> [a] | Some e \<Rightarrow> a # walk fuel l (ce_next e))"

subsection \<open>The addresses a list stands for\<close>

text \<open>
  \<open>holds l xs\<close>: the list's elements, in order, are at the addresses \<open>xs\<close>. A list that is not empty,
  and a direction in which an element has a neighbour, have released their waiters.
\<close>

definition neighbour :: "addr list \<Rightarrow> nat \<Rightarrow> addr option" where
  "neighbour xs i = (if i < length xs then Some (xs ! i) else None)"

definition prev_of :: "addr list \<Rightarrow> nat \<Rightarrow> addr option" where
  "prev_of xs i = (if i = 0 then None else neighbour xs (i - 1))"

definition holds :: "'v CList \<Rightarrow> addr list \<Rightarrow> bool" where
  "holds l xs \<longleftrightarrow>
     distinct xs \<and> cl_head l = neighbour xs 0 \<and> cl_tail l = prev_of xs (length xs) \<and>
     cl_len l = int (length xs) \<and> cl_waitDone l = (xs \<noteq> []) \<and>
     (\<forall>a. cl_fresh l \<le> a \<longrightarrow> cl_heap l a = None) \<and>
     (\<forall>i < length xs. \<exists>e. cl_heap l (xs ! i) = Some e \<and> \<not> ce_removed e \<and>
        ce_next e = neighbour xs (Suc i) \<and> ce_prev e = prev_of xs i \<and>
        ce_nextDone e = (ce_next e \<noteq> None) \<and> ce_prevDone e = (ce_prev e \<noteq> None))"

definition clist_values :: "'v CList \<Rightarrow> addr list \<Rightarrow> 'v list" where
  "clist_values l xs = map (\<lambda>a. ce_Value (the (cl_heap l a))) xs"

text \<open>An element whose flags agree with its pointers.\<close>

definition settled :: "'v CElement \<Rightarrow> bool" where
  "settled e \<longleftrightarrow> ce_nextDone e = (ce_next e \<noteq> None) \<and> ce_prevDone e = (ce_prev e \<noteq> None)"

lemma settled_ops:
  assumes "settled e"
  shows "set_next n e = Ok (e\<lparr>ce_next := n, ce_nextDone := (n \<noteq> None)\<rparr>)"
    and "set_prev n e = Ok (e\<lparr>ce_prev := n, ce_prevDone := (n \<noteq> None)\<rparr>)"
    and "set_removed e = Ok (e\<lparr>ce_removed := True, ce_prevDone := True, ce_nextDone := True\<rparr>)"
  using assms by (cases e; auto simp: settled_def set_next_def set_prev_def set_removed_def Let_def)+

definition elem_at :: "'v CList \<Rightarrow> addr list \<Rightarrow> nat \<Rightarrow> bool" where
  "elem_at l xs i \<longleftrightarrow> (\<exists>e. cl_heap l (xs ! i) = Some e \<and> \<not> ce_removed e \<and>
     ce_next e = neighbour xs (Suc i) \<and> ce_prev e = prev_of xs i \<and> settled e)"

lemma holds_iff:
  "holds l xs \<longleftrightarrow>
     distinct xs \<and> cl_head l = neighbour xs 0 \<and> cl_tail l = prev_of xs (length xs) \<and>
     cl_len l = int (length xs) \<and> cl_waitDone l = (xs \<noteq> []) \<and>
     (\<forall>a. cl_fresh l \<le> a \<longrightarrow> cl_heap l a = None) \<and> (\<forall>i < length xs. elem_at l xs i)"
  by (simp add: holds_def elem_at_def settled_def)

lemma holds_elem:
  assumes "holds l xs" and "i < length xs"
  obtains e where "cl_heap l (xs ! i) = Some e" "\<not> ce_removed e" "ce_next e = neighbour xs (Suc i)"
    "ce_prev e = prev_of xs i" "settled e"
  using assms by (auto simp: holds_iff elem_at_def)

lemma holds_new: "holds (newWithMax n) []"
  by (simp add: holds_def newWithMax_def clist_Init_def neighbour_def prev_of_def)

text \<open>A list is the list of its addresses: one step on the former is one on the latter.\<close>

lemma neighbour_simps [simp]:
  "i < length xs \<Longrightarrow> neighbour xs i = Some (xs ! i)" "length xs \<le> i \<Longrightarrow> neighbour xs i = None"
  "prev_of xs 0 = None" "i \<le> length xs \<Longrightarrow> prev_of xs (Suc i) = neighbour xs i"
  by (simp_all add: neighbour_def prev_of_def)

lemma neighbour_append:
  "neighbour (xs @ ys) i = (if i < length xs then Some (xs ! i) else neighbour ys (i - length xs))"
  by (auto simp: neighbour_def nth_append)

lemma elem_at_cong:
  assumes "elem_at l xs i" and "ys ! j = xs ! i" and "cl_heap l' (ys ! j) = cl_heap l (xs ! i)"
    and "neighbour ys (Suc j) = neighbour xs (Suc i)" and "prev_of ys j = prev_of xs i"
  shows "elem_at l' ys j"
  using assms by (simp add: elem_at_def)

lemma holds_fresh:
  assumes "holds l xs"
  shows "cl_fresh l \<notin> set xs" and "cl_heap l (cl_fresh l) = None"
proof -
  show none: "cl_heap l (cl_fresh l) = None"
    using assms by (simp add: holds_iff)
  show "cl_fresh l \<notin> set xs"
    using none assms by (auto simp: in_set_conv_nth elim!: holds_elem)
qed

lemma PushBack_holds_Nil:
  assumes l: "holds l []" and room: "0 < cl_maxLen l"
  shows "\<exists>l'. PushBack v l = (Ok (cl_fresh l), l') \<and> holds l' [cl_fresh l] \<and>
    clist_values l' [cl_fresh l] = [v] \<and> cl_maxLen l' = cl_maxLen l"
  using assms by (auto simp: PushBack_def Let_def holds_def clist_values_def prev_of_def neighbour_def)

lemma PushBack_run:
  assumes l: "holds l xs" and ne: "xs \<noteq> []" and room: "int (length xs) < cl_maxLen l"
    and t: "cl_heap l (last xs) = Some e"
  shows "PushBack v l = (Ok (cl_fresh l),
    l\<lparr>cl_heap := (cl_heap l)(cl_fresh l \<mapsto> \<lparr>ce_prev = Some (last xs), ce_prevDone = True, ce_next = None,
          ce_nextDone = False, ce_removed = False, ce_Value = v\<rparr>,
        last xs \<mapsto> e\<lparr>ce_next := Some (cl_fresh l), ce_nextDone := True\<rparr>),
      cl_fresh := Suc (cl_fresh l), cl_len := int (length xs) + 1, cl_tail := Some (cl_fresh l)\<rparr>)"
proof -
  have last: "last xs = xs ! (length xs - 1)" "length xs - 1 < length xs"
    using ne by (simp_all add: last_conv_nth)
  obtain e' where "cl_heap l (last xs) = Some e'" "ce_next e' = neighbour xs (Suc (length xs - 1))" "settled e'"
    unfolding last(1) by (rule holds_elem [OF l last(2)])
  then have e: "settled e"
    using t by simp
  have other: "cl_fresh l \<noteq> last xs"
    using holds_fresh(1) [OF l] last_in_set [OF ne] by metis
  have fields: "cl_tail l = Some (last xs)" "cl_len l = int (length xs)" "cl_len l \<noteq> 0"
    using l ne by (auto simp: holds_iff last prev_of_def)
  show ?thesis
    using room t other
    by (simp add: PushBack_def Let_def fields SetPrev_def SetNext_def on_elem_def bind_cmd_def settled_ops(1) [OF e]
        settled_ops(2) [of "\<lparr>ce_prev = None, ce_prevDone = False, ce_next = None, ce_nextDone = False,
          ce_removed = False, ce_Value = v\<rparr>"] settled_def ne)
qed

lemma PushBack_holds:
  assumes l: "holds l xs" and room: "int (length xs) < cl_maxLen l"
  shows "\<exists>l'. PushBack v l = (Ok (cl_fresh l), l') \<and> holds l' (xs @ [cl_fresh l]) \<and>
    clist_values l' (xs @ [cl_fresh l]) = clist_values l xs @ [v] \<and> cl_maxLen l' = cl_maxLen l"
proof (cases "xs = []")
  case False
  let ?a = "cl_fresh l" and ?t = "last xs" and ?n = "length xs - 1"
  have n: "?t = xs ! ?n" "?n < length xs" "Suc ?n = length xs"
    using False by (simp_all add: last_conv_nth)
  obtain e where e: "cl_heap l ?t = Some e" "\<not> ce_removed e" "ce_prev e = prev_of xs ?n" "settled e"
    unfolding n(1) by (rule holds_elem [OF l n(2)])
  note run = PushBack_run [OF l False room e(1), of v]
  define l' where "l' = snd (PushBack v l)"
  have l': "PushBack v l = (Ok ?a, l')" by (simp add: l'_def run)
  note fresh = holds_fresh [OF l]
  have other: "xs ! i \<noteq> ?a" if "i < length xs" for i
    using that fresh(1) by (metis nth_mem)
  have dist: "xs ! i \<noteq> ?t" if "i < length xs" "i \<noteq> ?n" for i
    using that l n by (simp add: holds_iff nth_eq_iff_index_eq)
  have elems: "elem_at l' (xs @ [?a]) i" if i: "i < length (xs @ [?a])" for i
  proof -
    consider "i = length xs" | "i = ?n" | "i < ?n" using i n(3) by fastforce
    then show ?thesis
    proof cases
      case 1
      then show ?thesis
        using n False other [OF n(2)] e(1)
        by (auto simp: elem_at_def l'_def run settled_def neighbour_def prev_of_def nth_append)
    next
      case 2
      then show ?thesis
        using n e False by (auto simp: elem_at_def l'_def run settled_def neighbour_def prev_of_def nth_append)
    next
      case 3
      then have i: "i < length xs" "Suc i < length xs" by simp_all
      then have "cl_heap l' (xs ! i) = cl_heap l (xs ! i)"
        using 3 other [of i] dist [of i] by (simp add: l'_def run)
      moreover have "elem_at l xs i"
        using l i by (simp add: holds_iff)
      ultimately show ?thesis
        using i by (auto intro!: elem_at_cong [of l xs i] simp: neighbour_def prev_of_def nth_append)
    qed
  qed
  have "cl_heap l' b = None" if "cl_fresh l' \<le> b" for b
  proof -
    have "cl_heap l b = None"
      using that l by (simp add: holds_iff l'_def run)
    with that e(1) show ?thesis by (auto simp: l'_def run)
  qed
  moreover have "cl_head l' = neighbour (xs @ [?a]) 0" "cl_tail l' = prev_of (xs @ [?a]) (length (xs @ [?a]))"
    "cl_len l' = int (length (xs @ [?a]))" "cl_waitDone l'"
    using l False by (simp_all add: holds_iff l'_def run neighbour_def nth_append)
  ultimately have "holds l' (xs @ [?a])"
    using l fresh(1) elems unfolding holds_iff by simp
  moreover have "clist_values l' (xs @ [?a]) = clist_values l xs @ [v]"
    using fresh e(1) last_in_set [OF False] by (auto simp: clist_values_def l'_def run)
  ultimately show ?thesis
    using l' by (simp add: l'_def run)
qed (use PushBack_holds_Nil assms in \<open>simp add: clist_values_def\<close>)

text \<open>The heap after an element was taken out from between \<open>prev\<close> and \<open>next\<close>.\<close>

definition unlinked ::
  "addr \<Rightarrow> addr option \<Rightarrow> addr option \<Rightarrow> (addr \<rightharpoonup> 'v CElement) \<Rightarrow> (addr \<rightharpoonup> 'v CElement)" where
  "unlinked a prev next h x =
     (if x = a then map_option (\<lambda>e. e\<lparr>ce_removed := True, ce_prevDone := True, ce_nextDone := True\<rparr>) (h a)
      else if Some x = prev then map_option (\<lambda>e. e\<lparr>ce_next := next, ce_nextDone := (next \<noteq> None)\<rparr>) (h x)
      else if Some x = next then map_option (\<lambda>e. e\<lparr>ce_prev := prev, ce_prevDone := (prev \<noteq> None)\<rparr>) (h x)
      else h x)"

lemma unlink_run:
  assumes a: "cl_heap l a = Some e" "settled e"
    and p: "\<And>q. prev = Some q \<Longrightarrow> q \<noteq> a \<and> next \<noteq> Some q \<and> (\<exists>f. cl_heap l q = Some f \<and> settled f)"
    and n: "\<And>q. next = Some q \<Longrightarrow> q \<noteq> a \<and> (\<exists>f. cl_heap l q = Some f \<and> settled f)"
  shows "unlink a prev next l = (Ok (), l\<lparr>cl_heap := unlinked a prev next (cl_heap l),
    cl_head := if prev = None then next else cl_head l, cl_tail := if next = None then prev else cl_tail l\<rparr>)"
  using assms
  by (cases prev; cases "next")
     (auto simp: unlink_def bind_cmd_def SetNext_def SetPrev_def SetRemoved_def on_elem_def settled_ops
       unlinked_def fun_eq_iff intro!: CList.equality)

lemma remove_at:
  assumes "distinct xs" and "i < length xs"
  shows "remove1 (xs ! i) xs = take i xs @ drop (Suc i) xs"
  using assms
proof (induction xs arbitrary: i)
  case (Cons x xs)
  then show ?case by (cases i) auto
qed simp

lemma neighbours_removed:
  assumes "i < length xs" and "ys = take i xs @ drop (Suc i) xs"
  shows "length ys = length xs - 1"
    and "j < length ys \<Longrightarrow> ys ! j = xs ! (if j < i then j else Suc j)"
    and "neighbour ys j = neighbour xs (if j < i then j else Suc j)"
    and "prev_of ys j = (if j \<le> i then prev_of xs j else prev_of xs (Suc j))"
  using assms by (auto simp: neighbour_def prev_of_def nth_append min_def)

lemma clist_Remove_run:
  assumes l: "holds l xs" and i: "i < length xs" and e: "cl_heap l (xs ! i) = Some e"
  shows "clist_Remove (xs ! i) l = (Ok (ce_Value e),
    l\<lparr>cl_waitDone := (length xs \<noteq> 1), cl_len := int (length xs) - 1,
      cl_heap := unlinked (xs ! i) (prev_of xs i) (neighbour xs (Suc i)) (cl_heap l),
      cl_head := if i = 0 then neighbour xs (Suc i) else cl_head l,
      cl_tail := if Suc i = length xs then prev_of xs i else cl_tail l\<rparr>)"
proof -
  note H = l [unfolded holds_iff]
  have elem: "\<exists>f. cl_heap l (xs ! j) = Some f \<and> settled f" if "j < length xs" for j
    using holds_elem [OF l that] by blast
  have ptr: "ce_prev e = prev_of xs i" "ce_next e = neighbour xs (Suc i)" "settled e"
    using holds_elem [OF l i] e by fastforce+
  have dist: "0 < i \<Longrightarrow> xs ! (i - 1) \<noteq> xs ! i" "Suc i < length xs \<Longrightarrow> xs ! Suc i \<noteq> xs ! i"
    "0 < i \<Longrightarrow> Suc i < length xs \<Longrightarrow> xs ! Suc i \<noteq> xs ! (i - 1)"
    using H i by (simp_all add: nth_eq_iff_index_eq)
  have ends: "prev_of xs i = None \<longleftrightarrow> i = 0" "neighbour xs (Suc i) = None \<longleftrightarrow> Suc i = length xs"
    using i by (auto simp: neighbour_def prev_of_def)
  let ?l = "l\<lparr>cl_waitDone := (length xs \<noteq> 1), cl_len := int (length xs) - 1\<rparr>"
  have run: "unlink (xs ! i) (prev_of xs i) (neighbour xs (Suc i)) ?l = (Ok (),
    ?l\<lparr>cl_heap := unlinked (xs ! i) (prev_of xs i) (neighbour xs (Suc i)) (cl_heap ?l),
      cl_head := if prev_of xs i = None then neighbour xs (Suc i) else cl_head ?l,
      cl_tail := if neighbour xs (Suc i) = None then prev_of xs i else cl_tail ?l\<rparr>)"
    by (rule unlink_run)
       (use e ptr i elem dist in \<open>auto simp: neighbour_def prev_of_def split: if_splits\<close>)
  have guards: "(cl_head l = None \<or> cl_tail l = None) = False"
    "(prev_of xs i = None \<and> cl_head l \<noteq> Some (xs ! i)) = False"
    using H i by (auto simp: neighbour_def prev_of_def)
  have last: "(neighbour xs (Suc i) = None \<and> cl_tail l \<noteq> Some (xs ! i)) = False"
  proof (cases "Suc i = length xs")
    case True
    then have "cl_tail l = prev_of xs (Suc i)" using H by metis
    with i show ?thesis by simp
  qed (use ends in simp)
  have lists: "(let l1 = (if cl_len l = 1 then l\<lparr>cl_waitDone := False\<rparr> else l)
      in l1\<lparr>cl_len := cl_len l1 - 1\<rparr>) = ?l"
    using H i by auto
  have "clist_Remove (xs ! i) l = bind_cmd (unlink (xs ! i) (prev_of xs i) (neighbour xs (Suc i)))
      (\<lambda>_. ret (ce_Value e)) (let l1 = (if cl_len l = 1 then l\<lparr>cl_waitDone := False\<rparr> else l)
      in l1\<lparr>cl_len := cl_len l1 - 1\<rparr>)"
    unfolding clist_Remove_def e option.case Let_def ptr(1,2) guards last if_False ..
  then show ?thesis
    unfolding lists bind_cmd_def run prod.case outcome.case ret_def ends by simp
qed

lemma elem_at_unlinked:
  assumes l: "holds l xs" and i: "i < length xs" and ys: "ys = take i xs @ drop (Suc i) xs"
    and h: "cl_heap l' = unlinked (xs ! i) (prev_of xs i) (neighbour xs (Suc i)) (cl_heap l)"
    and j: "j < length ys"
  shows "elem_at l' ys j"
proof -
  note N = neighbours_removed [OF i ys]
  define j' where "j' = (if j < i then j else Suc j)"
  have j': "j' < length xs" "j' \<noteq> i" "ys ! j = xs ! j'"
    using j N(1,2) by (auto simp: j'_def)
  have dist: "xs ! a = xs ! b \<longleftrightarrow> a = b" if "a < length xs" "b < length xs" for a b
    using l that by (simp add: holds_iff nth_eq_iff_index_eq)
  obtain e where e: "cl_heap l (xs ! j') = Some e" "\<not> ce_removed e" "ce_next e = neighbour xs (Suc j')"
    "ce_prev e = prev_of xs j'" "settled e"
    by (rule holds_elem [OF l j'(1)])
  have is_prev: "Some (xs ! j') = prev_of xs i \<longleftrightarrow> Suc j = i"
    using i j'(1) dist [of j' "i - 1"] by (auto simp: prev_of_def neighbour_def j'_def)
  have is_next: "Some (xs ! j') = neighbour xs (Suc i) \<longleftrightarrow> j = i"
    using i j'(1) dist [of j' "Suc i"] by (auto simp: neighbour_def j'_def)
  have other: "xs ! j' \<noteq> xs ! i"
    using dist [OF j'(1) i] j'(2) by simp
  consider (before) "Suc j = i" | (after) "j = i" | (far) "Suc j \<noteq> i" "j \<noteq> i"
    by blast
  then show ?thesis
  proof cases
    case before
    then have "cl_heap l' (ys ! j) = Some (e\<lparr>ce_next := neighbour xs (Suc i),
        ce_nextDone := (neighbour xs (Suc i) \<noteq> None)\<rparr>)"
      using is_prev other e(1) by (simp add: h j'(3) unlinked_def)
    with before e N(3,4) show ?thesis
      by (auto simp: elem_at_def settled_def j'_def)
  next
    case after
    then have "cl_heap l' (ys ! j) = Some (e\<lparr>ce_prev := prev_of xs i, ce_prevDone := (prev_of xs i \<noteq> None)\<rparr>)"
      unfolding h j'(3) unlinked_def using is_next is_prev other e(1) by simp
    with after e N(3,4) show ?thesis
      by (auto simp: elem_at_def settled_def j'_def)
  next
    case far
    then have "cl_heap l' (ys ! j) = Some e"
      using is_next is_prev other e(1) by (simp add: h j'(3) unlinked_def)
    with far e N(3,4) show ?thesis
      by (auto simp: elem_at_def j'_def)
  qed
qed

lemma clist_Remove_holds:
  assumes l: "holds l xs" and i: "i < length xs"
  shows "\<exists>l'. clist_Remove (xs ! i) l = (Ok (ce_Value (the (cl_heap l (xs ! i)))), l') \<and>
    holds l' (remove1 (xs ! i) xs) \<and> (\<forall>a. map_option ce_Value (cl_heap l' a) = map_option ce_Value (cl_heap l a)) \<and>
    (\<exists>e. cl_heap l' (xs ! i) = Some e \<and> ce_removed e) \<and> cl_maxLen l' = cl_maxLen l"
proof -
  obtain e where e: "cl_heap l (xs ! i) = Some e"
    by (rule holds_elem [OF l i])
  note run = clist_Remove_run [OF l i e]
  define l' where "l' = snd (clist_Remove (xs ! i) l)"
  define ys where "ys = take i xs @ drop (Suc i) xs"
  note N = neighbours_removed [OF i ys_def]
  have h: "cl_heap l' = unlinked (xs ! i) (prev_of xs i) (neighbour xs (Suc i)) (cl_heap l)"
    by (simp add: l'_def run)
  note H = l [unfolded holds_iff]
  have "cl_heap l' a = None" if "cl_fresh l' \<le> a" for a
    using that H by (simp add: h unlinked_def l'_def run)
  moreover have "cl_head l' = neighbour ys 0"
    using H by (simp add: l'_def run N(3))
  moreover have "cl_tail l' = prev_of ys (length ys)"
  proof (cases "Suc i = length xs")
    case True
    then have "length ys = i" using N(1) by simp
    with True show ?thesis by (simp add: l'_def run N(4))
  next
    case False
    then have "\<not> length ys \<le> i" "Suc (length ys) = length xs" using N(1) i by simp_all
    with False H show ?thesis by (simp add: l'_def run N(4))
  qed
  moreover have "cl_len l' = int (length ys)" "cl_waitDone l' = (ys \<noteq> [])"
    using i N(1) by (auto simp: l'_def run)
  moreover have "distinct ys"
    using H by (simp add: ys_def distinct_take distinct_drop set_take_disj_set_drop_if_distinct)
  ultimately have "holds l' ys"
    using elem_at_unlinked [OF l i ys_def h] by (simp add: holds_iff)
  moreover have "ys = remove1 (xs ! i) xs"
    using remove_at [OF _ i] H by (simp add: ys_def)
  moreover have "map_option ce_Value (cl_heap l' a) = map_option ce_Value (cl_heap l a)" for a
    by (cases "cl_heap l a") (auto simp: h unlinked_def)
  moreover have "clist_Remove (xs ! i) l = (Ok (ce_Value e), l')"
    by (simp add: l'_def run)
  moreover have "cl_heap l' (xs ! i) = Some (e\<lparr>ce_removed := True, ce_prevDone := True, ce_nextDone := True\<rparr>)"
    by (simp add: h unlinked_def e)
  moreover have "cl_maxLen l' = cl_maxLen l"
    by (simp add: l'_def run)
  ultimately show ?thesis
    using e by auto
qed

lemma walk_from:
  assumes "holds l xs" and "length xs - i \<le> fuel"
  shows "walk fuel l (neighbour xs i) = drop i xs"
  using assms(2)
proof (induction fuel arbitrary: i)
  case (Suc fuel)
  show ?case
  proof (cases "i < length xs")
    case True
    then obtain e where "cl_heap l (xs ! i) = Some e" "ce_next e = neighbour xs (Suc i)"
      using holds_elem [OF assms(1)] by metis
    with Suc True show ?thesis
      by (simp add: Cons_nth_drop_Suc)
  qed simp
qed simp

lemma walk_holds: "holds l xs \<Longrightarrow> walk (length xs) l (cl_head l) = xs"
  using walk_from [of l xs 0 "length xs"] by (simp add: holds_iff)

text \<open>What happens to an element outside the list does not touch the list.\<close>

lemma holds_outside:
  assumes "holds l xs" and "a \<notin> set xs" and "cl_heap l a = Some e"
  shows "holds (l\<lparr>cl_heap := (cl_heap l)(a \<mapsto> e')\<rparr>) xs"
proof -
  have "xs ! i \<noteq> a" if "i < length xs" for i
    using assms(2) that nth_mem by metis
  moreover have "a < cl_fresh l"
    using assms(1,3) by (force simp: holds_iff not_less [symmetric])
  ultimately show ?thesis
    using assms(1) by (auto simp: holds_iff elem_at_def)
qed

lemma holds_value:
  assumes "holds l xs" and "cl_heap l a = Some e"
  shows "holds (l\<lparr>cl_heap := (cl_heap l)(a \<mapsto> e\<lparr>ce_Value := v\<rparr>)\<rparr>) xs"
proof -
  have "a < cl_fresh l"
    using assms by (force simp: holds_iff not_less [symmetric])
  then have fresh: "(\<forall>b. cl_fresh l \<le> b \<longrightarrow> ((cl_heap l)(a \<mapsto> e\<lparr>ce_Value := v\<rparr>)) b = None)"
    using assms(1) by (auto simp: holds_iff)
  have "elem_at (l\<lparr>cl_heap := (cl_heap l)(a \<mapsto> e\<lparr>ce_Value := v\<rparr>)\<rparr>) xs i" if "elem_at l xs i" for i
    using that assms(2) by (auto simp: elem_at_def settled_def)
  with assms(1) fresh show ?thesis
    by (simp add: holds_iff)
qed

subsection \<open>The list as its users see it\<close>

text \<open>
  A user of the list removes an element and detaches it at once, and may change what the pointer in
  an element points to.
\<close>

definition remove_detach :: "addr \<Rightarrow> ('v CList, 'v) cmd" where
  "remove_detach a =
     bind_cmd (clist_Remove a) (\<lambda>v. bind_cmd (DetachPrev a) (\<lambda>_. bind_cmd (DetachNext a) (\<lambda>_. ret v)))"

definition elem_value :: "'v CList \<Rightarrow> addr \<Rightarrow> 'v option" where
  "elem_value l a = map_option ce_Value (cl_heap l a)"

definition set_value :: "addr \<Rightarrow> 'v \<Rightarrow> 'v CList \<Rightarrow> 'v CList" where
  "set_value a v l =
     (case cl_heap l a of None \<Rightarrow> l | Some e \<Rightarrow> l\<lparr>cl_heap := (cl_heap l)(a \<mapsto> e\<lparr>ce_Value := v\<rparr>)\<rparr>)"

definition contents :: "'v CList \<Rightarrow> (addr \<times> 'v) list \<Rightarrow> bool" where
  "contents l es \<longleftrightarrow> holds l (map fst es) \<and> (\<forall>(a, v) \<in> set es. elem_value l a = Some v)"

definition elem_next :: "'v CList \<Rightarrow> addr \<Rightarrow> addr option" where
  "elem_next l a = Option.bind (cl_heap l a) ce_next"

definition first_addr :: "(addr \<times> 'v) list \<Rightarrow> addr option" where
  "first_addr es = (case es of [] \<Rightarrow> None | e # _ \<Rightarrow> Some (fst e))"

lemma first_addr_simps [simp]: "first_addr [] = None" "first_addr ((a, v) # es) = Some a"
  by (simp_all add: first_addr_def)

locale element_list =
  fixes push :: "'v \<Rightarrow> ('l, addr) cmd" and remove :: "addr \<Rightarrow> ('l, 'v) cmd"
    and value_of :: "'l \<Rightarrow> addr \<Rightarrow> 'v option" and assign :: "addr \<Rightarrow> 'v \<Rightarrow> 'l \<Rightarrow> 'l"
    and size_of :: "'l \<Rightarrow> int" and limit :: "'l \<Rightarrow> int" and order_of :: "'l \<Rightarrow> addr list"
    and front :: "'l \<Rightarrow> addr option" and next_of :: "'l \<Rightarrow> addr \<Rightarrow> addr option"
    and rep :: "'l \<Rightarrow> (addr \<times> 'v) list \<Rightarrow> bool"
  assumes rep_distinct: "rep l es \<Longrightarrow> distinct (map fst es)"
    and rep_value: "rep l es \<Longrightarrow> (a, v) \<in> set es \<Longrightarrow> value_of l a = Some v"
    and rep_size: "rep l es \<Longrightarrow> size_of l = int (length es)"
    and rep_order: "rep l es \<Longrightarrow> order_of l = map fst es"
    and rep_front: "rep l es \<Longrightarrow> front l = first_addr es"
    and rep_next: "rep l (xs @ (a, v) # ys) \<Longrightarrow> next_of l a = first_addr ys"
    and push_law: "rep l es \<Longrightarrow> int (length es) < limit l \<Longrightarrow>
      \<exists>a l'. push v l = (Ok a, l') \<and> rep l' (es @ [(a, v)]) \<and> a \<notin> fst ` set es \<and> limit l' = limit l"
    and remove_law: "rep l (xs @ (a, v) # ys) \<Longrightarrow>
      \<exists>l'. remove a l = (Ok v, l') \<and> rep l' (xs @ ys) \<and> limit l' = limit l \<and> next_of l' a = None"
    and assign_law: "rep l (xs @ (a, v) # ys) \<Longrightarrow>
      rep (assign a v' l) (xs @ (a, v') # ys) \<and> limit (assign a v' l) = limit l"
begin

text \<open>Removing an element by its address leaves the others in their order.\<close>

lemma remove_filter:
  assumes "rep l es" and "(a, v) \<in> set es"
  shows "\<exists>l'. remove a l = (Ok v, l') \<and> rep l' (filter (\<lambda>e. fst e \<noteq> a) es) \<and>
    limit l' = limit l \<and> next_of l' a = None"
proof -
  obtain xs ys where es: "es = xs @ (a, v) # ys"
    using assms(2) by (meson split_list)
  have out: "a \<notin> fst ` set xs" "a \<notin> fst ` set ys"
    using rep_distinct [OF assms(1)] by (simp_all add: es)
  then have "filter (\<lambda>e. fst e \<noteq> a) xs = xs" "filter (\<lambda>e. fst e \<noteq> a) ys = ys"
    by (force simp: filter_id_conv)+
  then have "filter (\<lambda>e. fst e \<noteq> a) es = xs @ ys"
    by (simp add: es)
  with remove_law [of l xs a v ys] assms(1) show ?thesis
    by (simp add: es)
qed

lemma rep_inject:
  assumes "rep l es" and "(a, v) \<in> set es" and "(a, w) \<in> set es"
  shows "v = w"
  using rep_value [OF assms(1,2)] rep_value [OF assms(1,3)] by simp

end

definition clist_order :: "'v CList \<Rightarrow> addr list" where
  "clist_order l = walk (nat (cl_len l)) l (cl_head l)"

lemma contents_values:
  "contents l es \<longleftrightarrow> holds l (map fst es) \<and> clist_values l (map fst es) = map snd es"
proof -
  have "(\<forall>(a, v) \<in> set es. elem_value l a = Some v) \<longleftrightarrow> clist_values l (map fst es) = map snd es"
    if h: "holds l (map fst es)"
  proof -
    have "cl_heap l a \<noteq> None" if "(a, v) \<in> set es" for a v
      using holds_elem [OF h] that by (metis fst_conv image_eqI in_set_conv_nth list.set_map option.distinct(1))
    then show ?thesis
      by (fastforce simp: clist_values_def elem_value_def)
  qed
  then show ?thesis
    by (auto simp: contents_def)
qed

lemma contents_remove:
  assumes "contents l (xs @ (a, v) # ys)"
  shows "\<exists>l'. remove_detach a l = (Ok v, l') \<and> contents l' (xs @ ys) \<and> cl_maxLen l' = cl_maxLen l \<and>
    elem_next l' a = None"
proof -
  let ?as = "map fst xs @ a # map fst ys" and ?bs = "map fst xs @ map fst ys"
  have h: "holds l ?as" and vals: "\<forall>(b, w) \<in> set (xs @ (a, v) # ys). elem_value l b = Some w"
    using assms by (simp_all add: contents_def)
  have a: "?as ! length xs = a" "length xs < length ?as" and out: "a \<notin> set ?bs"
    using h by (auto simp: nth_append holds_iff)
  have rm: "remove1 a ?as = ?bs"
    using out by (simp add: remove1_append)
  obtain l1 e where l1: "clist_Remove a l = (Ok v, l1)" "holds l1 ?bs" "cl_maxLen l1 = cl_maxLen l"
    and same: "\<forall>b. map_option ce_Value (cl_heap l1 b) = map_option ce_Value (cl_heap l b)"
    and e: "cl_heap l1 a = Some e" "ce_removed e"
    using clist_Remove_holds [OF h a(2)] vals unfolding a(1) rm by (auto simp: elem_value_def)
  let ?l' = "l1\<lparr>cl_heap := (cl_heap l1)(a \<mapsto> e\<lparr>ce_prev := None, ce_next := None\<rparr>)\<rparr>"
  have "remove_detach a l = (Ok v, ?l')"
    using l1(1) e by (simp add: remove_detach_def bind_cmd_def DetachPrev_def DetachNext_def on_elem_def
        detach_prev_def detach_next_def ret_def)
  moreover have "holds ?l' ?bs"
    by (rule holds_outside [OF l1(2) out e(1)])
  moreover have "elem_value ?l' b = elem_value l b" for b
    using spec [OF same, of b] e(1) by (cases "b = a") (simp_all add: elem_value_def)
  ultimately show ?thesis
    using vals l1(3) by (auto simp: contents_def elem_next_def)
qed

lemma contents_assign:
  assumes "contents l (xs @ (a, v) # ys)"
  shows "contents (set_value a v' l) (xs @ (a, v') # ys) \<and> cl_maxLen (set_value a v' l) = cl_maxLen l"
proof -
  obtain e where e: "cl_heap l a = Some e"
    using assms by (auto simp: contents_def elem_value_def)
  have "a \<notin> fst ` set xs" "a \<notin> fst ` set ys"
    using assms by (auto simp: contents_def holds_iff)
  then have other: "b \<noteq> a" if "(b, w) \<in> set xs \<union> set ys" for b w
    using that by force
  have "elem_value (set_value a v' l) b = Some w" if "(b, w) \<in> set xs \<union> set ys" for b w
  proof -
    have "elem_value l b = Some w"
      using assms that by (auto simp: contents_def)
    then show ?thesis
      using e other [OF that] by (simp add: elem_value_def set_value_def)
  qed
  then have "\<forall>(b, w) \<in> set (xs @ (a, v') # ys). elem_value (set_value a v' l) b = Some w"
    using e by (auto simp: elem_value_def set_value_def)
  moreover have "holds (set_value a v' l) (map fst xs @ a # map fst ys)"
    using holds_value [OF _ e] assms e by (simp add: contents_def set_value_def)
  ultimately show ?thesis
    by (simp add: contents_def set_value_def e)
qed

interpretation clist: element_list PushBack remove_detach elem_value set_value cl_len cl_maxLen
  clist_order cl_head elem_next contents
proof
  fix l :: "'v CList" and es xs ys a and v v' :: 'v
  show "contents l es \<Longrightarrow> distinct (map fst es)"
    by (simp add: contents_def holds_iff)
  show "contents l es \<Longrightarrow> (a, v) \<in> set es \<Longrightarrow> elem_value l a = Some v"
    by (auto simp: contents_def)
  show "contents l es \<Longrightarrow> cl_len l = int (length es)"
    by (simp add: contents_def holds_iff)
  show "contents l es \<Longrightarrow> clist_order l = map fst es"
    using walk_holds [of l "map fst es"] by (simp add: contents_def clist_order_def holds_iff)
  show "contents l es \<Longrightarrow> cl_head l = first_addr es"
    by (cases es) (auto simp: contents_def holds_iff first_addr_def)
  show "elem_next l a = first_addr ys" if "contents l (xs @ (a, v) # ys)"
  proof -
    have h: "holds l (map fst xs @ a # map fst ys)"
      using that by (simp add: contents_def)
    have "length xs < length (map fst xs @ a # map fst ys)" by simp
    from holds_elem [OF h this] obtain e where "cl_heap l a = Some e"
      "ce_next e = neighbour (map fst xs @ a # map fst ys) (Suc (length xs))"
      by (metis length_map nth_append_length)
    then show ?thesis
      by (cases ys) (simp_all add: elem_next_def neighbour_def first_addr_def nth_append)
  qed
  show "\<exists>a l'. PushBack v l = (Ok a, l') \<and> contents l' (es @ [(a, v)]) \<and> a \<notin> fst ` set es \<and>
      cl_maxLen l' = cl_maxLen l" if c: "contents l es" and room: "int (length es) < cl_maxLen l"
  proof -
    have h: "holds l (map fst es)" and vals: "clist_values l (map fst es) = map snd es"
      using c by (simp_all add: contents_values)
    obtain l' where l': "PushBack v l = (Ok (cl_fresh l), l')" "holds l' (map fst es @ [cl_fresh l])"
      "clist_values l' (map fst es @ [cl_fresh l]) = clist_values l (map fst es) @ [v]" "cl_maxLen l' = cl_maxLen l"
      using PushBack_holds [OF h] room by auto
    then have "contents l' (es @ [(cl_fresh l, v)])"
      using vals by (simp add: contents_values)
    with l' holds_fresh(1) [OF h] show ?thesis by auto
  qed
  show "contents l (xs @ (a, v) # ys) \<Longrightarrow>
      \<exists>l'. remove_detach a l = (Ok v, l') \<and> contents l' (xs @ ys) \<and> cl_maxLen l' = cl_maxLen l \<and>
        elem_next l' a = None"
    by (rule contents_remove)
  show "contents l (xs @ (a, v) # ys) \<Longrightarrow>
      contents (set_value a v' l) (xs @ (a, v') # ys) \<and> cl_maxLen (set_value a v' l) = cl_maxLen l"
    by (rule contents_assign)
qed

lemma contents_new: "contents (newWithMax n) []"
  by (simp add: contents_def holds_new)

lemma contents_waits:
  assumes c: "contents l es"
  shows "WaitChan l \<longleftrightarrow> FrontWait l \<noteq> None" "WaitChan l \<longleftrightarrow> BackWait l \<noteq> None"
    and "(b, w) \<in> set es \<Longrightarrow> \<exists>e. cl_heap l b = Some e \<and>
      (NextWaitChan e \<longleftrightarrow> NextWait e \<noteq> None) \<and> (PrevWaitChan e \<longleftrightarrow> PrevWait e \<noteq> None)"
proof -
  have h: "holds l (map fst es)" using c by (simp add: contents_def)
  show "WaitChan l \<longleftrightarrow> FrontWait l \<noteq> None" "WaitChan l \<longleftrightarrow> BackWait l \<noteq> None"
    using h by (auto simp: holds_iff WaitChan_def FrontWait_def BackWait_def neighbour_def prev_of_def split: if_splits)
  assume "(b, w) \<in> set es"
  then obtain i where i: "i < length (map fst es)" "map fst es ! i = b"
    by (metis fst_conv in_set_conv_nth length_map nth_map)
  obtain e where "cl_heap l (map fst es ! i) = Some e" "\<not> ce_removed e" "settled e"
    by (rule holds_elem [OF h i(1)])
  then show "\<exists>e. cl_heap l b = Some e \<and>
      (NextWaitChan e \<longleftrightarrow> NextWait e \<noteq> None) \<and> (PrevWaitChan e \<longleftrightarrow> PrevWait e \<noteq> None)"
    using i(2) by (simp add: settled_def NextWait_def PrevWait_def NextWaitChan_def PrevWaitChan_def)
qed

subsection \<open>Property\<close>

text \<open>
  C33: On a list that stands for the sequence es of elements with their values, PushBack below the
  maximal length adds the value at the end under an address that was not in the list; removing and
  detaching an element of the list returns its value and leaves the others in their order; neither
  panics, the length field counts the elements, and the walk from the front visits just them. Who
  waits for the front, or for the neighbour of an element, finds it exactly when the flag is set.
\<close>

theorem clist_refines_sequence:
  assumes "contents l es"
  shows "(int (length es) < cl_maxLen l \<longrightarrow>
      (\<exists>a l'. PushBack v l = (Ok a, l') \<and> contents l' (es @ [(a, v)]) \<and> a \<notin> fst ` set es)) \<and>
    ((b, w) \<in> set es \<longrightarrow>
      (\<exists>l'. remove_detach b l = (Ok w, l') \<and> contents l' (filter (\<lambda>e. fst e \<noteq> b) es))) \<and>
    clist_Len l = int (length es) \<and> walk (nat (cl_len l)) l (clist_Front l) = map fst es \<and>
    (WaitChan l \<longleftrightarrow> FrontWait l \<noteq> None) \<and> (WaitChan l \<longleftrightarrow> BackWait l \<noteq> None) \<and>
    ((b, w) \<in> set es \<longrightarrow> (\<exists>e. cl_heap l b = Some e \<and>
      (NextWaitChan e \<longleftrightarrow> NextWait e \<noteq> None) \<and> (PrevWaitChan e \<longleftrightarrow> PrevWait e \<noteq> None)))"
  using clist.push_law [OF assms, of v] clist.remove_filter [OF assms, of b w] clist.rep_size [OF assms]
    clist.rep_order [OF assms] contents_waits [OF assms]
  by (auto simp: clist_order_def clist_Len_def clist_Front_def)

theorem clist_refines_sequence_witness:
  "\<exists>a l'. PushBack True (newWithMax 1) = (Ok a, l') \<and> contents l' [(a, True)] \<and>
     (\<exists>l''. remove_detach a l' = (Ok True, l'') \<and> contents l'' [])"
proof -
  obtain a l' where l': "PushBack True (newWithMax 1) = (Ok a, l')" "contents l' ([] @ [(a, True)])"
    using clist_refines_sequence [OF contents_new [of 1], of True] by (auto simp: newWithMax_def clist_Init_def)
  then have c: "contents l' [(a, True)]" by simp
  with l' clist_refines_sequence [OF c, of True a True] show ?thesis by auto
qed

end
