(* ===== verification/TxCache.thy ===== *)
theory TxCache
  imports Prelude "HOL-Library.AList"
begin

text \<open>
  The caches of seen transactions of \<open>src/mempool/cache.go\<close>: the least-recently-used cache and the
  one that caches nothing, behind the interface \<open>TxCache\<close>. Transactions are known by their key, the
  hash that tendermint's \<open>Tx.Key\<close> computes. An element of \<open>container/list\<close> has an identity, the
  number in the list and in the map.
\<close>

type_synonym TxKey = bytes

subsection \<open>The interface\<close>

text \<open>
  \<open>Push\<close> says whether the key is new, \<open>Remove\<close> takes out just the key, and nothing else makes a key
  present.
\<close>

locale tx_cache =
  fixes Reset :: "'c \<Rightarrow> 'c" and Push :: "TxKey \<Rightarrow> 'c \<Rightarrow> bool \<times> 'c"
    and Remove :: "TxKey \<Rightarrow> 'c \<Rightarrow> 'c" and Has :: "TxKey \<Rightarrow> 'c \<Rightarrow> bool" and ok :: "'c \<Rightarrow> bool"
  assumes Reset_law: "ok c \<Longrightarrow> ok (Reset c) \<and> \<not> Has k (Reset c)"
    and Push_law: "ok c \<Longrightarrow> Push k c = (b, c') \<Longrightarrow> ok c' \<and> b = (\<not> Has k c)"
    and Push_only: "ok c \<Longrightarrow> Push k c = (b, c') \<Longrightarrow> Has k' c' \<Longrightarrow> k' = k \<or> Has k' c"
    and Remove_law: "ok c \<Longrightarrow> ok (Remove k c) \<and> Has k' (Remove k c) = (k' \<noteq> k \<and> Has k' c)"
begin

lemma Push_ok: "ok c \<Longrightarrow> ok (snd (Push k c))"
  using Push_law [of c k] by (metis prod.collapse)

lemma Push_fst: "ok c \<Longrightarrow> fst (Push k c) = (\<not> Has k c)"
  using Push_law [of c k] by (metis prod.collapse)

text \<open>A removed key is new to the cache again, also after other keys were pushed.\<close>

lemma fold_Push_only:
  "ok c \<Longrightarrow> ok (fold (\<lambda>k c. snd (Push k c)) ks c) \<and>
   (Has k' (fold (\<lambda>k c. snd (Push k c)) ks c) \<longrightarrow> k' \<in> set ks \<or> Has k' c)"
proof (induction ks arbitrary: c)
  case (Cons k ks)
  from Cons.IH [OF Push_ok [OF Cons.prems, of k]] Push_only [OF Cons.prems, of k "fst (Push k c)" "snd (Push k c)" k']
  show ?case by auto
qed simp

lemma Push_after_Remove:
  assumes "ok c" and "k \<notin> set ks"
  shows "fst (Push k (fold (\<lambda>k c. snd (Push k c)) ks (Remove k c)))"
  using fold_Push_only [of "Remove k c" ks k] Remove_law [OF assms(1), of k k] assms
  by (simp add: Push_fst)

end

subsection \<open>\<open>LRUTxCache\<close>\<close>

record LRUTxCache =
  lru_size :: int
  lru_cacheMap :: "(TxKey \<times> nat) list"
  lru_list :: "(nat \<times> TxKey) list"
  lru_next :: nat

definition NewLRUTxCache :: "int \<Rightarrow> LRUTxCache" where
  "NewLRUTxCache cacheSize = \<lparr>lru_size = cacheSize, lru_cacheMap = [], lru_list = [], lru_next = 0\<rparr>"

text \<open>\<open>MoveToBack\<close>, \<open>Remove\<close> and \<open>PushBack\<close> of \<open>container/list\<close>.\<close>

definition list_Remove :: "nat \<Rightarrow> (nat \<times> 'a) list \<Rightarrow> (nat \<times> 'a) list" where
  "list_Remove i xs = filter (\<lambda>e. fst e \<noteq> i) xs"

definition list_MoveToBack :: "nat \<Rightarrow> (nat \<times> 'a) list \<Rightarrow> (nat \<times> 'a) list" where
  "list_MoveToBack i xs = list_Remove i xs @ filter (\<lambda>e. fst e = i) xs"

definition LRU_Reset :: "LRUTxCache \<Rightarrow> LRUTxCache" where
  "LRU_Reset c = c\<lparr>lru_cacheMap := [], lru_list := []\<rparr>"

definition LRU_Push :: "TxKey \<Rightarrow> LRUTxCache \<Rightarrow> bool \<times> LRUTxCache" where
  "LRU_Push key c =
     (case map_of (lru_cacheMap c) key of
        Some moved \<Rightarrow> (False, c\<lparr>lru_list := list_MoveToBack moved (lru_list c)\<rparr>)
      | None \<Rightarrow>
          let c1 = (if int (length (lru_list c)) \<ge> lru_size c
                    then (case lru_list c of
                            [] \<Rightarrow> c
                          | (front, frontKey) # _ \<Rightarrow>
                              c\<lparr>lru_cacheMap := AList.delete frontKey (lru_cacheMap c),
                                lru_list := list_Remove front (lru_list c)\<rparr>)
                    else c);
              e = lru_next c1
          in (True, c1\<lparr>lru_list := lru_list c1 @ [(e, key)], lru_next := Suc e,
                       lru_cacheMap := AList.update key e (lru_cacheMap c1)\<rparr>))"

definition LRU_Remove :: "TxKey \<Rightarrow> LRUTxCache \<Rightarrow> LRUTxCache" where
  "LRU_Remove key c =
     (let c1 = c\<lparr>lru_cacheMap := AList.delete key (lru_cacheMap c)\<rparr>
      in case map_of (lru_cacheMap c) key of
           None \<Rightarrow> c1
         | Some e \<Rightarrow> c1\<lparr>lru_list := list_Remove e (lru_list c1)\<rparr>)"

definition LRU_Has :: "TxKey \<Rightarrow> LRUTxCache \<Rightarrow> bool" where
  "LRU_Has key c \<longleftrightarrow> map_of (lru_cacheMap c) key \<noteq> None"

subsection \<open>\<open>NopTxCache\<close> and the interface value\<close>

datatype TxCache = Nop | LRU LRUTxCache

primrec Cache_Reset :: "TxCache \<Rightarrow> TxCache" where
  "Cache_Reset Nop = Nop"
| "Cache_Reset (LRU c) = LRU (LRU_Reset c)"

primrec Cache_Push :: "TxKey \<Rightarrow> TxCache \<Rightarrow> bool \<times> TxCache" where
  "Cache_Push key Nop = (True, Nop)"
| "Cache_Push key (LRU c) = map_prod id LRU (LRU_Push key c)"

primrec Cache_Remove :: "TxKey \<Rightarrow> TxCache \<Rightarrow> TxCache" where
  "Cache_Remove key Nop = Nop"
| "Cache_Remove key (LRU c) = LRU (LRU_Remove key c)"

primrec Cache_Has :: "TxKey \<Rightarrow> TxCache \<Rightarrow> bool" where
  "Cache_Has key Nop = False"
| "Cache_Has key (LRU c) = LRU_Has key c"

subsection \<open>The list of keys an \<open>LRUTxCache\<close> stands for\<close>

text \<open>The abstract cache: distinct keys, the least recently used one first.\<close>

definition lru_keys :: "LRUTxCache \<Rightarrow> TxKey list" where
  "lru_keys c = map snd (lru_list c)"

definition push_keys :: "int \<Rightarrow> TxKey \<Rightarrow> TxKey list \<Rightarrow> bool \<times> TxKey list" where
  "push_keys sz k ks =
     (if k \<in> set ks then (False, remove1 k ks @ [k])
      else (True, (if int (length ks) \<ge> sz then tl ks else ks) @ [k]))"

definition lru_ok :: "LRUTxCache \<Rightarrow> bool" where
  "lru_ok c \<longleftrightarrow>
     distinct (map fst (lru_list c)) \<and> distinct (lru_keys c) \<and>
     (\<forall>k i. map_of (lru_cacheMap c) k = Some i \<longleftrightarrow> (i, k) \<in> set (lru_list c)) \<and>
     (\<forall>e \<in> set (lru_list c). fst e < lru_next c) \<and>
     int (length (lru_list c)) \<le> max 1 (lru_size c)"

lemma lru_okD:
  assumes "lru_ok c"
  shows "distinct (map fst (lru_list c))" "distinct (lru_keys c)"
    and "map_of (lru_cacheMap c) k = Some i \<longleftrightarrow> (i, k) \<in> set (lru_list c)"
    and "e \<in> set (lru_list c) \<Longrightarrow> fst e < lru_next c"
    and "int (length (lru_list c)) \<le> max 1 (lru_size c)"
  using assms by (auto simp: lru_ok_def)

lemma LRU_Has_iff: "lru_ok c \<Longrightarrow> LRU_Has k c \<longleftrightarrow> k \<in> set (lru_keys c)"
  by (auto simp: LRU_Has_def lru_keys_def lru_okD(3) image_iff) force

lemma set_list_ops [simp]:
  "set (list_Remove i xs) = {e \<in> set xs. fst e \<noteq> i}"
  "set (list_MoveToBack i xs) = set xs"
  by (auto simp: list_Remove_def list_MoveToBack_def)

lemma distinct_list_Remove:
  "distinct (map fst xs) \<Longrightarrow> distinct (map fst (list_Remove i xs))"
  "distinct (map snd xs) \<Longrightarrow> distinct (map snd (list_Remove i xs))"
  by (auto simp: list_Remove_def distinct_map inj_on_def)

lemma list_Remove_entry:
  assumes "distinct (map fst xs)" "distinct (map snd xs)" "(i, k) \<in> set xs"
  shows "map snd (list_Remove i xs) = remove1 k (map snd xs)"
    and "filter (\<lambda>e. fst e = i) xs = [(i, k)]"
  using assms
proof (induction xs)
  case (Cons e xs)
  {
    case 1
    show ?case
    proof (cases "e = (i, k)")
      case True
      with 1 have "list_Remove i xs = xs"
        by (force simp: list_Remove_def filter_id_conv)
      with True show ?thesis by (simp add: list_Remove_def)
    next
      case False
      with 1 have "fst e \<noteq> i" "snd e \<noteq> k" by (force intro: rev_image_eqI)+
      with 1 False Cons.IH(1) show ?thesis by (auto simp: list_Remove_def)
    qed
  next
    case 2
    show ?case
    proof (cases "e = (i, k)")
      case True
      with 2 show ?thesis by (force simp: filter_empty_conv)
    next
      case False
      with 2 have "fst e \<noteq> i" by (force intro: rev_image_eqI)
      with 2 False Cons.IH(2) show ?thesis by auto
    qed
  }
qed auto

lemma lru_ok_drop:
  assumes ok: "lru_ok c" and e: "(i, k) \<in> set (lru_list c)"
  defines "c' \<equiv> c\<lparr>lru_cacheMap := AList.delete k (lru_cacheMap c), lru_list := list_Remove i (lru_list c)\<rparr>"
  shows "lru_ok c'" and "lru_keys c' = remove1 k (lru_keys c)"
    and "length (lru_list c') < length (lru_list c)"
proof -
  note d = lru_okD(1,2) [OF ok]
  have inj: "j = i \<longleftrightarrow> k' = k" if "(j, k') \<in> set (lru_list c)" for j k'
    using that e d inj_onD [of fst "set (lru_list c)" "(j, k')" "(i, k)"]
      inj_onD [of snd "set (lru_list c)" "(j, k')" "(i, k)"]
    by (auto simp: distinct_map lru_keys_def)
  show "lru_keys c' = remove1 k (lru_keys c)"
    using list_Remove_entry(1) [OF d(1) _ e] d(2) by (simp add: lru_keys_def c'_def)
  moreover have "k \<in> set (lru_keys c)"
    using e by (force simp: lru_keys_def)
  ultimately have "length (lru_keys c') < length (lru_keys c)"
    using length_pos_if_in_set [of k "lru_keys c"] by (simp add: length_remove1)
  then show less: "length (lru_list c') < length (lru_list c)"
    by (simp add: lru_keys_def)
  have "map_of (lru_cacheMap c') k' = Some j \<longleftrightarrow> (j, k') \<in> set (lru_list c')" for k' j
    using lru_okD(3) [OF ok, of k' j] inj by (auto simp: c'_def AList.delete_conv')
  then show "lru_ok c'"
    using ok d less distinct_list_Remove [of "lru_list c" i]
    by (auto simp: lru_ok_def lru_keys_def c'_def)
qed

lemma lru_ok_add:
  assumes ok: "lru_ok c" and new: "k \<notin> set (lru_keys c)"
    and room: "int (length (lru_list c)) < max 1 (lru_size c)"
  shows "lru_ok (c\<lparr>lru_list := lru_list c @ [(lru_next c, k)], lru_next := Suc (lru_next c),
    lru_cacheMap := AList.update k (lru_next c) (lru_cacheMap c)\<rparr>)"
proof -
  have "\<not> (j, k) \<in> set (lru_list c)" for j
    using new by (force simp: lru_keys_def intro: rev_image_eqI)
  moreover have "\<not> (lru_next c, k') \<in> set (lru_list c)" for k'
    using lru_okD(4) [OF ok, of "(lru_next c, k')"] by auto
  moreover have "lru_next c \<notin> fst ` set (lru_list c)"
    using lru_okD(4) [OF ok] by force
  ultimately show ?thesis
    using ok new room by (auto simp: lru_ok_def lru_keys_def AList.update_conv' less_Suc_eq)
qed

lemma LRU_Push_new:
  assumes ok: "lru_ok c" and new: "k \<notin> set (lru_keys c)"
  shows "lru_ok (snd (LRU_Push k c)) \<and> lru_keys (snd (LRU_Push k c)) =
    (if int (length (lru_keys c)) \<ge> lru_size c then tl (lru_keys c) else lru_keys c) @ [k] \<and>
    fst (LRU_Push k c)"
proof -
  have none: "map_of (lru_cacheMap c) k = None"
    using LRU_Has_iff [OF ok, of k] new by (simp add: LRU_Has_def)
  define c1 where "c1 = (if int (length (lru_list c)) \<ge> lru_size c
      then (case lru_list c of [] \<Rightarrow> c
            | (front, frontKey) # _ \<Rightarrow> c\<lparr>lru_cacheMap := AList.delete frontKey (lru_cacheMap c),
                lru_list := list_Remove front (lru_list c)\<rparr>) else c)"
  have c1: "lru_ok c1 \<and> int (length (lru_list c1)) < max 1 (lru_size c1) \<and> lru_keys c1 =
      (if int (length (lru_keys c)) \<ge> lru_size c then tl (lru_keys c) else lru_keys c)"
  proof (cases "lru_list c")
    case Nil
    then show ?thesis using ok by (auto simp: c1_def lru_keys_def)
  next
    case (Cons e es)
    obtain i f where e: "e = (i, f)" by (cases e)
    with Cons have "(i, f) \<in> set (lru_list c)" by simp
    from lru_ok_drop [OF ok this] lru_okD(5) [OF ok] Cons e show ?thesis
      using ok by (auto simp: c1_def lru_keys_def)
  qed
  have run: "LRU_Push k c = (True, c1\<lparr>lru_list := lru_list c1 @ [(lru_next c1, k)],
      lru_next := Suc (lru_next c1), lru_cacheMap := AList.update k (lru_next c1) (lru_cacheMap c1)\<rparr>)"
    by (simp add: LRU_Push_def none c1_def [symmetric] Let_def)
  have "k \<notin> set (lru_keys c1)"
    using new c1 by (cases "lru_keys c") auto
  then have "lru_ok (snd (LRU_Push k c))"
    using c1 by (simp add: run lru_ok_add)
  then show ?thesis
    using c1 by (simp add: run lru_keys_def)
qed

lemma LRU_Push_old:
  assumes ok: "lru_ok c" and old: "k \<in> set (lru_keys c)"
  shows "lru_ok (snd (LRU_Push k c)) \<and> lru_keys (snd (LRU_Push k c)) = remove1 k (lru_keys c) @ [k] \<and>
    \<not> fst (LRU_Push k c)"
proof -
  obtain i where i: "map_of (lru_cacheMap c) k = Some i" and e: "(i, k) \<in> set (lru_list c)"
    using old LRU_Has_iff [OF ok, of k] lru_okD(3) [OF ok, of k] by (auto simp: LRU_Has_def)
  note d = lru_okD(1,2) [OF ok]
  have moved: "list_MoveToBack i (lru_list c) = list_Remove i (lru_list c) @ [(i, k)]"
    using list_Remove_entry(2) [OF d(1) _ e] d(2) by (simp add: list_MoveToBack_def lru_keys_def)
  have keys: "map snd (list_Remove i (lru_list c)) = remove1 k (lru_keys c)"
    using list_Remove_entry(1) [OF d(1) _ e] d(2) by (simp add: lru_keys_def)
  have len: "length (list_Remove i (lru_list c) @ [(i, k)]) = length (lru_list c)"
    using arg_cong [OF keys, of length] old
    by (simp add: length_remove1 lru_keys_def) (metis Suc_pred length_pos_if_in_set length_map set_map)
  have run: "LRU_Push k c = (False, c\<lparr>lru_list := list_MoveToBack i (lru_list c)\<rparr>)"
    by (simp add: LRU_Push_def i)
  have ids: "distinct (map fst (list_Remove i (lru_list c) @ [(i, k)]))"
    using distinct_list_Remove(1) [OF d(1)] by auto
  have ks: "distinct (remove1 k (lru_keys c) @ [k])"
    using d(2) by simp
  have "set (list_Remove i (lru_list c) @ [(i, k)]) = set (lru_list c)"
    using moved set_list_ops(2) by metis
  then have "lru_ok (snd (LRU_Push k c))"
    using ok ids ks len keys by (simp add: run lru_ok_def moved lru_keys_def)
  then show ?thesis
    using keys by (simp add: run moved lru_keys_def)
qed

lemma LRU_Push_keys:
  assumes "lru_ok c"
  shows "lru_ok (snd (LRU_Push k c))"
    and "(fst (LRU_Push k c), lru_keys (snd (LRU_Push k c))) = push_keys (lru_size c) k (lru_keys c)"
  using LRU_Push_old [OF assms, of k] LRU_Push_new [OF assms, of k] by (auto simp: push_keys_def)

lemma LRU_Remove_keys:
  assumes ok: "lru_ok c"
  shows "lru_ok (LRU_Remove k c) \<and> lru_keys (LRU_Remove k c) = remove1 k (lru_keys c)"
proof (cases "map_of (lru_cacheMap c) k")
  case None
  then have "AList.delete k (lru_cacheMap c) = lru_cacheMap c"
    by (simp add: AList.delete_idem map_of_eq_None_iff)
  moreover have "k \<notin> set (lru_keys c)"
    using None LRU_Has_iff [OF ok, of k] by (simp add: LRU_Has_def)
  ultimately show ?thesis
    using ok None by (simp add: LRU_Remove_def remove1_idem)
next
  case (Some i)
  with lru_okD(3) [OF ok, of k i] lru_ok_drop [OF ok, of i k] show ?thesis
    by (simp add: LRU_Remove_def)
qed

subsection \<open>The contract holds\<close>

lemma push_keys_set: "set (snd (push_keys sz k ks)) \<subseteq> insert k (set ks)"
  using set_remove1_subset [of k ks] by (cases ks) (auto simp: push_keys_def)

interpretation lru: tx_cache LRU_Reset LRU_Push LRU_Remove LRU_Has lru_ok
proof
  fix c :: LRUTxCache and k k' b c'
  assume ok: "lru_ok c"
  show "lru_ok (LRU_Reset c) \<and> \<not> LRU_Has k (LRU_Reset c)"
    by (simp add: LRU_Reset_def lru_ok_def lru_keys_def LRU_Has_def)
  have has: "LRU_Has k' (LRU_Remove k c) = (k' \<in> set (lru_keys (LRU_Remove k c)))"
    using LRU_Remove_keys [OF ok] by (simp add: LRU_Has_iff)
  show "lru_ok (LRU_Remove k c) \<and> LRU_Has k' (LRU_Remove k c) = (k' \<noteq> k \<and> LRU_Has k' c)"
    using LRU_Remove_keys [OF ok, of k] lru_okD(2) [OF ok] by (auto simp: has LRU_Has_iff [OF ok])
  assume push: "LRU_Push k c = (b, c')"
  note P = LRU_Push_keys [OF ok, of k, unfolded push fst_conv snd_conv]
  show "lru_ok c' \<and> b = (\<not> LRU_Has k c)"
    using P by (auto simp: LRU_Has_iff [OF ok] push_keys_def split: if_splits)
  assume "LRU_Has k' c'"
  then have "k' \<in> set (snd (push_keys (lru_size c) k (lru_keys c)))"
    using P(2) by (simp add: LRU_Has_iff [OF P(1)] flip: P(2))
  then show "k' = k \<or> LRU_Has k' c"
    using push_keys_set by (fastforce simp: LRU_Has_iff [OF ok])
qed

primrec cache_ok :: "TxCache \<Rightarrow> bool" where
  "cache_ok Nop = True"
| "cache_ok (LRU c) = lru_ok c"

interpretation cache: tx_cache Cache_Reset Cache_Push Cache_Remove Cache_Has cache_ok
proof
  fix c k k' b c'
  assume ok: "cache_ok c"
  show "cache_ok (Cache_Reset c) \<and> \<not> Cache_Has k (Cache_Reset c)"
    using ok lru.Reset_law by (cases c) auto
  show "cache_ok (Cache_Remove k c) \<and> Cache_Has k' (Cache_Remove k c) = (k' \<noteq> k \<and> Cache_Has k' c)"
    using ok lru.Remove_law by (cases c) auto
  assume push: "Cache_Push k c = (b, c')"
  show "cache_ok c' \<and> b = (\<not> Cache_Has k c)"
    using ok push lru.Push_law by (cases c) (fastforce simp: map_prod_def split: prod.splits)+
  assume "Cache_Has k' c'"
  with ok push show "k' = k \<or> Cache_Has k' c"
    by (cases c) (auto simp: map_prod_def split: prod.splits dest: lru.Push_only)
qed

lemma lru_ok_New: "lru_ok (NewLRUTxCache n)"
  by (simp add: NewLRUTxCache_def lru_ok_def lru_keys_def)

subsection \<open>Properties\<close>

text \<open>
  On a well-formed LRU cache, Push and Remove do exactly what the list of keys in order of use
  says - a known key moves to the most recent place, a new key is added there, the least recently
  used one going out when the cache is full - and the cache stays well-formed.
\<close>

lemma lru_refines_keys:
  assumes "lru_ok c"
  shows "(fst (LRU_Push k c), lru_keys (snd (LRU_Push k c))) = push_keys (lru_size c) k (lru_keys c) \<and>
    lru_keys (LRU_Remove k c) = remove1 k (lru_keys c) \<and>
    (LRU_Has k c \<longleftrightarrow> k \<in> set (lru_keys c)) \<and> lru_keys (LRU_Reset c) = [] \<and>
    lru_ok (snd (LRU_Push k c)) \<and> lru_ok (LRU_Remove k c) \<and> lru_ok (LRU_Reset c)"
  using LRU_Push_keys [OF assms] LRU_Remove_keys [OF assms] LRU_Has_iff [OF assms] lru.Reset_law [OF assms]
  by (simp add: LRU_Reset_def lru_keys_def)

end
