(* ===== verification/Mempool.thy ===== *)
theory Mempool
  imports Abci CList TxCache
begin

text \<open>
  The priority mempool of \<open>src/mempool/v1\<close>: the transactions it keeps, the checks that let one in,
  eviction of those of lower priority, reaping for a block, the update after a block and the
  rechecking of what remains. The pool runs on the list of theory \<open>CList\<close> and on a cache of theory
  \<open>TxCache\<close>, through their contracts \<open>element_list\<close> and \<open>tx_cache\<close>. The application's connection, the
  hash of a transaction and its size on the wire are arguments of the definitions; the clock is the
  argument \<open>now\<close>. Go leaves open in which order a map is walked and equal elements are sorted: both
  are the argument \<open>arrange\<close>, a permutation applied before sorting.
\<close>

subsection \<open>Transactions and configuration\<close>

record WrappedTx =
  w_tx :: Tx
  w_hash :: TxKey
  w_height :: int
  w_timestamp :: gotime
  w_gasWanted :: int
  w_priority :: int
  w_sender :: gostring
  w_peers :: "u16 list"

definition w_Size :: "WrappedTx \<Rightarrow> int" where
  "w_Size w = int (length (w_tx w))"

definition SetPeer :: "u16 \<Rightarrow> WrappedTx \<Rightarrow> WrappedTx" where
  "SetPeer i w = w\<lparr>w_peers := List.insert i (w_peers w)\<rparr>"

definition HasPeer :: "u16 \<Rightarrow> WrappedTx \<Rightarrow> bool" where
  "HasPeer i w \<longleftrightarrow> i \<in> set (w_peers w)"

definition SetGasWanted :: "int \<Rightarrow> WrappedTx \<Rightarrow> WrappedTx" where
  "SetGasWanted gas w = w\<lparr>w_gasWanted := gas\<rparr>"

definition SetPriority :: "int \<Rightarrow> WrappedTx \<Rightarrow> WrappedTx" where
  "SetPriority p w = w\<lparr>w_priority := p\<rparr>"

definition SetSender :: "gostring \<Rightarrow> WrappedTx \<Rightarrow> WrappedTx" where
  "SetSender s w = w\<lparr>w_sender := s\<rparr>"

lemma wrapped_simps [simp]:
  "w_tx (SetPeer i w) = w_tx w" "w_hash (SetPeer i w) = w_hash w" "w_sender (SetPeer i w) = w_sender w"
  "w_priority (SetPeer i w) = w_priority w" "w_timestamp (SetPeer i w) = w_timestamp w"
  "w_tx (SetGasWanted g w) = w_tx w" "w_hash (SetGasWanted g w) = w_hash w"
  "w_tx (SetPriority p w) = w_tx w" "w_hash (SetPriority p w) = w_hash w"
  "w_sender (SetPriority p w) = w_sender w" "w_priority (SetPriority p w) = p"
  "w_tx (SetSender s w) = w_tx w" "w_hash (SetSender s w) = w_hash w" "w_sender (SetSender s w) = s"
  "w_priority (SetSender s w) = w_priority w"
  by (simp_all add: SetPeer_def SetGasWanted_def SetPriority_def SetSender_def)

text \<open>The fields of tendermint's \<open>config.MempoolConfig\<close> that the pool reads.\<close>

record MempoolConfig =
  mc_Recheck :: bool
  mc_Size :: int
  mc_MaxTxsBytes :: int
  mc_CacheSize :: int
  mc_KeepInvalidTxsInCache :: bool
  mc_MaxTxBytes :: int
  mc_TTLDuration :: int
  mc_TTLNumBlocks :: int

record mempool_env =
  me_config :: MempoolConfig
  me_Key :: "Tx \<Rightarrow> TxKey"
  me_ComputeProtoSizeForTxs :: "Tx list \<Rightarrow> int"

type_synonym pre_check = "Tx \<Rightarrow> unit outcome"
type_synonym post_check = "Tx \<Rightarrow> ResponseCheckTx \<Rightarrow> unit outcome"

text \<open>\<open>abci.CodeTypeOK\<close>.\<close>

definition CodeTypeOK :: u32 where
  "CodeTypeOK = 0"

subsection \<open>The pool\<close>

text \<open>
  The elements of the list carry the transactions. A channel of capacity one is absent, empty or full.
\<close>

record TxMempool =
  tp_cache :: TxCache
  tp_txsBytes :: int
  tp_txRecheck :: int
  tp_notifiedTxsAvailable :: bool
  tp_txsAvailable :: "bool option"
  tp_preCheck :: "pre_check option"
  tp_postCheck :: "post_check option"
  tp_height :: int
  tp_txs :: "WrappedTx CList"
  tp_txByKey :: "(TxKey \<times> addr) list"
  tp_txBySender :: "(gostring \<times> addr) list"

definition NewTxMempool :: "MempoolConfig \<Rightarrow> int \<Rightarrow> (TxMempool \<Rightarrow> TxMempool) list \<Rightarrow> TxMempool" where
  "NewTxMempool cfg height options =
     (let txmp = \<lparr>tp_cache = (if mc_CacheSize cfg > 0 then LRU (NewLRUTxCache (mc_CacheSize cfg)) else Nop),
                  tp_txsBytes = 0, tp_txRecheck = 0, tp_notifiedTxsAvailable = False, tp_txsAvailable = None,
                  tp_preCheck = None, tp_postCheck = None, tp_height = height, tp_txs = newWithMax MaxLength,
                  tp_txByKey = [], tp_txBySender = []\<rparr>
      in fold (\<lambda>opt. opt) options txmp)"

definition WithPreCheck :: "pre_check \<Rightarrow> TxMempool \<Rightarrow> TxMempool" where
  "WithPreCheck f m = m\<lparr>tp_preCheck := Some f\<rparr>"

definition WithPostCheck :: "post_check \<Rightarrow> TxMempool \<Rightarrow> TxMempool" where
  "WithPostCheck f m = m\<lparr>tp_postCheck := Some f\<rparr>"

definition EnableTxsAvailable :: "TxMempool \<Rightarrow> TxMempool" where
  "EnableTxsAvailable m = m\<lparr>tp_txsAvailable := Some False\<rparr>"

definition pool_Size :: "TxMempool \<Rightarrow> int" where
  "pool_Size m = cl_len (tp_txs m)"

definition SizeBytes :: "TxMempool \<Rightarrow> int" where
  "SizeBytes m = tp_txsBytes m"

definition TxsFront :: "TxMempool \<Rightarrow> addr option" where
  "TxsFront m = cl_head (tp_txs m)"

definition on_txs :: "(WrappedTx CList, 'a) cmd \<Rightarrow> (TxMempool, 'a) cmd" where
  "on_txs c m = (case c (tp_txs m) of (r, l) \<Rightarrow> (r, m\<lparr>tp_txs := l\<rparr>))"

definition on_cache :: "(TxCache \<Rightarrow> TxCache) \<Rightarrow> (TxMempool, unit) cmd" where
  "on_cache f m = (Ok (), m\<lparr>tp_cache := f (tp_cache m)\<rparr>)"

text \<open>\<open>elt.Value.(*WrappedTx)\<close>.\<close>

definition elt_Value :: "addr \<Rightarrow> (TxMempool, WrappedTx) cmd" where
  "elt_Value a m =
     (case elem_value (tp_txs m) a of
        None \<Rightarrow> (Panic ''nil pointer dereference'', m)
      | Some w \<Rightarrow> (Ok w, m))"

definition notifyTxsAvailable :: "(TxMempool, unit) cmd" where
  "notifyTxsAvailable m =
     (if pool_Size m = 0 then (Ok (), m)
      else if tp_txsAvailable m \<noteq> None \<and> \<not> tp_notifiedTxsAvailable m
      then (Ok (), m\<lparr>tp_notifiedTxsAvailable := True, tp_txsAvailable := Some True\<rparr>)
      else (Ok (), m))"

subsection \<open>Removal\<close>

text \<open>
  The common part of the two removals: the indexes forget the key and the sender, the element
  leaves the list and its size leaves the total.
\<close>

definition remove_elt :: "TxKey \<Rightarrow> addr \<Rightarrow> WrappedTx \<Rightarrow> (TxMempool, unit) cmd" where
  "remove_elt key elt w =
     bind_cmd (\<lambda>m. (Ok (), m\<lparr>tp_txByKey := AList.delete key (tp_txByKey m),
                             tp_txBySender := AList.delete (w_sender w) (tp_txBySender m)\<rparr>)) (\<lambda>_.
     bind_cmd (on_txs (remove_detach elt)) (\<lambda>_.
       \<lambda>m. (Ok (), m\<lparr>tp_txsBytes := i64 (tp_txsBytes m - w_Size w)\<rparr>)))"

definition removeTxByKey :: "TxKey \<Rightarrow> (TxMempool, unit) cmd" where
  "removeTxByKey key m =
     (case map_of (tp_txByKey m) key of
        Some elt \<Rightarrow> bind_cmd (elt_Value elt) (\<lambda>w. remove_elt key elt w) m
      | None \<Rightarrow> (Err (Errorf ''transaction not found''), m))"

definition removeTxByElement :: "mempool_env \<Rightarrow> addr \<Rightarrow> (TxMempool, unit) cmd" where
  "removeTxByElement E elt = bind_cmd (elt_Value elt) (\<lambda>w. remove_elt (me_Key E (w_tx w)) elt w)"

definition RemoveTxByKey :: "TxKey \<Rightarrow> (TxMempool, unit) cmd" where
  "RemoveTxByKey = removeTxByKey"

text \<open>
  The loop over the list that takes the next element before the body runs on the current one. Every
  element is visited at most once, so the length of the list bounds it; a run that would go on
  longer is a panic of the model.
\<close>

fun each_elem :: "(addr \<Rightarrow> (TxMempool, unit) cmd) \<Rightarrow> nat \<Rightarrow> addr option \<Rightarrow> (TxMempool, unit) cmd" where
  "each_elem body fuel None m = (Ok (), m)"
| "each_elem body 0 (Some cur) m = (Panic ''out of fuel'', m)"
| "each_elem body (Suc fuel) (Some cur) m =
     (let next = elem_next (tp_txs m) cur
      in bind_cmd (body cur) (\<lambda>_. each_elem body fuel next) m)"

definition pool_Flush :: "mempool_env \<Rightarrow> (TxMempool, unit) cmd" where
  "pool_Flush E m =
     bind_cmd (each_elem (removeTxByElement E) (nat (pool_Size m)) (TxsFront m)) (\<lambda>_.
     bind_cmd (on_cache Cache_Reset) (\<lambda>_.
       \<lambda>m. (Ok (), m\<lparr>tp_txRecheck := 0\<rparr>))) m"

text \<open>A time difference is an \<open>int64\<close> of nanoseconds that saturates.\<close>

definition time_Sub :: "gotime \<Rightarrow> gotime \<Rightarrow> int" where
  "time_Sub t u = max (- (2 ^ 63)) (min (2 ^ 63 - 1) (t - u))"

definition is_expired :: "MempoolConfig \<Rightarrow> gotime \<Rightarrow> int \<Rightarrow> WrappedTx \<Rightarrow> bool" where
  "is_expired cfg now blockHeight w \<longleftrightarrow>
     (mc_TTLNumBlocks cfg > 0 \<and> i64 (blockHeight - w_height w) > mc_TTLNumBlocks cfg) \<or>
     (mc_TTLDuration cfg > 0 \<and> time_Sub now (w_timestamp w) > mc_TTLDuration cfg)"

definition purge_elem :: "mempool_env \<Rightarrow> gotime \<Rightarrow> int \<Rightarrow> addr \<Rightarrow> (TxMempool, unit) cmd" where
  "purge_elem E now blockHeight cur =
     bind_cmd (elt_Value cur) (\<lambda>w.
       if is_expired (me_config E) now blockHeight w
       then bind_cmd (removeTxByElement E cur) (\<lambda>_. on_cache (Cache_Remove (me_Key E (w_tx w))))
       else ret ())"

definition purgeExpiredTxs :: "mempool_env \<Rightarrow> gotime \<Rightarrow> int \<Rightarrow> (TxMempool, unit) cmd" where
  "purgeExpiredTxs E now blockHeight m =
     (if mc_TTLNumBlocks (me_config E) = 0 \<and> mc_TTLDuration (me_config E) = 0 then (Ok (), m)
      else each_elem (purge_elem E now blockHeight) (nat (pool_Size m)) (TxsFront m) m)"

subsection \<open>Reaping\<close>

definition reap_before :: "WrappedTx \<Rightarrow> WrappedTx \<Rightarrow> bool" where
  "reap_before x y \<longleftrightarrow>
     (if w_priority x = w_priority y then w_timestamp x < w_timestamp y
      else w_priority x > w_priority y)"

text \<open>The transactions the index by key leads to, in the order of the index.\<close>

definition indexed_txs :: "TxMempool \<Rightarrow> WrappedTx list" where
  "indexed_txs m = List.map_filter (\<lambda>(k, a). elem_value (tp_txs m) a) (tp_txByKey m)"

definition allEntriesSorted :: "(WrappedTx list \<Rightarrow> WrappedTx list) \<Rightarrow> TxMempool \<Rightarrow> WrappedTx list" where
  "allEntriesSorted arrange m = sort_slice reap_before (arrange (indexed_txs m))"

fun reap_loop :: "mempool_env \<Rightarrow> int \<Rightarrow> int \<Rightarrow> int \<Rightarrow> int \<Rightarrow> WrappedTx list \<Rightarrow> Tx list" where
  "reap_loop E maxBytes maxGas totalGas totalBytes [] = []"
| "reap_loop E maxBytes maxGas totalGas totalBytes (w # ws) =
     (let totalGas' = i64 (totalGas + w_gasWanted w);
          totalBytes' = i64 (totalBytes + me_ComputeProtoSizeForTxs E [w_tx w])
      in if (maxGas \<ge> 0 \<and> totalGas' > maxGas) \<or> (maxBytes \<ge> 0 \<and> totalBytes' > maxBytes) then []
         else w_tx w # reap_loop E maxBytes maxGas totalGas' totalBytes' ws)"

definition ReapMaxBytesMaxGas ::
    "mempool_env \<Rightarrow> (WrappedTx list \<Rightarrow> WrappedTx list) \<Rightarrow> int \<Rightarrow> int \<Rightarrow> TxMempool \<Rightarrow> Tx list" where
  "ReapMaxBytesMaxGas E arrange maxBytes maxGas m =
     reap_loop E maxBytes maxGas 0 0 (allEntriesSorted arrange m)"

fun reap_txs_loop :: "int \<Rightarrow> Tx list \<Rightarrow> WrappedTx list \<Rightarrow> Tx list" where
  "reap_txs_loop n keep [] = keep"
| "reap_txs_loop n keep (w # ws) =
     (if n \<ge> 0 \<and> int (length keep) \<ge> n then keep else reap_txs_loop n (keep @ [w_tx w]) ws)"

definition ReapMaxTxs :: "(WrappedTx list \<Rightarrow> WrappedTx list) \<Rightarrow> int \<Rightarrow> TxMempool \<Rightarrow> Tx list" where
  "ReapMaxTxs arrange n m = reap_txs_loop n [] (allEntriesSorted arrange m)"

subsection \<open>Checking a transaction\<close>

text \<open>What \<open>CheckTx\<close> does under the read lock; it returns the height it saw.\<close>

definition admit_tx :: "mempool_env \<Rightarrow> error option \<Rightarrow> Tx \<Rightarrow> u16 \<Rightarrow> (TxMempool, int) cmd" where
  "admit_tx E connError tx senderID m =
     (if int (length tx) > mc_MaxTxBytes (me_config E)
      then (Err (ErrTxTooLarge (mc_MaxTxBytes (me_config E)) (int (length tx))), m)
      else
        case (case tp_preCheck m of None \<Rightarrow> Ok () | Some f \<Rightarrow> f tx) of
          Err e \<Rightarrow> (Err (ErrPreCheck e), m)
        | Panic p \<Rightarrow> (Panic p, m)
        | Ok _ \<Rightarrow>
            (case connError of
               Some e \<Rightarrow> (Err e, m)
             | None \<Rightarrow>
                 let txKey = me_Key E tx;
                     (new, c) = Cache_Push txKey (tp_cache m);
                     m1 = m\<lparr>tp_cache := c\<rparr>
                 in if \<not> new
                    then (case map_of (tp_txByKey m1) txKey of
                            None \<Rightarrow> (Err ErrTxInCache, m1)
                          | Some elt \<Rightarrow>
                              bind_cmd (elt_Value elt) (\<lambda>w.
                                \<lambda>m. (Err ErrTxInCache, m\<lparr>tp_txs := set_value elt (SetPeer senderID w) (tp_txs m)\<rparr>)) m1)
                    else (Ok (tp_height m1), m1)))"

text \<open>
  The callback that \<open>CheckTx\<close> leaves with the request, the closure over the transaction, the height
  and the peer. The connection runs it when the response is there.
\<close>

record pending_check =
  pc_tx :: Tx
  pc_height :: int
  pc_senderID :: u16

definition CheckTx ::
    "mempool_env \<Rightarrow> error option \<Rightarrow> unit outcome \<Rightarrow> Tx \<Rightarrow> u16 \<Rightarrow> (TxMempool, pending_check) cmd" where
  "CheckTx E connError flushSync tx senderID =
     bind_cmd (admit_tx E connError tx senderID) (\<lambda>height.
       \<lambda>m. (bind_out flushSync (\<lambda>_. Ok \<lparr>pc_tx = tx, pc_height = height, pc_senderID = senderID\<rparr>), m))"

definition canAddTx :: "MempoolConfig \<Rightarrow> WrappedTx \<Rightarrow> TxMempool \<Rightarrow> unit outcome" where
  "canAddTx cfg wtx m =
     (let numTxs = pool_Size m; txBytes = SizeBytes m
      in if numTxs \<ge> mc_Size cfg \<or> i64 (w_Size wtx + txBytes) > mc_MaxTxsBytes cfg
         then Err (ErrMempoolIsFull numTxs (mc_Size cfg) txBytes (mc_MaxTxsBytes cfg))
         else Ok ())"

definition insertTx :: "mempool_env \<Rightarrow> WrappedTx \<Rightarrow> (TxMempool, unit) cmd" where
  "insertTx E wtx =
     bind_cmd (on_txs (PushBack wtx)) (\<lambda>elt m.
       (Ok (), m\<lparr>tp_txByKey := AList.update (me_Key E (w_tx wtx)) elt (tp_txByKey m),
                 tp_txBySender := (if w_sender wtx \<noteq> [] then AList.update (w_sender wtx) elt (tp_txBySender m)
                                   else tp_txBySender m),
                 tp_txsBytes := i64 (tp_txsBytes m + w_Size wtx)\<rparr>))"

text \<open>The elements of the list with their transactions, from the front.\<close>

definition list_entries :: "TxMempool \<Rightarrow> (addr \<times> WrappedTx) list" where
  "list_entries m =
     List.map_filter (\<lambda>a. map_option (Pair a) (elem_value (tp_txs m) a)) (clist_order (tp_txs m))"

definition victim_before :: "addr \<times> WrappedTx \<Rightarrow> addr \<times> WrappedTx \<Rightarrow> bool" where
  "victim_before x y \<longleftrightarrow>
     (if w_priority (snd x) = w_priority (snd y) then w_timestamp (snd x) > w_timestamp (snd y)
      else w_priority (snd x) < w_priority (snd y))"

definition total_bytes :: "WrappedTx list \<Rightarrow> int" where
  "total_bytes ws = fold (\<lambda>w s. i64 (s + w_Size w)) ws 0"

fun evict :: "mempool_env \<Rightarrow> WrappedTx \<Rightarrow> int \<Rightarrow> (addr \<times> WrappedTx) list \<Rightarrow> (TxMempool, unit) cmd" where
  "evict E wtx evictedBytes [] m = (Ok (), m)"
| "evict E wtx evictedBytes ((vic, w) # victims) m =
     bind_cmd (removeTxByElement E vic) (\<lambda>_.
     bind_cmd (on_cache (Cache_Remove (me_Key E (w_tx w)))) (\<lambda>_.
       let evictedBytes' = i64 (evictedBytes + w_Size w)
       in if evictedBytes' \<ge> w_Size wtx then ret () else evict E wtx evictedBytes' victims)) m"

text \<open>Make room for the transaction; \<open>False\<close> means that it is dropped.\<close>

type_synonym arrange_victims = "(addr \<times> WrappedTx) list \<Rightarrow> (addr \<times> WrappedTx) list"

definition make_room :: "mempool_env \<Rightarrow> arrange_victims \<Rightarrow> WrappedTx \<Rightarrow> int \<Rightarrow> (TxMempool, bool) cmd" where
  "make_room E arrange wtx priority m =
     (if is_Ok (canAddTx (me_config E) wtx m) then (Ok True, m)
      else
        let victims = filter (\<lambda>(a, cw). w_priority cw < priority) (list_entries m)
        in if victims = [] \<or> total_bytes (map snd victims) < w_Size wtx
           then bind_cmd (on_cache (Cache_Remove (me_Key E (w_tx wtx)))) (\<lambda>_. ret False) m
           else bind_cmd (evict E wtx 0 (sort_slice victim_before (arrange victims))) (\<lambda>_. ret True) m)"

text \<open>
  What the callback writes into the response instead of its message texts: why the transaction was
  not taken.
\<close>

datatype check_verdict = NotCheckTx | RejectedBad "error option" | SenderTaken gostring | PoolFull | Inserted

definition post_check_err :: "TxMempool \<Rightarrow> Tx \<Rightarrow> ResponseCheckTx \<Rightarrow> unit outcome" where
  "post_check_err m tx r = (case tp_postCheck m of None \<Rightarrow> Ok () | Some f \<Rightarrow> f tx r)"

definition reject_bad :: "mempool_env \<Rightarrow> WrappedTx \<Rightarrow> error option \<Rightarrow> (TxMempool, check_verdict) cmd" where
  "reject_bad E wtx err =
     bind_cmd (if mc_KeepInvalidTxsInCache (me_config E) then ret ()
               else on_cache (Cache_Remove (me_Key E (w_tx wtx)))) (\<lambda>_. ret (RejectedBad err))"

definition add_checked ::
    "mempool_env \<Rightarrow> arrange_victims \<Rightarrow> WrappedTx \<Rightarrow> ResponseCheckTx \<Rightarrow> (TxMempool, check_verdict) cmd" where
  "add_checked E arrange wtx r =
     bind_cmd (make_room E arrange wtx (ct_Priority r)) (\<lambda>room.
       if \<not> room then ret PoolFull
       else
         bind_cmd (insertTx E (SetSender (ct_Sender r) (SetPriority (ct_Priority r)
           (SetGasWanted (ct_GasWanted r) wtx)))) (\<lambda>_.
         bind_cmd notifyTxsAvailable (\<lambda>_. ret Inserted)))"

definition initialTxCallback ::
    "mempool_env \<Rightarrow> arrange_victims \<Rightarrow> WrappedTx \<Rightarrow> ResponseCheckTx option \<Rightarrow> (TxMempool, check_verdict) cmd" where
  "initialTxCallback E arrange wtx res m =
     (case res of
        None \<Rightarrow> (Ok NotCheckTx, m)
      | Some r \<Rightarrow>
          (case post_check_err m (w_tx wtx) r of
             Panic p \<Rightarrow> (Panic p, m)
           | Err e \<Rightarrow> reject_bad E wtx (Some e) m
           | Ok _ \<Rightarrow>
               if ct_Code r \<noteq> CodeTypeOK then reject_bad E wtx None m
               else
                 (case (if ct_Sender r \<noteq> [] then map_of (tp_txBySender m) (ct_Sender r) else None) of
                    Some elt \<Rightarrow> bind_cmd (elt_Value elt) (\<lambda>_. ret (SenderTaken (ct_Sender r))) m
                  | None \<Rightarrow> add_checked E arrange wtx r m)))"

text \<open>The closure that \<open>CheckTx\<close> registers.\<close>

definition check_callback ::
    "mempool_env \<Rightarrow> arrange_victims \<Rightarrow> gotime \<Rightarrow> pending_check \<Rightarrow> ResponseCheckTx option \<Rightarrow>
     (TxMempool, check_verdict) cmd" where
  "check_callback E arrange now p =
     initialTxCallback E arrange
       (SetPeer (pc_senderID p)
         \<lparr>w_tx = pc_tx p, w_hash = me_Key E (pc_tx p), w_height = pc_height p, w_timestamp = now,
          w_gasWanted = 0, w_priority = 0, w_sender = [], w_peers = []\<rparr>)"

subsection \<open>Rechecking and the update after a block\<close>

definition recheck_body :: "mempool_env \<Rightarrow> Tx \<Rightarrow> ResponseCheckTx \<Rightarrow> (TxMempool, unit) cmd" where
  "recheck_body E tx r m =
     (case map_of (tp_txByKey m) (me_Key E tx) of
        None \<Rightarrow> (Ok (), m)
      | Some elt \<Rightarrow>
          bind_cmd (elt_Value elt) (\<lambda>wtx m.
            case post_check_err m tx r of
              Panic p \<Rightarrow> (Panic p, m)
            | err \<Rightarrow>
                if ct_Code r = CodeTypeOK \<and> err = Ok ()
                then (Ok (), m\<lparr>tp_txs := set_value elt (SetPriority (ct_Priority r) wtx) (tp_txs m)\<rparr>)
                else bind_cmd (removeTxByElement E elt) (\<lambda>_.
                  if mc_KeepInvalidTxsInCache (me_config E) then ret ()
                  else on_cache (Cache_Remove (me_Key E (w_tx wtx)))) m) m)"

definition recheckTxCallback :: "mempool_env \<Rightarrow> Tx \<Rightarrow> ResponseCheckTx option \<Rightarrow> (TxMempool, unit) cmd" where
  "recheckTxCallback E tx res m =
     (case res of
        None \<Rightarrow> (Ok (), m)
      | Some r \<Rightarrow>
          let numLeft = i64 (tp_txRecheck m - 1);
              m1 = m\<lparr>tp_txRecheck := numLeft\<rparr>
          in if numLeft < 0 then (Ok (), m1)
             else bind_cmd (recheck_body E tx r)
                    (\<lambda>_. if numLeft = 0 then notifyTxsAvailable else ret ()) m1)"

text \<open>
  What the connection does with a recheck request: the responses its callback has received by the
  time \<open>FlushSync\<close> returns, and what \<open>FlushSync\<close> returns.
\<close>

type_synonym recheck_conn = "Tx \<Rightarrow> ResponseCheckTx option \<times> unit outcome"

fun recheck_loop :: "mempool_env \<Rightarrow> recheck_conn \<Rightarrow> nat \<Rightarrow> addr option \<Rightarrow> (TxMempool, unit) cmd" where
  "recheck_loop E conn fuel None m = (Ok (), m)"
| "recheck_loop E conn 0 (Some e) m = (Panic ''out of fuel'', m)"
| "recheck_loop E conn (Suc fuel) (Some e) m =
     bind_cmd (elt_Value e) (\<lambda>wtx.
     bind_cmd (recheckTxCallback E (w_tx wtx) (fst (conn (w_tx wtx)))) (\<lambda>_ m.
       case snd (conn (w_tx wtx)) of
         Panic p \<Rightarrow> (Panic p, m)
       | Err _ \<Rightarrow> recheck_loop E conn fuel (elem_next (tp_txs m) e) (m\<lparr>tp_txRecheck := i64 (tp_txRecheck m - 1)\<rparr>)
       | Ok _ \<Rightarrow> recheck_loop E conn fuel (elem_next (tp_txs m) e) m)) m"

definition recheckTransactions :: "mempool_env \<Rightarrow> recheck_conn \<Rightarrow> (TxMempool, unit) cmd" where
  "recheckTransactions E conn m =
     (if pool_Size m = 0 then (Panic ''mempool: cannot run recheck on an empty mempool'', m)
      else recheck_loop E conn (nat (pool_Size m)) (TxsFront m) (m\<lparr>tp_txRecheck := pool_Size m\<rparr>))"

text \<open>The body of the loop over the transactions of the block.\<close>

definition commit_tx :: "mempool_env \<Rightarrow> Tx \<Rightarrow> ResponseDeliverTx \<Rightarrow> (TxMempool, unit) cmd" where
  "commit_tx E tx r =
     bind_cmd (if dt_Code r = CodeTypeOK then on_cache (\<lambda>c. snd (Cache_Push (me_Key E tx) c))
               else if \<not> mc_KeepInvalidTxsInCache (me_config E) then on_cache (Cache_Remove (me_Key E tx))
               else ret ()) (\<lambda>_ m.
       case removeTxByKey (me_Key E tx) m of
         (Panic p, m') \<Rightarrow> (Panic p, m')
       | (_, m') \<Rightarrow> (Ok (), m'))"

fun commit_txs :: "mempool_env \<Rightarrow> (Tx \<times> ResponseDeliverTx) list \<Rightarrow> (TxMempool, unit) cmd" where
  "commit_txs E [] m = (Ok (), m)"
| "commit_txs E ((tx, r) # rest) m = bind_cmd (commit_tx E tx r) (\<lambda>_. commit_txs E rest) m"

definition begin_update :: "int \<Rightarrow> pre_check option \<Rightarrow> post_check option \<Rightarrow> TxMempool \<Rightarrow> TxMempool" where
  "begin_update blockHeight newPreFn newPostFn m =
     m\<lparr>tp_height := blockHeight, tp_notifiedTxsAvailable := False,
       tp_preCheck := (if newPreFn \<noteq> None then newPreFn else tp_preCheck m),
       tp_postCheck := (if newPostFn \<noteq> None then newPostFn else tp_postCheck m)\<rparr>"

definition after_update :: "mempool_env \<Rightarrow> recheck_conn \<Rightarrow> (TxMempool, unit) cmd" where
  "after_update E conn m =
     (if pool_Size m > 0
      then (if mc_Recheck (me_config E) then recheckTransactions E conn m else notifyTxsAvailable m)
      else (Ok (), m))"

definition pool_Update ::
    "mempool_env \<Rightarrow> recheck_conn \<Rightarrow> gotime \<Rightarrow> int \<Rightarrow> Tx list \<Rightarrow> ResponseDeliverTx list \<Rightarrow>
     pre_check option \<Rightarrow> post_check option \<Rightarrow> (TxMempool, unit) cmd" where
  "pool_Update E conn now blockHeight blockTxs deliverTxResponses newPreFn newPostFn m =
     (if length blockTxs \<noteq> length deliverTxResponses
      then (Panic ''mempool: transactions and DeliverTx responses do not match'', m)
      else
        bind_cmd (commit_txs E (zip blockTxs deliverTxResponses)) (\<lambda>_.
        bind_cmd (purgeExpiredTxs E now blockHeight) (\<lambda>_.
          after_update E conn)) (begin_update blockHeight newPreFn newPostFn m))"

subsection \<open>The sequence of transactions a pool stands for\<close>

text \<open>
  \<open>pool E m es\<close>: the list of the pool holds the entries \<open>es\<close>, in order of arrival; the total is the
  sum of their sizes; and both indexes lead to entries with that key and that sender. The indexes
  need not lead to every entry.
\<close>

type_synonym entries = "(addr \<times> WrappedTx) list"

definition bytes_of :: "entries \<Rightarrow> int" where
  "bytes_of es = (\<Sum>e\<leftarrow>es. w_Size (snd e))"

abbreviation entry_key :: "mempool_env \<Rightarrow> addr \<times> WrappedTx \<Rightarrow> TxKey" where
  "entry_key E e \<equiv> me_Key E (w_tx (snd e))"

definition drop_addr :: "addr \<Rightarrow> entries \<Rightarrow> entries" where
  "drop_addr a es = filter (\<lambda>e. fst e \<noteq> a) es"

definition change_at :: "addr \<Rightarrow> (WrappedTx \<Rightarrow> WrappedTx) \<Rightarrow> entries \<Rightarrow> entries" where
  "change_at a f es = map (\<lambda>e. if fst e = a then (fst e, f (snd e)) else e) es"

definition pool :: "mempool_env \<Rightarrow> TxMempool \<Rightarrow> entries \<Rightarrow> bool" where
  "pool E m es \<longleftrightarrow>
     contents (tp_txs m) es \<and> cl_maxLen (tp_txs m) = MaxLength \<and> cache_ok (tp_cache m) \<and>
     tp_txsBytes m = bytes_of es \<and> bytes_of es < 2 ^ 63 \<and> distinct (map fst (tp_txByKey m)) \<and>
     (\<forall>k a. map_of (tp_txByKey m) k = Some a \<longrightarrow> (\<exists>w. (a, w) \<in> set es \<and> me_Key E (w_tx w) = k)) \<and>
     (\<forall>s a. map_of (tp_txBySender m) s = Some a \<longrightarrow> (\<exists>w. (a, w) \<in> set es \<and> w_sender w = s \<and> s \<noteq> []))"

text \<open>Every entry is the one the index by key leads to.\<close>

definition indexed :: "mempool_env \<Rightarrow> TxMempool \<Rightarrow> entries \<Rightarrow> bool" where
  "indexed E m es \<longleftrightarrow> (\<forall>e \<in> set es. map_of (tp_txByKey m) (entry_key E e) = Some (fst e))"

definition within_limits :: "MempoolConfig \<Rightarrow> entries \<Rightarrow> bool" where
  "within_limits cfg es \<longleftrightarrow>
     int (length es) \<le> max 0 (mc_Size cfg) \<and> bytes_of es \<le> max 0 (mc_MaxTxsBytes cfg)"

definition hooks_ok :: "TxMempool \<Rightarrow> bool" where
  "hooks_ok m \<longleftrightarrow>
     (\<forall>f tx p. tp_preCheck m = Some f \<longrightarrow> f tx \<noteq> Panic p) \<and>
     (\<forall>f tx r p. tp_postCheck m = Some f \<longrightarrow> f tx r \<noteq> Panic p)"

lemma poolD:
  assumes "pool E m es"
  shows "contents (tp_txs m) es" "distinct (map fst es)" "cache_ok (tp_cache m)"
    "tp_txsBytes m = bytes_of es" "pool_Size m = int (length es)" "TxsFront m = first_addr es"
    "clist_order (tp_txs m) = map fst es" "cl_maxLen (tp_txs m) = MaxLength"
    "map_of (tp_txByKey m) k = Some a \<Longrightarrow> \<exists>w. (a, w) \<in> set es \<and> me_Key E (w_tx w) = k"
    "map_of (tp_txBySender m) s = Some a \<Longrightarrow> \<exists>w. (a, w) \<in> set es \<and> w_sender w = s \<and> s \<noteq> []"
    "(b, w) \<in> set es \<Longrightarrow> elem_value (tp_txs m) b = Some w"
    "distinct (map fst (tp_txByKey m))"
  using assms clist.rep_distinct clist.rep_size clist.rep_front clist.rep_order clist.rep_value
  by (auto simp: pool_def pool_Size_def TxsFront_def)

lemma bytes_of_simps [simp]:
  "bytes_of [] = 0" "bytes_of (e # es) = w_Size (snd e) + bytes_of es"
  "bytes_of (es @ fs) = bytes_of es + bytes_of fs"
  by (simp_all add: bytes_of_def)

lemma w_Size_nonneg [simp]: "0 \<le> w_Size w"
  by (simp add: w_Size_def)

lemma bytes_of_nonneg [simp]: "0 \<le> bytes_of es"
  by (induction es) auto

lemma bytes_of_split: "bytes_of es = bytes_of (filter P es) + bytes_of (filter (\<lambda>e. \<not> P e) es)"
  by (induction es) auto

lemma bytes_of_filter: "bytes_of (filter P es) \<le> bytes_of es"
  using bytes_of_split [of es P] bytes_of_nonneg [of "filter (\<lambda>e. \<not> P e) es"] by linarith

lemma bytes_of_change_at: "(\<And>w. w_tx (f w) = w_tx w) \<Longrightarrow> bytes_of (change_at a f es) = bytes_of es"
  by (induction es) (auto simp: change_at_def w_Size_def)

lemma drop_addr_split:
  assumes "distinct (map fst (xs @ (a, w) # ys))"
  shows "drop_addr a (xs @ (a, w) # ys) = xs @ ys"
proof -
  have "filter (\<lambda>e. fst e \<noteq> a) zs = zs" if "a \<notin> fst ` set zs" for zs :: entries
    using that by (auto simp: filter_id_conv)
  with assms show ?thesis by (simp add: drop_addr_def)
qed

lemma bytes_of_drop_addr:
  assumes "distinct (map fst es)" and "(a, w) \<in> set es"
  shows "bytes_of (drop_addr a es) = bytes_of es - w_Size w"
proof -
  obtain xs ys where es: "es = xs @ (a, w) # ys"
    using assms(2) by (meson split_list)
  with assms(1) show ?thesis
    using drop_addr_split [of xs a w ys] by simp
qed

lemma drop_addr_fresh: "a \<notin> fst ` set es \<Longrightarrow> drop_addr a es = es"
  by (auto simp: drop_addr_def filter_id_conv)

lemma entry_unique: "distinct (map fst es) \<Longrightarrow> (a, v) \<in> set es \<Longrightarrow> (a, w) \<in> set es \<Longrightarrow> v = w"
  using eq_key_imp_eq_value by metis

text \<open>Removing an entry.\<close>

lemma remove_elt_pool:
  assumes p: "pool E m es" and e: "(a, w) \<in> set es" and k: "k = me_Key E (w_tx w)"
  obtains l' where "remove_elt k a w m = (Ok (), m\<lparr>tp_txByKey := AList.delete k (tp_txByKey m),
      tp_txBySender := AList.delete (w_sender w) (tp_txBySender m), tp_txs := l',
      tp_txsBytes := bytes_of (drop_addr a es)\<rparr>)"
    and "contents l' (drop_addr a es)" "cl_maxLen l' = MaxLength" "elem_next l' a = None"
    and "pool E (m\<lparr>tp_txByKey := AList.delete k (tp_txByKey m),
      tp_txBySender := AList.delete (w_sender w) (tp_txBySender m), tp_txs := l',
      tp_txsBytes := bytes_of (drop_addr a es)\<rparr>) (drop_addr a es)"
proof -
  note P = poolD [OF p]
  obtain l' where l': "remove_detach a (tp_txs m) = (Ok w, l')" "contents l' (drop_addr a es)"
    "cl_maxLen l' = MaxLength" "elem_next l' a = None"
    using clist.remove_filter [OF P(1) e] P(8) by (auto simp: drop_addr_def)
  note b = bytes_of_drop_addr [OF P(2) e]
  have small': "bytes_of (drop_addr a es) < 2 ^ 63"
    using p bytes_of_filter [of "\<lambda>e. fst e \<noteq> a" es] by (simp add: drop_addr_def pool_def)
  then have "in_i64 (bytes_of (drop_addr a es))"
    using order_trans [of "- (2 ^ 63)" 0 "bytes_of (drop_addr a es)"] by (simp add: in_i64_def)
  then have i: "i64 (bytes_of es - w_Size w) = bytes_of (drop_addr a es)"
    using i64_id b by metis
  have run: "remove_elt k a w m = (Ok (), m\<lparr>tp_txByKey := AList.delete k (tp_txByKey m),
      tp_txBySender := AList.delete (w_sender w) (tp_txBySender m), tp_txs := l',
      tp_txsBytes := bytes_of (drop_addr a es)\<rparr>)"
    by (simp add: remove_elt_def bind_cmd_def on_txs_def l' P(4) i)
  have same: "b \<noteq> a" if "map_of (AList.delete k (tp_txByKey m)) k' = Some b" for k' b
    using that P(9) [of k' b] entry_unique [OF P(2) e] k by (auto simp: AList.delete_conv' split: if_splits)
  have same': "b \<noteq> a" if "map_of (AList.delete (w_sender w) (tp_txBySender m)) s = Some b" for s b
    using that P(10) [of s b] entry_unique [OF P(2) e] by (auto simp: AList.delete_conv' split: if_splits)
  have "pool E (m\<lparr>tp_txByKey := AList.delete k (tp_txByKey m),
      tp_txBySender := AList.delete (w_sender w) (tp_txBySender m), tp_txs := l',
      tp_txsBytes := bytes_of (drop_addr a es)\<rparr>) (drop_addr a es)"
    using l' P(3) small' same same' P(9,10) AList.distinct_delete [OF P(12)]
    by (fastforce simp: pool_def drop_addr_def AList.delete_conv' split: if_splits)
  then show ?thesis
    using that run l' by blast
qed

text \<open>
  What the operations on single entries leave alone: everything but the list, its indexes, its total
  and the cache.
\<close>

definition frame :: "TxMempool \<Rightarrow> TxMempool \<Rightarrow> bool" where
  "frame m m' \<longleftrightarrow>
     tp_txRecheck m' = tp_txRecheck m \<and> tp_notifiedTxsAvailable m' = tp_notifiedTxsAvailable m \<and>
     tp_txsAvailable m' = tp_txsAvailable m \<and> tp_preCheck m' = tp_preCheck m \<and>
     tp_postCheck m' = tp_postCheck m \<and> tp_height m' = tp_height m"

lemma frame_refl [simp]: "frame m m"
  by (simp add: frame_def)

lemma frame_trans: "frame m m' \<Longrightarrow> frame m' m'' \<Longrightarrow> frame m m''"
  by (simp add: frame_def)

definition removed :: "mempool_env \<Rightarrow> addr \<Rightarrow> TxMempool \<Rightarrow> entries \<Rightarrow> TxMempool \<Rightarrow> bool" where
  "removed E a m es m' \<longleftrightarrow>
     pool E m' (drop_addr a es) \<and> frame m m' \<and> elem_next (tp_txs m') a = None \<and>
     (indexed E m es \<longrightarrow> indexed E m' (drop_addr a es))"

lemma elt_Value_run: "pool E m es \<Longrightarrow> (a, w) \<in> set es \<Longrightarrow> elt_Value a m = (Ok w, m)"
  by (simp add: elt_Value_def poolD(11))

lemma remove_elt_removed:
  assumes p: "pool E m es" and e: "(a, w) \<in> set es" and k: "k = me_Key E (w_tx w)"
  shows "\<exists>m'. remove_elt k a w m = (Ok (), m') \<and> removed E a m es m' \<and> tp_cache m' = tp_cache m"
proof -
  obtain l' where run: "remove_elt k a w m = (Ok (), m\<lparr>tp_txByKey := AList.delete k (tp_txByKey m),
      tp_txBySender := AList.delete (w_sender w) (tp_txBySender m), tp_txs := l',
      tp_txsBytes := bytes_of (drop_addr a es)\<rparr>)"
    and l': "elem_next l' a = None" "pool E (m\<lparr>tp_txByKey := AList.delete k (tp_txByKey m),
      tp_txBySender := AList.delete (w_sender w) (tp_txBySender m), tp_txs := l',
      tp_txsBytes := bytes_of (drop_addr a es)\<rparr>) (drop_addr a es)" (is "pool E ?m _")
    by (rule remove_elt_pool [OF assms])
  have "indexed E ?m (drop_addr a es)" if ix: "indexed E m es"
  proof -
    have "entry_key E e \<noteq> k" if "e \<in> set es" "fst e \<noteq> a" for e
      using bspec [OF ix [unfolded indexed_def] that(1)] bspec [OF ix [unfolded indexed_def] assms(2)] k that(2)
      by auto
    with ix show ?thesis
      by (auto simp: indexed_def drop_addr_def AList.delete_conv')
  qed
  with l' show ?thesis
    by (auto simp: run removed_def frame_def)
qed

lemma removeTxByElement_removed:
  assumes "pool E m es" and "(a, w) \<in> set es"
  shows "\<exists>m'. removeTxByElement E a m = (Ok (), m') \<and> removed E a m es m' \<and> tp_cache m' = tp_cache m"
  using remove_elt_removed [OF assms refl] by (simp add: removeTxByElement_def bind_cmd_def elt_Value_run [OF assms])

lemma removeTxByKey_removed:
  assumes p: "pool E m es" and k: "map_of (tp_txByKey m) k = Some a"
  shows "\<exists>m' w. (a, w) \<in> set es \<and> me_Key E (w_tx w) = k \<and> removeTxByKey k m = (Ok (), m') \<and>
    removed E a m es m' \<and> tp_cache m' = tp_cache m"
proof -
  obtain w where w: "(a, w) \<in> set es" "me_Key E (w_tx w) = k"
    using poolD(9) [OF p k] by blast
  with remove_elt_removed [OF p w(1) w(2) [symmetric]] show ?thesis
    by (auto simp: removeTxByKey_def k bind_cmd_def elt_Value_run [OF p w(1)])
qed

text \<open>Changes of the cache, of the counters and of the hooks leave the entries as they are.\<close>

lemma pool_cache: "pool E m es \<Longrightarrow> cache_ok c \<Longrightarrow> pool E (m\<lparr>tp_cache := c\<rparr>) es"
  by (simp add: pool_def)

lemma rest_cache [simp]:
  "indexed E (m\<lparr>tp_cache := c\<rparr>) es \<longleftrightarrow> indexed E m es"
  "frame m (m'\<lparr>tp_cache := c\<rparr>) \<longleftrightarrow> frame m m'"
  by (simp_all add: indexed_def frame_def)

lemma removed_cache:
  "removed E a m es m' \<Longrightarrow> cache_ok c \<Longrightarrow> removed E a m es (m'\<lparr>tp_cache := c\<rparr>)"
  by (simp add: removed_def pool_cache)

lemma removed_cache_ok: "removed E a m es m' \<Longrightarrow> cache_ok (tp_cache m')"
  by (auto simp: removed_def dest: poolD(3))

lemma Cache_Remove_ok: "cache_ok c \<Longrightarrow> cache_ok (Cache_Remove k c)"
  using cache.Remove_law by blast

text \<open>Removing an element and forgetting its transaction.\<close>

lemma remove_and_forget:
  assumes "pool E m es" and "(a, w) \<in> set es"
  shows "\<exists>m'. bind_cmd (removeTxByElement E a) (\<lambda>_. on_cache (Cache_Remove k)) m = (Ok (), m') \<and>
    removed E a m es m' \<and> tp_cache m' = Cache_Remove k (tp_cache m)"
proof -
  obtain m' where m': "removeTxByElement E a m = (Ok (), m')" "removed E a m es m'" "tp_cache m' = tp_cache m"
    using removeTxByElement_removed [OF assms] by blast
  then show ?thesis
    using removed_cache [OF m'(2) Cache_Remove_ok [OF removed_cache_ok [OF m'(2)]]]
    by (simp add: bind_cmd_def on_cache_def)
qed

subsection \<open>The loops over the list\<close>

text \<open>
  A body that removes the current element or leaves the list alone takes out just the elements it
  removes, and the walk visits all. \<open>I\<close> is any property of pools with their entries that the body
  keeps.
\<close>

lemma each_elem_filter:
  assumes contents: "\<And>m es. I m es \<Longrightarrow> contents (tp_txs m) es"
    and body: "\<And>m es a w. I m es \<Longrightarrow> (a, w) \<in> set es \<Longrightarrow>
      \<exists>m'. body a m = (Ok (), m') \<and> I m' (if P w then drop_addr a es else es)"
    and "I m (xs @ ys)" and "length ys \<le> fuel"
  shows "\<exists>m'. each_elem body fuel (first_addr ys) m = (Ok (), m') \<and> I m' (xs @ filter (\<lambda>e. \<not> P (snd e)) ys)"
  using assms(3,4)
proof (induction ys arbitrary: xs m fuel)
  case (Cons e ys)
  obtain a w where e: "e = (a, w)" by (cases e)
  obtain n where n: "fuel = Suc n" "length ys \<le> n"
    using Cons.prems(2) by (cases fuel) auto
  have c: "contents (tp_txs m) (xs @ (a, w) # ys)"
    using contents [OF Cons.prems(1)] by (simp add: e)
  obtain m' where m': "body a m = (Ok (), m')" "I m' (if P w then drop_addr a (xs @ e # ys) else xs @ e # ys)"
    using body [OF Cons.prems(1), of a w] by (auto simp: e)
  have "I m' ((if P w then xs else xs @ [e]) @ ys)"
    using m'(2) drop_addr_split [OF clist.rep_distinct [OF c]] by (auto simp: e split: if_splits)
  from Cons.IH [OF this n(2)] show ?case
    using m'(1) clist.rep_next [OF c] by (auto simp: e n(1) bind_cmd_def)
qed simp

lemma each_elem_pool:
  assumes contents: "\<And>m es. I m es \<Longrightarrow> pool E m es"
    and body: "\<And>m es a w. I m es \<Longrightarrow> (a, w) \<in> set es \<Longrightarrow>
      \<exists>m'. body a m = (Ok (), m') \<and> I m' (if P w then drop_addr a es else es)"
    and "I m es"
  shows "\<exists>m'. each_elem body (nat (pool_Size m)) (TxsFront m) m = (Ok (), m') \<and>
    I m' (filter (\<lambda>e. \<not> P (snd e)) es)"
proof -
  have "\<exists>m'. each_elem body (length es) (first_addr es) m = (Ok (), m') \<and>
      I m' ([] @ filter (\<lambda>e. \<not> P (snd e)) es)"
  proof (rule each_elem_filter [where I = I and body = body])
    show "contents (tp_txs m) es" if "I m es" for m es
      using contents [OF that] by (rule poolD(1))
  qed (use body assms(3) in simp_all)
  then show ?thesis
    using poolD(5,6) [OF contents [OF assms(3)]] by simp
qed

lemma pool_Flush_run:
  assumes p: "pool E m es"
  shows "\<exists>m'. pool_Flush E m = (Ok (), m') \<and> pool E m' [] \<and> tp_txRecheck m' = 0 \<and>
    tp_cache m' = Cache_Reset (tp_cache m) \<and> frame m (m'\<lparr>tp_txRecheck := tp_txRecheck m\<rparr>)"
proof -
  define I where "I m' es \<longleftrightarrow> pool E m' es \<and> frame m m' \<and> tp_cache m' = tp_cache m" for m' es
  have "\<exists>m'. each_elem (removeTxByElement E) (nat (pool_Size m)) (TxsFront m) m = (Ok (), m') \<and>
      I m' (filter (\<lambda>e. \<not> True) es)"
  proof (rule each_elem_pool [where I = I and E = E and P = "\<lambda>_. True"])
    show "\<exists>m''. removeTxByElement E a m' = (Ok (), m'') \<and> I m'' (if True then drop_addr a es else es)"
      if "I m' es" "(a, w) \<in> set es" for m' es a w
      using that removeTxByElement_removed [of E m' es a w] by (auto simp: I_def removed_def intro: frame_trans)
  qed (use p in \<open>simp_all add: I_def\<close>)
  then obtain m' where m': "each_elem (removeTxByElement E) (nat (pool_Size m)) (TxsFront m) m = (Ok (), m')" "I m' []"
    by auto
  define m'' where "m'' = m'\<lparr>tp_cache := Cache_Reset (tp_cache m'), tp_txRecheck := 0\<rparr>"
  have "pool_Flush E m = (Ok (), m'')"
    by (simp add: pool_Flush_def bind_cmd_def m'(1) on_cache_def m''_def)
  moreover have "pool E m'' []"
    using m'(2) cache.Reset_law [of "tp_cache m'"] by (auto simp: I_def m''_def pool_def)
  ultimately show ?thesis
    using m'(2) by (auto simp: I_def m''_def frame_def)
qed

lemma purgeExpiredTxs_run:
  assumes p: "pool E m es"
  shows "\<exists>m'. purgeExpiredTxs E now h m = (Ok (), m') \<and> frame m m' \<and>
    pool E m' (filter (\<lambda>e. \<not> is_expired (me_config E) now h (snd e)) es) \<and>
    (indexed E m es \<longrightarrow> indexed E m' (filter (\<lambda>e. \<not> is_expired (me_config E) now h (snd e)) es))"
proof (cases "mc_TTLNumBlocks (me_config E) = 0 \<and> mc_TTLDuration (me_config E) = 0")
  case True
  then show ?thesis
    using p by (simp add: purgeExpiredTxs_def is_expired_def)
next
  case False
  define I where "I m' es' \<longleftrightarrow> pool E m' es' \<and> frame m m' \<and> (indexed E m es \<longrightarrow> indexed E m' es')" for m' es'
  have "\<exists>m'. each_elem (purge_elem E now h) (nat (pool_Size m)) (TxsFront m) m = (Ok (), m') \<and>
      I m' (filter (\<lambda>e. \<not> is_expired (me_config E) now h (snd e)) es)"
  proof (rule each_elem_pool [where I = I and E = E])
    show "\<exists>m''. purge_elem E now h a m' = (Ok (), m'') \<and>
        I m'' (if is_expired (me_config E) now h w then drop_addr a es else es)"
      if i: "I m' es" and a: "(a, w) \<in> set es" for m' es a w
    proof -
      have q: "pool E m' es" using i by (simp add: I_def)
      from remove_and_forget [OF q a, of "me_Key E (w_tx w)"] i show ?thesis
        by (auto simp: purge_elem_def bind_cmd_def [of "elt_Value a"] elt_Value_run [OF q a] I_def removed_def
            ret_def intro: frame_trans)
    qed
  qed (use p in \<open>simp_all add: I_def\<close>)
  with False show ?thesis
    by (auto simp: purgeExpiredTxs_def I_def)
qed

subsection \<open>Insertion and eviction\<close>

lemma insertTx_run:
  assumes p: "pool E m es" and room: "int (length es) < MaxLength" "bytes_of es + w_Size w < 2 ^ 63"
  shows "\<exists>m' a. insertTx E w m = (Ok (), m') \<and> pool E m' (es @ [(a, w)]) \<and> a \<notin> fst ` set es \<and> frame m m' \<and>
    tp_cache m' = tp_cache m \<and>
    (indexed E m es \<and> me_Key E (w_tx w) \<notin> entry_key E ` set es \<longrightarrow> indexed E m' (es @ [(a, w)]))"
proof -
  note P = poolD [OF p]
  obtain a l' where l': "PushBack w (tp_txs m) = (Ok a, l')" "contents l' (es @ [(a, w)])" "a \<notin> fst ` set es"
    "cl_maxLen l' = MaxLength"
    using clist.push_law [OF P(1), of w] room(1) P(8) by auto
  define m' where "m' = m\<lparr>tp_txs := l', tp_txByKey := AList.update (me_Key E (w_tx w)) a (tp_txByKey m),
      tp_txBySender := (if w_sender w \<noteq> [] then AList.update (w_sender w) a (tp_txBySender m) else tp_txBySender m),
      tp_txsBytes := bytes_of es + w_Size w\<rparr>"
  have "in_i64 (bytes_of es + w_Size w)"
    using room(2) order_trans [of "- (2 ^ 63)" 0 "bytes_of es + w_Size w"] by (simp add: in_i64_def)
  then have run: "insertTx E w m = (Ok (), m')"
    by (simp add: insertTx_def bind_cmd_def on_txs_def l'(1) m'_def P(4))
  have keys: "\<exists>v. (b, v) \<in> set (es @ [(a, w)]) \<and> me_Key E (w_tx v) = k" if "map_of (tp_txByKey m') k = Some b" for k b
    using that P(9) [of k b] by (cases "k = me_Key E (w_tx w)") (auto simp: m'_def AList.update_conv')
  have senders: "\<exists>v. (b, v) \<in> set (es @ [(a, w)]) \<and> w_sender v = s \<and> s \<noteq> []"
    if "map_of (tp_txBySender m') s = Some b" for s b
    using that P(10) [of s b]
    by (cases "w_sender w \<noteq> [] \<and> s = w_sender w") (auto simp: m'_def AList.update_conv' split: if_splits)
  have "pool E m' (es @ [(a, w)])"
    using l' room(2) P(3) keys senders AList.distinct_update [OF P(12)] by (simp add: pool_def) (simp add: m'_def)
  moreover have "indexed E m' (es @ [(a, w)])"
    if "indexed E m es" "me_Key E (w_tx w) \<notin> entry_key E ` set es"
    using that by (force simp: indexed_def m'_def AList.update_conv')
  ultimately show ?thesis
    using run l'(3) by (auto simp: frame_def m'_def)
qed

text \<open>The victims that eviction takes from a list: the shortest part of it, at least one, that is enough.\<close>

fun until_enough :: "int \<Rightarrow> int \<Rightarrow> entries \<Rightarrow> entries" where
  "until_enough need got [] = []"
| "until_enough need got (v # vs) =
     v # (if got + w_Size (snd v) \<ge> need then [] else until_enough need (got + w_Size (snd v)) vs)"

lemma until_enough_prefix: "\<exists>rest. vs = until_enough need got vs @ rest"
  by (induction vs arbitrary: got) auto

lemma until_enough_bytes:
  "vs \<noteq> [] \<Longrightarrow> need \<le> got + bytes_of vs \<Longrightarrow> need \<le> got + bytes_of (until_enough need got vs)"
proof (induction vs arbitrary: got)
  case (Cons v vs)
  show ?case
  proof (cases "vs = []")
    case False
    with Cons.IH [of "got + w_Size (snd v)"] Cons.prems show ?thesis by auto
  qed (use Cons.prems in auto)
qed simp

lemma until_enough_least:
  assumes "until_enough need got vs = xs @ [x]" and "xs \<noteq> []"
  shows "got + bytes_of xs < need"
  using assms
proof (induction vs arbitrary: got xs)
  case (Cons v vs)
  then obtain ys where ys: "xs = v # ys" by (cases xs) auto
  with Cons.prems have less: "got + w_Size (snd v) < need"
    and rest: "until_enough need (got + w_Size (snd v)) vs = ys @ [x]"
    by (auto split: if_splits)
  show ?case
    using Cons.IH [OF rest] less ys by (cases "ys = []") auto
qed simp

lemma evict_run:
  assumes "pool E m es" and "set vs \<subseteq> set es" and "distinct (map fst vs)"
    and "0 \<le> got" and "got + bytes_of vs < 2 ^ 63"
  shows "\<exists>m'. evict E wtx got vs m = (Ok (), m') \<and> frame m m' \<and>
    pool E m' (filter (\<lambda>e. e \<notin> set (until_enough (w_Size wtx) got vs)) es) \<and>
    (indexed E m es \<longrightarrow> indexed E m' (filter (\<lambda>e. e \<notin> set (until_enough (w_Size wtx) got vs)) es))"
  using assms
proof (induction vs arbitrary: m es got)
  case (Cons v vs)
  obtain a w where v: "v = (a, w)" by (cases v)
  have a: "(a, w) \<in> set es" using Cons.prems(2) by (simp add: v)
  obtain m' where m': "bind_cmd (removeTxByElement E a) (\<lambda>_. on_cache (Cache_Remove (me_Key E (w_tx w)))) m = (Ok (), m')"
    "removed E a m es m'"
    using remove_and_forget [OF Cons.prems(1) a] by blast
  let ?got = "got + w_Size w"
  have "in_i64 ?got"
    using Cons.prems(4,5) bytes_of_nonneg [of vs] w_Size_nonneg [of w] unfolding in_i64_def v bytes_of_simps(2) snd_conv by linarith
  then have run: "evict E wtx got (v # vs) m = (if ?got \<ge> w_Size wtx then ret () else evict E wtx ?got vs) m'"
    using m'(1) by (auto simp: v bind_cmd_def Let_def split: prod.splits outcome.splits)
  have one: "fst e = a \<longleftrightarrow> e = v" if "e \<in> set es" for e
    using entry_unique [OF poolD(2) [OF Cons.prems(1)] a] that by (cases e) (auto simp: v)
  then have drop: "drop_addr a es = filter (\<lambda>e. e \<noteq> v) es"
    unfolding drop_addr_def by (intro filter_cong) auto
  show ?case
  proof (cases "?got \<ge> w_Size wtx")
    case True
    with run m'(2) show ?thesis
      by (simp add: removed_def drop v ret_def)
  next
    case False
    have "v \<notin> set vs" "0 \<le> ?got" "?got + bytes_of vs < 2 ^ 63"
      using Cons.prems(3,4,5) by (force simp: v)+
    then have "\<exists>m''. evict E wtx ?got vs m' = (Ok (), m'') \<and> frame m' m'' \<and>
        pool E m'' (filter (\<lambda>e. e \<notin> set (until_enough (w_Size wtx) ?got vs)) (drop_addr a es)) \<and>
        (indexed E m' (drop_addr a es) \<longrightarrow>
          indexed E m'' (filter (\<lambda>e. e \<notin> set (until_enough (w_Size wtx) ?got vs)) (drop_addr a es)))"
      using m'(2) Cons.prems(2,3) by (intro Cons.IH) (auto simp: removed_def drop)
    moreover have "filter (\<lambda>e. e \<notin> set (until_enough (w_Size wtx) ?got vs)) (drop_addr a es) =
        filter (\<lambda>e. e \<notin> set (until_enough (w_Size wtx) got (v # vs))) es"
      using False by (auto simp: drop v intro: filter_cong)
    ultimately show ?thesis
      using run False m'(2) by (auto simp: removed_def intro: frame_trans)
  qed
qed simp

lemma list_entries_pool: "pool E m es \<Longrightarrow> list_entries m = es"
proof -
  assume p: "pool E m es"
  have "List.map_filter (\<lambda>a. map_option (Pair a) (elem_value (tp_txs m) a)) (map fst fs) = fs"
    if "set fs \<subseteq> set es" for fs
    using that by (induction fs) (auto simp: List.map_filter_simps poolD(11) [OF p])
  then show ?thesis
    by (simp add: list_entries_def poolD(7) [OF p])
qed

lemma total_bytes_sum:
  assumes "bytes_of es < 2 ^ 63"
  shows "total_bytes (map snd es) = bytes_of es"
proof -
  have "fold (\<lambda>w s. i64 (s + w_Size w)) (map snd fs) s = s + bytes_of fs"
    if "0 \<le> s" "s + bytes_of fs < 2 ^ 63" for s and fs :: entries
    using that
  proof (induction fs arbitrary: s)
    case (Cons f fs)
    have "in_i64 (s + w_Size (snd f))"
      using Cons.prems bytes_of_nonneg [of fs] w_Size_nonneg [of "snd f"] unfolding in_i64_def bytes_of_simps(2) by linarith
    with Cons show ?case by simp
  qed simp
  from this [of 0 es] assms show ?thesis by (simp add: total_bytes_def)
qed

interpretation reap: strict_weak_order reap_before
  by unfold_locales (auto simp: reap_before_def split: if_splits)

interpretation victim: strict_weak_order victim_before
  by unfold_locales (auto simp: victim_before_def split: if_splits)

text \<open>The victims for a transaction of the given priority, those to go first in front.\<close>

definition victims_for :: "arrange_victims \<Rightarrow> int \<Rightarrow> entries \<Rightarrow> entries" where
  "victims_for arrange priority es =
     sort_slice victim_before (arrange (filter (\<lambda>e. w_priority (snd e) < priority) es))"

definition fits :: "MempoolConfig \<Rightarrow> WrappedTx \<Rightarrow> entries \<Rightarrow> bool" where
  "fits cfg wtx es \<longleftrightarrow> int (length es) < mc_Size cfg \<and> bytes_of es + w_Size wtx \<le> mc_MaxTxsBytes cfg"

text \<open>The limits are far enough from the end of \<open>int64\<close> for the sum of two sizes.\<close>

definition config_ok :: "MempoolConfig \<Rightarrow> bool" where
  "config_ok cfg \<longleftrightarrow>
     mc_Size cfg < 2 ^ 63 \<and> max 0 (mc_MaxTxsBytes cfg) + max 0 (mc_MaxTxBytes cfg) < 2 ^ 63"

definition permutes_lists :: "('a list \<Rightarrow> 'a list) \<Rightarrow> bool" where
  "permutes_lists f \<longleftrightarrow> (\<forall>xs. mset (f xs) = mset xs)"

lemma victims_for_mset:
  "permutes_lists arrange \<Longrightarrow>
   mset (victims_for arrange p es) = mset (filter (\<lambda>e. w_priority (snd e) < p) es)"
  by (simp add: victims_for_def permutes_lists_def)

lemma victims_for_set:
  "permutes_lists arrange \<Longrightarrow> set (victims_for arrange p es) = {e \<in> set es. w_priority (snd e) < p}"
  using mset_eq_setD [OF victims_for_mset] by auto

lemma bytes_of_mset: "mset xs = mset ys \<Longrightarrow> bytes_of xs = bytes_of ys"
  unfolding bytes_of_def sum_mset_sum_list [symmetric] by simp

lemma distinct_mset_cong: "mset xs = mset ys \<Longrightarrow> distinct xs \<Longrightarrow> distinct ys"
  using mset_eq_imp_distinct_iff by blast

lemma victims_for_distinct:
  assumes "permutes_lists arrange" and "distinct (map fst es)"
  shows "distinct (map fst (victims_for arrange p es))"
proof -
  have "mset (map fst (filter (\<lambda>e. w_priority (snd e) < p) es)) = mset (map fst (victims_for arrange p es))"
    using victims_for_mset [OF assms(1)] by simp
  moreover have "distinct (map fst (filter (\<lambda>e. w_priority (snd e) < p) es))"
    using assms(2) by (simp add: distinct_map_filter)
  ultimately show ?thesis by (rule distinct_mset_cong)
qed

lemma bytes_of_without:
  assumes "distinct es" and "distinct gone" and "set gone \<subseteq> set es"
  shows "bytes_of (filter (\<lambda>e. e \<notin> set gone) es) = bytes_of es - bytes_of gone"
    and "length (filter (\<lambda>e. e \<notin> set gone) es) = length es - length gone"
proof -
  have "mset (filter (\<lambda>e. e \<in> set gone) es) = mset gone"
    using assms by (intro iffD1 [OF set_eq_iff_mset_eq_distinct]) auto
  then have "bytes_of (filter (\<lambda>e. e \<in> set gone) es) = bytes_of gone"
    "length (filter (\<lambda>e. e \<in> set gone) es) = length gone"
    by (rule bytes_of_mset, rule mset_eq_length)
  then show "bytes_of (filter (\<lambda>e. e \<notin> set gone) es) = bytes_of es - bytes_of gone"
    "length (filter (\<lambda>e. e \<notin> set gone) es) = length es - length gone"
    using bytes_of_split [of es "\<lambda>e. e \<in> set gone"]
      sum_length_filter_compl [of "\<lambda>e. e \<in> set gone" es] by linarith+
qed

text \<open>The entries that making room takes away.\<close>

definition evicted :: "MempoolConfig \<Rightarrow> arrange_victims \<Rightarrow> WrappedTx \<Rightarrow> int \<Rightarrow> entries \<Rightarrow> entries" where
  "evicted cfg arrange wtx priority es =
     (if fits cfg wtx es then [] else until_enough (w_Size wtx) 0 (victims_for arrange priority es))"

definition can_make_room :: "MempoolConfig \<Rightarrow> WrappedTx \<Rightarrow> int \<Rightarrow> entries \<Rightarrow> bool" where
  "can_make_room cfg wtx priority es \<longleftrightarrow>
     fits cfg wtx es \<or>
     (\<exists>e \<in> set es. w_priority (snd e) < priority) \<and>
      w_Size wtx \<le> bytes_of (filter (\<lambda>e. w_priority (snd e) < priority) es)"

lemma canAddTx_fits:
  assumes "pool E m es" and "within_limits cfg es" and "config_ok cfg" and "w_Size wtx \<le> mc_MaxTxBytes cfg"
  shows "is_Ok (canAddTx cfg wtx m) \<longleftrightarrow> fits cfg wtx es" and "bytes_of es + w_Size wtx < 2 ^ 63"
proof -
  show small: "bytes_of es + w_Size wtx < 2 ^ 63"
    using assms(2-4) unfolding within_limits_def config_ok_def by linarith
  then have "in_i64 (w_Size wtx + bytes_of es)"
    using order_trans [of "- (2 ^ 63)" 0 "w_Size wtx + bytes_of es"] by (simp add: in_i64_def add.commute)
  then show "is_Ok (canAddTx cfg wtx m) \<longleftrightarrow> fits cfg wtx es"
    using poolD(4,5) [OF assms(1)] by (auto simp: canAddTx_def SizeBytes_def fits_def Let_def)
qed

lemma evicted_facts:
  assumes d: "distinct (map fst es)" and a: "permutes_lists arrange" and r: "can_make_room cfg wtx p es"
  defines "gone \<equiv> evicted cfg arrange wtx p es"
  shows "distinct gone" and "\<forall>e \<in> set gone. e \<in> set es \<and> w_priority (snd e) < p"
    and "fits cfg wtx es \<or> gone \<noteq> [] \<and> w_Size wtx \<le> bytes_of gone"
proof -
  let ?vs = "victims_for arrange p es"
  obtain rest where rest: "?vs = until_enough (w_Size wtx) 0 ?vs @ rest"
    using until_enough_prefix [of ?vs "w_Size wtx" 0] by auto
  have "distinct ?vs"
    using victims_for_distinct [OF a d, of p] by (simp add: distinct_map)
  then show "distinct gone"
    using rest by (metis distinct.simps(1) distinct_append evicted_def gone_def)
  have "set gone \<subseteq> set ?vs"
    using arg_cong [OF rest, of set] by (auto simp: gone_def evicted_def)
  then show "\<forall>e \<in> set gone. e \<in> set es \<and> w_priority (snd e) < p"
    using victims_for_set [OF a, of p es] by auto
  show "fits cfg wtx es \<or> gone \<noteq> [] \<and> w_Size wtx \<le> bytes_of gone"
  proof (cases "fits cfg wtx es")
    case False
    have "?vs \<noteq> []"
      using r False victims_for_set [OF a, of p es] by (auto simp: can_make_room_def)
    moreover have "w_Size wtx \<le> bytes_of ?vs"
      using r False bytes_of_mset [OF victims_for_mset [OF a, of p es]] by (simp add: can_make_room_def)
    ultimately show ?thesis
      using until_enough_bytes [of ?vs "w_Size wtx" 0] False
      by (cases ?vs) (auto simp: gone_def evicted_def)
  qed simp
qed

lemma make_room_run:
  fixes priority :: int
  assumes p: "pool E m es" and lim: "within_limits (me_config E) es" and cfg: "config_ok (me_config E)"
    and size: "w_Size wtx \<le> mc_MaxTxBytes (me_config E)" and a: "permutes_lists arrange"
  defines "rest \<equiv> filter (\<lambda>e. e \<notin> set (evicted (me_config E) arrange wtx priority es)) es"
  shows "\<exists>m'. frame m m' \<and>
    (if can_make_room (me_config E) wtx priority es
     then make_room E arrange wtx priority m = (Ok True, m') \<and> pool E m' rest \<and> (indexed E m es \<longrightarrow> indexed E m' rest)
     else make_room E arrange wtx priority m = (Ok False, m') \<and> pool E m' es \<and> (indexed E m es \<longrightarrow> indexed E m' es))"
proof -
  let ?low = "filter (\<lambda>e. w_priority (snd e) < priority) es"
  note ok = canAddTx_fits [OF p lim cfg size]
  have low: "filter (\<lambda>(a, cw). w_priority cw < priority) (list_entries m) = ?low"
    by (simp add: list_entries_pool [OF p] case_prod_unfold)
  have small: "bytes_of ?low < 2 ^ 63"
    using p bytes_of_filter [of "\<lambda>e. w_priority (snd e) < priority" es] unfolding pool_def by linarith
  consider "fits (me_config E) wtx es" | "\<not> fits (me_config E) wtx es" "\<not> can_make_room (me_config E) wtx priority es"
    | "\<not> fits (me_config E) wtx es" "can_make_room (me_config E) wtx priority es" by blast
  then show ?thesis
  proof cases
    case 1
    then show ?thesis
      using p by (auto simp: make_room_def ok(1) can_make_room_def rest_def evicted_def)
  next
    case 2
    then have "?low = [] \<or> bytes_of ?low < w_Size wtx"
      by (auto simp: can_make_room_def filter_empty_conv)
    with 2 show ?thesis
      using pool_cache [OF p Cache_Remove_ok [OF poolD(3) [OF p]]] low
      by (simp add: make_room_def ok(1) total_bytes_sum [OF small] bind_cmd_def on_cache_def ret_def)
  next
    case 3
    let ?vs = "victims_for arrange priority es"
    have "bytes_of ?vs < 2 ^ 63"
      using small bytes_of_mset [OF victims_for_mset [OF a]] by metis
    then obtain m' where "evict E wtx 0 ?vs m = (Ok (), m')" "frame m m'" "pool E m' rest"
      "indexed E m es \<longrightarrow> indexed E m' rest"
      using evict_run [OF p, of ?vs 0 wtx] victims_for_set [OF a, of priority es]
        victims_for_distinct [OF a poolD(2) [OF p], of priority] 3(1)
      by (auto simp: rest_def evicted_def)
    moreover have "?low \<noteq> [] \<and> \<not> bytes_of ?low < w_Size wtx"
      using 3 by (auto simp: can_make_room_def filter_empty_conv)
    ultimately show ?thesis
      using 3 low by (auto simp: make_room_def ok(1) total_bytes_sum [OF small] bind_cmd_def ret_def victims_for_def)
  qed
qed

lemma room_made:
  assumes p: "pool E m es" and lim: "within_limits cfg es" and cfg: "config_ok cfg"
    and size: "w_Size wtx \<le> mc_MaxTxBytes cfg" and a: "permutes_lists arrange"
    and r: "can_make_room cfg wtx priority es"
  defines "rest \<equiv> filter (\<lambda>e. e \<notin> set (evicted cfg arrange wtx priority es)) es"
  shows "int (length rest) < mc_Size cfg" "bytes_of rest + w_Size wtx \<le> max 0 (mc_MaxTxsBytes cfg)"
proof -
  let ?gone = "evicted cfg arrange wtx priority es"
  note g = evicted_facts [OF poolD(2) [OF p] a r]
  have d: "distinct es" using poolD(2) [OF p] by (simp add: distinct_map)
  have sub: "set ?gone \<subseteq> set es" using g(2) by blast
  note w = bytes_of_without [OF d g(1) sub]
  have "length ?gone \<le> length es"
    using card_mono [OF _ sub] g(1) d by (simp add: distinct_card)
  then have len: "int (length rest) = int (length es) - int (length ?gone)"
    by (simp add: rest_def w(2))
  have bytes: "bytes_of rest = bytes_of es - bytes_of ?gone"
    by (simp add: rest_def w(1))
  show "int (length rest) < mc_Size cfg" "bytes_of rest + w_Size wtx \<le> max 0 (mc_MaxTxsBytes cfg)"
  proof -
    have "int (length rest) < mc_Size cfg \<and> bytes_of rest + w_Size wtx \<le> max 0 (mc_MaxTxsBytes cfg)"
    proof (cases "fits cfg wtx es")
      case True
      then have "?gone = []" by (simp add: evicted_def)
      with True show ?thesis using len bytes by (simp add: fits_def le_max_iff_disj)
    next
      case False
      with g(3) have "1 \<le> length ?gone" "w_Size wtx \<le> bytes_of ?gone"
        by (cases ?gone; simp)+
      with \<open>length ?gone \<le> length es\<close> lim show ?thesis
        unfolding within_limits_def len bytes by linarith
    qed
    then show "int (length rest) < mc_Size cfg" "bytes_of rest + w_Size wtx \<le> max 0 (mc_MaxTxsBytes cfg)"
      by blast+
  qed
qed

lemma notify_run:
  "\<exists>n v. notifyTxsAvailable m = (Ok (), m\<lparr>tp_notifiedTxsAvailable := n, tp_txsAvailable := v\<rparr>)"
proof -
  have "m = m\<lparr>tp_notifiedTxsAvailable := tp_notifiedTxsAvailable m, tp_txsAvailable := tp_txsAvailable m\<rparr>"
    by simp
  then show ?thesis
    unfolding notifyTxsAvailable_def by metis
qed

lemma pool_rest [simp]:
  "pool E (m\<lparr>tp_notifiedTxsAvailable := n\<rparr>) es \<longleftrightarrow> pool E m es"
  "pool E (m\<lparr>tp_txsAvailable := v\<rparr>) es \<longleftrightarrow> pool E m es"
  "pool E (m\<lparr>tp_txRecheck := i\<rparr>) es \<longleftrightarrow> pool E m es"
  "pool E (m\<lparr>tp_height := i\<rparr>) es \<longleftrightarrow> pool E m es"
  "pool E (m\<lparr>tp_preCheck := f\<rparr>) es \<longleftrightarrow> pool E m es"
  "pool E (m\<lparr>tp_postCheck := g\<rparr>) es \<longleftrightarrow> pool E m es"
  by (simp_all add: pool_def)

lemma indexed_rest [simp]:
  "indexed E (m\<lparr>tp_notifiedTxsAvailable := n\<rparr>) es \<longleftrightarrow> indexed E m es"
  "indexed E (m\<lparr>tp_txsAvailable := v\<rparr>) es \<longleftrightarrow> indexed E m es"
  "indexed E (m\<lparr>tp_txRecheck := i\<rparr>) es \<longleftrightarrow> indexed E m es"
  "indexed E (m\<lparr>tp_height := i\<rparr>) es \<longleftrightarrow> indexed E m es"
  "indexed E (m\<lparr>tp_preCheck := f\<rparr>) es \<longleftrightarrow> indexed E m es"
  "indexed E (m\<lparr>tp_postCheck := g\<rparr>) es \<longleftrightarrow> indexed E m es"
  by (simp_all add: indexed_def)

text \<open>The transaction as the pool keeps it, with what the application said of it.\<close>

definition checked_tx :: "WrappedTx \<Rightarrow> ResponseCheckTx \<Rightarrow> WrappedTx" where
  "checked_tx wtx r =
     SetSender (ct_Sender r) (SetPriority (ct_Priority r) (SetGasWanted (ct_GasWanted r) wtx))"

lemma checked_tx_simps [simp]:
  "w_tx (checked_tx wtx r) = w_tx wtx" "w_priority (checked_tx wtx r) = ct_Priority r"
  "w_sender (checked_tx wtx r) = ct_Sender r" "w_Size (checked_tx wtx r) = w_Size wtx"
  by (simp_all add: checked_tx_def w_Size_def)

text \<open>What may change besides the entries, their indexes, their total and the cache: the notification.\<close>

definition same_settings :: "TxMempool \<Rightarrow> TxMempool \<Rightarrow> bool" where
  "same_settings m m' \<longleftrightarrow>
     tp_preCheck m' = tp_preCheck m \<and> tp_postCheck m' = tp_postCheck m \<and> tp_height m' = tp_height m"

lemma frame_settings: "frame m m' \<Longrightarrow> same_settings m m'"
  by (simp add: frame_def same_settings_def)

lemma settings_simps [simp]:
  "same_settings m m"
  "same_settings m (m'\<lparr>tp_notifiedTxsAvailable := n\<rparr>) \<longleftrightarrow> same_settings m m'"
  "same_settings m (m'\<lparr>tp_txsAvailable := v\<rparr>) \<longleftrightarrow> same_settings m m'"
  "same_settings m (m'\<lparr>tp_txRecheck := i\<rparr>) \<longleftrightarrow> same_settings m m'"
  "same_settings m (m'\<lparr>tp_cache := c\<rparr>) \<longleftrightarrow> same_settings m m'"
  by (simp_all add: same_settings_def)

lemma settings_trans: "same_settings m m' \<Longrightarrow> same_settings m' m'' \<Longrightarrow> same_settings m m''"
  by (simp add: same_settings_def)

lemma hooks_settings: "same_settings m m' \<Longrightarrow> hooks_ok m' \<longleftrightarrow> hooks_ok m"
  by (simp add: same_settings_def hooks_ok_def)

lemma add_checked_run:
  fixes r :: ResponseCheckTx
  assumes p: "pool E m es" and lim: "within_limits (me_config E) es" and cfg: "config_ok (me_config E)"
    and size: "w_Size wtx \<le> mc_MaxTxBytes (me_config E)" and a: "permutes_lists arrange"
  defines "rest \<equiv> filter (\<lambda>e. e \<notin> set (evicted (me_config E) arrange wtx (ct_Priority r) es)) es"
  shows "\<exists>m'. same_settings m m' \<and>
    (if can_make_room (me_config E) wtx (ct_Priority r) es
     then add_checked E arrange wtx r m = (Ok Inserted, m') \<and>
       (\<exists>b. b \<notin> fst ` set rest \<and> pool E m' (rest @ [(b, checked_tx wtx r)]) \<and>
         within_limits (me_config E) (rest @ [(b, checked_tx wtx r)]) \<and>
         (indexed E m es \<and> me_Key E (w_tx wtx) \<notin> entry_key E ` set rest \<longrightarrow>
           indexed E m' (rest @ [(b, checked_tx wtx r)])))
     else add_checked E arrange wtx r m = (Ok PoolFull, m') \<and> pool E m' es \<and> (indexed E m es \<longrightarrow> indexed E m' es))"
proof -
  obtain m1 where m1: "frame m m1" "if can_make_room (me_config E) wtx (ct_Priority r) es
     then make_room E arrange wtx (ct_Priority r) m = (Ok True, m1) \<and> pool E m1 rest \<and> (indexed E m es \<longrightarrow> indexed E m1 rest)
     else make_room E arrange wtx (ct_Priority r) m = (Ok False, m1) \<and> pool E m1 es \<and> (indexed E m es \<longrightarrow> indexed E m1 es)"
    using make_room_run [OF p lim cfg size a, of "ct_Priority r"] rest_def by blast
  show ?thesis
  proof (cases "can_make_room (me_config E) wtx (ct_Priority r) es")
    case False
    with m1 show ?thesis
      by (auto simp: add_checked_def bind_cmd_def ret_def intro: frame_settings)
  next
    case True
    note room = room_made [OF p lim cfg size a True, folded rest_def]
    have "int (length rest) < MaxLength"
      using room(1) cfg by (simp add: MaxLength_def config_ok_def)
    moreover have "bytes_of rest + w_Size (checked_tx wtx r) < 2 ^ 63"
      using room(2) cfg unfolding config_ok_def checked_tx_simps by linarith
    ultimately obtain m2 b where m2: "insertTx E (checked_tx wtx r) m1 = (Ok (), m2)"
      "pool E m2 (rest @ [(b, checked_tx wtx r)])" "b \<notin> fst ` set rest" "frame m1 m2"
      "indexed E m1 rest \<and> me_Key E (w_tx wtx) \<notin> entry_key E ` set rest \<longrightarrow> indexed E m2 (rest @ [(b, checked_tx wtx r)])"
      using insertTx_run [of E m1 rest "checked_tx wtx r"] m1(2) True by auto
    obtain n v where "notifyTxsAvailable m2 = (Ok (), m2\<lparr>tp_notifiedTxsAvailable := n, tp_txsAvailable := v\<rparr>)"
      using notify_run by blast
    with m1(2) m2(1) True have "add_checked E arrange wtx r m =
        (Ok Inserted, m2\<lparr>tp_notifiedTxsAvailable := n, tp_txsAvailable := v\<rparr>)"
      by (simp add: add_checked_def bind_cmd_def ret_def checked_tx_def)
    moreover have "within_limits (me_config E) (rest @ [(b, checked_tx wtx r)])"
      using room by (simp add: within_limits_def)
    ultimately show ?thesis
      using True m2(2,3,5) m1(2) settings_trans [OF frame_settings [OF m1(1)] frame_settings [OF m2(4)]] by auto
  qed
qed

end
