(* ===== verification/MempoolRun.thy ===== *)
theory MempoolRun
  imports Mempool
begin

text \<open>
  What the handlers of the mempool do to the entries of a pool, and the mempool as a system: the
  callbacks that \<open>CheckTx\<close> leaves behind run when the application answers, in any order, between
  updates, rechecks, removals and flushes.
\<close>

subsection \<open>Changing an entry in place\<close>

lemma change_at_simps [simp]:
  "map fst (change_at a f es) = map fst es" "length (change_at a f es) = length es"
  "change_at a f [] = []" "change_at a f (es @ fs) = change_at a f es @ change_at a f fs"
  "change_at a f (e # es) = (if fst e = a then (a, f (snd e)) else e) # change_at a f es"
  by (simp_all add: change_at_def comp_def if_distrib [of fst] cong: if_cong)

lemma change_at_fresh: "a \<notin> fst ` set es \<Longrightarrow> change_at a f es = es"
  by (induction es) auto

lemma in_change_at:
  "(b, w) \<in> set es \<Longrightarrow> (b, if b = a then f w else w) \<in> set (change_at a f es)"
  by (force simp: change_at_def)

lemma change_at_pool:
  assumes p: "pool E m es" and e: "(a, w) \<in> set es"
    and f: "\<And>w. w_tx (f w) = w_tx w" "\<And>w. w_sender (f w) = w_sender w"
  shows "pool E (m\<lparr>tp_txs := set_value a (f w) (tp_txs m)\<rparr>) (change_at a f es)"
    and "indexed E m es \<Longrightarrow> indexed E (m\<lparr>tp_txs := set_value a (f w) (tp_txs m)\<rparr>) (change_at a f es)"
proof -
  obtain xs ys where es: "es = xs @ (a, w) # ys"
    using e by (meson split_list)
  have "a \<notin> fst ` set xs" "a \<notin> fst ` set ys"
    using poolD(2) [OF p] by (simp_all add: es)
  then have "change_at a f es = xs @ (a, f w) # ys"
    by (simp add: es change_at_fresh)
  then have "contents (set_value a (f w) (tp_txs m)) (change_at a f es)"
    "cl_maxLen (set_value a (f w) (tp_txs m)) = MaxLength"
    using clist.assign_law [of "tp_txs m" xs a w ys "f w"] poolD(1,8) [OF p] by (simp_all add: es)
  moreover have "\<exists>v. (b, v) \<in> set (change_at a f es) \<and> me_Key E (w_tx v) = k"
    if k: "map_of (tp_txByKey m) k = Some b" for k b
  proof -
    obtain v where "(b, v) \<in> set es" "me_Key E (w_tx v) = k"
      using poolD(9) [OF p k] by blast
    with f(1) show ?thesis
      using in_change_at [of b v es a f] by (intro exI [of _ "if b = a then f v else v"]) simp
  qed
  moreover have "\<exists>v. (b, v) \<in> set (change_at a f es) \<and> w_sender v = s \<and> s \<noteq> []"
    if s: "map_of (tp_txBySender m) s = Some b" for s b
  proof -
    obtain v where "(b, v) \<in> set es" "w_sender v = s" "s \<noteq> []"
      using poolD(10) [OF p s] by blast
    with f(2) show ?thesis
      using in_change_at [of b v es a f] by (intro exI [of _ "if b = a then f v else v"]) simp
  qed
  ultimately show "pool E (m\<lparr>tp_txs := set_value a (f w) (tp_txs m)\<rparr>) (change_at a f es)"
    using p bytes_of_change_at [of f a es] f by (simp add: pool_def)
  show "indexed E (m\<lparr>tp_txs := set_value a (f w) (tp_txs m)\<rparr>) (change_at a f es)" if "indexed E m es"
    using that f(1) by (auto simp: indexed_def change_at_def)
qed

lemma within_limits_filter: "within_limits cfg es \<Longrightarrow> within_limits cfg (filter P es)"
  using bytes_of_filter [of P es] length_filter_le [of P es] unfolding within_limits_def by linarith

lemma within_limits_drop: "within_limits cfg es \<Longrightarrow> within_limits cfg (drop_addr a es)"
  by (simp add: drop_addr_def within_limits_filter)

lemma within_limits_change_at:
  "(\<And>w. w_tx (f w) = w_tx w) \<Longrightarrow> within_limits cfg (change_at a f es) \<longleftrightarrow> within_limits cfg es"
  by (simp add: within_limits_def bytes_of_change_at)

subsection \<open>Admission\<close>

lemma hooks_pre: "hooks_ok m \<Longrightarrow> (case tp_preCheck m of None \<Rightarrow> Ok () | Some f \<Rightarrow> f tx) \<noteq> Panic p"
  by (auto simp: hooks_ok_def split: option.splits)

lemma hooks_post: "hooks_ok m \<Longrightarrow> post_check_err m tx r \<noteq> Panic p"
  by (auto simp: hooks_ok_def post_check_err_def split: option.splits)

lemma admit_tx_run:
  assumes p: "pool E m es" and h: "hooks_ok m"
  shows "\<exists>res m' es'. admit_tx E connError tx i m = (res, m') \<and> (\<forall>q. res \<noteq> Panic q) \<and> frame m m' \<and>
    pool E m' es' \<and> (es' = es \<or> (\<exists>a. es' = change_at a (SetPeer i) es)) \<and> (indexed E m es \<longrightarrow> indexed E m' es') \<and>
    (\<forall>ht. res = Ok ht \<longrightarrow> int (length tx) \<le> mc_MaxTxBytes (me_config E) \<and> ht = tp_height m)"
proof (cases "\<exists>e. admit_tx E connError tx i m = (Err e, m)")
  case True
  with p show ?thesis by fastforce
next
  case False
  define c where "c = snd (Cache_Push (me_Key E tx) (tp_cache m))"
  let ?m1 = "m\<lparr>tp_cache := c\<rparr>"
  have len: "\<not> int (length tx) > mc_MaxTxBytes (me_config E)" and pre: "(case tp_preCheck m of None \<Rightarrow> Ok () | Some f \<Rightarrow> f tx) = Ok ()"
    and conn: "connError = None"
    using False hooks_pre [OF h, of tx] by (auto simp: admit_tx_def split: if_splits outcome.splits option.splits)
  have q: "pool E ?m1 es"
    using cache.Push_ok [OF poolD(3) [OF p]] pool_cache [OF p] by (simp add: c_def)
  show ?thesis
  proof (cases "\<exists>a. \<not> fst (Cache_Push (me_Key E tx) (tp_cache m)) \<and> map_of (tp_txByKey m) (me_Key E tx) = Some a")
    case False
    then have "admit_tx E connError tx i m =
        (if fst (Cache_Push (me_Key E tx) (tp_cache m)) then Ok (tp_height m) else Err ErrTxInCache, ?m1)"
      using len by (auto simp: admit_tx_def pre conn Let_def c_def split: prod.splits option.splits)
    then show ?thesis
      using len q by auto
  next
    case True
    then obtain a where a: "\<not> fst (Cache_Push (me_Key E tx) (tp_cache m))" "map_of (tp_txByKey m) (me_Key E tx) = Some a"
      by blast
    obtain w where w: "(a, w) \<in> set es"
      using poolD(9) [OF p a(2)] by blast
    have "admit_tx E connError tx i m =
        (Err ErrTxInCache, ?m1\<lparr>tp_txs := set_value a (SetPeer i w) (tp_txs ?m1)\<rparr>)"
      using len a elt_Value_run [OF q w]
      by (simp add: admit_tx_def pre conn Let_def c_def case_prod_unfold bind_cmd_def)
    moreover have "frame m (?m1\<lparr>tp_txs := set_value a (SetPeer i w) (tp_txs ?m1)\<rparr>)"
      by (simp add: frame_def)
    ultimately show ?thesis
      using change_at_pool [OF q w, of "SetPeer i"] by auto
  qed
qed

subsection \<open>The first check\<close>

lemma reject_bad_run:
  "pool E m es \<Longrightarrow> \<exists>m'. reject_bad E wtx e m = (Ok (RejectedBad e), m') \<and> pool E m' es \<and> frame m m' \<and>
    (indexed E m es \<longrightarrow> indexed E m' es)"
  using pool_cache [OF _ Cache_Remove_ok [OF poolD(3)], of E m es E m es]
  by (auto simp: reject_bad_def bind_cmd_def ret_def on_cache_def)

text \<open>The transaction passes the checks that come before the limits.\<close>

definition acceptable :: "TxMempool \<Rightarrow> WrappedTx \<Rightarrow> ResponseCheckTx \<Rightarrow> bool" where
  "acceptable m wtx r \<longleftrightarrow>
     post_check_err m (w_tx wtx) r = Ok () \<and> ct_Code r = CodeTypeOK \<and>
     (ct_Sender r \<noteq> [] \<longrightarrow> map_of (tp_txBySender m) (ct_Sender r) = None)"

lemma initialTxCallback_accept:
  "acceptable m wtx r \<Longrightarrow> initialTxCallback E arrange wtx (Some r) m = add_checked E arrange wtx r m"
  by (auto simp: initialTxCallback_def acceptable_def)

lemma initialTxCallback_reject:
  assumes p: "pool E m es" and h: "hooks_ok m" and not: "\<And>r. res = Some r \<Longrightarrow> \<not> acceptable m wtx r"
  shows "\<exists>v m'. initialTxCallback E arrange wtx res m = (Ok v, m') \<and> v \<noteq> Inserted \<and> v \<noteq> PoolFull \<and>
    pool E m' es \<and> frame m m' \<and> (indexed E m es \<longrightarrow> indexed E m' es)"
proof (cases res)
  case None
  with p show ?thesis by (auto simp: initialTxCallback_def)
next
  case (Some r)
  consider e where "post_check_err m (w_tx wtx) r = Err e"
    | "post_check_err m (w_tx wtx) r = Ok ()" "ct_Code r \<noteq> CodeTypeOK"
    | a where "post_check_err m (w_tx wtx) r = Ok ()" "ct_Code r = CodeTypeOK" "ct_Sender r \<noteq> []"
      "map_of (tp_txBySender m) (ct_Sender r) = Some a"
    using not [OF Some] hooks_post [OF h, of "w_tx wtx" r]
    by (cases "post_check_err m (w_tx wtx) r") (auto simp: acceptable_def)
  then show ?thesis
  proof cases
    case 1
    with reject_bad_run [OF p, of wtx "Some e"] show ?thesis
      by (auto simp: initialTxCallback_def Some)
  next
    case 2
    with reject_bad_run [OF p, of wtx None] show ?thesis
      by (auto simp: initialTxCallback_def Some)
  next
    case 3
    then obtain w where "(a, w) \<in> set es"
      using poolD(10) [OF p] by blast
    with 3 p show ?thesis
      by (auto simp: initialTxCallback_def Some bind_cmd_def ret_def elt_Value_run [OF p])
  qed
qed

lemma initialTxCallback_safe:
  assumes p: "pool E m es" and h: "hooks_ok m" and lim: "within_limits (me_config E) es"
    and cfg: "config_ok (me_config E)" and size: "w_Size wtx \<le> mc_MaxTxBytes (me_config E)"
    and a: "permutes_lists arrange"
  shows "\<exists>v m' es'. initialTxCallback E arrange wtx res m = (Ok v, m') \<and> pool E m' es' \<and>
    within_limits (me_config E) es' \<and> same_settings m m' \<and>
    (indexed E m es \<and> me_Key E (w_tx wtx) \<notin> entry_key E ` set es \<longrightarrow> indexed E m' es')"
proof (cases "\<exists>r. res = Some r \<and> acceptable m wtx r")
  case True
  then obtain r where r: "res = Some r" "acceptable m wtx r" by blast
  show ?thesis
    using add_checked_run [OF p lim cfg size a, of r] lim
    by (auto simp: r(1) initialTxCallback_accept [OF r(2)] split: if_splits)
next
  case False
  then obtain v m' where "initialTxCallback E arrange wtx res m = (Ok v, m')" "pool E m' es" "frame m m'"
    "indexed E m es \<longrightarrow> indexed E m' es"
    using initialTxCallback_reject [OF p h, of res wtx arrange] by blast
  with lim show ?thesis
    using frame_settings by blast
qed

subsection \<open>Rechecking\<close>

definition recheck_passes :: "TxMempool \<Rightarrow> Tx \<Rightarrow> ResponseCheckTx \<Rightarrow> bool" where
  "recheck_passes m tx r \<longleftrightarrow> ct_Code r = CodeTypeOK \<and> post_check_err m tx r = Ok ()"

definition rechecked :: "mempool_env \<Rightarrow> Tx \<Rightarrow> ResponseCheckTx \<Rightarrow> TxMempool \<Rightarrow> entries \<Rightarrow> entries" where
  "rechecked E tx r m es =
     (case map_of (tp_txByKey m) (me_Key E tx) of
        None \<Rightarrow> es
      | Some a \<Rightarrow> if recheck_passes m tx r then change_at a (SetPriority (ct_Priority r)) es else drop_addr a es)"

lemma recheck_body_run:
  assumes p: "pool E m es" and h: "hooks_ok m"
  shows "\<exists>m'. recheck_body E tx r m = (Ok (), m') \<and> pool E m' (rechecked E tx r m es) \<and> frame m m' \<and>
    (indexed E m es \<longrightarrow> indexed E m' (rechecked E tx r m es)) \<and>
    (\<forall>a. map_of (tp_txByKey m) (me_Key E tx) = Some a \<and> \<not> recheck_passes m tx r \<longrightarrow> elem_next (tp_txs m') a = None)"
proof (cases "map_of (tp_txByKey m) (me_Key E tx)")
  case None
  with p show ?thesis by (auto simp: recheck_body_def rechecked_def)
next
  case (Some a)
  obtain w where w: "(a, w) \<in> set es"
    using poolD(9) [OF p Some] by blast
  show ?thesis
  proof (cases "recheck_passes m tx r")
    case True
    then have run: "recheck_body E tx r m = (Ok (), m\<lparr>tp_txs := set_value a (SetPriority (ct_Priority r) w) (tp_txs m)\<rparr>)"
      by (simp add: recheck_body_def Some bind_cmd_def elt_Value_run [OF p w] recheck_passes_def)
    have "frame m (m\<lparr>tp_txs := set_value a (SetPriority (ct_Priority r) w) (tp_txs m)\<rparr>)"
      by (simp add: frame_def)
    then show ?thesis
      using True change_at_pool [OF p w, of "SetPriority (ct_Priority r)"] run Some by (simp add: rechecked_def)
  next
    case False
    have drop: "rechecked E tx r m es = drop_addr a es"
      using False Some by (simp add: rechecked_def)
    have "recheck_body E tx r m = bind_cmd (removeTxByElement E a) (\<lambda>_.
        if mc_KeepInvalidTxsInCache (me_config E) then ret () else on_cache (Cache_Remove (me_Key E (w_tx w)))) m"
      using False hooks_post [OF h, of tx r]
      by (auto simp: recheck_body_def Some bind_cmd_def [of "elt_Value a"] elt_Value_run [OF p w] recheck_passes_def
          split: outcome.split)
    moreover have "\<exists>m'. bind_cmd (removeTxByElement E a) (\<lambda>_.
        if mc_KeepInvalidTxsInCache (me_config E) then ret () else on_cache (Cache_Remove (me_Key E (w_tx w)))) m =
        (Ok (), m') \<and> removed E a m es m'"
      using remove_and_forget [OF p w] removeTxByElement_removed [OF p w]
      by (auto simp: bind_cmd_def ret_def)
    ultimately show ?thesis
      using Some by (auto simp: removed_def drop)
  qed
qed

text \<open>A pool in order: its entries are within the limits and its hooks return.\<close>

definition in_order :: "mempool_env \<Rightarrow> TxMempool \<Rightarrow> entries \<Rightarrow> bool" where
  "in_order E m es \<longleftrightarrow> pool E m es \<and> within_limits (me_config E) es \<and> hooks_ok m"

lemma rechecked_limits: "within_limits cfg es \<Longrightarrow> within_limits cfg (rechecked E tx r m es)"
  by (auto simp: rechecked_def within_limits_drop within_limits_change_at split: option.split)

lemma recheckTxCallback_run:
  assumes p: "pool E m es" and h: "hooks_ok m"
  shows "\<exists>m' es'. recheckTxCallback E tx res m = (Ok (), m') \<and> pool E m' es' \<and> same_settings m m' \<and>
    (indexed E m es \<longrightarrow> indexed E m' es') \<and>
    (es' = es \<or> (\<exists>r. res = Some r \<and> es' = rechecked E tx r m es \<and>
      (\<forall>a. map_of (tp_txByKey m) (me_Key E tx) = Some a \<and> \<not> recheck_passes m tx r \<longrightarrow> elem_next (tp_txs m') a = None)))"
proof (cases "\<exists>r. res = Some r \<and> \<not> i64 (tp_txRecheck m - 1) < 0")
  case True
  then obtain r where r: "res = Some r" "\<not> i64 (tp_txRecheck m - 1) < 0" by blast
  let ?m1 = "m\<lparr>tp_txRecheck := i64 (tp_txRecheck m - 1)\<rparr>"
  have same: "rechecked E tx r ?m1 es = rechecked E tx r m es" "recheck_passes ?m1 tx r \<longleftrightarrow> recheck_passes m tx r"
    by (simp_all add: rechecked_def recheck_passes_def post_check_err_def cong: option.case_cong)
  have "hooks_ok ?m1" using h by (simp add: hooks_ok_def)
  with recheck_body_run [of E ?m1 es tx r] p obtain m2 where m2: "recheck_body E tx r ?m1 = (Ok (), m2)"
    "pool E m2 (rechecked E tx r m es)" "frame ?m1 m2" "indexed E m es \<longrightarrow> indexed E m2 (rechecked E tx r m es)"
    "\<forall>a. map_of (tp_txByKey m) (me_Key E tx) = Some a \<and> \<not> recheck_passes m tx r \<longrightarrow> elem_next (tp_txs m2) a = None"
    by (auto simp: same)
  obtain n v where n: "notifyTxsAvailable m2 = (Ok (), m2\<lparr>tp_notifiedTxsAvailable := n, tp_txsAvailable := v\<rparr>)"
    using notify_run by blast
  have "same_settings m m2"
    using frame_settings [OF m2(3)] by (simp add: same_settings_def)
  then show ?thesis
    using r m2 n
    by (cases "i64 (tp_txRecheck m - 1) = 0") (auto simp: recheckTxCallback_def Let_def bind_cmd_def ret_def)
next
  case False
  then have "recheckTxCallback E tx res m = (Ok (), m) \<or>
      recheckTxCallback E tx res m = (Ok (), m\<lparr>tp_txRecheck := i64 (tp_txRecheck m - 1)\<rparr>)"
    by (auto simp: recheckTxCallback_def Let_def split: option.splits)
  with p show ?thesis by fastforce
qed

text \<open>Where the loop over the list stands: at the end, or at an entry with fewer than \<open>n\<close> behind it.\<close>

definition cursor :: "entries \<Rightarrow> nat \<Rightarrow> addr option \<Rightarrow> bool" where
  "cursor es n cur \<longleftrightarrow> cur = None \<or> (\<exists>xs a w ys. es = xs @ (a, w) # ys \<and> cur = Some a \<and> length ys < n)"

lemma cursor_first: "length ys \<le> n \<Longrightarrow> cursor (xs @ ys) n (first_addr ys)"
  by (cases ys) (fastforce simp: cursor_def)+

lemma cursor_next:
  assumes c: "contents l es" and es: "es = xs @ (a, w) # ys"
  shows "cursor es (length ys) (elem_next l a)"
proof -
  have "cursor ((xs @ [(a, w)]) @ ys) (length ys) (first_addr ys)"
    by (rule cursor_first) simp
  then show ?thesis
    using clist.rep_next [of l xs a w ys] c by (simp add: es)
qed

lemma cursor_mono: "cursor es n cur \<Longrightarrow> n \<le> n' \<Longrightarrow> cursor es n' cur"
  by (fastforce simp: cursor_def)

lemma cursor_rechecked:
  assumes es: "es = xs @ (b, w) # ys" and d: "distinct (map fst es)"
    and c: "contents l (rechecked E tx r m es)"
    and gone: "\<And>a. map_of (tp_txByKey m) (me_Key E tx) = Some a \<Longrightarrow> \<not> recheck_passes m tx r \<Longrightarrow> elem_next l a = None"
  shows "cursor (rechecked E tx r m es) (length ys) (elem_next l b)"
proof -
  consider "rechecked E tx r m es = es"
    | a f where "rechecked E tx r m es = change_at a f es"
    | a where "rechecked E tx r m es = drop_addr a es" "elem_next l a = None"
    using gone by (cases "map_of (tp_txByKey m) (me_Key E tx)"; cases "recheck_passes m tx r")
      (simp_all add: rechecked_def)
  then show ?thesis
  proof cases
    case 1
    with cursor_next [OF c] es show ?thesis by metis
  next
    case 2
    then have "rechecked E tx r m es = change_at a f xs @ (b, if b = a then f w else w) # change_at a f ys"
      by (simp add: es)
    from cursor_next [OF c this] show ?thesis by simp
  next
    case 3
    show ?thesis
    proof (cases "a = b")
      case False
      then have "rechecked E tx r m es = drop_addr a xs @ (b, w) # drop_addr a ys"
        using 3 by (simp add: es drop_addr_def)
      from cursor_next [OF c this] show ?thesis
        by (rule cursor_mono) (simp add: drop_addr_def)
    qed (use 3 in \<open>simp add: cursor_def\<close>)
  qed
qed

lemma recheck_loop_safe:
  assumes "in_order E m es" and "cursor es fuel cur" and conn: "\<And>tx p. snd (conn tx) \<noteq> Panic p"
  shows "\<exists>m' es'. recheck_loop E conn fuel cur m = (Ok (), m') \<and> in_order E m' es' \<and>
    same_settings m m' \<and> (indexed E m es \<longrightarrow> indexed E m' es')"
  using assms(1,2)
proof (induction fuel arbitrary: cur m es)
  case (Suc n)
  show ?case
  proof (cases cur)
    case (Some b)
    then obtain xs w ys where es: "es = xs @ (b, w) # ys" and len: "length ys \<le> n"
      using Suc.prems(2) by (fastforce simp: cursor_def)
    have p: "pool E m es" and h: "hooks_ok m" and lim: "within_limits (me_config E) es"
      using Suc.prems(1) by (simp_all add: in_order_def)
    note w = elt_Value_run [OF p, of b w]
    obtain m1 es1 where m1: "recheckTxCallback E (w_tx w) (fst (conn (w_tx w))) m = (Ok (), m1)" "pool E m1 es1"
      "same_settings m m1" "indexed E m es \<longrightarrow> indexed E m1 es1"
      and es1: "es1 = es \<or> (\<exists>r. fst (conn (w_tx w)) = Some r \<and> es1 = rechecked E (w_tx w) r m es \<and>
        (\<forall>a. map_of (tp_txByKey m) (me_Key E (w_tx w)) = Some a \<and> \<not> recheck_passes m (w_tx w) r \<longrightarrow>
          elem_next (tp_txs m1) a = None))"
      using recheckTxCallback_run [OF p h, of "w_tx w" "fst (conn (w_tx w))"] by blast
    have cur1: "cursor es1 n (elem_next (tp_txs m1) b)"
    proof (rule cursor_mono [OF _ len], cases "es1 = es")
      case True
      then show "cursor es1 (length ys) (elem_next (tp_txs m1) b)"
        using cursor_next [OF poolD(1) [OF m1(2)]] es by blast
    next
      case False
      with es1 cursor_rechecked [OF es poolD(2) [OF p]] poolD(1) [OF m1(2)]
      show "cursor es1 (length ys) (elem_next (tp_txs m1) b)" by metis
    qed
    have ok1: "in_order E m1 es1"
      using m1(2) es1 lim rechecked_limits hooks_settings [OF m1(3)] h by (auto simp: in_order_def)
    define m2 where "m2 = (if is_Ok (snd (conn (w_tx w))) then m1 else m1\<lparr>tp_txRecheck := i64 (tp_txRecheck m1 - 1)\<rparr>)"
    have run: "recheck_loop E conn (Suc n) cur m = recheck_loop E conn n (elem_next (tp_txs m2) b) m2"
      using conn [of "w_tx w"] w m1(1)
      by (cases "snd (conn (w_tx w))") (auto simp: Some es bind_cmd_def m2_def)
    have m2: "tp_txs m2 = tp_txs m1" "same_settings m1 m2" "in_order E m2 es1" "indexed E m1 es1 \<longrightarrow> indexed E m2 es1"
      using ok1 hooks_settings [of m1 m2] by (auto simp: m2_def in_order_def)
    from Suc.IH [OF m2(3), of "elem_next (tp_txs m2) b"] cur1 show ?thesis
      unfolding run m2(1) using m1(3,4) m2(2,4) settings_trans by blast
  qed (use Suc.prems(1) in auto)
qed (auto simp: cursor_def)

lemma recheckTransactions_safe:
  assumes o: "in_order E m es" and ne: "es \<noteq> []" and conn: "\<And>tx p. snd (conn tx) \<noteq> Panic p"
  shows "\<exists>m' es'. recheckTransactions E conn m = (Ok (), m') \<and> in_order E m' es' \<and>
    same_settings m m' \<and> (indexed E m es \<longrightarrow> indexed E m' es')"
proof -
  note P = poolD [of E m es]
  have p: "pool E m es" using o by (simp add: in_order_def)
  let ?m1 = "m\<lparr>tp_txRecheck := pool_Size m\<rparr>"
  have "in_order E ?m1 es"
    using o by (simp add: in_order_def hooks_ok_def)
  moreover have "cursor es (nat (pool_Size m)) (TxsFront m)"
    using cursor_first [of es "length es" "[]"] P(5,6) [OF p] by simp
  ultimately obtain m' es' where "recheck_loop E conn (nat (pool_Size m)) (TxsFront m) ?m1 = (Ok (), m')"
    "in_order E m' es'" "same_settings ?m1 m'" "indexed E m es \<longrightarrow> indexed E m' es'"
    using recheck_loop_safe [of E ?m1 es "nat (pool_Size m)" "TxsFront m" conn] conn by auto
  moreover have "pool_Size m \<noteq> 0"
    using P(5) [OF p] ne by simp
  ultimately show ?thesis
    by (auto simp: recheckTransactions_def same_settings_def)
qed

subsection \<open>The update after a block\<close>

definition drop_key :: "mempool_env \<Rightarrow> TxMempool \<Rightarrow> TxKey \<Rightarrow> entries \<Rightarrow> entries" where
  "drop_key E m k es = (case map_of (tp_txByKey m) k of None \<Rightarrow> es | Some a \<Rightarrow> drop_addr a es)"

lemma drop_key_limits: "within_limits cfg es \<Longrightarrow> within_limits cfg (drop_key E m k es)"
  by (auto simp: drop_key_def within_limits_drop split: option.split)

lemma removeTxByKey_run:
  assumes p: "pool E m es"
  shows "\<exists>r m'. removeTxByKey k m = (r, m') \<and> (\<forall>q. r \<noteq> Panic q) \<and> pool E m' (drop_key E m k es) \<and> frame m m' \<and>
    tp_cache m' = tp_cache m \<and> (indexed E m es \<longrightarrow> indexed E m' (drop_key E m k es))"
proof (cases "map_of (tp_txByKey m) k")
  case None
  with p show ?thesis by (auto simp: removeTxByKey_def drop_key_def)
next
  case (Some a)
  with removeTxByKey_removed [OF p Some] show ?thesis
    by (auto simp: drop_key_def removed_def)
qed

text \<open>In a fully indexed pool, removing by key removes every entry with that key.\<close>

lemma drop_key_indexed:
  assumes p: "pool E m es" and ix: "indexed E m es"
  shows "drop_key E m k es = filter (\<lambda>e. entry_key E e \<noteq> k) es"
proof (cases "map_of (tp_txByKey m) k")
  case None
  then have "\<forall>e \<in> set es. entry_key E e \<noteq> k"
    using ix by (auto simp: indexed_def)
  then have "filter (\<lambda>e. entry_key E e \<noteq> k) es = es"
    by (simp add: filter_id_conv)
  then show ?thesis
    using None by (simp add: drop_key_def)
next
  case (Some a)
  obtain w where w: "(a, w) \<in> set es" "me_Key E (w_tx w) = k"
    using poolD(9) [OF p Some] by blast
  have "fst e = a \<longleftrightarrow> entry_key E e = k" if e: "e \<in> set es" for e
  proof
    assume "fst e = a"
    then show "entry_key E e = k"
      using e w entry_unique [OF poolD(2) [OF p] w(1)] by (cases e) auto
  next
    assume "entry_key E e = k"
    then show "fst e = a"
      using bspec [OF ix [unfolded indexed_def] e] Some by simp
  qed
  then have "drop_addr a es = filter (\<lambda>e. entry_key E e \<noteq> k) es"
    unfolding drop_addr_def by (intro filter_cong) auto
  then show ?thesis
    using Some by (simp add: drop_key_def)
qed

lemma commit_tx_run:
  assumes p: "pool E m es"
  shows "\<exists>m' es'. commit_tx E tx r m = (Ok (), m') \<and> pool E m' es' \<and> frame m m' \<and>
    (\<exists>P. es' = filter P es) \<and>
    (indexed E m es \<longrightarrow> es' = filter (\<lambda>e. entry_key E e \<noteq> me_Key E tx) es \<and> indexed E m' es')"
proof -
  define c where "c = (if dt_Code r = CodeTypeOK then snd (Cache_Push (me_Key E tx) (tp_cache m))
    else if \<not> mc_KeepInvalidTxsInCache (me_config E) then Cache_Remove (me_Key E tx) (tp_cache m) else tp_cache m)"
  have c: "(if dt_Code r = CodeTypeOK then on_cache (\<lambda>c. snd (Cache_Push (me_Key E tx) c))
      else if \<not> mc_KeepInvalidTxsInCache (me_config E) then on_cache (Cache_Remove (me_Key E tx)) else ret ()) m =
      (Ok (), m\<lparr>tp_cache := c\<rparr>)" "cache_ok c"
    using cache.Push_ok [OF poolD(3) [OF p], of "me_Key E tx"] Cache_Remove_ok [OF poolD(3) [OF p], of "me_Key E tx"]
      poolD(3) [OF p] by (simp_all add: on_cache_def ret_def c_def)
  let ?m1 = "m\<lparr>tp_cache := c\<rparr>"
  have q: "pool E ?m1 es" by (rule pool_cache [OF p c(2)])
  let ?es = "drop_key E ?m1 (me_Key E tx) es"
  obtain res m' where m': "removeTxByKey (me_Key E tx) ?m1 = (res, m')" "\<forall>q. res \<noteq> Panic q" "pool E m' ?es"
    "frame ?m1 m'" "indexed E m es \<longrightarrow> indexed E m' ?es"
    using removeTxByKey_run [OF q, of "me_Key E tx"] by auto
  have "commit_tx E tx r m = (Ok (), m')"
    using m'(1,2) c(1) by (cases res) (auto simp: commit_tx_def bind_cmd_def)
  moreover have "\<exists>P. ?es = filter P es"
    by (auto simp: drop_key_def drop_addr_def split: option.split intro: exI [of _ "\<lambda>_. True"])
  moreover have "frame m m'" using m'(4) by (simp add: frame_def)
  ultimately show ?thesis
    using m'(3,5) drop_key_indexed [OF q] by auto
qed

lemma commit_txs_run:
  assumes "pool E m es"
  shows "\<exists>m' es'. commit_txs E txs m = (Ok (), m') \<and> pool E m' es' \<and> frame m m' \<and> (\<exists>P. es' = filter P es) \<and>
    (indexed E m es \<longrightarrow>
      es' = filter (\<lambda>e. entry_key E e \<notin> me_Key E ` fst ` set txs) es \<and> indexed E m' es')"
  using assms
proof (induction txs arbitrary: m es)
  case Nil
  then show ?case by (intro exI [of _ m] exI [of _ es]) (auto intro: exI [of _ "\<lambda>_. True"])
next
  case (Cons x txs)
  obtain tx r where x: "x = (tx, r)" by (cases x)
  obtain m1 es1 where m1: "commit_tx E tx r m = (Ok (), m1)" "pool E m1 es1" "frame m m1" "\<exists>P. es1 = filter P es"
    "indexed E m es \<longrightarrow> es1 = filter (\<lambda>e. entry_key E e \<noteq> me_Key E tx) es \<and> indexed E m1 es1"
    using commit_tx_run [OF Cons.prems] by blast
  obtain m2 es2 where m2: "commit_txs E txs m1 = (Ok (), m2)" "pool E m2 es2" "frame m1 m2" "\<exists>P. es2 = filter P es1"
    "indexed E m1 es1 \<longrightarrow> es2 = filter (\<lambda>e. entry_key E e \<notin> me_Key E ` fst ` set txs) es1 \<and> indexed E m2 es2"
    using Cons.IH [OF m1(2)] by blast
  have "es2 = filter (\<lambda>e. entry_key E e \<notin> me_Key E ` fst ` set (x # txs)) es \<and> indexed E m2 es2" if "indexed E m es"
    using that m1(5) m2(5) by (auto simp: x intro: filter_cong)
  moreover have "\<exists>P. es2 = filter P es"
    using m1(4) m2(4) by auto
  ultimately show ?case
    using m1(1) m2(1,2) frame_trans [OF m1(3) m2(3)] by (auto simp: x bind_cmd_def)
qed

definition hook_returns :: "pre_check option \<Rightarrow> post_check option \<Rightarrow> bool" where
  "hook_returns newPreFn newPostFn \<longleftrightarrow>
     (\<forall>f tx p. newPreFn = Some f \<longrightarrow> f tx \<noteq> Panic p) \<and> (\<forall>f tx r p. newPostFn = Some f \<longrightarrow> f tx r \<noteq> Panic p)"

lemma begin_update_run:
  "pool E m es \<Longrightarrow> pool E (begin_update h f g m) es"
  "indexed E (begin_update h f g m) es \<longleftrightarrow> indexed E m es"
  "hooks_ok m \<Longrightarrow> hook_returns f g \<Longrightarrow> hooks_ok (begin_update h f g m)"
  by (auto simp: begin_update_def hooks_ok_def hook_returns_def)

text \<open>The entries that neither the block nor the limits of age take out.\<close>

definition survivors :: "mempool_env \<Rightarrow> gotime \<Rightarrow> int \<Rightarrow> Tx list \<Rightarrow> entries \<Rightarrow> entries" where
  "survivors E now h txs es =
     filter (\<lambda>e. entry_key E e \<notin> me_Key E ` set txs \<and> \<not> is_expired (me_config E) now h (snd e)) es"

lemma update_prefix_run:
  assumes p: "pool E m es" and len: "length txs = length resps"
  shows "\<exists>m' es'. bind_cmd (commit_txs E (zip txs resps)) (\<lambda>_. purgeExpiredTxs E now h) m = (Ok (), m') \<and>
    pool E m' es' \<and> frame m m' \<and> (\<exists>P. es' = filter P es) \<and>
    (indexed E m es \<longrightarrow> es' = survivors E now h txs es \<and> indexed E m' es')"
proof -
  obtain m1 es1 where m1: "commit_txs E (zip txs resps) m = (Ok (), m1)" "pool E m1 es1" "frame m m1"
    "\<exists>P. es1 = filter P es"
    "indexed E m es \<longrightarrow> es1 = filter (\<lambda>e. entry_key E e \<notin> me_Key E ` fst ` set (zip txs resps)) es \<and> indexed E m1 es1"
    using commit_txs_run [OF p] by blast
  have txs: "fst ` set (zip txs resps) = set txs"
    using len by (metis list.set_map map_fst_zip)
  let ?es2 = "filter (\<lambda>e. \<not> is_expired (me_config E) now h (snd e)) es1"
  obtain m2 where m2: "purgeExpiredTxs E now h m1 = (Ok (), m2)" "frame m1 m2" "pool E m2 ?es2"
    "indexed E m1 es1 \<longrightarrow> indexed E m2 ?es2"
    using purgeExpiredTxs_run [OF m1(2), of now h] by blast
  have "?es2 = survivors E now h txs es" if "indexed E m es"
    using that m1(5) by (auto simp: survivors_def txs intro: filter_cong)
  moreover have "\<exists>P. ?es2 = filter P es" using m1(4) by auto
  moreover have "bind_cmd (commit_txs E (zip txs resps)) (\<lambda>_. purgeExpiredTxs E now h) m = (Ok (), m2)"
    using m1(1) m2(1) by (simp add: bind_cmd_def)
  ultimately show ?thesis
    using m1(5) m2(3,4) frame_trans [OF m1(3) m2(2)] by blast
qed

lemma after_update_safe:
  assumes o: "in_order E m es" and conn: "\<And>tx p. snd (conn tx) \<noteq> Panic p"
  shows "\<exists>m' es'. after_update E conn m = (Ok (), m') \<and> in_order E m' es' \<and> same_settings m m' \<and>
    (indexed E m es \<longrightarrow> indexed E m' es') \<and> (\<not> mc_Recheck (me_config E) \<longrightarrow> es' = es)"
proof -
  have size: "pool_Size m = int (length es)"
    using poolD(5) [of E m es] o by (simp add: in_order_def)
  obtain n v where n: "notifyTxsAvailable m = (Ok (), m\<lparr>tp_notifiedTxsAvailable := n, tp_txsAvailable := v\<rparr>)"
    using notify_run by blast
  show ?thesis
  proof (cases "es \<noteq> [] \<and> mc_Recheck (me_config E)")
    case True
    with recheckTransactions_safe [of E m es conn, OF o _ conn] size show ?thesis
      by (auto simp: after_update_def)
  next
    case False
    define m' where "m' = (if es = [] then m else m\<lparr>tp_notifiedTxsAvailable := n, tp_txsAvailable := v\<rparr>)"
    have "in_order E m' es" "same_settings m m'" "indexed E m es \<longrightarrow> indexed E m' es"
      using o by (auto simp: m'_def in_order_def hooks_ok_def)
    moreover have "after_update E conn m = (Ok (), m')"
      using False n size by (auto simp: after_update_def m'_def)
    ultimately show ?thesis by blast
  qed
qed

lemma pool_Update_run:
  assumes o: "in_order E m es" and len: "length txs = length resps" and f: "hook_returns f g"
    and conn: "\<And>tx p. snd (conn tx) \<noteq> Panic p"
  shows "\<exists>m' es'. pool_Update E conn now h txs resps f g m = (Ok (), m') \<and> in_order E m' es' \<and> tp_height m' = h \<and>
    (indexed E m es \<longrightarrow> indexed E m' es' \<and> (\<not> mc_Recheck (me_config E) \<longrightarrow> es' = survivors E now h txs es))"
proof -
  let ?m1 = "begin_update h f g m"
  have p: "pool E ?m1 es" and lim: "within_limits (me_config E) es" and hk: "hooks_ok ?m1"
    using o f begin_update_run by (auto simp: in_order_def)
  obtain m2 es2 where m2: "bind_cmd (commit_txs E (zip txs resps)) (\<lambda>_. purgeExpiredTxs E now h) ?m1 = (Ok (), m2)"
    "pool E m2 es2" "frame ?m1 m2" "\<exists>P. es2 = filter P es"
    "indexed E m es \<longrightarrow> es2 = survivors E now h txs es \<and> indexed E m2 es2"
    using update_prefix_run [OF p len] begin_update_run(2) by blast
  have "in_order E m2 es2"
    using m2(2-4) lim within_limits_filter hooks_settings [OF frame_settings [OF m2(3)]] hk by (auto simp: in_order_def)
  from after_update_safe [of E m2 es2 conn, OF this conn] obtain m3 es3 where m3: "after_update E conn m2 = (Ok (), m3)"
    "in_order E m3 es3" "same_settings m2 m3" "indexed E m2 es2 \<longrightarrow> indexed E m3 es3"
    "\<not> mc_Recheck (me_config E) \<longrightarrow> es3 = es2"
    by blast
  have "pool_Update E conn now h txs resps f g m = (Ok (), m3)"
    using len m2(1) m3(1)
    by (simp add: pool_Update_def) (auto simp: bind_cmd_def split: prod.splits outcome.splits)
  moreover have "tp_height m3 = h"
    using m3(3) m2(3) by (simp add: same_settings_def frame_def begin_update_def)
  ultimately show ?thesis
    using m3 m2(5) by blast
qed

subsection \<open>The mempool as a system\<close>

text \<open>
  The state is the pool and the callbacks of the checks that have not been answered. A step is one
  locked section of the code, or \<open>CheckTx\<close> up to the point where it returns; the application may
  answer a check or a recheck with anything at any time.
\<close>

record pool_system =
  ps_pool :: TxMempool
  ps_pending :: "pending_check list"

primrec void :: "'a outcome \<Rightarrow> unit outcome" where
  "void (Ok _) = Ok ()"
| "void (Err e) = Err e"
| "void (Panic p) = Panic p"

inductive mempool_step :: "mempool_env \<Rightarrow> pool_system \<Rightarrow> unit outcome \<Rightarrow> pool_system \<Rightarrow> bool" for E where
  check_tx: "CheckTx E connError flushSync tx i (ps_pool s) = (r, m') \<Longrightarrow> \<forall>p. flushSync \<noteq> Panic p \<Longrightarrow>
    mempool_step E s (void r) \<lparr>ps_pool = m', ps_pending = (case r of Ok p \<Rightarrow> ps_pending s @ [p] | _ \<Rightarrow> ps_pending s)\<rparr>"
| answer: "p \<in> set (ps_pending s) \<Longrightarrow> permutes_lists arrange \<Longrightarrow>
    check_callback E arrange now p res (ps_pool s) = (r, m') \<Longrightarrow>
    mempool_step E s (void r) \<lparr>ps_pool = m', ps_pending = remove1 p (ps_pending s)\<rparr>"
| recheck_answer: "recheckTxCallback E tx res (ps_pool s) = (r, m') \<Longrightarrow>
    mempool_step E s r (s\<lparr>ps_pool := m'\<rparr>)"
| remove: "RemoveTxByKey k (ps_pool s) = (r, m') \<Longrightarrow> mempool_step E s r (s\<lparr>ps_pool := m'\<rparr>)"
| flush: "pool_Flush E (ps_pool s) = (r, m') \<Longrightarrow> mempool_step E s r (s\<lparr>ps_pool := m'\<rparr>)"
| update: "pool_Update E conn now h txs resps f g (ps_pool s) = (r, m') \<Longrightarrow> length txs = length resps \<Longrightarrow>
    hook_returns f g \<Longrightarrow> \<forall>tx p. snd (conn tx) \<noteq> Panic p \<Longrightarrow> mempool_step E s r (s\<lparr>ps_pool := m'\<rparr>)"
| enable: "mempool_step E s (Ok ()) (s\<lparr>ps_pool := EnableTxsAvailable (ps_pool s)\<rparr>)"
| receive: "tp_txsAvailable (ps_pool s) = Some True \<Longrightarrow>
    mempool_step E s (Ok ()) (s\<lparr>ps_pool := (ps_pool s)\<lparr>tp_txsAvailable := Some False\<rparr>\<rparr>)"

inductive mempool_run :: "mempool_env \<Rightarrow> pool_system \<Rightarrow> bool" for E where
  start: "mempool_run E \<lparr>ps_pool = NewTxMempool (me_config E) h [], ps_pending = []\<rparr>"
| step: "mempool_run E s \<Longrightarrow> mempool_step E s r s' \<Longrightarrow> mempool_run E s'"

definition system_ok :: "mempool_env \<Rightarrow> pool_system \<Rightarrow> bool" where
  "system_ok E s \<longleftrightarrow> (\<exists>es. in_order E (ps_pool s) es) \<and>
     (\<forall>p \<in> set (ps_pending s). int (length (pc_tx p)) \<le> mc_MaxTxBytes (me_config E))"

lemma system_okI:
  "in_order E m es \<Longrightarrow> (\<And>p. p \<in> set ps \<Longrightarrow> int (length (pc_tx p)) \<le> mc_MaxTxBytes (me_config E)) \<Longrightarrow>
   system_ok E \<lparr>ps_pool = m, ps_pending = ps\<rparr>"
  by (auto simp: system_ok_def)

lemma in_order_settings:
  "pool E m' es' \<Longrightarrow> within_limits (me_config E) es' \<Longrightarrow> same_settings m m' \<Longrightarrow> hooks_ok m \<Longrightarrow> in_order E m' es'"
  by (simp add: in_order_def hooks_settings)

lemma in_order_new: "in_order E (NewTxMempool cfg h []) []"
proof -
  have "cache_ok (tp_cache (NewTxMempool cfg h []))"
    by (simp add: NewTxMempool_def Let_def lru_ok_New)
  then show ?thesis
    using contents_new [where 'a = WrappedTx]
    by (simp add: in_order_def pool_def within_limits_def hooks_ok_def)
      (simp add: NewTxMempool_def newWithMax_def clist_Init_def)
qed

text \<open>Each step keeps the system in order and does not panic.\<close>

lemma CheckTx_safe:
  assumes o: "in_order E m es" and run: "CheckTx E connError flushSync tx i m = (r, m')"
    and fl: "\<forall>p. flushSync \<noteq> Panic p"
  shows "(\<exists>es'. in_order E m' es') \<and> (\<forall>q. r \<noteq> Panic q) \<and>
    (\<forall>p. r = Ok p \<longrightarrow> pc_tx p = tx \<and> int (length tx) \<le> mc_MaxTxBytes (me_config E))"
proof -
  have p: "pool E m es" and h: "hooks_ok m" and lim: "within_limits (me_config E) es"
    using o by (simp_all add: in_order_def)
  obtain res m1 es' where a: "admit_tx E connError tx i m = (res, m1)" "\<forall>q. res \<noteq> Panic q" "frame m m1" "pool E m1 es'"
    "es' = es \<or> (\<exists>a. es' = change_at a (SetPeer i) es)"
    "\<forall>ht. res = Ok ht \<longrightarrow> int (length tx) \<le> mc_MaxTxBytes (me_config E) \<and> ht = tp_height m"
    using admit_tx_run [OF p h, of connError tx i] by blast
  have "in_order E m1 es'"
    using a lim h frame_settings [OF a(3)] within_limits_change_at [of "SetPeer i" "me_config E" _ es]
    by (auto intro: in_order_settings)
  moreover have "m' = m1"
    using run a(1) by (cases res) (auto simp: CheckTx_def bind_cmd_def)
  moreover have "(\<forall>q. r \<noteq> Panic q) \<and> (\<forall>p. r = Ok p \<longrightarrow> pc_tx p = tx \<and> int (length tx) \<le> mc_MaxTxBytes (me_config E))"
    using run a(1,2,6) fl by (cases res; cases flushSync) (auto simp: CheckTx_def bind_cmd_def)
  ultimately show ?thesis by blast
qed

lemma check_callback_safe:
  assumes o: "in_order E m es" and cfg: "config_ok (me_config E)" and a: "permutes_lists arrange"
    and p: "int (length (pc_tx p)) \<le> mc_MaxTxBytes (me_config E)"
  shows "\<exists>v m' es'. check_callback E arrange now p res m = (Ok v, m') \<and> in_order E m' es'"
proof -
  let ?w = "SetPeer (pc_senderID p)
    \<lparr>w_tx = pc_tx p, w_hash = me_Key E (pc_tx p), w_height = pc_height p, w_timestamp = now,
      w_gasWanted = 0, w_priority = 0, w_sender = [], w_peers = []\<rparr>"
  have "w_Size ?w \<le> mc_MaxTxBytes (me_config E)"
    using p by (simp add: w_Size_def)
  with initialTxCallback_safe [of E m es ?w arrange res] o cfg a show ?thesis
    unfolding check_callback_def by (auto simp: in_order_def hooks_settings)
qed

lemma step_safe:
  assumes step: "mempool_step E s r s'" and ok: "system_ok E s" and cfg: "config_ok (me_config E)"
  shows "system_ok E s' \<and> (\<forall>q. r \<noteq> Panic q)"
proof -
  obtain es where o: "in_order E (ps_pool s) es"
    and pend: "p \<in> set (ps_pending s) \<Longrightarrow> int (length (pc_tx p)) \<le> mc_MaxTxBytes (me_config E)" for p
    using ok by (auto simp: system_ok_def)
  have p: "pool E (ps_pool s) es" and h: "hooks_ok (ps_pool s)" and lim: "within_limits (me_config E) es"
    using o by (simp_all add: in_order_def)
  show ?thesis
    using step
  proof cases
    case (check_tx connError flushSync tx i r m')
    with CheckTx_safe [OF o check_tx(3,4)] pend show ?thesis
      by (cases r) (auto intro!: system_okI)
  next
    case (answer p arrange now res r m')
    with check_callback_safe [OF o cfg answer(4) pend [OF answer(3)], of now res] pend show ?thesis
      by (auto intro!: system_okI dest: notin_set_remove1)
  next
    case (recheck_answer tx res m')
    with recheckTxCallback_run [OF p h, of tx res] ok lim h show ?thesis
      by (auto simp: system_ok_def intro: in_order_settings rechecked_limits)
  next
    case (remove k m')
    then have "in_order E m' (drop_key E (ps_pool s) k es) \<and> (\<forall>q. r \<noteq> Panic q)"
      using removeTxByKey_run [OF p, of k] drop_key_limits [OF lim] h
      by (auto simp: RemoveTxByKey_def intro: in_order_settings dest: frame_settings)
    with remove ok show ?thesis
      by (auto simp: system_ok_def)
  next
    case (flush m')
    obtain m1 where m1: "pool_Flush E (ps_pool s) = (Ok (), m1)" "pool E m1 []"
      "frame (ps_pool s) (m1\<lparr>tp_txRecheck := tp_txRecheck (ps_pool s)\<rparr>)"
      using pool_Flush_run [OF p] by blast
    then have "in_order E m1 []"
      using h by (intro in_order_settings) (auto simp: within_limits_def frame_def same_settings_def)
    with flush m1(1) ok show ?thesis
      by (auto simp: system_ok_def)
  next
    case (update conn now ht txs resps f g m')
    with pool_Update_run [OF o, of txs resps f g conn now ht] ok show ?thesis
      by (auto simp: system_ok_def)
  next
    case enable
    then show ?thesis
      using o ok by (auto simp: system_ok_def EnableTxsAvailable_def in_order_def hooks_ok_def)
  next
    case receive
    then show ?thesis
      using o ok by (auto simp: system_ok_def in_order_def hooks_ok_def)
  qed
qed

lemma run_safe: "mempool_run E s \<Longrightarrow> config_ok (me_config E) \<Longrightarrow> system_ok E s"
proof (induction rule: mempool_run.induct)
  case (start h)
  show ?case by (rule system_okI [OF in_order_new]) simp
next
  case (step s r s')
  with step_safe show ?case by blast
qed

end
