(* ===== verification/Rpc.thy ===== *)
theory Rpc
  imports IndexerService MempoolRun "HOL-Library.Signed_Division"
begin

text \<open>
  The RPC client of \<open>src/rpc/client/client.go\<close>, as far as it answers from the store, the indexes, the
  mempool and the genesis document. The store, both indexes and the block store's keys are views of the
  node's one database. Parsing queries, merkle proofs and the accessors of tendermint's validator sets
  and blocks are fields of \<open>rpc_env\<close>; publishing a transaction to the network is a parameter of the
  operations that do it.
\<close>

subsection \<open>What the client calls\<close>

record ('db, 'vs, 'pvs, 'proof) rpc_env =
  re_bdg :: "'db badger"
  re_store :: "('vs, 'pvs) store_env"
  re_tx :: txindex_env
  re_block :: blockindex_env
  re_NewQuery :: "gostring \<Rightarrow> Condition list outcome outcome"
  re_Validators :: "'vs \<Rightarrow> Validator list"
  re_GetByAddress :: "'vs \<Rightarrow> bytes \<Rightarrow> Validator option"
  re_ProofsFromByteSlices :: "bytes list \<Rightarrow> bytes \<times> 'proof list"
  re_Block_Size :: "tmBlock \<Rightarrow> int"

abbreviation re_kv :: "('db, 'vs, 'pvs, 'proof) rpc_env \<Rightarrow> 'db KVStore" where
  "re_kv R \<equiv> mainKV (re_bdg R)"

abbreviation re_tm :: "('db, 'vs, 'pvs, 'proof) rpc_env \<Rightarrow> tm_funs" where
  "re_tm R \<equiv> se_tm (re_store R)"

subsection \<open>Pages\<close>

definition defaultPerPage :: int where
  "defaultPerPage = 30"

definition maxPerPage :: int where
  "maxPerPage = 100"

definition validatePerPage :: "int option \<Rightarrow> int" where
  "validatePerPage perPagePtr =
     (case perPagePtr of
        None \<Rightarrow> defaultPerPage
      | Some perPage \<Rightarrow>
          if perPage < 1 then defaultPerPage else if perPage > maxPerPage then maxPerPage else perPage)"

text \<open>Go's division rounds towards zero.\<close>

definition validatePage :: "int option \<Rightarrow> int \<Rightarrow> int \<Rightarrow> int outcome" where
  "validatePage pagePtr perPage totalCount =
     (if perPage < 1 then Panic ''zero or negative perPage''
      else
        case pagePtr of
          None \<Rightarrow> Ok 1
        | Some page \<Rightarrow>
            if page \<le> 0 then Ok 1
            else
              let pages = i64 ((totalCount - 1) sdiv perPage + 1);
                  pages' = (if pages = 0 then 1 else pages)
              in if page > pages' then Err (Errorf ''page should be within range'') else Ok page)"

definition validateSkipCount :: "int \<Rightarrow> int \<Rightarrow> int" where
  "validateSkipCount page perPage =
     (let skipCount = i64 ((page - 1) * perPage) in if skipCount < 0 then 0 else skipCount)"

text \<open>The slice \<open>xs[i:j]\<close>.\<close>

definition go_slice :: "'a list \<Rightarrow> int \<Rightarrow> int \<Rightarrow> 'a list outcome" where
  "go_slice xs i j =
     (if 0 \<le> i \<and> i \<le> j \<and> j \<le> int (length xs) then Ok (take (nat (j - i)) (drop (nat i) xs))
      else Panic ''slice bounds out of range'')"

text \<open>What the three paginated answers do with a list: its part for the page.\<close>

definition paginate :: "int option \<Rightarrow> int option \<Rightarrow> 'a list \<Rightarrow> 'a list outcome" where
  "paginate pagePtr perPagePtr xs =
     (let totalCount = int (length xs); perPage = validatePerPage perPagePtr in
      bind_out (validatePage pagePtr perPage totalCount) (\<lambda>page.
        let skipCount = validateSkipCount page perPage
        in go_slice xs skipCount (skipCount + min perPage (totalCount - skipCount))))"

subsection \<open>Heights\<close>

definition normalizeHeight :: "'db DefaultStore \<Rightarrow> int option \<Rightarrow> u64" where
  "normalizeHeight s height =
     (case height of None \<Rightarrow> st_height s | Some h \<Rightarrow> if h = 0 then st_height s else uint64_of h)"

definition filterMinMax :: "int \<Rightarrow> int \<Rightarrow> int \<Rightarrow> int \<Rightarrow> int \<Rightarrow> (int \<times> int) outcome" where
  "filterMinMax base height mn mx limit =
     (if mn < 0 \<or> mx < 0 then Err (Errorf ''height must be greater than zero'')
      else
        let mn1 = (if mn = 0 then 1 else mn);
            mx1 = (if mx = 0 then height else mx);
            mx2 = min height mx1;
            mn2 = max base mn1;
            mn3 = max mn2 (i64 (mx2 - limit + 1))
        in if mn3 > mx2 then Err (Errorf ''invalid request: min height cannot be greater than max height'')
           else Ok (mn3, mx2))"

subsection \<open>Blocks\<close>

record BlockMeta =
  bm_BlockID :: BlockID
  bm_BlockSize :: int
  bm_Header :: tmHeader
  bm_NumTxs :: int

definition ToABCIBlockMeta :: "('db, 'vs, 'pvs, 'proof) rpc_env \<Rightarrow> Block \<Rightarrow> BlockMeta" where
  "ToABCIBlockMeta R block =
     (let tmblock = ToABCIBlock (re_tm R) block
      in \<lparr>bm_BlockID = \<lparr>bid_Hash = tm_Header_Hash (re_tm R) (tb_Header tmblock), bid_PartSetHeader = \<lparr>ps_Total = 0, ps_Hash = []\<rparr>\<rparr>,
          bm_BlockSize = re_Block_Size R tmblock, bm_Header = tb_Header tmblock, bm_NumTxs = int (length (tb_Txs tmblock))\<rparr>)"

text \<open>The loop of \<open>BlockchainInfo\<close> from \<open>height\<close> down, \<open>n\<close> heights.\<close>

fun block_metas :: "('db, 'vs, 'pvs, 'proof) rpc_env \<Rightarrow> 'db DefaultStore \<Rightarrow> int \<Rightarrow> nat \<Rightarrow> BlockMeta list outcome" where
  "block_metas R s height 0 = Ok []"
| "block_metas R s height (Suc n) =
     bind_out (LoadBlock (re_store R) (re_kv R) s (uint64_of height)) (\<lambda>block.
     bind_out (block_metas R s (height - 1) n) (\<lambda>ms. Ok (ToABCIBlockMeta R block # ms)))"

definition BlockchainInfo :: "('db, 'vs, 'pvs, 'proof) rpc_env \<Rightarrow> 'db DefaultStore \<Rightarrow> int \<Rightarrow> int \<Rightarrow> (int \<times> BlockMeta list) outcome" where
  "BlockchainInfo R s minHeight maxHeight =
     bind_out (filterMinMax 0 (int64_of (st_height s)) minHeight maxHeight 20) (\<lambda>(mn, mx).
     bind_out (block_metas R s mx (nat (mx - mn + 1))) (\<lambda>blocks.
       Ok (int64_of (st_height s), blocks)))"

record ResultBlock =
  rb_BlockID :: BlockID
  rb_Block :: tmBlock

definition rpc_Block :: "('db, 'vs, 'pvs, 'proof) rpc_env \<Rightarrow> 'db DefaultStore \<Rightarrow> int option \<Rightarrow> ResultBlock outcome" where
  "rpc_Block R s height =
     bind_out (LoadBlock (re_store R) (re_kv R) s (normalizeHeight s height)) (\<lambda>block.
       let hash = Header_Hash (re_tm R) (b_Header block)
       in Ok \<lparr>rb_BlockID = \<lparr>bid_Hash = hash, bid_PartSetHeader = \<lparr>ps_Total = 1, ps_Hash = hash\<rparr>\<rparr>,
              rb_Block = ToABCIBlock (re_tm R) block\<rparr>)"

definition BlockByHash :: "('db, 'vs, 'pvs, 'proof) rpc_env \<Rightarrow> 'db DefaultStore \<Rightarrow> bytes \<Rightarrow> ResultBlock outcome" where
  "BlockByHash R s hash =
     (let h = go_copy (zero_bytes 32) hash in
      bind_out (LoadBlockByHash (re_store R) (re_kv R) s h) (\<lambda>block.
        Ok \<lparr>rb_BlockID = \<lparr>bid_Hash = h, bid_PartSetHeader = \<lparr>ps_Total = 1, ps_Hash = h\<rparr>\<rparr>,
            rb_Block = ToABCIBlock (re_tm R) block\<rparr>))"

record ResultBlockResults =
  br_Height :: int
  br_TxsResults :: "ResponseDeliverTx list"
  br_BeginBlockEvents :: "Event list"
  br_EndBlock :: ResponseEndBlock

definition BlockResults :: "('db, 'vs, 'pvs, 'proof) rpc_env \<Rightarrow> 'db DefaultStore \<Rightarrow> int option \<Rightarrow> ResultBlockResults outcome" where
  "BlockResults R s height =
     (let h = (case height of None \<Rightarrow> st_height s | Some x \<Rightarrow> uint64_of x) in
      bind_out (LoadBlockResponses (re_store R) (re_kv R) s h) (\<lambda>resp.
        case (ar_BeginBlock resp, ar_EndBlock resp) of
          (Some beginEvents, Some endBlock) \<Rightarrow>
            Ok \<lparr>br_Height = int64_of h, br_TxsResults = ar_DeliverTxs resp, br_BeginBlockEvents = beginEvents, br_EndBlock = endBlock\<rparr>
        | _ \<Rightarrow> Panic ''nil pointer dereference''))"

definition rpc_Commit :: "('db, 'vs, 'pvs, 'proof) rpc_env \<Rightarrow> 'db DefaultStore \<Rightarrow> int option \<Rightarrow> (tmHeader \<times> tmCommit) outcome" where
  "rpc_Commit R s height =
     (let heightValue = normalizeHeight s height in
      bind_out (LoadCommit (re_store R) (re_kv R) s heightValue) (\<lambda>com.
      bind_out (LoadBlock (re_store R) (re_kv R) s heightValue) (\<lambda>b.
        Ok (tb_Header (ToABCIBlock (re_tm R) b), ToABCICommit (re_tm R) com (b_Header b)))))"

definition rpc_Validators :: "('db, 'vs, 'pvs, 'proof) rpc_env \<Rightarrow> 'db DefaultStore \<Rightarrow> int option \<Rightarrow> int option \<Rightarrow> int option \<Rightarrow>
    (int \<times> Validator list \<times> int) outcome" where
  "rpc_Validators R s heightPtr pagePtr perPagePtr =
     (let height = normalizeHeight s heightPtr in
      bind_out (wrap_err ''failed to load validators'' (LoadValidators (re_store R) (re_kv R) s height)) (\<lambda>validators.
      bind_out (paginate pagePtr perPagePtr (re_Validators R validators)) (\<lambda>v.
        Ok (int64_of height, v, int (length (re_Validators R validators))))))"

subsection \<open>Transactions\<close>

record 'proof TxProof =
  tp_RootHash :: bytes
  tp_Data :: Tx
  tp_Proof :: 'proof

text \<open>\<open>Txs.Proof(i)\<close> of \<open>types/tx.go\<close>.\<close>

definition Txs_Proof :: "('db, 'vs, 'pvs, 'proof) rpc_env \<Rightarrow> Tx list \<Rightarrow> nat \<Rightarrow> 'proof TxProof outcome" where
  "Txs_Proof R txs i =
     (case re_ProofsFromByteSlices R (map (te_Hash (re_tx R)) txs) of
        (root, proofs) \<Rightarrow>
          if i < length txs \<and> i < length proofs
          then Ok \<lparr>tp_RootHash = root, tp_Data = txs ! i, tp_Proof = proofs ! i\<rparr>
          else Panic ''index out of range'')"

record 'proof ResultTx =
  rt_Hash :: bytes
  rt_Result :: TxResult
  rt_Proof :: "'proof TxProof option"

definition rpc_Tx :: "('db, 'vs, 'pvs, 'proof) rpc_env \<Rightarrow> 'db DefaultStore \<Rightarrow> bytes \<Rightarrow> bool \<Rightarrow> 'proof ResultTx outcome" where
  "rpc_Tx R s hash prove =
     bind_out (TxIndex_Get (re_tx R) (indexerKV (re_bdg R)) (st_db s) hash) (\<lambda>res.
       case res of
         None \<Rightarrow> Err (Errorf ''tx not found'')
       | Some r \<Rightarrow>
           if \<not> prove then Ok \<lparr>rt_Hash = hash, rt_Result = r, rt_Proof = None\<rparr>
           else
             (case LoadBlock (re_store R) (re_kv R) s (uint64_of (tr_Height r)) of
                Ok block \<Rightarrow>
                  bind_out (Txs_Proof R (d_Txs (b_Data block)) (unat (tr_Index r))) (\<lambda>proof.
                    Ok \<lparr>rt_Hash = hash, rt_Result = r, rt_Proof = Some proof\<rparr>)
              | Err e \<Rightarrow> Panic ''nil pointer dereference''
              | Panic p \<Rightarrow> Panic p))"

text \<open>
  Results are sorted by their place in the chain. \<open>arrange\<close> is the order in which the search left
  them, which the source does not fix.
\<close>

definition earlier :: "TxResult \<Rightarrow> TxResult \<Rightarrow> bool" where
  "earlier a b \<longleftrightarrow> (if tr_Height a = tr_Height b then tr_Index a < tr_Index b else tr_Height a < tr_Height b)"

definition later :: "TxResult \<Rightarrow> TxResult \<Rightarrow> bool" where
  "later a b \<longleftrightarrow> (if tr_Height a = tr_Height b then tr_Index a > tr_Index b else tr_Height a > tr_Height b)"

definition desc :: gostring where "desc = [0x64, 0x65, 0x73, 0x63]"
definition asc :: gostring where "asc = [0x61, 0x73, 0x63]"

definition TxSearch :: "('db, 'vs, 'pvs, 'proof) rpc_env \<Rightarrow> (TxResult list \<Rightarrow> TxResult list) \<Rightarrow> 'db DefaultStore \<Rightarrow> gostring \<Rightarrow>
    int option \<Rightarrow> int option \<Rightarrow> gostring \<Rightarrow> ctx \<Rightarrow> ('proof ResultTx list \<times> int) outcome" where
  "TxSearch R arrange s query pagePtr perPagePtr orderBy ctx =
     bind_out (re_NewQuery R query) (\<lambda>q.
     bind_out (TxIndex_Search (re_tx R) (indexerKV (re_bdg R)) (st_db s) q ctx) (\<lambda>results.
     bind_out
       (if orderBy = desc then Ok (sort_slice later (arrange results))
        else if orderBy = asc \<or> orderBy = [] then Ok (sort_slice earlier (arrange results))
        else Err (Errorf ''expected order_by to be either `asc` or `desc` or empty'')) (\<lambda>sorted.
     bind_out (paginate pagePtr perPagePtr sorted) (\<lambda>page.
       Ok (map (\<lambda>r. \<lparr>rt_Hash = te_Hash (re_tx R) (tr_Tx r), rt_Result = r, rt_Proof = None\<rparr>) page, int (length sorted))))))"

fun load_blocks :: "('db, 'vs, 'pvs, 'proof) rpc_env \<Rightarrow> 'db DefaultStore \<Rightarrow> int list \<Rightarrow> ResultBlock list outcome" where
  "load_blocks R s [] = Ok []"
| "load_blocks R s (h # hs) =
     bind_out (LoadBlock (re_store R) (re_kv R) s (uint64_of h)) (\<lambda>b.
       let block = ToABCIBlock (re_tm R) b in
       bind_out (load_blocks R s hs) (\<lambda>bs.
         Ok (\<lparr>rb_BlockID = \<lparr>bid_Hash = tm_Header_Hash (re_tm R) (tb_Header block), bid_PartSetHeader = \<lparr>ps_Total = 0, ps_Hash = []\<rparr>\<rparr>,
              rb_Block = block\<rparr> # bs)))"

definition BlockSearch :: "('db, 'vs, 'pvs, 'proof) rpc_env \<Rightarrow> 'db DefaultStore \<Rightarrow> gostring \<Rightarrow> int option \<Rightarrow> int option \<Rightarrow> gostring \<Rightarrow> ctx \<Rightarrow>
    (ResultBlock list \<times> int) outcome" where
  "BlockSearch R s query page perPage orderBy ctx =
     bind_out (re_NewQuery R query) (\<lambda>q.
     bind_out (Block_Search (re_block R) (blockKV (re_bdg R)) (st_db s) q ctx) (\<lambda>results.
     bind_out
       (if orderBy = desc then Ok (rev (sort results))
        else if orderBy = asc \<or> orderBy = [] then Ok (sort results)
        else Err (Errorf ''expected order_by to be either `asc` or `desc` or empty'')) (\<lambda>sorted.
     bind_out (paginate page perPage sorted) (\<lambda>heights.
     bind_out (load_blocks R s heights) (\<lambda>blocks. Ok (blocks, int (length sorted)))))))"

subsection \<open>Broadcasting transactions\<close>

text \<open>
  The mempool is that of theory \<open>Mempool\<close>. \<open>res\<close> is the application's answer to the check, run by the
  connection before the client sees it; \<open>gossip\<close> is the outcome of publishing the transaction. Of a
  response, code and hash are kept.
\<close>

record ResultBroadcastTx =
  bt_Code :: u32
  bt_Hash :: bytes

definition checked :: "mempool_env \<Rightarrow> arrange_victims \<Rightarrow> gotime \<Rightarrow> error option \<Rightarrow> unit outcome \<Rightarrow> ResponseCheckTx option \<Rightarrow> Tx \<Rightarrow>
    (TxMempool, ResponseCheckTx) cmd" where
  "checked E arrange now connError flushSync res tx =
     bind_cmd (CheckTx E connError flushSync tx 0) (\<lambda>p.
     bind_cmd (check_callback E arrange now p res) (\<lambda>_.
       lift_out (\<lambda>_. case res of None \<Rightarrow> Panic ''nil pointer dereference'' | Some r \<Rightarrow> Ok r)))"

definition BroadcastTxSync :: "mempool_env \<Rightarrow> arrange_victims \<Rightarrow> (Tx \<Rightarrow> bytes) \<Rightarrow> gotime \<Rightarrow> error option \<Rightarrow> unit outcome \<Rightarrow>
    ResponseCheckTx option \<Rightarrow> (Tx \<Rightarrow> unit outcome) \<Rightarrow> Tx \<Rightarrow> (TxMempool, ResultBroadcastTx) cmd" where
  "BroadcastTxSync E arrange hash now connError flushSync res gossip tx =
     bind_cmd (checked E arrange now connError flushSync res tx) (\<lambda>r m.
       if ct_Code r = CodeTypeOK
       then (case gossip tx of
               Ok _ \<Rightarrow> (Ok \<lparr>bt_Code = ct_Code r, bt_Hash = hash tx\<rparr>, m)
             | Err e \<Rightarrow>
                 (case RemoveTxByKey (me_Key E tx) m of
                    (Panic p, m') \<Rightarrow> (Panic p, m')
                  | (_, m') \<Rightarrow> (Err (Wrapf ''failed to gossip tx'' e), m'))
             | Panic p \<Rightarrow> (Panic p, m))
       else (Ok \<lparr>bt_Code = ct_Code r, bt_Hash = hash tx\<rparr>, m))"

text \<open>The check is left pending; the answer to the client does not wait for it.\<close>

definition BroadcastTxAsync :: "mempool_env \<Rightarrow> (Tx \<Rightarrow> bytes) \<Rightarrow> error option \<Rightarrow> unit outcome \<Rightarrow> (Tx \<Rightarrow> unit outcome) \<Rightarrow> Tx \<Rightarrow>
    TxMempool \<Rightarrow> ResultBroadcastTx outcome \<times> pending_check option \<times> TxMempool" where
  "BroadcastTxAsync E hash connError flushSync gossip tx m =
     (case CheckTx E connError flushSync tx 0 m of
        (Ok p, m') \<Rightarrow>
          (bind_out (wrap_err ''tx added to local mempool but failed to gossip'' (gossip tx))
             (\<lambda>_. Ok \<lparr>bt_Code = 0, bt_Hash = hash tx\<rparr>), Some p, m')
      | (Err e, m') \<Rightarrow> (Err e, None, m')
      | (Panic p, m') \<Rightarrow> (Panic p, None, m'))"

text \<open>
  \<open>sub\<close> is the outcome of subscribing to the transaction, \<open>wait\<close> what comes first after it was
  published: its event, the end of the subscription, or the timeout.
\<close>

datatype tx_wait = Included int ResponseDeliverTx | Cancelled "error option" | TimedOut

record ResultBroadcastTxCommit =
  bc_CheckTx :: ResponseCheckTx
  bc_DeliverTx :: "ResponseDeliverTx option"
  bc_Hash :: bytes
  bc_Height :: int

definition IsSubscriptionAllowed :: "int \<Rightarrow> int \<Rightarrow> int \<Rightarrow> int \<Rightarrow> unit outcome" where
  "IsSubscriptionAllowed numClients maxSubscriptionClients numClientSubscriptions maxSubscriptionsPerClient =
     (if numClients \<ge> maxSubscriptionClients then Err (Errorf ''max_subscription_clients reached'')
      else if numClientSubscriptions \<ge> maxSubscriptionsPerClient then Err (Errorf ''max_subscriptions_per_client reached'')
      else Ok ())"

definition BroadcastTxCommit :: "mempool_env \<Rightarrow> arrange_victims \<Rightarrow> (Tx \<Rightarrow> bytes) \<Rightarrow> gotime \<Rightarrow> error option \<Rightarrow> unit outcome \<Rightarrow>
    ResponseCheckTx option \<Rightarrow> (Tx \<Rightarrow> unit outcome) \<Rightarrow> unit outcome \<Rightarrow> unit outcome \<Rightarrow> tx_wait \<Rightarrow> Tx \<Rightarrow>
    (TxMempool, ResultBroadcastTxCommit) cmd" where
  "BroadcastTxCommit E arrange hash now connError flushSync res gossip allowed sub wait tx =
     bind_cmd (lift_out (\<lambda>_. wrap_err ''subscription not allowed'' allowed)) (\<lambda>_.
     bind_cmd (lift_out (\<lambda>_. wrap_err ''failed to subscribe to tx'' sub)) (\<lambda>_ m.
       case checked E arrange now connError flushSync res tx m of
         (Err e, m') \<Rightarrow> (Err (Wrapf ''error on broadcastTxCommit'' e), m')
       | (Panic p, m') \<Rightarrow> (Panic p, m')
       | (Ok r, m') \<Rightarrow>
           if ct_Code r \<noteq> CodeTypeOK
           then (Ok \<lparr>bc_CheckTx = r, bc_DeliverTx = None, bc_Hash = hash tx, bc_Height = 0\<rparr>, m')
           else
             (bind_out (wrap_err ''tx added to local mempool but failure to broadcast'' (gossip tx)) (\<lambda>_.
                case wait of
                  Included height d \<Rightarrow> Ok \<lparr>bc_CheckTx = r, bc_DeliverTx = Some d, bc_Hash = hash tx, bc_Height = height\<rparr>
                | Cancelled _ \<Rightarrow> Err (Errorf ''deliverTxSub was cancelled'')
                | TimedOut \<Rightarrow> Err (Errorf ''timed out waiting for tx to be included in a block'')), m')))"

definition NumUnconfirmedTxs :: "TxMempool \<Rightarrow> int \<times> int \<times> int" where
  "NumUnconfirmedTxs m = (pool_Size m, pool_Size m, SizeBytes m)"

definition UnconfirmedTxs :: "(WrappedTx list \<Rightarrow> WrappedTx list) \<Rightarrow> int option \<Rightarrow> TxMempool \<Rightarrow> int \<times> int \<times> int \<times> Tx list" where
  "UnconfirmedTxs arrange limitPtr m =
     (let txs = ReapMaxTxs arrange (validatePerPage limitPtr) m
      in (int (length txs), pool_Size m, SizeBytes m, txs))"

subsection \<open>Status\<close>

record SyncInfo =
  si_LatestBlockHash :: bytes
  si_LatestAppHash :: bytes
  si_LatestBlockHeight :: int
  si_LatestBlockTime :: gotime

text \<open>Loading the state sets the heights of the store.\<close>

definition Status :: "('db, 'vs, 'pvs, 'proof) rpc_env \<Rightarrow> ('db DefaultStore, SyncInfo \<times> tmVersion \<times> Validator) cmd" where
  "Status R =
     bind_cmd (lift_out (\<lambda>s. wrap_err ''failed to find latest block'' (LoadBlock (re_store R) (re_kv R) s (st_height s)))) (\<lambda>latest.
     bind_cmd (lift_out (\<lambda>s. wrap_err ''failed to fetch the validator info at latest block''
         (LoadValidators (re_store R) (re_kv R) s (h_Height (b_Header latest))))) (\<lambda>validators.
     bind_cmd (lift_out (\<lambda>_. case re_GetByAddress R validators (h_ProposerAddress (b_Header latest)) of
         None \<Rightarrow> Err (Errorf ''failed to find proposer in the valSet'') | Some v \<Rightarrow> Ok v)) (\<lambda>validator.
     bind_cmd (\<lambda>s. map_prod (wrap_err ''failed to load the last saved state'') id (LoadState (re_store R) (re_kv R) s)) (\<lambda>state.
       ret (\<lparr>si_LatestBlockHash = h_DataHash (b_Header latest), si_LatestAppHash = h_AppHash (b_Header latest),
             si_LatestBlockHeight = int64_of (h_Height (b_Header latest)), si_LatestBlockTime = Unix_ns (h_Time (b_Header latest))\<rparr>,
            s_Version state, validator)))))"

subsection \<open>The genesis in chunks\<close>

text \<open>\<open>base64.StdEncoding\<close>: three bytes are four characters, a rest is padded.\<close>

definition b64_char :: "nat \<Rightarrow> byte" where
  "b64_char n =
     (if n < 26 then 0x41 + word_of_nat n
      else if n < 52 then 0x61 + word_of_nat (n - 26)
      else if n < 62 then 0x30 + word_of_nat (n - 52)
      else if n = 62 then 0x2b else 0x2f)"

fun EncodeToString :: "bytes \<Rightarrow> gostring" where
  "EncodeToString [] = []"
| "EncodeToString [a] = [b64_char (unat a div 4), b64_char (unat a mod 4 * 16), 0x3d, 0x3d]"
| "EncodeToString [a, b] =
     [b64_char (unat a div 4), b64_char (unat a mod 4 * 16 + unat b div 16), b64_char (unat b mod 16 * 4), 0x3d]"
| "EncodeToString (a # b # c # rest) =
     [b64_char (unat a div 4), b64_char (unat a mod 4 * 16 + unat b div 16),
      b64_char (unat b mod 16 * 4 + unat c div 64), b64_char (unat c mod 64)] @ EncodeToString rest"

definition genesisChunkSize :: nat where
  "genesisChunkSize = 16 * 1024 * 1024"

text \<open>The loop over the data, in slices of \<open>n\<close> bytes.\<close>

function chunks :: "nat \<Rightarrow> bytes \<Rightarrow> gostring list" where
  "chunks n dat =
     (if dat = [] \<or> n = 0 then [] else EncodeToString (take n dat) # chunks n (drop n dat))"
  by auto
termination chunks
  by (relation "measure (\<lambda>(n, dat). length dat)") auto

declare chunks.simps [simp del]

text \<open>\<open>genesis\<close> is the JSON encoding of the document, if there is one; \<open>cached\<close> are the chunks so far, an empty list being nil.\<close>

definition initGenesisChunks :: "bytes outcome option \<Rightarrow> gostring list \<Rightarrow> gostring list outcome" where
  "initGenesisChunks genesis cached =
     (if cached \<noteq> [] then Ok cached
      else case genesis of
             None \<Rightarrow> Ok cached
           | Some r \<Rightarrow> bind_out r (\<lambda>dat. Ok (cached @ chunks genesisChunkSize dat)))"

record ResultGenesisChunk =
  gc_TotalChunks :: int
  gc_ChunkNumber :: int
  gc_Data :: gostring

definition GenesisChunked :: "bytes outcome option \<Rightarrow> gostring list \<Rightarrow> u64 \<Rightarrow> ResultGenesisChunk outcome" where
  "GenesisChunked genesis cached id' =
     bind_out (wrap_err ''error while creating chunks of the genesis document'' (initGenesisChunks genesis cached)) (\<lambda>genChunks.
       if genChunks = [] then Err (Errorf ''service configuration error, genesis chunks are not initialized'')
       else if int64_of id' > int (length genChunks) - 1 then Err (Errorf ''there are fewer chunks'')
       else if unat id' < length genChunks
       then Ok \<lparr>gc_TotalChunks = int (length genChunks), gc_ChunkNumber = int64_of id', gc_Data = genChunks ! unat id'\<rparr>
       else Panic ''index out of range'')"

end
