(* ===== verification/MempoolProps.thy ===== *)
theory MempoolProps
  imports MempoolRun
begin

text \<open>
  The properties of the mempool: safety of the system, admission by priority, reaping, the update
  after a block, and rechecking.
\<close>

subsection \<open>A small mempool\<close>

text \<open>Two transactions of at most ten bytes, no cache; a transaction is its own key.\<close>

definition sample_config :: "bool \<Rightarrow> MempoolConfig" where
  "sample_config recheck =
     \<lparr>mc_Recheck = recheck, mc_Size = 2, mc_MaxTxsBytes = 20, mc_CacheSize = 0, mc_KeepInvalidTxsInCache = False,
      mc_MaxTxBytes = 10, mc_TTLDuration = 0, mc_TTLNumBlocks = 0\<rparr>"

definition sample_pool_env :: "bool \<Rightarrow> mempool_env" where
  "sample_pool_env recheck =
     \<lparr>me_config = sample_config recheck, me_Key = (\<lambda>tx. tx), me_ComputeProtoSizeForTxs = (\<lambda>txs. int (length (concat txs)))\<rparr>"

definition sample_response :: "int \<Rightarrow> ResponseCheckTx" where
  "sample_response priority =
     \<lparr>ct_Code = 0, ct_GasWanted = 1, ct_Sender = [], ct_Priority = priority, ct_MempoolError = []\<rparr>"

definition sample_wtx :: "Tx \<Rightarrow> WrappedTx" where
  "sample_wtx tx =
     \<lparr>w_tx = tx, w_hash = tx, w_height = 1, w_timestamp = 0, w_gasWanted = 0, w_priority = 0, w_sender = [], w_peers = []\<rparr>"

definition sample_delivered :: ResponseDeliverTx where
  "sample_delivered =
     \<lparr>dt_Code = 0, dt_Data = [], dt_Log = [], dt_Info = [], dt_GasWanted = 1, dt_GasUsed = 1, dt_Events = [], dt_Codespace = []\<rparr>"

definition sample_pool :: "bool \<Rightarrow> TxMempool" where
  "sample_pool recheck = NewTxMempool (sample_config recheck) 1 []"

definition sample_add :: "bool \<Rightarrow> Tx \<Rightarrow> int \<Rightarrow> TxMempool \<Rightarrow> TxMempool" where
  "sample_add recheck tx priority m =
     snd (initialTxCallback (sample_pool_env recheck) (\<lambda>vs. vs) (sample_wtx tx) (Some (sample_response priority)) m)"

lemma sample_pool_facts:
  "config_ok (sample_config b)" "me_config (sample_pool_env b) = sample_config b"
  "in_order (sample_pool_env b) (sample_pool b) []" "indexed (sample_pool_env b) m []"
  "permutes_lists (\<lambda>xs :: 'x list. xs)" "w_Size (sample_wtx tx) = int (length tx)"
  "mc_Recheck (sample_config b) = b" "mc_MaxTxBytes (sample_config b) = 10"
  by (simp_all add: config_ok_def sample_config_def sample_pool_env_def sample_pool_def in_order_new indexed_def
      permutes_lists_def sample_wtx_def w_Size_def)

lemma sample_add_in_order:
  assumes "in_order (sample_pool_env b) m es" and "indexed (sample_pool_env b) m es"
    and "length tx \<le> 10" and "map_of (tp_txByKey m) tx = None"
  shows "\<exists>es'. in_order (sample_pool_env b) (sample_add b tx p m) es' \<and> indexed (sample_pool_env b) (sample_add b tx p m) es'"
proof -
  let ?E = "sample_pool_env b"
  have "\<exists>v m' es'. initialTxCallback ?E (\<lambda>vs. vs) (sample_wtx tx) (Some (sample_response p)) m = (Ok v, m') \<and>
      pool ?E m' es' \<and> within_limits (me_config ?E) es' \<and> same_settings m m' \<and>
      (indexed ?E m es \<and> me_Key ?E (w_tx (sample_wtx tx)) \<notin> entry_key ?E ` set es \<longrightarrow> indexed ?E m' es')"
    using assms(1,3) by (intro initialTxCallback_safe) (simp_all add: in_order_def sample_pool_facts)
  moreover have "me_Key ?E (w_tx (sample_wtx tx)) \<notin> entry_key ?E ` set es"
    using assms(2,4) by (auto simp: indexed_def sample_pool_env_def sample_wtx_def)
  ultimately obtain v m' es' where m': "initialTxCallback ?E (\<lambda>vs. vs) (sample_wtx tx) (Some (sample_response p)) m = (Ok v, m')"
    "pool ?E m' es'" "within_limits (me_config ?E) es'" "same_settings m m'" "indexed ?E m' es'"
    using assms(2) by blast
  then have "in_order ?E m' es'"
    using assms(1) in_order_settings by (auto simp: in_order_def)
  with m' show ?thesis by (auto simp: sample_add_def)
qed

definition sample_two :: "bool \<Rightarrow> TxMempool" where
  "sample_two b = sample_add b [2, 2] 7 (sample_add b [1] 5 (sample_pool b))"

lemma sample_two_in_order: "\<exists>es. in_order (sample_pool_env b) (sample_two b) es \<and> indexed (sample_pool_env b) (sample_two b) es"
proof -
  have "map_of (tp_txByKey (sample_pool True)) [1] = None" "map_of (tp_txByKey (sample_pool False)) [1] = None"
    "map_of (tp_txByKey (sample_add True [1] 5 (sample_pool True))) [2, 2] = None"
    "map_of (tp_txByKey (sample_add False [1] 5 (sample_pool False))) [2, 2] = None" by code_simp+
  then have new: "map_of (tp_txByKey (sample_pool b)) [1] = None"
    "map_of (tp_txByKey (sample_add b [1] 5 (sample_pool b))) [2, 2] = None" by (cases b, simp_all)+
  obtain es where "in_order (sample_pool_env b) (sample_add b [1] 5 (sample_pool b)) es"
    "indexed (sample_pool_env b) (sample_add b [1] 5 (sample_pool b)) es"
    using sample_add_in_order [OF sample_pool_facts(3,4) _ new(1)] by fastforce
  from sample_add_in_order [OF this _ new(2)] show ?thesis
    by (simp add: sample_two_def)
qed

subsection \<open>Safety\<close>

text \<open>
  C20: However checks, answers of the application, rechecks, removals, flushes and updates follow one
  another, no operation of the mempool panics, the list, its indexes, its length and its total agree,
  and the pool holds at most the configured number of transactions and bytes.
\<close>

theorem mempool_safe:
  assumes "config_ok (me_config E)" and "mempool_run E s" and "mempool_step E s r s'"
  shows "(\<forall>q. r \<noteq> Panic q) \<and>
    (\<exists>es. pool E (ps_pool s') es \<and> pool_Size (ps_pool s') = int (length es) \<and> SizeBytes (ps_pool s') = bytes_of es \<and>
      pool_Size (ps_pool s') \<le> max 0 (mc_Size (me_config E)) \<and>
      SizeBytes (ps_pool s') \<le> max 0 (mc_MaxTxsBytes (me_config E)))"
proof -
  have s': "system_ok E s'" and r: "\<forall>q. r \<noteq> Panic q"
    using step_safe [OF assms(3) run_safe [OF assms(2,1)] assms(1)] by auto
  then obtain es where "in_order E (ps_pool s') es"
    by (auto simp: system_ok_def)
  then have "pool E (ps_pool s') es" "within_limits (me_config E) es"
    by (simp_all add: in_order_def)
  with r poolD(4,5) [of E "ps_pool s'" es] show ?thesis
    by (auto simp: within_limits_def SizeBytes_def)
qed

theorem mempool_safe_witness:
  "\<exists>r s'. mempool_step (sample_pool_env False) \<lparr>ps_pool = sample_pool False, ps_pending = []\<rparr> r s' \<and>
     (\<forall>q. r \<noteq> Panic q) \<and> pool_Size (ps_pool s') \<le> 2"
proof -
  let ?E = "sample_pool_env False" and ?s = "\<lparr>ps_pool = sample_pool False, ps_pending = []\<rparr>"
  have "mempool_run ?E ?s"
    using mempool_run.start [of ?E 1] by (simp add: sample_pool_def sample_pool_facts)
  moreover obtain r m' where c: "CheckTx ?E None (Ok ()) [1] 0 (ps_pool ?s) = (r, m')"
    by (cases "CheckTx ?E None (Ok ()) [1] 0 (ps_pool ?s)")
  then obtain s' where s': "mempool_step ?E ?s (void r) s'"
    using mempool_step.check_tx [of ?E None "Ok ()" "[1]" 0 ?s r m'] by fastforce
  moreover have "config_ok (me_config ?E)" "mc_Size (me_config ?E) = 2"
    by (simp_all add: sample_pool_facts) (simp add: sample_config_def)
  ultimately show ?thesis
    using mempool_safe [of ?E ?s "void r" s'] by auto
qed

subsection \<open>Admission\<close>

lemma evicted_first:
  assumes p: "pool E m es" and a: "permutes_lists arrange"
    and v: "v \<in> set (evicted cfg arrange wtx p es)" and e: "e \<in> set es" "w_priority (snd e) < p"
    "e \<notin> set (evicted cfg arrange wtx p es)"
  shows "\<not> victim_before e v"
proof -
  let ?vs = "victims_for arrange p es"
  have gone: "evicted cfg arrange wtx p es = until_enough (w_Size wtx) 0 ?vs"
    using v by (auto simp: evicted_def split: if_splits)
  obtain rest where rest: "?vs = until_enough (w_Size wtx) 0 ?vs @ rest"
    using until_enough_prefix [of ?vs "w_Size wtx" 0] by auto
  have "e \<in> set ?vs"
    using e victims_for_set [OF a] by simp
  then have "e \<in> set rest"
    using e(3) rest gone by (metis Un_iff set_append)
  moreover have "sorted_wrt (\<lambda>x y. \<not> victim_before y x) ?vs"
    unfolding victims_for_def by (rule victim.sorted_sort_slice)
  ultimately show ?thesis
    using v unfolding gone by (subst (asm) rest) (auto simp: sorted_wrt_append)
qed

text \<open>
  C21: A transaction that the application and the post-check accept and whose sender has none in the
  pool gets in exactly when it fits or when transactions of strictly lower priority are at least as
  large as it: then only such transactions leave, the lowest priority and among equals the newest
  first and no more than needed, all others stay in their order in front of the new one, and the
  limits hold. Otherwise it is dropped and every entry stays.
\<close>

theorem admission_by_priority:
  assumes "in_order E m es" and "config_ok (me_config E)" and "permutes_lists arrange"
    and "w_Size wtx \<le> mc_MaxTxBytes (me_config E)" and "acceptable m wtx r"
  shows "\<exists>m'. if can_make_room (me_config E) wtx (ct_Priority r) es
     then initialTxCallback E arrange wtx (Some r) m = (Ok Inserted, m') \<and>
       (\<exists>gone rest b. rest = filter (\<lambda>e. e \<notin> set gone) es \<and>
         pool E m' (rest @ [(b, checked_tx wtx r)]) \<and> within_limits (me_config E) (rest @ [(b, checked_tx wtx r)]) \<and>
         (\<forall>v \<in> set gone. w_priority (snd v) < ct_Priority r) \<and> (fits (me_config E) wtx es \<longrightarrow> gone = []) \<and>
         (\<forall>v \<in> set gone. \<forall>e \<in> set rest. w_priority (snd e) < ct_Priority r \<longrightarrow> \<not> victim_before e v) \<and>
         (\<forall>vs v. gone = vs @ [v] \<longrightarrow> vs = [] \<or> bytes_of vs < w_Size wtx))
     else initialTxCallback E arrange wtx (Some r) m = (Ok PoolFull, m') \<and> pool E m' es"
proof -
  let ?gone = "evicted (me_config E) arrange wtx (ct_Priority r) es" and ?prio = "ct_Priority r"
  let ?rest = "filter (\<lambda>e. e \<notin> set ?gone) es"
  have p: "pool E m es" and lim: "within_limits (me_config E) es"
    using assms(1) by (simp_all add: in_order_def)
  note run = add_checked_run [OF p lim assms(2,4,3), of r]
  show ?thesis
  proof (cases "can_make_room (me_config E) wtx ?prio es")
    case True
    note g = evicted_facts [OF poolD(2) [OF p] assms(3) True]
    obtain m' b where "add_checked E arrange wtx r m = (Ok Inserted, m')" "pool E m' (?rest @ [(b, checked_tx wtx r)])"
      "within_limits (me_config E) (?rest @ [(b, checked_tx wtx r)])"
      using run True by auto
    moreover have "\<forall>v \<in> set ?gone. \<forall>e \<in> set ?rest. w_priority (snd e) < ?prio \<longrightarrow> \<not> victim_before e v"
      using evicted_first [OF p assms(3)] by auto
    moreover have "vs = [] \<or> bytes_of vs < w_Size wtx" if "?gone = vs @ [v]" for vs v
      using that until_enough_least [of "w_Size wtx" 0 _ vs v] by (auto simp: evicted_def split: if_splits)
    moreover have "fits (me_config E) wtx es \<longrightarrow> ?gone = []"
      by (simp add: evicted_def)
    ultimately show ?thesis
      unfolding if_P [OF True] initialTxCallback_accept [OF assms(5)]
      by (intro exI [of _ m'] conjI exI [of _ ?gone] exI [of _ ?rest] exI [of _ b]) (use g(2) in blast)+
  next
    case False
    with run initialTxCallback_accept [OF assms(5), of E arrange] show ?thesis by auto
  qed
qed

theorem admission_by_priority_witness:
  "\<exists>m'. initialTxCallback (sample_pool_env False) (\<lambda>vs. vs) (sample_wtx [1, 2]) (Some (sample_response 3))
     (sample_pool False) = (Ok Inserted, m')"
proof -
  let ?r = "sample_response 3" and ?m = "sample_pool False"
  have "acceptable ?m (sample_wtx [1, 2]) ?r"
    by (simp add: acceptable_def post_check_err_def sample_response_def CodeTypeOK_def sample_pool_def NewTxMempool_def)
  moreover have "can_make_room (sample_config False) (sample_wtx [1, 2]) (ct_Priority ?r) []"
    by (simp add: can_make_room_def fits_def sample_config_def sample_wtx_def w_Size_def)
  ultimately show ?thesis
    using admission_by_priority [of "sample_pool_env False" ?m "[]" "\<lambda>vs. vs" "sample_wtx [1, 2]" ?r]
    by (auto simp: sample_pool_facts)
qed

subsection \<open>Reaping\<close>

lemma indexed_txs_entries:
  assumes p: "pool E m es"
  shows "indexed_txs m = map (\<lambda>a. the (elem_value (tp_txs m) a)) (map snd (tp_txByKey m))"
    and "set (map snd (tp_txByKey m)) \<subseteq> fst ` set es" "distinct (map snd (tp_txByKey m))"
proof -
  note P = poolD [OF p]
  have key: "\<exists>w. (a, w) \<in> set es \<and> me_Key E (w_tx w) = k" if "(k, a) \<in> set (tp_txByKey m)" for k a
    using P(9) [of k a] map_of_is_SomeI [OF P(12) that] by simp
  have "elem_value (tp_txs m) a \<noteq> None" if "(k, a) \<in> set (tp_txByKey m)" for k a
    using key [OF that] P(11) by auto
  then have "List.map_filter (\<lambda>(k, a). elem_value (tp_txs m) a) xs = map (\<lambda>a. the (elem_value (tp_txs m) a)) (map snd xs)"
    if "set xs \<subseteq> set (tp_txByKey m)" for xs
    using that by (induction xs) (auto simp: List.map_filter_simps split: option.split)
  then show "indexed_txs m = map (\<lambda>a. the (elem_value (tp_txs m) a)) (map snd (tp_txByKey m))"
    by (simp add: indexed_txs_def)
  show "set (map snd (tp_txByKey m)) \<subseteq> fst ` set es"
    using key by force
  have "k = k'" if "(k, a) \<in> set (tp_txByKey m)" "(k', a) \<in> set (tp_txByKey m)" for k k' a
    using key [OF that(1)] key [OF that(2)] entry_unique [OF P(2)] by metis
  then have "inj_on snd (set (tp_txByKey m))"
    by (auto simp: inj_on_def)
  then show "distinct (map snd (tp_txByKey m))"
    using P(12) by (simp add: distinct_map)
qed

lemma indexed_txs_pool:
  assumes p: "pool E m es" and ix: "indexed E m es"
  shows "mset (indexed_txs m) = mset (map snd es)"
proof -
  note I = indexed_txs_entries [OF p]
  let ?val = "\<lambda>a. the (elem_value (tp_txs m) a)"
  have "fst ` set es \<subseteq> set (map snd (tp_txByKey m))"
    using ix map_of_SomeD by (force simp: indexed_def)
  then have "mset (map snd (tp_txByKey m)) = mset (map fst es)"
    using I(2,3) poolD(2) [OF p] by (intro iffD1 [OF set_eq_iff_mset_eq_distinct]) auto
  then have "mset (map ?val (map snd (tp_txByKey m))) = mset (map ?val (map fst es))"
    by (simp only: mset_map)
  moreover have "map ?val (map fst es) = map snd es"
    using poolD(11) [OF p] by (auto simp: comp_def)
  ultimately show ?thesis
    unfolding I(1) by (simp only:)
qed

text \<open>The totals the loop compares with the limits, without wrap-around.\<close>

definition reap_bytes :: "mempool_env \<Rightarrow> WrappedTx list \<Rightarrow> int" where
  "reap_bytes E ws = (\<Sum>w\<leftarrow>ws. me_ComputeProtoSizeForTxs E [w_tx w])"

definition reap_gas :: "WrappedTx list \<Rightarrow> int" where
  "reap_gas ws = (\<Sum>w\<leftarrow>ws. w_gasWanted w)"

lemma reap_sums [simp]:
  "reap_gas [] = 0" "reap_gas (w # ws) = w_gasWanted w + reap_gas ws"
  "reap_bytes E [] = 0" "reap_bytes E (w # ws) = me_ComputeProtoSizeForTxs E [w_tx w] + reap_bytes E ws"
  by (simp_all add: reap_gas_def reap_bytes_def)

definition reap_fits :: "mempool_env \<Rightarrow> int \<Rightarrow> int \<Rightarrow> WrappedTx list \<Rightarrow> bool" where
  "reap_fits E maxBytes maxGas ws \<longleftrightarrow>
     (maxGas \<ge> 0 \<longrightarrow> reap_gas ws \<le> maxGas) \<and> (maxBytes \<ge> 0 \<longrightarrow> reap_bytes E ws \<le> maxBytes)"

lemma reap_loop_run:
  assumes "in_i64 (g + reap_gas ws)" "in_i64 (b + reap_bytes E ws)" "0 \<le> g" "0 \<le> b"
    and nonneg: "\<forall>w \<in> set ws. 0 \<le> w_gasWanted w \<and> 0 \<le> me_ComputeProtoSizeForTxs E [w_tx w]"
  shows "\<exists>kept rest. ws = kept @ rest \<and> reap_loop E maxBytes maxGas g b ws = map w_tx kept \<and>
    (kept \<noteq> [] \<longrightarrow> (maxGas \<ge> 0 \<longrightarrow> g + reap_gas kept \<le> maxGas) \<and> (maxBytes \<ge> 0 \<longrightarrow> b + reap_bytes E kept \<le> maxBytes)) \<and>
    (\<forall>w ws'. rest = w # ws' \<longrightarrow> (maxGas \<ge> 0 \<and> g + reap_gas (kept @ [w]) > maxGas) \<or>
      (maxBytes \<ge> 0 \<and> b + reap_bytes E (kept @ [w]) > maxBytes))"
  using assms
proof (induction ws arbitrary: g b)
  case Nil
  then show ?case by simp
next
  case (Cons w ws)
  let ?g = "g + w_gasWanted w" and ?b = "b + me_ComputeProtoSizeForTxs E [w_tx w]"
  have sums: "0 \<le> reap_gas ws" "0 \<le> reap_bytes E ws"
    using Cons.prems(5) by (auto simp: reap_gas_def reap_bytes_def intro!: sum_list_nonneg)
  have pos: "0 \<le> w_gasWanted w" "0 \<le> me_ComputeProtoSizeForTxs E [w_tx w]"
    using Cons.prems(5) by simp_all
  have i: "i64 ?g = ?g" "i64 ?b = ?b" and prems: "in_i64 (?g + reap_gas ws)" "in_i64 (?b + reap_bytes E ws)"
    using Cons.prems(1-4) sums pos by (auto simp: in_i64_def add.assoc intro!: i64_id)
  show ?case
  proof (cases "(maxGas \<ge> 0 \<and> ?g > maxGas) \<or> (maxBytes \<ge> 0 \<and> ?b > maxBytes)")
    case True
    then show ?thesis
      using i by (intro exI [of _ "[]"] exI [of _ "w # ws"]) auto
  next
    case False
    obtain kept rest where k: "ws = kept @ rest" "reap_loop E maxBytes maxGas ?g ?b ws = map w_tx kept"
      "kept \<noteq> [] \<longrightarrow> (maxGas \<ge> 0 \<longrightarrow> ?g + reap_gas kept \<le> maxGas) \<and> (maxBytes \<ge> 0 \<longrightarrow> ?b + reap_bytes E kept \<le> maxBytes)"
      "\<forall>w ws'. rest = w # ws' \<longrightarrow> (maxGas \<ge> 0 \<and> ?g + reap_gas (kept @ [w]) > maxGas) \<or>
        (maxBytes \<ge> 0 \<and> ?b + reap_bytes E (kept @ [w]) > maxBytes)"
      using Cons.IH [OF prems] Cons.prems(3-5) pos by auto
    have "(maxGas \<ge> 0 \<longrightarrow> g + reap_gas (w # kept) \<le> maxGas) \<and> (maxBytes \<ge> 0 \<longrightarrow> b + reap_bytes E (w # kept) \<le> maxBytes)"
      using k(3) False by (cases "kept = []") (auto simp: add.assoc)
    moreover have "(maxGas \<ge> 0 \<and> g + reap_gas ((w # kept) @ [v]) > maxGas) \<or>
        (maxBytes \<ge> 0 \<and> b + reap_bytes E ((w # kept) @ [v]) > maxBytes)" if "rest = v # vs" for v vs
      using k(4) that by (simp add: add.assoc)
    moreover have "reap_loop E maxBytes maxGas g b (w # ws) = map w_tx (w # kept)"
      using i False k(2) by (auto simp: Let_def)
    moreover have "w # ws = (w # kept) @ rest"
      using k(1) by simp
    ultimately show ?thesis by blast
  qed
qed



subsection \<open>The update after a block\<close>



text \<open>
  Nothing keeps a transaction out of the pool that is in it already once the cache does not know
  it: with no cache, checking the same transaction twice puts it in twice; the block that includes it
  removes one of the two, and the other stays, counts against the limits, and is never reaped.
\<close>

lemma duplicate_outlives_block:
  "\<exists>m' m''. CheckTx (sample_pool_env False) None (Ok ()) [1] 0 (sample_add False [1] 5 (sample_pool False)) =
     (Ok \<lparr>pc_tx = [1], pc_height = 1, pc_senderID = 0\<rparr>, m') \<and>
     pool_Update (sample_pool_env False) (\<lambda>tx. (None, Ok ())) 0 2 [[1]] [sample_delivered] None None
       (sample_add False [1] 5 m') = (Ok (), m'') \<and>
     pool_Size m'' = 1 \<and> SizeBytes m'' = 1 \<and> map (w_tx \<circ> snd) (list_entries m'') = [[1]] \<and>
     map_of (tp_txByKey m'') [1] = None \<and> ReapMaxTxs (\<lambda>ws. ws) (-1) m'' = []"
proof -
  define m' where "m' = snd (CheckTx (sample_pool_env False) None (Ok ()) [1] 0 (sample_add False [1] 5 (sample_pool False)))"
  define m'' where "m'' = snd (pool_Update (sample_pool_env False) (\<lambda>tx. (None, Ok ())) 0 2 [[1]] [sample_delivered] None None
       (sample_add False [1] 5 m'))"
  have "fst (CheckTx (sample_pool_env False) None (Ok ()) [1] 0 (sample_add False [1] 5 (sample_pool False))) =
      Ok \<lparr>pc_tx = [1], pc_height = 1, pc_senderID = 0\<rparr>"
    by code_simp
  moreover have "fst (pool_Update (sample_pool_env False) (\<lambda>tx. (None, Ok ())) 0 2 [[1]] [sample_delivered] None None
      (sample_add False [1] 5 m')) = Ok ()"
    unfolding m'_def by code_simp
  moreover have "pool_Size m'' = 1 \<and> SizeBytes m'' = 1 \<and> map (w_tx \<circ> snd) (list_entries m'') = [[1]] \<and>
      map_of (tp_txByKey m'') [1] = None \<and> ReapMaxTxs (\<lambda>ws. ws) (-1) m'' = []"
    unfolding m''_def m'_def by code_simp
  ultimately show ?thesis
    unfolding m''_def m'_def by (metis prod.collapse)
qed

subsection \<open>Rechecking\<close>

lemma recheck_step_run:
  assumes p: "pool E m es" and h: "hooks_ok m" and n: "tp_txRecheck m = int n + 1" "int n + 1 < 2 ^ 63"
    and ne: "rechecked E tx r m es \<noteq> []"
  shows "\<exists>m'. recheckTxCallback E tx (Some r) m = (Ok (), m') \<and> pool E m' (rechecked E tx r m es) \<and> same_settings m m' \<and>
    tp_txRecheck m' = int n \<and> (indexed E m es \<longrightarrow> indexed E m' (rechecked E tx r m es)) \<and>
    (tp_txsAvailable m' \<noteq> None \<longleftrightarrow> tp_txsAvailable m \<noteq> None) \<and>
    tp_notifiedTxsAvailable m' = (tp_notifiedTxsAvailable m \<or> n = 0 \<and> tp_txsAvailable m \<noteq> None) \<and>
    (\<forall>a. map_of (tp_txByKey m) (me_Key E tx) = Some a \<and> \<not> recheck_passes m tx r \<longrightarrow> elem_next (tp_txs m') a = None)"
proof -
  let ?m1 = "m\<lparr>tp_txRecheck := int n\<rparr>"
  have left: "i64 (tp_txRecheck m - 1) = int n"
    using n by (simp add: in_i64_def)
  have same: "rechecked E tx r ?m1 es = rechecked E tx r m es" "recheck_passes ?m1 tx r \<longleftrightarrow> recheck_passes m tx r"
    by (simp_all add: rechecked_def recheck_passes_def post_check_err_def cong: option.case_cong)
  have "hooks_ok ?m1" using h by (simp add: hooks_ok_def)
  with recheck_body_run [of E ?m1 es tx r] p obtain m2 where m2: "recheck_body E tx r ?m1 = (Ok (), m2)"
    "pool E m2 (rechecked E tx r m es)" "frame ?m1 m2" "indexed E m es \<longrightarrow> indexed E m2 (rechecked E tx r m es)"
    "\<forall>a. map_of (tp_txByKey m) (me_Key E tx) = Some a \<and> \<not> recheck_passes m tx r \<longrightarrow> elem_next (tp_txs m2) a = None"
    by (auto simp: same)
  define m3 where "m3 = (if n = 0 \<and> tp_txsAvailable m \<noteq> None \<and> \<not> tp_notifiedTxsAvailable m
    then m2\<lparr>tp_notifiedTxsAvailable := True, tp_txsAvailable := Some True\<rparr> else m2)"
  have "pool_Size m2 \<noteq> 0"
    using poolD(5) [OF m2(2)] ne by simp
  then have "recheckTxCallback E tx (Some r) m = (Ok (), m3)"
    using m2(1,3) by (auto simp: recheckTxCallback_def left bind_cmd_def ret_def m3_def notifyTxsAvailable_def frame_def)
  moreover have "pool E m3 (rechecked E tx r m es)" "same_settings m m3" "tp_txRecheck m3 = int n"
    "indexed E m es \<longrightarrow> indexed E m3 (rechecked E tx r m es)" "tp_txs m3 = tp_txs m2"
    "tp_txsAvailable m3 \<noteq> None \<longleftrightarrow> tp_txsAvailable m \<noteq> None"
    "tp_notifiedTxsAvailable m3 = (tp_notifiedTxsAvailable m \<or> n = 0 \<and> tp_txsAvailable m \<noteq> None)"
    using m2(2-4) by (auto simp: m3_def frame_def same_settings_def)
  ultimately show ?thesis
    using m2(5) by auto
qed

text \<open>
  C34: Rechecking stops at the first transaction that the application no longer accepts: when the
  front one is rejected it is removed, and with it the loop loses its way to the next element, so
  every other transaction stays in the pool unchecked, the counter of pending rechecks stays at their
  number, and nobody is told that transactions are available.
\<close>

theorem recheck_stops_at_rejection:
  assumes "in_order E m ((a, w) # es)" and "config_ok (me_config E)" and "es \<noteq> []"
    and "map_of (tp_txByKey m) (me_Key E (w_tx w)) = Some a"
    and "conn (w_tx w) = (Some r, Ok ())" and "ct_Code r \<noteq> CodeTypeOK"
  shows "\<exists>m'. recheckTransactions E conn m = (Ok (), m') \<and> pool E m' es \<and> tp_txRecheck m' = int (length es) \<and>
    tp_notifiedTxsAvailable m' = tp_notifiedTxsAvailable m"
proof -
  have p: "pool E m ((a, w) # es)" and h: "hooks_ok m" and lim: "within_limits (me_config E) ((a, w) # es)"
    using assms(1) by (simp_all add: in_order_def)
  let ?m1 = "m\<lparr>tp_txRecheck := int (length es) + 1\<rparr>"
  note P = poolD [OF p]
  have q: "pool E ?m1 ((a, w) # es)" "hooks_ok ?m1"
    using p h by (simp_all add: hooks_ok_def)
  have small: "int (length es) + 1 < 2 ^ 63"
    using lim assms(2) unfolding within_limits_def config_ok_def length_Cons by linarith
  have "\<not> recheck_passes ?m1 (w_tx w) r"
    using assms(6) by (simp add: recheck_passes_def)
  moreover from this have "rechecked E (w_tx w) r ?m1 ((a, w) # es) = es"
    using assms(4) drop_addr_split [of "[]" a w es] P(2) by (simp add: rechecked_def)
  ultimately obtain m' where m': "recheckTxCallback E (w_tx w) (Some r) ?m1 = (Ok (), m')" "pool E m' es"
    "tp_txRecheck m' = int (length es)" "elem_next (tp_txs m') a = None"
    "tp_notifiedTxsAvailable m' = tp_notifiedTxsAvailable m"
    using recheck_step_run [OF q, of "length es" "w_tx w" r] small assms(3,4) by auto
  have "recheckTransactions E conn m = (Ok (), m')"
    using P(5,6) m'(1,4) elt_Value_run [OF q(1), of a w] assms(5)
    by (simp add: recheckTransactions_def nat_add_distrib bind_cmd_def add.commute)
  with m' show ?thesis by blast
qed

theorem recheck_stops_at_rejection_witness:
  "\<exists>m'. recheckTransactions (sample_pool_env True) (\<lambda>tx. (Some ((sample_response 0)\<lparr>ct_Code := 1\<rparr>), Ok ())) (sample_two True) =
     (Ok (), m') \<and> tp_txRecheck m' = 1"
proof -
  let ?E = "sample_pool_env True" and ?m = "sample_two True" and ?r = "(sample_response 0)\<lparr>ct_Code := 1\<rparr>"
  obtain es where es: "in_order ?E ?m es"
    using sample_two_in_order by blast
  then have le: "list_entries ?m = es"
    using list_entries_pool [of ?E ?m es] by (simp add: in_order_def)
  have "map (\<lambda>e. (fst e, w_tx (snd e))) (list_entries ?m) = [(0, [1]), (1, [2, 2])]"
    and index: "map_of (tp_txByKey ?m) [1] = Some 0" by code_simp+
  then obtain w e where w: "es = [(0, w), e]" "w_tx w = [1]"
    unfolding le by (auto simp: map_eq_Cons_conv)
  have "\<exists>m'. recheckTransactions ?E (\<lambda>tx. (Some ?r, Ok ())) ?m = (Ok (), m') \<and> pool ?E m' [e] \<and>
      tp_txRecheck m' = int (length [e]) \<and> tp_notifiedTxsAvailable m' = tp_notifiedTxsAvailable ?m"
    by (rule recheck_stops_at_rejection [where a = 0 and w = w and r = ?r])
      (use es w index in \<open>simp_all add: sample_pool_facts sample_pool_env_def CodeTypeOK_def\<close>)
  then show ?thesis by auto
qed

text \<open>What an entry becomes when the recheck accepts it.\<close>

definition repriced :: "recheck_conn \<Rightarrow> addr \<times> WrappedTx \<Rightarrow> addr \<times> WrappedTx" where
  "repriced conn e = (fst e, SetPriority (ct_Priority (the (fst (conn (w_tx (snd e)))))) (snd e))"

lemma recheck_loop_pass:
  assumes "pool E m (xs @ ys)" and "indexed E m (xs @ ys)" and "hooks_ok m"
    and "tp_txRecheck m = int (length ys)" and "int (length ys) < 2 ^ 63"
    and "\<forall>e \<in> set ys. \<exists>r. conn (w_tx (snd e)) = (Some r, Ok ()) \<and> recheck_passes m (w_tx (snd e)) r"
  shows "\<exists>m'. recheck_loop E conn (length ys) (first_addr ys) m = (Ok (), m') \<and> pool E m' (xs @ map (repriced conn) ys) \<and>
    tp_txRecheck m' = 0 \<and>
    (ys \<noteq> [] \<and> tp_txsAvailable m \<noteq> None \<longrightarrow> tp_notifiedTxsAvailable m')"
  using assms
proof (induction ys arbitrary: xs m)
  case Nil
  then show ?case by simp
next
  case (Cons e ys)
  obtain b w where e: "e = (b, w)" by (cases e)
  obtain r where r: "conn (w_tx w) = (Some r, Ok ())" "recheck_passes m (w_tx w) r"
    using Cons.prems(6) by (auto simp: e)
  note p = Cons.prems(1)
  have index: "map_of (tp_txByKey m) (me_Key E (w_tx w)) = Some b"
    using Cons.prems(2) by (auto simp: indexed_def e)
  have "b \<notin> fst ` set xs" "b \<notin> fst ` set ys"
    using poolD(2) [OF p] by (auto simp: e)
  then have new: "rechecked E (w_tx w) r m (xs @ e # ys) = (xs @ [repriced conn e]) @ ys"
    using r index by (simp add: rechecked_def e change_at_fresh repriced_def)
  obtain m1 where m1: "recheckTxCallback E (w_tx w) (Some r) m = (Ok (), m1)" "pool E m1 ((xs @ [repriced conn e]) @ ys)"
    "same_settings m m1" "tp_txRecheck m1 = int (length ys)" "indexed E m1 ((xs @ [repriced conn e]) @ ys)"
    "tp_txsAvailable m1 \<noteq> None \<longleftrightarrow> tp_txsAvailable m \<noteq> None"
    "tp_notifiedTxsAvailable m1 = (tp_notifiedTxsAvailable m \<or> length ys = 0 \<and> tp_txsAvailable m \<noteq> None)"
    using recheck_step_run [OF p Cons.prems(3), of "length ys" "w_tx w" r] Cons.prems(2,4,5) by (auto simp: new)
  have "recheck_passes m1 tx r \<longleftrightarrow> recheck_passes m tx r" for tx r
    using m1(3) by (simp add: recheck_passes_def post_check_err_def same_settings_def)
  then obtain m2 where m2: "recheck_loop E conn (length ys) (first_addr ys) m1 = (Ok (), m2)"
    "pool E m2 ((xs @ [repriced conn e]) @ map (repriced conn) ys)" "tp_txRecheck m2 = 0"
    "ys \<noteq> [] \<and> tp_txsAvailable m1 \<noteq> None \<longrightarrow> tp_notifiedTxsAvailable m2"
    using Cons.IH [OF m1(2,5) _ m1(4)] hooks_settings [OF m1(3)] Cons.prems(3,5,6) by auto
  have "elem_next (tp_txs m1) b = first_addr ys"
    using clist.rep_next [of "tp_txs m1" xs b "snd (repriced conn e)" ys] poolD(1) [OF m1(2)] by (simp add: repriced_def e)
  then have "recheck_loop E conn (length (e # ys)) (first_addr (e # ys)) m = (Ok (), m2)"
    using elt_Value_run [OF p, of b w] m1(1) r(1) m2(1) by (simp add: e bind_cmd_def)
  moreover have "tp_txsAvailable m \<noteq> None \<longrightarrow> tp_notifiedTxsAvailable m2"
    using m1(6,7) m2(1,4) by (cases ys) auto
  ultimately show ?case
    using m2(2,3) by simp
qed

text \<open>
  When the application accepts every transaction of a fully indexed pool again, rechecking visits
  all of them: each gets the priority of its answer, nothing else changes in the list, no recheck is
  left pending, and listeners are told that transactions are available.
\<close>

lemma recheck_all_accepted:
  assumes "in_order E m es" and "indexed E m es" and "config_ok (me_config E)" and "es \<noteq> []"
    and "\<forall>e \<in> set es. \<exists>r. conn (w_tx (snd e)) = (Some r, Ok ()) \<and> recheck_passes m (w_tx (snd e)) r"
  shows "\<exists>m'. recheckTransactions E conn m = (Ok (), m') \<and> pool E m' (map (repriced conn) es) \<and>
    tp_txRecheck m' = 0 \<and> (tp_txsAvailable m \<noteq> None \<longrightarrow> tp_notifiedTxsAvailable m')"
proof -
  have p: "pool E m es" and h: "hooks_ok m" and lim: "within_limits (me_config E) es"
    using assms(1) by (simp_all add: in_order_def)
  have small: "int (length es) < 2 ^ 63"
    using lim assms(3) unfolding within_limits_def config_ok_def by linarith
  let ?m1 = "m\<lparr>tp_txRecheck := int (length es)\<rparr>"
  have "\<forall>e \<in> set es. \<exists>r. conn (w_tx (snd e)) = (Some r, Ok ()) \<and> recheck_passes ?m1 (w_tx (snd e)) r"
    using assms(5) by (simp add: recheck_passes_def post_check_err_def)
  with recheck_loop_pass [of E ?m1 "[]" es conn] p h small assms(2) obtain m' where
    "recheck_loop E conn (length es) (first_addr es) ?m1 = (Ok (), m')" "pool E m' (map (repriced conn) es)"
    "tp_txRecheck m' = 0" "es \<noteq> [] \<and> tp_txsAvailable m \<noteq> None \<longrightarrow> tp_notifiedTxsAvailable m'"
    by (auto simp: hooks_ok_def)
  then show ?thesis
    using poolD(5,6) [OF p] assms(4) by (auto simp: recheckTransactions_def)
qed

end
