(* ===== verification/RpcProps.thy ===== *)
theory RpcProps
  imports Rpc MempoolProps
begin

text \<open>
  The properties of the RPC client: pages partition a search's sorted matches, and what happens to a
  transaction that could not be published.
\<close>

subsection \<open>Pages\<close>

context strict_weak_order
begin

lemma sorted_unique:
  assumes "sorted_wrt (\<lambda>a b. \<not> lt b a) xs" and "sorted_wrt (\<lambda>a b. \<not> lt b a) ys" and "mset xs = mset ys"
    and "\<And>a b. a \<in> set xs \<Longrightarrow> b \<in> set xs \<Longrightarrow> a \<noteq> b \<Longrightarrow> lt a b \<or> lt b a"
  shows "xs = ys"
  using assms
proof (induction xs arbitrary: ys)
  case Nil
  then show ?case by simp
next
  case (Cons x xs)
  then obtain y ys' where ys: "ys = y # ys'" by (cases ys) auto
  have sets: "set (x # xs) = set (y # ys')"
    using Cons.prems(3) unfolding ys by (rule mset_eq_setD)
  have "x = y"
  proof (rule ccontr)
    assume ne: "x \<noteq> y"
    with sets have in_lists: "y \<in> set xs" "x \<in> set ys'" by auto
    then have "\<not> lt y x" "\<not> lt x y"
      using Cons.prems(1,2) by (auto simp: ys)
    with Cons.prems(4) [of x y] ne in_lists(1) show False by auto
  qed
  moreover from this have "xs = ys'"
    using Cons.prems by (intro Cons.IH) (auto simp: ys)
  ultimately show ?case by (simp add: ys)
qed

definition separates :: "'a set \<Rightarrow> bool" where
  "separates S \<longleftrightarrow> (\<forall>a \<in> S. \<forall>b \<in> S. a \<noteq> b \<longrightarrow> lt a b \<or> lt b a)"

lemma sort_arranged:
  assumes "separates (set xs)" and "permutes_lists arrange"
  shows "sort_slice lt (arrange xs) = sort_slice lt xs"
proof -
  have "mset (arrange xs) = mset xs" using assms(2) by (simp add: permutes_lists_def)
  moreover from this have "set (arrange xs) = set xs" by (rule mset_eq_setD)
  ultimately show ?thesis
    using assms(1) by (intro sorted_unique sorted_sort_slice) (auto simp: separates_def)
qed

lemma sort_strict:
  assumes "distinct xs" and "separates (set xs)"
  shows "sorted_wrt lt (sort_slice lt xs)"
proof -
  have "distinct (sort_slice lt xs)"
    by (rule distinct_mset_cong [OF _ assms(1)]) simp
  then have "sorted_wrt (\<lambda>a b. a \<noteq> b \<and> \<not> lt b a) (sort_slice lt xs)"
    using sorted_sort_slice [of xs] by (simp add: sorted_wrt_iff_nth_less nth_eq_iff_index_eq)
  then show ?thesis
    by (rule sorted_wrt_mono_rel [rotated]) (use assms(2) in \<open>auto simp: separates_def\<close>)
qed

end

interpretation earlier: strict_weak_order earlier
  by unfold_locales (auto simp: earlier_def split: if_splits)

interpretation later: strict_weak_order later
  by unfold_locales (auto simp: later_def split: if_splits)

definition per_page :: "int option \<Rightarrow> nat" where
  "per_page perPagePtr = nat (validatePerPage perPagePtr)"

lemma per_page: "0 < per_page pp" "per_page pp \<le> 100" "validatePerPage pp = int (per_page pp)"
  by (auto simp: per_page_def validatePerPage_def defaultPerPage_def maxPerPage_def split: option.split)

text \<open>A list always has a first page, which may be empty.\<close>

definition page_count :: "nat \<Rightarrow> 'a list \<Rightarrow> nat" where
  "page_count k xs = (if xs = [] then 1 else (length xs - 1) div k + 1)"

definition pages :: "nat \<Rightarrow> 'a list \<Rightarrow> 'a list list" where
  "pages k xs = map (\<lambda>i. take k (drop (i * k) xs)) [0..<page_count k xs]"

lemma concat_slices: "concat (map (\<lambda>i. take k (drop (i * k) xs)) [0..<n]) = take (n * k) xs"
proof (induction n)
  case 0
  then show ?case by simp
next
  case (Suc n)
  have "take (n * k) xs @ take k (drop (n * k) xs) = take (Suc n * k) xs"
    by (simp add: add.commute flip: take_add)
  with Suc show ?case by simp
qed

lemma page_count_enough:
  assumes "0 < k"
  shows "length xs \<le> page_count k xs * k" and "i < page_count k xs \<Longrightarrow> i * k \<le> length xs"
    and "length (pages k xs) = page_count k xs"
proof -
  show "length (pages k xs) = page_count k xs"
    by (simp add: pages_def)
  show "length xs \<le> page_count k xs * k"
  proof (cases xs)
    case (Cons x ys)
    then show ?thesis
      using dividend_less_div_times [OF assms, of "length ys"] by (simp add: page_count_def Suc_le_eq)
  qed simp
  show "i * k \<le> length xs" if "i < page_count k xs"
  proof (cases xs)
    case (Cons x ys)
    with that have "i \<le> length ys div k" by (simp add: page_count_def)
    then have "i * k \<le> length ys" by (metis assms less_eq_div_iff_mult_less_eq)
    with Cons show ?thesis by simp
  qed (use that in \<open>simp add: page_count_def\<close>)
qed

lemma concat_pages: "0 < k \<Longrightarrow> concat (pages k xs) = xs"
  using page_count_enough(1) [of k xs] by (simp add: pages_def concat_slices)

lemma sdiv_pages:
  assumes "0 < k" and "int (length xs) < 2 ^ 63"
  shows "(let n = i64 ((int (length xs) - 1) sdiv int k + 1) in if n = 0 then 1 else n) = int (page_count k xs)"
proof (cases xs)
  case Nil
  have "(- 1) sdiv int k = (if k = 1 then - 1 else 0)"
    using assms(1) by (auto simp: signed_divide_int_def sgn_if)
  then show ?thesis
    using assms(1) by (simp add: Nil page_count_def i64_def Let_def)
next
  case (Cons x ys)
  have "(int (length xs) - 1) sdiv int k = int (length ys div k)"
    using assms(1) by (auto simp: Cons signed_divide_int_def sgn_if zdiv_int)
  moreover have "in_i64 (int (length ys div k) + 1)"
  proof -
    have "int (length ys div k) \<le> int (length ys)" by simp
    then have "int (length ys div k) + 1 < 2 ^ 63" using assms(2) unfolding Cons list.size by linarith
    then show ?thesis by (simp add: in_i64_def)
  qed
  ultimately show ?thesis
    by (simp add: Cons page_count_def Let_def)
qed

lemma skip_count: "int n < 2 ^ 63 \<Longrightarrow> (page - 1) * perPage = int n \<Longrightarrow> validateSkipCount page perPage = int n"
  by (simp add: validateSkipCount_def Let_def in_i64_def)

lemma slice_at:
  assumes "n \<le> length xs"
  shows "go_slice xs (int n) (int n + min (int k) (int (length xs) - int n)) = Ok (take k (drop n xs))"
proof (cases "k \<le> length xs - n")
  case True
  then have "min (int k) (int (length xs) - int n) = int k"
    using assms by linarith
  with True assms show ?thesis by (simp add: go_slice_def)
next
  case False
  then have "min (int k) (int (length xs) - int n) = int (length xs - n)"
    using assms by linarith
  with False assms show ?thesis by (simp add: go_slice_def of_nat_diff)
qed

lemma paginate_pages:
  assumes len: "int (length xs) < 2 ^ 63" and k: "k = per_page pp"
  shows "i < page_count k xs \<Longrightarrow> paginate (Some (int i + 1)) pp xs = Ok (pages k xs ! i)"
    and "page_count k xs \<le> i \<Longrightarrow> paginate (Some (int i + 1)) pp xs = Err (Errorf ''page should be within range'')"
proof -
  have k0: "0 < k" and pp: "validatePerPage pp = int k"
    using per_page k by simp_all
  note count = sdiv_pages [OF k0 len]
  show "paginate (Some (int i + 1)) pp xs = Err (Errorf ''page should be within range'')" if "page_count k xs \<le> i"
    using that k0 count by (simp add: paginate_def pp validatePage_def Let_def)
  assume i: "i < page_count k xs"
  have skip: "i * k \<le> length xs" by (rule page_count_enough(2) [OF k0 i])
  have "validatePage (Some (int i + 1)) (int k) (int (length xs)) = Ok (int i + 1)"
    using i k0 count by (simp add: validatePage_def Let_def)
  moreover have "validateSkipCount (int i + 1) (int k) = int (i * k)"
  proof (rule skip_count)
    show "int (i * k) < 2 ^ 63" using skip len by linarith
  qed simp
  moreover note slice_at [OF skip, of k]
  ultimately show "paginate (Some (int i + 1)) pp xs = Ok (pages k xs ! i)"
    using i by (simp add: paginate_def pp Let_def pages_def)
qed

subsection \<open>Searching transactions\<close>

definition search_order :: "gostring \<Rightarrow> TxResult \<Rightarrow> TxResult \<Rightarrow> bool" where
  "search_order orderBy = (if orderBy = desc then later else earlier)"

definition one_per_place :: "TxResult list \<Rightarrow> bool" where
  "one_per_place rs \<longleftrightarrow> inj_on (\<lambda>r. (tr_Height r, tr_Index r)) (set rs)"

abbreviation tx_view :: "('db, 'vs, 'pvs, 'proof) rpc_env \<Rightarrow> TxResult \<Rightarrow> 'proof ResultTx" where
  "tx_view R r \<equiv> \<lparr>rt_Hash = te_Hash (re_tx R) (tr_Tx r), rt_Result = r, rt_Proof = None\<rparr>"

lemma sort_results:
  assumes "distinct out" and "set out \<subseteq> set rs" and "one_per_place rs"
  shows "sorted_wrt (search_order orderBy) (sort_slice (search_order orderBy) out)"
    and "permutes_lists arrange \<Longrightarrow>
      sort_slice (search_order orderBy) (arrange out) = sort_slice (search_order orderBy) out"
proof -
  have "earlier.separates (set out)" "later.separates (set out)"
    using assms(2,3)
    by (auto simp: earlier.separates_def later.separates_def earlier_def later_def one_per_place_def inj_on_def) (metis linorder_neqE subsetD)+
  then show "sorted_wrt (search_order orderBy) (sort_slice (search_order orderBy) out)"
    "permutes_lists arrange \<Longrightarrow> sort_slice (search_order orderBy) (arrange out) = sort_slice (search_order orderBy) out"
    using earlier.sort_strict later.sort_strict earlier.sort_arranged later.sort_arranged assms(1)
    by (auto simp: search_order_def)
qed


definition sample_rpc :: "(mem_db, nat, nat, unit) rpc_env" where
  "sample_rpc =
     \<lparr>re_bdg = mem_badger, re_store = sample_env, re_tx = sample_index_env sample_results, re_block = sample_block_env,
      re_NewQuery = (\<lambda>_. Ok (Ok sample_query)), re_Validators = (\<lambda>_. []), re_GetByAddress = (\<lambda>_ _. None),
      re_ProofsFromByteSlices = (\<lambda>hs. ([], map (\<lambda>_. ()) hs)), re_Block_Size = (\<lambda>_. 0)\<rparr>"

definition sample_searched :: "mem_db DefaultStore" where
  "sample_searched =
     New_store (snd (AddBatch (sample_index_env sample_results) (indexerKV mem_badger) (map Some (map snd sample_results)) (empty_mem [])))"


subsection \<open>A transaction that cannot be published\<close>

text \<open>The mempool takes a new transaction: the checks pass, there is room, and the cache keeps its key.\<close>

definition takes :: "mempool_env \<Rightarrow> TxMempool \<Rightarrow> entries \<Rightarrow> Tx \<Rightarrow> ResponseCheckTx \<Rightarrow> bool" where
  "takes E m es tx r \<longleftrightarrow>
     int (length tx) \<le> mc_MaxTxBytes (me_config E) \<and> (\<forall>f. tp_preCheck m = Some f \<longrightarrow> f tx = Ok ()) \<and>
     fst (Cache_Push (me_Key E tx) (tp_cache m)) \<and> Cache_Has (me_Key E tx) (snd (Cache_Push (me_Key E tx) (tp_cache m))) \<and>
     me_Key E tx \<notin> entry_key E ` set es \<and> post_check_err m tx r = Ok () \<and> ct_Code r = CodeTypeOK \<and> ct_Sender r = [] \<and>
     int (length es) < mc_Size (me_config E) \<and> bytes_of es + int (length tx) \<le> mc_MaxTxsBytes (me_config E)"

lemma admit_taken:
  assumes "takes E m es tx r"
  shows "admit_tx E None tx i m = (Ok (tp_height m), m\<lparr>tp_cache := snd (Cache_Push (me_Key E tx) (tp_cache m))\<rparr>)"
  using assms by (auto simp: takes_def admit_tx_def Let_def case_prod_unfold split: option.split)

lemma admit_cached:
  assumes "pool E m es" and "int (length tx) \<le> mc_MaxTxBytes (me_config E)" and "\<forall>f. tp_preCheck m = Some f \<longrightarrow> f tx = Ok ()"
    and "Cache_Has (me_Key E tx) (tp_cache m)" and "me_Key E tx \<notin> entry_key E ` set es"
  shows "fst (admit_tx E None tx i m) = Err ErrTxInCache"
proof -
  have "map_of (tp_txByKey m) (me_Key E tx) = None"
  proof (cases "map_of (tp_txByKey m) (me_Key E tx)")
    case (Some a)
    then show ?thesis using poolD(9) [OF assms(1) Some] assms(5) by force
  qed
  moreover have "\<not> fst (Cache_Push (me_Key E tx) (tp_cache m))"
    using cache.Push_fst [OF poolD(3) [OF assms(1)]] assms(4) by simp
  ultimately show ?thesis
    using assms(2,3) by (auto simp: admit_tx_def Let_def case_prod_unfold split: option.split)
qed

lemma checked_taken:
  assumes o: "in_order E m es" and ix: "indexed E m es" and cfg: "config_ok (me_config E)" and t: "takes E m es tx r"
  shows "\<exists>m' b w. checked E arrange now None (Ok ()) (Some r) tx m = (Ok r, m') \<and> pool E m' (es @ [(b, w)]) \<and>
    indexed E m' (es @ [(b, w)]) \<and> w_tx w = tx \<and> same_settings m m' \<and> Cache_Has (me_Key E tx) (tp_cache m')"
proof -
  define m1 where "m1 = m\<lparr>tp_cache := snd (Cache_Push (me_Key E tx) (tp_cache m))\<rparr>"
  define w0 where "w0 = SetPeer 0 \<lparr>w_tx = tx, w_hash = me_Key E tx, w_height = tp_height m, w_timestamp = now,
    w_gasWanted = 0, w_priority = 0, w_sender = [], w_peers = []\<rparr>"
  have p: "pool E m es" and lim: "within_limits (me_config E) es" using o by (simp_all add: in_order_def)
  have w0: "w_tx w0 = tx" "w_Size w0 = int (length tx)" by (simp_all add: w0_def w_Size_def)
  have p1: "pool E m1 es"
    unfolding m1_def by (rule pool_cache [OF p cache.Push_ok [OF poolD(3) [OF p]]])
  have acc: "acceptable m1 w0 r"
    using t by (simp add: acceptable_def takes_def m1_def w0 post_check_err_def)
  have size: "w_Size w0 \<le> mc_MaxTxBytes (me_config E)" and room: "fits (me_config E) w0 es"
    using t by (simp_all add: takes_def fits_def w0)
  note can = canAddTx_fits [OF p1 lim cfg size]
  have "int (length es) < MaxLength" using room cfg by (simp add: fits_def MaxLength_def config_ok_def)
  then obtain m2 b where m2: "insertTx E (checked_tx w0 r) m1 = (Ok (), m2)" "pool E m2 (es @ [(b, checked_tx w0 r)])" "frame m1 m2"
    "tp_cache m2 = tp_cache m1" "indexed E m1 es \<and> me_Key E tx \<notin> entry_key E ` set es \<longrightarrow> indexed E m2 (es @ [(b, checked_tx w0 r)])"
    using insertTx_run [OF p1, of "checked_tx w0 r"] can(2) w0 by auto
  obtain n v where note_run: "notifyTxsAvailable m2 = (Ok (), m2\<lparr>tp_notifiedTxsAvailable := n, tp_txsAvailable := v\<rparr>)"
    using notify_run by blast
  let ?m3 = "m2\<lparr>tp_notifiedTxsAvailable := n, tp_txsAvailable := v\<rparr>"
  have "add_checked E arrange w0 r m1 = (Ok Inserted, ?m3)"
    using can(1) room m2(1) note_run by (simp add: add_checked_def bind_cmd_def ret_def make_room_def checked_tx_def)
  then have "checked E arrange now None (Ok ()) (Some r) tx m = (Ok r, ?m3)"
    using admit_taken [OF t, of 0] initialTxCallback_accept [OF acc, of E arrange]
    by (simp add: checked_def CheckTx_def bind_cmd_def check_callback_def lift_out_def flip: m1_def w0_def)
  moreover have "indexed E m1 es" using ix by (simp add: m1_def indexed_def)
  moreover have "same_settings m m2" using m2(3) by (simp add: frame_def same_settings_def m1_def)
  ultimately show ?thesis
    using m2 t w0 by (intro exI [of _ ?m3] exI [of _ b] exI [of _ "checked_tx w0 r"]) (simp add: takes_def m1_def)
qed

lemma refused_broadcast:
  assumes "fst (admit_tx E None tx 0 m) = Err e"
  shows "fst (BroadcastTxSync E arrange hash now None flushSync res gossip tx m) = Err e"
  using assms by (cases "admit_tx E None tx 0 m") (simp add: BroadcastTxSync_def checked_def CheckTx_def bind_cmd_def)

text \<open>
  When the mempool takes a new transaction but publishing it fails, \<open>BroadcastTxSync\<close> takes it out of
  the mempool again, which is then as before, and reports the failure. Its key stays in the cache: trying
  again on this node is refused as already known, whatever the application and the network would say now.
\<close>

lemma failed_gossip_blocks_retry:
  assumes "in_order E m es" and "indexed E m es" and "config_ok (me_config E)" and "takes E m es tx r" and "gossip tx = Err e"
  shows "\<exists>m'. BroadcastTxSync E arrange hash now None (Ok ()) (Some r) gossip tx m = (Err (Wrapf ''failed to gossip tx'' e), m') \<and>
    pool E m' es \<and> (\<forall>arrange' now' res' gossip'.
      fst (BroadcastTxSync E arrange' hash now' None (Ok ()) res' gossip' tx m') = Err ErrTxInCache)"
proof -
  let ?k = "me_Key E tx"
  obtain m1 b w where m1: "checked E arrange now None (Ok ()) (Some r) tx m = (Ok r, m1)" "pool E m1 (es @ [(b, w)])"
    "indexed E m1 (es @ [(b, w)])" "w_tx w = tx" "same_settings m m1" "Cache_Has ?k (tp_cache m1)"
    using checked_taken [OF assms(1-4), of arrange now] by blast
  obtain q m' where m': "removeTxByKey ?k m1 = (q, m')" "\<forall>p. q \<noteq> Panic p" "pool E m' (drop_key E m1 ?k (es @ [(b, w)]))"
    "frame m1 m'" "tp_cache m' = tp_cache m1"
    using removeTxByKey_run [OF m1(2)] by metis
  have "drop_key E m1 ?k (es @ [(b, w)]) = es"
    using assms(4) m1(4) by (auto simp: drop_key_indexed [OF m1(2,3)] takes_def filter_id_conv image_iff)
  with m'(3) have p': "pool E m' es" by simp
  have "BroadcastTxSync E arrange hash now None (Ok ()) (Some r) gossip tx m = (Err (Wrapf ''failed to gossip tx'' e), m')"
    using m1(1) m'(1,2) assms(4,5) by (cases q) (auto simp: BroadcastTxSync_def bind_cmd_def RemoveTxByKey_def takes_def)
  moreover have "fst (admit_tx E None tx 0 m') = Err ErrTxInCache"
    using assms(4) m1(5,6) m'(4,5)
    by (intro admit_cached [OF p']) (simp_all add: takes_def same_settings_def frame_def)
  ultimately show ?thesis
    using p' refused_broadcast by blast
qed

subsection \<open>Ranges of blocks\<close>

definition info_high :: "int \<Rightarrow> int \<Rightarrow> int" where
  "info_high height mx = (if mx = 0 then height else min height mx)"

definition info_low :: "int \<Rightarrow> int \<Rightarrow> int \<Rightarrow> int" where
  "info_low height mn mx = max (max 1 mn) (info_high height mx - 19)"

lemma filterMinMax_info:
  assumes "0 \<le> mn" and "0 \<le> mx" and "0 \<le> height" and "height < 2 ^ 63"
  shows "filterMinMax 0 height mn mx 20 =
    (if info_low height mn mx > info_high height mx
     then Err (Errorf ''invalid request: min height cannot be greater than max height'')
     else Ok (info_low height mn mx, info_high height mx))"
proof -
  have "in_i64 (info_high height mx - 19)"
    using assms by (auto simp: in_i64_def info_high_def min_def)
  then have "i64 (info_high height mx - 20 + 1) = info_high height mx - 19"
    by (simp add: algebra_simps)
  moreover have "min height (if mx = 0 then height else mx) = info_high height mx"
    by (simp add: info_high_def)
  moreover have "max 0 (if mn = 0 then 1 else mn) = max 1 mn"
    using assms(1) by auto
  ultimately show ?thesis
    using assms(1,2) by (auto simp: filterMinMax_def Let_def info_low_def)
qed

lemma block_metas_run:
  assumes "\<And>h. height - int n < h \<Longrightarrow> h \<le> height \<Longrightarrow> LoadBlock (re_store R) (re_kv R) s (uint64_of h) = Ok (block h)"
  shows "block_metas R s height n = Ok (map (\<lambda>h. ToABCIBlockMeta R (block h)) (rev [height - int n + 1..height]))"
  using assms
proof (induction n arbitrary: height)
  case 0
  then show ?case by simp
next
  case (Suc n)
  have "[height - int (Suc n) + 1..height] = [height - 1 - int n + 1..height - 1] @ [height]"
    using upto_rec2 [of "height - int (Suc n) + 1" height] by (simp add: algebra_simps)
  moreover have "block_metas R s (height - 1) n =
      Ok (map (\<lambda>h. ToABCIBlockMeta R (block h)) (rev [height - 1 - int n + 1..height - 1]))"
    by (rule Suc.IH) (use Suc.prems in simp)
  moreover have "LoadBlock (re_store R) (re_kv R) s (uint64_of height) = Ok (block height)"
    by (rule Suc.prems) simp_all
  ultimately show ?case by simp
qed

text \<open>
  While the blocks of the range that the store should have can be loaded, asking for the blocks of a
  range of heights returns them, the newest first: from the requested maximum, or the store's height where
  that is lower or no maximum was given, down to the requested minimum, but at most twenty. A range
  with no height in it is an error.
\<close>

lemma blockchain_info_range:
  assumes "0 \<le> int64_of (st_height s)" and "0 \<le> mn" and "0 \<le> mx"
    and "\<And>h. max 1 mn \<le> h \<Longrightarrow> h \<le> int64_of (st_height s) \<Longrightarrow> mx = 0 \<or> h \<le> mx \<Longrightarrow>
      LoadBlock (re_store R) (re_kv R) s (uint64_of h) = Ok (block h)"
  shows "BlockchainInfo R s mn mx =
    (let height = int64_of (st_height s); hi = (if mx = 0 then height else min height mx); lo = max (max 1 mn) (hi - 19)
     in if lo > hi then Err (Errorf ''invalid request: min height cannot be greater than max height'')
        else Ok (height, map (\<lambda>h. ToABCIBlockMeta R (block h)) (rev [lo..hi])))"
proof -
  let ?height = "int64_of (st_height s)" let ?hi = "info_high ?height mx" let ?lo = "info_low ?height mn mx"
  have "?height < 2 ^ 63" using sint_less [of "st_height s"] by (simp add: int64_of_def)
  note range = filterMinMax_info [OF assms(2,3,1) this]
  have hi: "?hi \<le> ?height" "mx = 0 \<or> ?hi \<le> mx" and lo: "max 1 mn \<le> ?lo" by (auto simp: info_high_def info_low_def)
  have "block_metas R s ?hi (nat (?hi - ?lo + 1)) = Ok (map (\<lambda>h. ToABCIBlockMeta R (block h)) (rev [?lo..?hi]))" if "?lo \<le> ?hi"
  proof -
    have "LoadBlock (re_store R) (re_kv R) s (uint64_of h) = Ok (block h)" if "?lo \<le> h" "h \<le> ?hi" for h
      using assms(4) [of h] hi lo that by linarith
    with block_metas_run [of ?hi "nat (?hi - ?lo + 1)" R s block] that show ?thesis by simp
  qed
  then show ?thesis
    by (auto simp: BlockchainInfo_def range Let_def simp flip: info_high_def info_low_def)
qed

lemma LoadBlock_any_height: "LoadBlock E kv (s\<lparr>st_height := n\<rparr>) = LoadBlock E kv s"
proof -
  have "LoadBlockByHash E kv (s\<lparr>st_height := n\<rparr>) = LoadBlockByHash E kv s"
    by (rule ext) (simp add: LoadBlockByHash_def)
  then show ?thesis
    by (intro ext) (simp add: LoadBlock_def loadHashFromIndex_def)
qed

subsection \<open>The genesis in chunks\<close>

lemma chunks_pages:
  assumes "0 < n" and "dat \<noteq> []"
  shows "chunks n dat = map EncodeToString (pages n dat)"
  using assms
proof (induction n dat rule: chunks.induct)
  case (1 n dat)
  show ?case
  proof (cases "drop n dat = []")
    case True
    then have "length dat \<le> n" by simp
    then have "page_count n dat = 1" using 1(2,3) by (cases dat) (simp_all add: page_count_def)
    then have "pages n dat = [take n dat]" by (simp add: pages_def)
    moreover have "chunks n [] = []" by (simp add: chunks.simps)
    ultimately show ?thesis
      using 1(2,3) True by (simp add: chunks.simps [of n dat])
  next
    case False
    then have long: "n < length dat" by simp
    have "length dat - 1 = n + (length dat - n - 1)" using long by simp
    then have "(length dat - 1) div n = Suc ((length dat - n - 1) div n)"
      using 1(2) by (metis div_add_self1 less_not_refl2 plus_1_eq_Suc add.commute)
    then have "page_count n dat = Suc (page_count n (drop n dat))"
      using long by (auto simp: page_count_def)
    then have "pages n dat = take n dat # pages n (drop n dat)"
      by (simp add: pages_def upt_conv_Cons comp_def add.commute del: upt_Suc flip: map_Suc_upt)
    then show ?thesis
      using 1 False by (simp add: chunks.simps [of n dat])
  qed
qed

text \<open>
  Of a genesis document the client gets the chunk it asks for, where the chunks are base64 texts of
  consecutive parts of the document that make up all of it. An index past the last chunk is an error
  below two to the 63; from there on the check of the index, made on the signed value, lets it pass
  and the process panics.
\<close>

lemma genesis_chunk_by_id:
  assumes "dat \<noteq> []" and "int (length dat) < 2 ^ 63"
  shows "\<exists>parts. concat parts = dat \<and> (\<forall>p \<in> set parts. length p \<le> 16777216) \<and> length parts \<le> length dat \<and>
    GenesisChunked (Some (Ok dat)) [] id' =
      (if unat id' < length parts
       then Ok \<lparr>gc_TotalChunks = int (length parts), gc_ChunkNumber = int (unat id'), gc_Data = EncodeToString (parts ! unat id')\<rparr>
       else if unat id' < 2 ^ 63 then Err (Errorf ''there are fewer chunks'')
       else Panic ''index out of range'')"
proof -
  let ?parts = "pages genesisChunkSize dat"
  have size: "0 < genesisChunkSize" by (simp add: genesisChunkSize_def)
  note chs = chunks_pages [OF size assms(1)]
  have few: "length ?parts \<le> length dat"
  proof -
    have "(length dat - 1) div genesisChunkSize \<le> length dat - 1" by simp
    with assms(1) show ?thesis
      unfolding page_count_enough(3) [OF size] page_count_def by (cases dat) (simp_all del: div_le_dividend)
  qed
  with assms(2) have len: "int (length ?parts) < 2 ^ 63" "?parts \<noteq> []"
    by (auto simp: pages_def page_count_def)
  have sign: "int64_of id' < 0" if "\<not> unat id' < 2 ^ 63"
  proof (rule ccontr)
    assume "\<not> int64_of id' < 0"
    then have "in_i64 (int64_of id')" "0 \<le> int64_of id'"
      using sint_less [of id'] by (simp_all add: int64_of_def in_i64_def)
    then have "uint (uint64_of (int64_of id')) < 2 ^ 63"
      by (simp add: uint64_of_def in_i64_def uint_word_of_int del: uint64_of_int64_of)
    then have "int (unat id') < int (2 ^ 63)" by simp
    with that show False by linarith
  qed
  have past: "int64_of id' > int (length ?parts) - 1 \<longleftrightarrow> length ?parts \<le> unat id' \<and> unat id' < 2 ^ 63"
  proof (cases "unat id' < 2 ^ 63")
    case True
    then show ?thesis unfolding int64_of_small [OF True] by linarith
  next
    case False
    with sign len(2) show ?thesis by (cases ?parts) auto
  qed
  have "GenesisChunked (Some (Ok dat)) [] id' =
      (if unat id' < length ?parts
       then Ok \<lparr>gc_TotalChunks = int (length ?parts), gc_ChunkNumber = int (unat id'), gc_Data = EncodeToString (?parts ! unat id')\<rparr>
       else if unat id' < 2 ^ 63 then Err (Errorf ''there are fewer chunks'')
       else Panic ''index out of range'')"
    using len int64_of_small [of id'] by (simp add: GenesisChunked_def initGenesisChunks_def chs past not_less)
  moreover have "length p \<le> 16777216" if "p \<in> set ?parts" for p
    using that by (auto simp: pages_def genesisChunkSize_def)
  ultimately show ?thesis
    using concat_pages [OF size] few by blast
qed

subsection \<open>Status\<close>

text \<open>
  Asking for the status loads the stored state, and with it sets the store's height and base height: what
  the running node has changed of them since it last stored its state is lost.
\<close>

lemma Status_sets_heights:
  assumes "Status R s = (Ok r, s')"
  shows "\<exists>state. LoadState (re_store R) (re_kv R) s = (Ok state, s')"
  using assms
  by (auto simp: Status_def bind_cmd_def lift_out_def ret_def map_prod_def split: outcome.splits prod.splits option.splits)

end
