(* ===== verification/Settlement.thy ===== *)
theory Settlement
  imports Manager QueryRange
begin

text \<open>
  The settlement layer clients: the base client of \<open>src/settlement/base.go\<close> that the block manager
  calls, over the interface of a hub client, and the hub client of \<open>src/settlement/mock/mock.go\<close>,
  which keeps the batches in a key-value store. The base client over a hub client is an instance of
  the interface of theory \<open>Layers\<close>. JSON is a parameter; an event bus is the queue of the events
  that were published and not handled yet.
\<close>

subsection \<open>\<open>config.go\<close> and \<open>events.go\<close>\<close>

record sl_Config =
  cf_KeyringBackend :: gostring
  cf_NodeAddress :: gostring
  cf_KeyringHomeDir :: gostring
  cf_DymAccountName :: gostring
  cf_RollappID :: gostring
  cf_GasLimit :: u64
  cf_GasPrices :: gostring
  cf_GasFees :: gostring
  cf_ProposerPubKey :: gostring

definition Config_Validate :: "sl_Config \<Rightarrow> unit outcome" where
  "Config_Validate c =
     (if cf_GasPrices c \<noteq> [] \<and> cf_GasFees c \<noteq> [] then Err (Errorf ''cannot provide both fees and gas prices'')
      else if cf_GasPrices c = [] \<and> cf_GasFees c = [] then Err (Errorf ''must provide either fees or gas prices'')
      else if cf_RollappID c = [] then Err (Errorf ''must provide rollapp id'')
      else Ok ())"

record EventDataNewBatchAccepted =
  ev_EndHeight :: u64
  ev_StateIndex :: u64

subsection \<open>\<open>base.go\<close>\<close>

record 'w hub_ops =
  hub_PostBatch :: "Batch \<Rightarrow> da_Client \<Rightarrow> ResultSubmitBatch \<Rightarrow> ('w, unit) cmd"
  hub_GetLatestBatch :: "gostring \<Rightarrow> ('w, SLResultRetrieveBatch) cmd"
  hub_GetBatchAtIndex :: "gostring \<Rightarrow> u64 \<Rightarrow> ('w, SLResultRetrieveBatch) cmd"
  hub_GetSequencers :: "gostring \<Rightarrow> ('w, Sequencer list) cmd"

record 'w BaseLayerClient =
  bl_latestHeight :: u64
  bl_sequencersList :: "Sequencer list"
  bl_config :: sl_Config
  bl_client :: 'w

definition on_client :: "('w, 'a) cmd \<Rightarrow> ('w BaseLayerClient, 'a) cmd" where
  "on_client c b = (case c (bl_client b) of (r, w) \<Rightarrow> (r, b\<lparr>bl_client := w\<rparr>))"

definition base_RetrieveBatch :: "'w hub_ops \<Rightarrow> u64 option \<Rightarrow> ('w BaseLayerClient, SLResultRetrieveBatch) cmd" where
  "base_RetrieveBatch H stateIndex b =
     (case stateIndex of
        None \<Rightarrow> on_client (hub_GetLatestBatch H (cf_RollappID (bl_config b))) b
      | Some i \<Rightarrow> on_client (hub_GetBatchAtIndex H (cf_RollappID (bl_config b)) i) b)"

definition fetchSequencersList :: "'w hub_ops \<Rightarrow> ('w BaseLayerClient, Sequencer list) cmd" where
  "fetchSequencersList H b = on_client (hub_GetSequencers H (cf_RollappID (bl_config b))) b"

text \<open>\<open>w\<close> is the hub client that the options set.\<close>

definition base_Init :: "'w hub_ops \<Rightarrow> sl_Config \<Rightarrow> 'w \<Rightarrow> unit outcome \<times> 'w BaseLayerClient" where
  "base_Init H config w =
     (let b = \<lparr>bl_latestHeight = 0, bl_sequencersList = [], bl_config = config, bl_client = w\<rparr>;
          finish = (\<lambda>endHeight.
            bind_cmd (modify (\<lambda>b. b\<lparr>bl_latestHeight := endHeight\<rparr>)) (\<lambda>_.
            bind_cmd (fetchSequencersList H) (\<lambda>l. modify (\<lambda>b. b\<lparr>bl_sequencersList := l\<rparr>))))
      in case base_RetrieveBatch H None b of
           (Ok latestBatch, b1) \<Rightarrow> finish (sb_EndHeight (sr_Batch latestBatch)) b1
         | (Err e, b1) \<Rightarrow> if e = ErrBatchNotFound then finish 0 b1 else (Err e, b1)
         | (Panic p, b1) \<Rightarrow> (Panic p, b1))"

definition validateBatch :: "'w BaseLayerClient \<Rightarrow> Batch \<Rightarrow> unit outcome" where
  "validateBatch b batch =
     (if ba_StartHeight batch \<noteq> bl_latestHeight b + 1 then Err (Errorf ''batch start height != latest height + 1'')
      else if ba_EndHeight batch < ba_StartHeight batch then Err (Errorf ''batch end height must be greater than start height'')
      else Ok ())"

definition base_SubmitBatch :: "'w hub_ops \<Rightarrow> Batch \<Rightarrow> da_Client \<Rightarrow> ResultSubmitBatch \<Rightarrow> ('w BaseLayerClient, unit) cmd" where
  "base_SubmitBatch H batch daClient daResult b =
     (case validateBatch b batch of
        Ok _ \<Rightarrow> on_client (hub_PostBatch H batch daClient daResult) b
      | _ \<Rightarrow> (Panic ''invalid batch'', b))"

fun GetProposer :: "Sequencer list \<Rightarrow> Sequencer option" where
  "GetProposer [] = None"
| "GetProposer (s # ss) = (if sq_Status s = Proposer then Some s else GetProposer ss)"

text \<open>What the handler does with an event, and the event it publishes for the block manager.\<close>

definition stateUpdatesHandler :: "EventDataNewBatchAccepted \<Rightarrow> 'w BaseLayerClient \<Rightarrow>
    EventDataNewBatchAccepted \<times> 'w BaseLayerClient" where
  "stateUpdatesHandler eventData b =
     (\<lparr>ev_EndHeight = ev_EndHeight eventData, ev_StateIndex = ev_StateIndex eventData\<rparr>,
      b\<lparr>bl_latestHeight := ev_EndHeight eventData\<rparr>)"

definition base_ops :: "'w hub_ops \<Rightarrow> 'w BaseLayerClient sl_ops" where
  "base_ops H =
     \<lparr>sl_SubmitBatch = base_SubmitBatch H, sl_RetrieveBatch = base_RetrieveBatch H,
      sl_GetSequencersList = bl_sequencersList, sl_GetProposer = (\<lambda>b. GetProposer (bl_sequencersList b))\<rparr>"

subsection \<open>\<open>mock.go\<close>\<close>

text \<open>\<open>js_UpdateState\<close> reads start height and number of blocks of a hub message.\<close>

record hub_json =
  js_Marshal :: "SLBatch \<Rightarrow> bytes outcome"
  js_Unmarshal :: "bytes \<Rightarrow> SLBatch outcome"
  js_UpdateState :: "bytes \<Rightarrow> (u64 \<times> u64) outcome"

record 'db mock_hub =
  mk_ProposerPubKey :: gostring
  mk_slStateIndex :: u64
  mk_latestHeight :: u64
  mk_db :: 'db
  mk_published :: "EventDataNewBatchAccepted list"

definition settlementKVPrefix :: bytes where "settlementKVPrefix = [0]"

definition slStateIndexKey :: bytes where
  "slStateIndexKey = [0x73, 0x6c, 0x53, 0x74, 0x61, 0x74, 0x65, 0x49, 0x6e, 0x64, 0x65, 0x78]"

definition settlementKV :: "'db badger \<Rightarrow> 'db KVStore" where
  "settlementKV bdg = PrefixKV (BadgerKV bdg) settlementKVPrefix"

definition getKey :: "u64 \<Rightarrow> bytes" where
  "getKey key = PutUint64 key"

definition newHubClient :: "hub_json \<Rightarrow> 'db KVStore \<Rightarrow> gostring \<Rightarrow> 'db \<Rightarrow> 'db mock_hub outcome" where
  "newHubClient J kv proposer db =
     (let client = (\<lambda>latestHeight slStateIndex.
            \<lparr>mk_ProposerPubKey = proposer, mk_slStateIndex = slStateIndex, mk_latestHeight = latestHeight,
             mk_db = db, mk_published = []\<rparr>)
      in case kv_Get kv db slStateIndexKey of
           Ok b \<Rightarrow>
             if length b < 8 then Panic ''index out of range''
             else
               bind_out (kv_Get kv db (getKey (Uint64 b))) (\<lambda>raw.
                 case js_UpdateState J raw of
                   Ok (startHeight, numBlocks) \<Rightarrow> Ok (client (startHeight + numBlocks - 1) (Uint64 b))
                 | Err _ \<Rightarrow> Err (Errorf ''error unmarshalling batch'')
                 | Panic p \<Rightarrow> Panic p)
         | Err _ \<Rightarrow> Ok (client 0 0)
         | Panic p \<Rightarrow> Panic p)"

definition convertBatchtoSettlementBatch :: "Batch \<Rightarrow> da_Client \<Rightarrow> ResultSubmitBatch \<Rightarrow> SLBatch" where
  "convertBatchtoSettlementBatch batch daClient daResult =
     \<lparr>sb_StartHeight = ba_StartHeight batch, sb_EndHeight = ba_EndHeight batch,
      sb_AppHashes = map (\<lambda>block. h_AppHash (b_Header block)) (ba_Blocks batch),
      sb_MetaData = \<lparr>dm_Height = rs_DAHeight daResult, dm_Client = daClient\<rparr>\<rparr>"

primrec or_panic :: "'a outcome \<Rightarrow> 'a outcome" where
  "or_panic (Ok x) = Ok x"
| "or_panic (Err e) = Panic ''error''"
| "or_panic (Panic p) = Panic p"

definition mock_Set :: "'db KVStore \<Rightarrow> bytes \<Rightarrow> bytes \<Rightarrow> ('db mock_hub, unit) cmd" where
  "mock_Set kv k v c = (case kv_Set kv k v (mk_db c) of (r, db) \<Rightarrow> (or_panic r, c\<lparr>mk_db := db\<rparr>))"

definition saveBatch :: "hub_json \<Rightarrow> 'db KVStore \<Rightarrow> SLBatch \<Rightarrow> ('db mock_hub, unit) cmd" where
  "saveBatch J kv batch c =
     (let slStateIndex = mk_slStateIndex c in
      bind_cmd (lift_out (\<lambda>_. or_panic (js_Marshal J batch))) (\<lambda>b.
      bind_cmd (mock_Set kv (getKey (slStateIndex + 1)) b) (\<lambda>_.
      bind_cmd (modify (\<lambda>c. c\<lparr>mk_slStateIndex := slStateIndex + 1\<rparr>)) (\<lambda>_.
      bind_cmd (mock_Set kv slStateIndexKey (PutUint64 (slStateIndex + 1))) (\<lambda>_.
        modify (\<lambda>c. c\<lparr>mk_latestHeight := sb_EndHeight batch\<rparr>))))) c)"

text \<open>The event that is published after a delay carries no state index.\<close>

definition mock_PostBatch :: "hub_json \<Rightarrow> 'db KVStore \<Rightarrow> Batch \<Rightarrow> da_Client \<Rightarrow> ResultSubmitBatch \<Rightarrow> ('db mock_hub, unit) cmd" where
  "mock_PostBatch J kv batch daClient daResult =
     (let settlementBatch = convertBatchtoSettlementBatch batch daClient daResult in
      bind_cmd (saveBatch J kv settlementBatch) (\<lambda>_.
        modify (\<lambda>c. c\<lparr>mk_published := mk_published c @ [\<lparr>ev_EndHeight = sb_EndHeight settlementBatch, ev_StateIndex = 0\<rparr>]\<rparr>)))"

definition retrieveBatchAtStateIndex :: "hub_json \<Rightarrow> 'db KVStore \<Rightarrow> u64 \<Rightarrow> ('db mock_hub, SLResultRetrieveBatch) cmd" where
  "retrieveBatchAtStateIndex J kv slStateIndex c =
     (case kv_Get kv (mk_db c) (getKey slStateIndex) of
        Err _ \<Rightarrow> Err ErrBatchNotFound
      | Panic p \<Rightarrow> Panic p
      | Ok b \<Rightarrow>
          (case js_Unmarshal J b of
             Err _ \<Rightarrow> Err (Errorf ''error unmarshalling batch'')
           | Panic p \<Rightarrow> Panic p
           | Ok batch \<Rightarrow> Ok \<lparr>sr_Code = StatusSuccess, sr_Message = '''', sr_StateIndex = slStateIndex, sr_Batch = batch\<rparr>), c)"

definition mock_GetBatchAtIndex :: "hub_json \<Rightarrow> 'db KVStore \<Rightarrow> gostring \<Rightarrow> u64 \<Rightarrow> ('db mock_hub, SLResultRetrieveBatch) cmd" where
  "mock_GetBatchAtIndex J kv rollappID index = retrieveBatchAtStateIndex J kv index"

definition mock_GetLatestBatch :: "hub_json \<Rightarrow> 'db KVStore \<Rightarrow> gostring \<Rightarrow> ('db mock_hub, SLResultRetrieveBatch) cmd" where
  "mock_GetLatestBatch J kv rollappID c = mock_GetBatchAtIndex J kv rollappID (mk_slStateIndex c) c"

definition mock_GetSequencers :: "gostring \<Rightarrow> ('db mock_hub, Sequencer list) cmd" where
  "mock_GetSequencers rollappID c =
     (bind_out (DecodeString (mk_ProposerPubKey c)) (\<lambda>key. Ok [\<lparr>sq_PublicKey = key, sq_Status = Proposer\<rparr>]), c)"

definition mock_ops :: "hub_json \<Rightarrow> 'db KVStore \<Rightarrow> 'db mock_hub hub_ops" where
  "mock_ops J kv =
     \<lparr>hub_PostBatch = mock_PostBatch J kv, hub_GetLatestBatch = mock_GetLatestBatch J kv,
      hub_GetBatchAtIndex = mock_GetBatchAtIndex J kv, hub_GetSequencers = mock_GetSequencers\<rparr>"

subsection \<open>The batches in the store\<close>

sublocale badger_db \<subseteq> settled: prefixed_store "BadgerKV bdg" "badger_look bdg" write_eff id settlementKVPrefix
  by unfold_locales

definition settlement_look :: "'db badger \<Rightarrow> 'db \<Rightarrow> bytes \<rightharpoonup> bytes" where
  "settlement_look bdg = prefix_look (badger_look bdg) settlementKVPrefix"

definition settlement_eff :: "kv_write list \<Rightarrow> bytes \<Rightarrow> bytes option option" where
  "settlement_eff = prefix_eff write_eff settlementKVPrefix"

context badger_db
begin

lemma settlementKV_kv_store:
  "kv_store (settlementKV bdg) (settlement_look bdg) settlement_eff (\<lambda>k. settlementKVPrefix @ k)"
  using settled.sub.kv_store_axioms by (simp add: settlementKV_def settlement_look_def settlement_eff_def)

end

text \<open>A batch survives JSON, and reading it as a message of the hub does not fail.\<close>

definition json_keeps :: "hub_json \<Rightarrow> SLBatch \<Rightarrow> bool" where
  "json_keeps J b \<longleftrightarrow>
     (\<exists>raw. js_Marshal J b = Ok raw \<and> js_Unmarshal J raw = Ok b \<and> (\<exists>v. js_UpdateState J raw = Ok v))"

definition hub_holds :: "hub_json \<Rightarrow> (bytes \<rightharpoonup> bytes) \<Rightarrow> SLBatch list \<Rightarrow> bool" where
  "hub_holds J m bs \<longleftrightarrow>
     (\<forall>i < length bs. \<exists>raw. m (getKey (of_nat (Suc i))) = Some raw \<and> js_Unmarshal J raw = Ok (bs ! i) \<and>
        (\<exists>v. js_UpdateState J raw = Ok v)) \<and>
     m (getKey 0) = None \<and> m slStateIndexKey = (if bs = [] then None else Some (PutUint64 (of_nat (length bs)))) \<and>
     length bs < 2 ^ 64"

lemma getKey_eq [simp]: "getKey a = getKey b \<longleftrightarrow> a = b"
  unfolding getKey_def by (metis Uint64_PutUint64)

lemma getKey_not_index [simp]: "getKey a \<noteq> slStateIndexKey" "slStateIndexKey \<noteq> getKey a"
proof -
  have "length (getKey a) \<noteq> length slStateIndexKey" by (simp add: getKey_def slStateIndexKey_def)
  then show "getKey a \<noteq> slStateIndexKey" "slStateIndexKey \<noteq> getKey a" by metis+
qed

lemma word_index_eq:
  assumes "i < 2 ^ 64" and "j < 2 ^ 64"
  shows "(of_nat i :: u64) = of_nat j \<longleftrightarrow> i = j"
proof
  assume "(of_nat i :: u64) = of_nat j"
  then have "unat (of_nat i :: u64) = unat (of_nat j :: u64)" by simp
  with assms show "i = j" by (simp add: unat_of_nat)
qed simp

lemma hub_holds_add:
  assumes h: "hub_holds J m bs" and len: "Suc (length bs) < 2 ^ 64"
    and raw: "js_Unmarshal J raw = Ok b" "js_UpdateState J raw = Ok v"
  shows "hub_holds J (m(getKey (of_nat (Suc (length bs))) \<mapsto> raw, slStateIndexKey \<mapsto> PutUint64 (of_nat (Suc (length bs)))))
    (bs @ [b])"
proof -
  let ?n = "of_nat (Suc (length bs)) :: u64"
  let ?m = "m(getKey ?n \<mapsto> raw, slStateIndexKey \<mapsto> PutUint64 ?n)"
  have old: "?m (getKey (of_nat (Suc i))) = m (getKey (of_nat (Suc i)))" if "i < length bs" for i
  proof -
    have "(of_nat (Suc i) :: u64) \<noteq> ?n"
      using that len word_index_eq [of "Suc i" "Suc (length bs)"] by simp
    then show ?thesis by (simp del: of_nat_Suc)
  qed
  have "?n \<noteq> 0" using len word_index_eq [of "Suc (length bs)" 0] by (simp del: of_nat_Suc)
  then have "?m (getKey 0) = None" using h by (simp add: hub_holds_def del: of_nat_Suc)
  moreover have "\<exists>raw. ?m (getKey (of_nat (Suc i))) = Some raw \<and> js_Unmarshal J raw = Ok ((bs @ [b]) ! i) \<and>
      (\<exists>v. js_UpdateState J raw = Ok v)" if "i < Suc (length bs)" for i
  proof (cases "i = length bs")
    case True
    with raw show ?thesis by (simp del: of_nat_Suc)
  next
    case False
    with that have "i < length bs" by simp
    with h old [OF this] show ?thesis by (auto simp: hub_holds_def nth_append simp del: of_nat_Suc)
  qed
  ultimately show ?thesis
    using len by (simp add: hub_holds_def del: of_nat_Suc)
qed

context kv_store
begin

lemma saveBatch_run:
  assumes w: "working kv P" "P (mk_db c)" and h: "hub_holds J (look (mk_db c)) bs" "mk_slStateIndex c = of_nat (length bs)"
    and len: "Suc (length bs) < 2 ^ 64" and js: "json_keeps J b"
  shows "\<exists>db n. saveBatch J kv b c = (Ok (), c\<lparr>mk_slStateIndex := of_nat (Suc (length bs)), mk_latestHeight := n, mk_db := db\<rparr>) \<and>
    P db \<and> hub_holds J (look db) (bs @ [b])"
proof -
  obtain raw v where raw: "js_Marshal J b = Ok raw" "js_Unmarshal J raw = Ok b" "js_UpdateState J raw = Ok v"
    using js by (auto simp: json_keeps_def)
  let ?n = "of_nat (Suc (length bs)) :: u64"
  have n: "mk_slStateIndex c + 1 = ?n" using h(2) by simp
  obtain db1 where db1: "kv_Set kv (getKey ?n) raw (mk_db c) = (Ok (), db1)" "P db1"
    using workingD(1) [OF w] by blast
  obtain db2 where db2: "kv_Set kv slStateIndexKey (PutUint64 ?n) db1 = (Ok (), db2)" "P db2"
    using workingD(1) [OF w(1) db1(2)] by blast
  have "look db2 = (look (mk_db c))(getKey ?n \<mapsto> raw, slStateIndexKey \<mapsto> PutUint64 ?n)"
    using Set_Ok [OF db1(1)] Set_Ok [OF db2(1)] by simp
  with hub_holds_add [OF h(1) len raw(2,3)] have "hub_holds J (look db2) (bs @ [b])" by simp
  moreover have "saveBatch J kv b c =
      (Ok (), c\<lparr>mk_slStateIndex := ?n, mk_latestHeight := sb_EndHeight b, mk_db := db2\<rparr>)"
    using db1(1) db2(1) raw(1)
    by (simp add: saveBatch_def n Let_def bind_cmd_def lift_out_def mock_Set_def modify_def del: of_nat_Suc)
  ultimately show ?thesis using db2(2) by blast
qed

lemma retrieve_held:
  assumes "hub_holds J (look (mk_db c)) bs"
  shows "i < length bs \<Longrightarrow> retrieveBatchAtStateIndex J kv (of_nat (Suc i)) c =
      (Ok \<lparr>sr_Code = StatusSuccess, sr_Message = '''', sr_StateIndex = of_nat (Suc i), sr_Batch = bs ! i\<rparr>, c)"
    and "retrieveBatchAtStateIndex J kv 0 c = (Err ErrBatchNotFound, c)"
proof -
  show "retrieveBatchAtStateIndex J kv 0 c = (Err ErrBatchNotFound, c)"
    using assms by (simp add: hub_holds_def retrieveBatchAtStateIndex_def Get_law)
  assume "i < length bs"
  then obtain raw where "look (mk_db c) (getKey (of_nat (Suc i))) = Some raw" "js_Unmarshal J raw = Ok (bs ! i)"
    using assms unfolding hub_holds_def by blast
  then show "retrieveBatchAtStateIndex J kv (of_nat (Suc i)) c =
      (Ok \<lparr>sr_Code = StatusSuccess, sr_Message = '''', sr_StateIndex = of_nat (Suc i), sr_Batch = bs ! i\<rparr>, c)"
    by (simp add: retrieveBatchAtStateIndex_def Get_law del: of_nat_Suc)
qed

lemma latest_held:
  assumes "hub_holds J (look (mk_db c)) bs" and "mk_slStateIndex c = of_nat (length bs)"
  shows "mock_GetLatestBatch J kv id' c =
    (if bs = [] then Err ErrBatchNotFound
     else Ok \<lparr>sr_Code = StatusSuccess, sr_Message = '''', sr_StateIndex = of_nat (length bs), sr_Batch = last bs\<rparr>, c)"
proof (cases bs rule: rev_cases)
  case Nil
  with assms retrieve_held(2) [OF assms(1)] show ?thesis
    by (simp add: mock_GetLatestBatch_def mock_GetBatchAtIndex_def)
next
  case (snoc xs x)
  with retrieve_held(1) [OF assms(1), of "length xs"] assms(2) show ?thesis
    by (simp add: mock_GetLatestBatch_def mock_GetBatchAtIndex_def del: of_nat_Suc)
qed

lemma newHubClient_held:
  assumes "hub_holds J (look db) bs"
  shows "\<exists>h. newHubClient J kv p db =
    Ok \<lparr>mk_ProposerPubKey = p, mk_slStateIndex = of_nat (length bs), mk_latestHeight = h, mk_db = db, mk_published = []\<rparr>"
proof (cases "bs = []")
  case True
  with assms show ?thesis by (simp add: hub_holds_def newHubClient_def Get_law)
next
  case False
  then obtain i where i: "length bs = Suc i" by (cases bs) auto
  then obtain raw v where "look db (getKey (of_nat (Suc i))) = Some raw" "js_UpdateState J raw = Ok v"
    using assms unfolding hub_holds_def by (metis lessI)
  moreover have "look db slStateIndexKey = Some (PutUint64 (of_nat (Suc i)))"
    using assms False i by (simp add: hub_holds_def)
  ultimately show ?thesis
    by (cases v) (simp add: newHubClient_def Get_law i del: of_nat_Suc)
qed

end

subsection \<open>Submission and acceptance\<close>

text \<open>
  The block manager, the base client and the mock hub together: the manager's sync target and its flag
  for a batch in process, the base client with the hub's published events, and the events for the
  manager. A submission starts after the target while no batch is in process; the handlers take the
  oldest event; a restart builds hub client and base client from the store and takes the target from
  the latest batch.
\<close>

record 'db sl_system =
  sy_base :: "'db mock_hub BaseLayerClient"
  sy_target :: u64
  sy_inProcess :: bool
  sy_accepted :: "EventDataNewBatchAccepted list"

definition resume :: "hub_json \<Rightarrow> 'db KVStore \<Rightarrow> sl_Config \<Rightarrow> gostring \<Rightarrow> 'db \<Rightarrow> 'db sl_system outcome" where
  "resume J kv cfg proposer db =
     bind_out (newHubClient J kv proposer db) (\<lambda>c.
       case base_Init (mock_ops J kv) cfg c of
         (Ok _, b) \<Rightarrow>
           Ok \<lparr>sy_base = b,
               sy_target = (case fst (base_RetrieveBatch (mock_ops J kv) None b) of Ok r \<Rightarrow> sb_EndHeight (sr_Batch r) | _ \<Rightarrow> 0),
               sy_inProcess = False, sy_accepted = []\<rparr>
       | (Err e, b) \<Rightarrow> Err e
       | (Panic p, b) \<Rightarrow> Panic p)"

inductive sl_step :: "hub_json \<Rightarrow> 'db KVStore \<Rightarrow> sl_Config \<Rightarrow> gostring \<Rightarrow> 'db sl_system \<Rightarrow> unit outcome \<Rightarrow> 'db sl_system \<Rightarrow> bool"
  for J kv cfg proposer where
  submit: "\<not> sy_inProcess s \<Longrightarrow> ba_StartHeight batch = sy_target s + 1 \<Longrightarrow> ba_StartHeight batch \<le> ba_EndHeight batch \<Longrightarrow>
    ba_EndHeight batch < - 1 \<Longrightarrow>
    base_SubmitBatch (mock_ops J kv) batch daClient daResult (sy_base s) = (r, b) \<Longrightarrow>
    sl_step J kv cfg proposer s r (s\<lparr>sy_base := b, sy_inProcess := True\<rparr>)"
| settle: "mk_published (bl_client (sy_base s)) = e # es \<Longrightarrow>
    stateUpdatesHandler e (sy_base s\<lparr>bl_client := (bl_client (sy_base s))\<lparr>mk_published := es\<rparr>\<rparr>) = (e', b) \<Longrightarrow>
    sl_step J kv cfg proposer s (Ok ()) (s\<lparr>sy_base := b, sy_accepted := sy_accepted s @ [e']\<rparr>)"
| accept: "sy_accepted s = e # es \<Longrightarrow>
    sl_step J kv cfg proposer s (Ok ()) (s\<lparr>sy_target := ev_EndHeight e, sy_inProcess := False, sy_accepted := es\<rparr>)"
| restart: "resume J kv cfg proposer (mk_db (bl_client (sy_base s))) = Ok s' \<Longrightarrow> sl_step J kv cfg proposer s (Ok ()) s'"

inductive sl_run :: "hub_json \<Rightarrow> 'db KVStore \<Rightarrow> sl_Config \<Rightarrow> gostring \<Rightarrow> 'db \<Rightarrow> 'db sl_system \<Rightarrow> bool"
  for J kv cfg proposer db where
  start: "resume J kv cfg proposer db = Ok s \<Longrightarrow> sl_run J kv cfg proposer db s"
| step: "sl_run J kv cfg proposer db s \<Longrightarrow> sl_step J kv cfg proposer s r s' \<Longrightarrow> sl_run J kv cfg proposer db s'"

fun tiled :: "u64 \<Rightarrow> SLBatch list \<Rightarrow> bool" where
  "tiled h [] = True"
| "tiled h (b # bs) \<longleftrightarrow>
     sb_StartHeight b = h + 1 \<and> sb_StartHeight b \<le> sb_EndHeight b \<and> sb_EndHeight b < - 1 \<and> tiled (sb_EndHeight b) bs"

definition last_end :: "u64 \<Rightarrow> SLBatch list \<Rightarrow> u64" where
  "last_end h bs = (if bs = [] then h else sb_EndHeight (last bs))"

lemma tiled_snoc:
  "tiled h (bs @ [b]) \<longleftrightarrow> tiled h bs \<and> sb_StartHeight b = last_end h bs + 1 \<and> sb_StartHeight b \<le> sb_EndHeight b \<and> sb_EndHeight b < - 1"
  by (induction bs arbitrary: h) (auto simp: last_end_def)

lemma last_end_snoc [simp]: "last_end h [] = h" "last_end h (bs @ [b]) = sb_EndHeight b"
  by (simp_all add: last_end_def)

lemma tiled_length: "tiled h bs \<Longrightarrow> h < - 1 \<Longrightarrow> last_end h bs < - 1 \<and> unat h + length bs \<le> unat (last_end h bs)"
proof (induction bs rule: rev_induct)
  case (snoc b bs)
  then have IH: "last_end h bs < - 1" "unat h + length bs \<le> unat (last_end h bs)"
    and b: "sb_StartHeight b = last_end h bs + 1" "sb_StartHeight b \<le> sb_EndHeight b" "sb_EndHeight b < - 1"
    by (auto simp: tiled_snoc)
  have "unat (last_end h bs + 1) = Suc (unat (last_end h bs))"
    by (rule unat_Suc_less [OF IH(1)])
  with b IH(2) show ?case
    by (simp add: word_le_nat_alt)
qed simp

text \<open>Where the latest batch is: settled, on its way to the base client, or on its way to the manager.\<close>

definition phases_agree :: "'db sl_system \<Rightarrow> u64 \<Rightarrow> bool" where
  "phases_agree s h \<longleftrightarrow>
     (let q = mk_published (bl_client (sy_base s)); a = sy_accepted s; l = bl_latestHeight (sy_base s) in
      (\<not> sy_inProcess s \<and> q = [] \<and> a = [] \<and> l = h \<and> sy_target s = h) \<or>
      (sy_inProcess s \<and> a = [] \<and> l = sy_target s \<and> (\<exists>e. q = [e] \<and> ev_EndHeight e = h)) \<or>
      (sy_inProcess s \<and> q = [] \<and> l = h \<and> (\<exists>e. a = [e] \<and> ev_EndHeight e = h)))"

definition sl_ok :: "hub_json \<Rightarrow> ('db \<Rightarrow> bytes \<rightharpoonup> bytes) \<Rightarrow> ('db \<Rightarrow> bool) \<Rightarrow> sl_Config \<Rightarrow> gostring \<Rightarrow> 'db sl_system \<Rightarrow> SLBatch list \<Rightarrow> bool" where
  "sl_ok J look P cfg proposer s bs \<longleftrightarrow>
     (let c = bl_client (sy_base s) in
      tiled 0 bs \<and> hub_holds J (look (mk_db c)) bs \<and> P (mk_db c) \<and> mk_slStateIndex c = of_nat (length bs) \<and>
      phases_agree s (last_end 0 bs))"

context kv_store
begin

lemma resume_held:
  assumes h: "hub_holds J (look db) bs" and t: "tiled 0 bs" and P: "P db" and key: "DecodeString proposer = Ok key"
  shows "\<exists>s. resume J kv cfg proposer db = Ok s \<and> sl_ok J look P cfg proposer s bs \<and> sy_target s = last_end 0 bs \<and> \<not> sy_inProcess s"
proof -
  obtain n where c: "newHubClient J kv proposer db =
      Ok \<lparr>mk_ProposerPubKey = proposer, mk_slStateIndex = of_nat (length bs), mk_latestHeight = n, mk_db = db, mk_published = []\<rparr>"
      (is "_ = Ok ?c")
    using newHubClient_held [OF h] by blast
  have latest: "mock_GetLatestBatch J kv id' ?c =
    (if bs = [] then Err ErrBatchNotFound
     else Ok \<lparr>sr_Code = StatusSuccess, sr_Message = '''', sr_StateIndex = of_nat (length bs), sr_Batch = last bs\<rparr>, ?c)" for id'
    by (rule latest_held) (use h in simp_all)
  let ?b = "\<lparr>bl_latestHeight = last_end 0 bs, bl_sequencersList = [\<lparr>sq_PublicKey = key, sq_Status = Proposer\<rparr>],
    bl_config = cfg, bl_client = ?c\<rparr>"
  have "base_Init (mock_ops J kv) cfg ?c = (Ok (), ?b)"
    using key latest
    by (simp add: base_Init_def Let_def base_RetrieveBatch_def on_client_def mock_ops_def bind_cmd_def modify_def
        fetchSequencersList_def mock_GetSequencers_def last_end_def)
  moreover have "(case fst (base_RetrieveBatch (mock_ops J kv) None ?b) of Ok r \<Rightarrow> sb_EndHeight (sr_Batch r) | _ \<Rightarrow> 0) = last_end 0 bs"
    using latest by (simp add: base_RetrieveBatch_def on_client_def mock_ops_def last_end_def)
  ultimately show ?thesis
    using c h t P by (simp add: resume_def sl_ok_def phases_agree_def)
qed

lemma submit_held:
  assumes ok: "sl_ok J look P cfg proposer s bs" and w: "working kv P" and js: "\<And>b. json_keeps J b"
    and idle: "\<not> sy_inProcess s" and batch: "ba_StartHeight batch = sy_target s + 1" "ba_StartHeight batch \<le> ba_EndHeight batch"
      "ba_EndHeight batch < - 1"
    and run: "base_SubmitBatch (mock_ops J kv) batch daClient daResult (sy_base s) = (r, b)"
  shows "r = Ok () \<and>
    sl_ok J look P cfg proposer (s\<lparr>sy_base := b, sy_inProcess := True\<rparr>) (bs @ [convertBatchtoSettlementBatch batch daClient daResult])"
proof -
  let ?c = "bl_client (sy_base s)" and ?sb = "convertBatchtoSettlementBatch batch daClient daResult"
  have c: "tiled 0 bs" "hub_holds J (look (mk_db ?c)) bs" "P (mk_db ?c)" "mk_slStateIndex ?c = of_nat (length bs)"
    using ok by (simp_all add: sl_ok_def Let_def)
  have ph: "mk_published ?c = []" "sy_accepted s = []" "bl_latestHeight (sy_base s) = last_end 0 bs" "sy_target s = last_end 0 bs"
    using ok idle by (auto simp: sl_ok_def Let_def phases_agree_def)
  have t: "tiled 0 (bs @ [?sb])"
    using c(1) batch ph(4) by (simp add: tiled_snoc convertBatchtoSettlementBatch_def)
  have len: "Suc (length bs) < 2 ^ 64"
  proof -
    have "(0 :: u64) < - 1" by (simp add: word_gt_0)
    from tiled_length [OF t this] have "Suc (length bs) \<le> unat (last_end 0 (bs @ [?sb]))" by simp
    moreover have "unat (last_end 0 (bs @ [?sb])) < 2 ^ 64"
      using unsigned_less [of "last_end 0 (bs @ [?sb])", where ?'a = nat] by simp
    ultimately show ?thesis by (rule le_less_trans)
  qed
  obtain db n where save: "saveBatch J kv ?sb ?c =
      (Ok (), ?c\<lparr>mk_slStateIndex := of_nat (Suc (length bs)), mk_latestHeight := n, mk_db := db\<rparr>)"
    "P db" "hub_holds J (look db) (bs @ [?sb])"
    using saveBatch_run [OF w c(3,2,4) len js] by blast
  have "validateBatch (sy_base s) batch = Ok ()"
    using batch ph(3,4) by (simp add: validateBatch_def)
  then have "r = Ok ()" "b = sy_base s\<lparr>bl_client := ?c\<lparr>mk_slStateIndex := of_nat (Suc (length bs)), mk_latestHeight := n, mk_db := db,
      mk_published := [\<lparr>ev_EndHeight = sb_EndHeight ?sb, ev_StateIndex = 0\<rparr>]\<rparr>\<rparr>"
    using run save(1) ph(1)
    by (auto simp: base_SubmitBatch_def on_client_def mock_ops_def mock_PostBatch_def Let_def bind_cmd_def modify_def simp del: of_nat_Suc)
  with t save(2,3) ph show ?thesis
    by (simp add: sl_ok_def Let_def phases_agree_def)
qed

lemma step_held:
  assumes ok: "sl_ok J look P cfg proposer s bs" and w: "working kv P" and js: "\<And>b. json_keeps J b"
    and key: "DecodeString proposer = Ok key" and step: "sl_step J kv cfg proposer s r s'"
  shows "r = Ok () \<and> (\<exists>bs'. sl_ok J look P cfg proposer s' bs' \<and> prefix bs bs')"
  using step
proof (cases rule: sl_step.cases)
  case (submit batch daClient daResult b)
  have "r = Ok () \<and> sl_ok J look P cfg proposer s' (bs @ [convertBatchtoSettlementBatch batch daClient daResult])"
    unfolding submit(1) by (rule submit_held [OF ok w js]) (use submit in simp_all)
  then show ?thesis by (auto intro: prefixI)
next
  case (settle e es e' b)
  with ok have "sl_ok J look P cfg proposer s' bs"
    by (auto simp: sl_ok_def Let_def phases_agree_def stateUpdatesHandler_def)
  with settle show ?thesis by blast
next
  case (accept e es)
  with ok have "sl_ok J look P cfg proposer s' bs"
    by (auto simp: sl_ok_def Let_def phases_agree_def)
  with accept show ?thesis by blast
next
  case restart
  from ok have "hub_holds J (look (mk_db (bl_client (sy_base s)))) bs" "tiled 0 bs" "P (mk_db (bl_client (sy_base s)))"
    by (simp_all add: sl_ok_def Let_def)
  then have "\<exists>s2. resume J kv cfg proposer (mk_db (bl_client (sy_base s))) = Ok s2 \<and> sl_ok J look P cfg proposer s2 bs"
    using resume_held [of J _ bs P, OF _ _ _ key] by blast
  with restart show ?thesis by auto
qed

lemma run_held:
  assumes "sl_run J kv cfg proposer db s" and "working kv P" and "P db" and "look db = Map.empty" and "\<And>b. json_keeps J b"
    and "DecodeString proposer = Ok key"
  shows "\<exists>bs. sl_ok J look P cfg proposer s bs"
  using assms(1)
proof induction
  case (start s)
  have "hub_holds J (look db) []" using assms(4) by (simp add: hub_holds_def)
  then have "\<exists>s2. resume J kv cfg proposer db = Ok s2 \<and> sl_ok J look P cfg proposer s2 []"
    using resume_held [of J db "[]" P, OF _ _ _ assms(6)] assms(3) by auto
  with start show ?case by auto
next
  case (step s r s')
  then show ?case using step_held [OF _ assms(2,5,6)] by blast
qed

end

subsection \<open>Properties\<close>


text \<open>A codec that keeps every batch, in place of JSON: strings are lists of marked bytes with an end mark.\<close>

definition write_strings :: "bytes list \<Rightarrow> bytes" where
  "write_strings ss = concat (map (\<lambda>s. concat (map (\<lambda>x. [1, x]) s) @ [2]) ss)"

fun read_strings :: "bytes \<Rightarrow> bytes \<Rightarrow> bytes list" where
  "read_strings [] cur = []"
| "read_strings [c] cur = (if c = 2 then [rev cur] else [])"
| "read_strings (c # x # r) cur = (if c = 2 then rev cur # read_strings (x # r) [] else read_strings r (x # cur))"

definition sample_json :: hub_json where
  "sample_json =
     \<lparr>js_Marshal = (\<lambda>b. Ok (PutUint64 (sb_StartHeight b) @ PutUint64 (sb_EndHeight b) @ PutUint64 (dm_Height (sb_MetaData b)) @
        write_strings (dm_Client (sb_MetaData b) # sb_AppHashes b))),
      js_Unmarshal = (\<lambda>raw. case read_strings (drop 24 raw) [] of
         client # hashes \<Rightarrow>
           Ok \<lparr>sb_StartHeight = Uint64 (take 8 raw), sb_EndHeight = Uint64 (take 8 (drop 8 raw)), sb_AppHashes = hashes,
               sb_MetaData = \<lparr>dm_Height = Uint64 (take 8 (drop 16 raw)), dm_Client = client\<rparr>\<rparr>
       | [] \<Rightarrow> Err (Errorf ''invalid json'')),
      js_UpdateState = (\<lambda>raw. Ok (Uint64 (take 8 raw), 0))\<rparr>"

lemma read_string: "read_strings (concat (map (\<lambda>x. [1, x]) s) @ 2 # r) cur = (rev cur @ s) # read_strings r []"
  by (induction s arbitrary: cur) (cases r; simp)+

lemma read_write_strings: "read_strings (write_strings ss) [] = ss"
  by (induction ss) (simp_all add: write_strings_def read_string)

lemma sample_json_keeps: "json_keeps sample_json b"
  by (simp add: json_keeps_def sample_json_def read_write_strings)

definition sample_sl_config :: sl_Config where
  "sample_sl_config = \<lparr>cf_KeyringBackend = [], cf_NodeAddress = [], cf_KeyringHomeDir = [], cf_DymAccountName = [],
     cf_RollappID = [0x72], cf_GasLimit = 0, cf_GasPrices = [], cf_GasFees = [], cf_ProposerPubKey = [0x61, 0x62]\<rparr>"

lemma working_settlement_mem: "working (settlementKV mem_badger) no_faults"
  using working_mem by (simp add: mainKV_def settlementKV_def mainPrefix_def settlementKVPrefix_def)


end
