(* ===== verification/DaMock.thy ===== *)
theory DaMock
  imports Store Layers
begin

text \<open>
  The data availability client of \<open>src/da/mock/mock.go\<close>, which keeps the batches in the node's key-value
  store, as an instance of the interface of theory \<open>Layers\<close>. \<open>sha1\<close> is a parameter; the texts of
  error messages are not kept.
\<close>

subsection \<open>The client\<close>

record 'db da_mock =
  dk_daHeight :: u64
  dk_BlockTime :: int
  dk_db :: 'db

abbreviation defaultBlockTime :: int where
  "defaultBlockTime \<equiv> 3 * 10 ^ 9"

text \<open>\<open>blockTime\<close> is the duration that the configuration denotes, where there is one.\<close>

definition da_mock_Init :: "int outcome option \<Rightarrow> 'db \<Rightarrow> 'db da_mock outcome" where
  "da_mock_Init blockTime db =
     (case blockTime of
        None \<Rightarrow> Ok \<lparr>dk_daHeight = 1, dk_BlockTime = defaultBlockTime, dk_db = db\<rparr>
      | Some r \<Rightarrow> bind_out r (\<lambda>t. Ok \<lparr>dk_daHeight = 1, dk_BlockTime = t, dk_db = db\<rparr>))"

abbreviation da_Mock :: da_Client where "da_Mock \<equiv> [0x6d, 0x6f, 0x63, 0x6b]"

definition uint64ToBinary :: "u64 \<Rightarrow> bytes" where
  "uint64ToBinary daHeight = PutUint64 daHeight"

definition da_getKey :: "u64 \<Rightarrow> u64 \<Rightarrow> bytes" where
  "da_getKey daHeight height = PutUint64 daHeight @ PutUint64 height"

abbreviation submit_error :: ResultSubmitBatch where
  "submit_error \<equiv> \<lparr>rs_Code = StatusError, rs_Message = ''error'', rs_DAHeight = 0\<rparr>"

abbreviation retrieve_error :: ResultRetrieveBatch where
  "retrieve_error \<equiv> \<lparr>rr_Code = StatusError, rr_Message = ''error'', rr_DAHeight = 0, rr_Batches = []\<rparr>"

text \<open>An error of a step is reported in the result, a panic goes on.\<close>

primrec or_report :: "'r \<Rightarrow> 'r outcome \<Rightarrow> 'r outcome" where
  "or_report bad (Ok r) = Ok r"
| "or_report bad (Err e) = Ok bad"
| "or_report bad (Panic p) = Panic p"

definition kv_put :: "'db KVStore \<Rightarrow> bytes \<Rightarrow> bytes \<Rightarrow> ('db da_mock, unit) cmd" where
  "kv_put kv k v m = (case kv_Set kv k v (dk_db m) of (r, db) \<Rightarrow> (r, m\<lparr>dk_db := db\<rparr>))"

definition da_mock_SubmitBatch :: "codec \<Rightarrow> (bytes \<Rightarrow> bytes) \<Rightarrow> 'db KVStore \<Rightarrow> Batch \<Rightarrow> ('db da_mock, ResultSubmitBatch) cmd" where
  "da_mock_SubmitBatch cd sha1 kv batch m =
     (let daHeight = dk_daHeight m; hash = sha1 (uint64ToBinary (ba_EndHeight batch)) in
      map_prod (or_report submit_error) id
        (bind_cmd (lift_out (\<lambda>_. Batch_MarshalBinary cd batch)) (\<lambda>blob.
         bind_cmd (kv_put kv (da_getKey daHeight (ba_StartHeight batch)) hash) (\<lambda>_.
         bind_cmd (kv_put kv hash blob) (\<lambda>_.
           ret \<lparr>rs_Code = StatusSuccess, rs_Message = ''OK'', rs_DAHeight = daHeight\<rparr>))) m))"

fun collect_batches :: "codec \<Rightarrow> 'db KVStore \<Rightarrow> 'db \<Rightarrow> (bytes \<times> bytes) list \<Rightarrow> Batch list outcome" where
  "collect_batches cd kv db [] = Ok []"
| "collect_batches cd kv db ((k, hash) # es) =
     bind_out (kv_Get kv db hash) (\<lambda>blob.
     bind_out (Batch_UnmarshalBinary cd blob) (\<lambda>batch.
     bind_out (collect_batches cd kv db es) (\<lambda>bs. Ok (batch # bs))))"

definition da_mock_RetrieveBatches :: "codec \<Rightarrow> 'db KVStore \<Rightarrow> u64 \<Rightarrow> ('db da_mock, ResultRetrieveBatch) cmd" where
  "da_mock_RetrieveBatches cd kv dataLayerHeight m =
     (if dataLayerHeight \<ge> dk_daHeight m
      then (Ok \<lparr>rr_Code = StatusError, rr_Message = ''batch not found'', rr_DAHeight = 0, rr_Batches = []\<rparr>, m)
      else
        (or_report retrieve_error
           (bind_out (collect_batches cd kv (dk_db m) (kv_PrefixIterator kv (dk_db m) (uint64ToBinary dataLayerHeight))) (\<lambda>batches.
              Ok \<lparr>rr_Code = StatusSuccess, rr_Message = [], rr_DAHeight = 0, rr_Batches = map Some batches\<rparr>)), m))"

definition da_mock_CheckBatchAvailability :: "codec \<Rightarrow> 'db KVStore \<Rightarrow> u64 \<Rightarrow> ('db da_mock, ResultCheckBatch) cmd" where
  "da_mock_CheckBatchAvailability cd kv dataLayerHeight =
     bind_cmd (da_mock_RetrieveBatches cd kv dataLayerHeight) (\<lambda>batchesRes.
       ret \<lparr>rk_Code = rr_Code batchesRes, rk_Message = [], rk_DAHeight = 0, rk_DataAvailable = (length (rr_Batches batchesRes) > 0)\<rparr>)"

text \<open>\<open>random\<close> is the random number.\<close>

definition updateDAHeight :: "u64 \<Rightarrow> 'db da_mock \<Rightarrow> 'db da_mock" where
  "updateDAHeight random m = m\<lparr>dk_daHeight := dk_daHeight m + (random mod 10 + 1)\<rparr>"

definition da_mock_ops :: "codec \<Rightarrow> (bytes \<Rightarrow> bytes) \<Rightarrow> 'db KVStore \<Rightarrow> 'db da_mock da_ops" where
  "da_mock_ops cd sha1 kv =
     \<lparr>da_SubmitBatch = da_mock_SubmitBatch cd sha1 kv, da_RetrieveBatches = da_mock_RetrieveBatches cd kv, da_GetClientType = da_Mock\<rparr>"

subsection \<open>What the store holds\<close>

text \<open>
  What is asked of the digest: its length, that the end heights of batches have different digests, and
  that no digest starts with the bytes of a height below \<open>N\<close>.
\<close>

definition digest_ok :: "(bytes \<Rightarrow> bytes) \<Rightarrow> u64 \<Rightarrow> bool" where
  "digest_ok sha1 N \<longleftrightarrow>
     (\<forall>e. length (sha1 (uint64ToBinary e)) = 20) \<and>
     (\<forall>d e. sha1 (uint64ToBinary d) = sha1 (uint64ToBinary e) \<longrightarrow> d = e) \<and>
     (\<forall>e h. h < N \<longrightarrow> \<not> prefix (uint64ToBinary h) (sha1 (uint64ToBinary e)))"

abbreviation digest :: "(bytes \<Rightarrow> bytes) \<Rightarrow> Batch \<Rightarrow> bytes" where
  "digest sha1 b \<equiv> sha1 (uint64ToBinary (ba_EndHeight b))"

abbreviation plain :: "Batch \<Rightarrow> Batch" where
  "plain b \<equiv> b\<lparr>ba_Blocks := map without_evidence (ba_Blocks b)\<rparr>"

text \<open>The entries of a store after the submissions \<open>subs\<close>, each with the height it was made at.\<close>

definition da_holds :: "codec \<Rightarrow> (bytes \<Rightarrow> bytes) \<Rightarrow> (bytes \<rightharpoonup> bytes) \<Rightarrow> (u64 \<times> Batch) list \<Rightarrow> bool" where
  "da_holds cd sha1 m subs \<longleftrightarrow>
     (\<forall>h b. (h, b) \<in> set subs \<longrightarrow> m (da_getKey h (ba_StartHeight b)) = Some (digest sha1 b) \<and>
        (\<exists>blob. m (digest sha1 b) = Some blob \<and> Batch_UnmarshalBinary cd blob = Ok (plain b))) \<and>
     (\<forall>k v. m k = Some v \<longrightarrow> (\<exists>h b. (h, b) \<in> set subs \<and> (k = da_getKey h (ba_StartHeight b) \<or> k = digest sha1 b)))"

text \<open>No two submissions have the same end height, and none at the same height the same start.\<close>

definition apart_subs :: "(u64 \<times> Batch) list \<Rightarrow> bool" where
  "apart_subs subs \<longleftrightarrow>
     distinct (map (\<lambda>(h, b). ba_EndHeight b) subs) \<and> distinct (map (\<lambda>(h, b). (h, ba_StartHeight b)) subs)"

lemma PutUint64_eq [simp]: "PutUint64 a = PutUint64 b \<longleftrightarrow> a = b"
  by (metis Uint64_PutUint64)

lemma da_getKey_eq [simp]: "da_getKey a b = da_getKey c d \<longleftrightarrow> a = c \<and> b = d"
  by (simp add: da_getKey_def)

lemma prefix_getKey: "prefix (PutUint64 a) (da_getKey b c) \<longleftrightarrow> a = b"
  by (auto simp: da_getKey_def prefix_def append_eq_append_conv)

lemma key_not_digest:
  assumes "digest_ok sha1 N"
  shows "da_getKey a c \<noteq> digest sha1 b" and "digest sha1 b \<noteq> da_getKey a c"
proof -
  have "length (da_getKey a c) \<noteq> length (digest sha1 b)"
    using assms by (simp add: digest_ok_def da_getKey_def)
  then show "da_getKey a c \<noteq> digest sha1 b" "digest sha1 b \<noteq> da_getKey a c" by metis+
qed

lemma digest_eq:
  assumes "digest_ok sha1 N"
  shows "digest sha1 b = digest sha1 c \<longleftrightarrow> ba_EndHeight b = ba_EndHeight c"
  using assms unfolding digest_ok_def by auto

lemma da_holds_add:
  assumes dig: "digest_ok sha1 N" and h: "da_holds cd sha1 m subs" and apart: "apart_subs (subs @ [(h, b)])"
    and blob: "Batch_UnmarshalBinary cd blob = Ok (plain b)"
  shows "da_holds cd sha1 (m(da_getKey h (ba_StartHeight b) \<mapsto> digest sha1 b, digest sha1 b \<mapsto> blob)) (subs @ [(h, b)])"
    (is "da_holds cd sha1 ?m _")
proof -
  note ne = key_not_digest [OF dig] and eq = digest_eq [OF dig]
  have old: "?m (da_getKey h' (ba_StartHeight b')) = m (da_getKey h' (ba_StartHeight b'))"
    "?m (digest sha1 b') = m (digest sha1 b')" if "(h', b') \<in> set subs" for h' b'
  proof -
    have "(h', ba_StartHeight b') \<noteq> (h, ba_StartHeight b)" "ba_EndHeight b' \<noteq> ba_EndHeight b"
      using apart that by (force simp: apart_subs_def)+
    then show "?m (da_getKey h' (ba_StartHeight b')) = m (da_getKey h' (ba_StartHeight b'))"
      "?m (digest sha1 b') = m (digest sha1 b')"
      using ne eq by auto
  qed
  have new: "?m (da_getKey h (ba_StartHeight b)) = Some (digest sha1 b)" "?m (digest sha1 b) = Some blob"
    using ne by auto
  have "?m (da_getKey h' (ba_StartHeight b')) = Some (digest sha1 b') \<and>
      (\<exists>blob. ?m (digest sha1 b') = Some blob \<and> Batch_UnmarshalBinary cd blob = Ok (plain b'))"
    if "(h', b') \<in> set (subs @ [(h, b)])" for h' b'
  proof (cases "(h', b') \<in> set subs")
    case True
    with h old [OF True] show ?thesis unfolding da_holds_def by metis
  next
    case False
    with that have "h' = h" "b' = b" by auto
    with new blob show ?thesis by metis
  qed
  moreover have "\<exists>h' b'. (h', b') \<in> set (subs @ [(h, b)]) \<and> (k = da_getKey h' (ba_StartHeight b') \<or> k = digest sha1 b')"
    if "?m k = Some v" for k v
  proof (cases "k = da_getKey h (ba_StartHeight b) \<or> k = digest sha1 b")
    case True
    then show ?thesis by auto
  next
    case False
    with that have "m k = Some v" by simp
    with h show ?thesis unfolding da_holds_def by fastforce
  qed
  ultimately show ?thesis unfolding da_holds_def by blast
qed

subsection \<open>Submissions and time\<close>

definition sendable :: "codec \<Rightarrow> Batch \<Rightarrow> bool" where
  "sendable cd b \<longleftrightarrow> wf_Batch b \<and> encodable_Batch cd (Batch_ToProto b) \<and> Batch_Size cd (Batch_ToProto b) < 2 ^ 63"

definition dalc_look :: "'db badger \<Rightarrow> 'db \<Rightarrow> bytes \<rightharpoonup> bytes" where
  "dalc_look bdg = prefix_look (badger_look bdg) dalcPrefix"

context badger_db
begin

lemma dalcKV_kv_store: "kv_store (dalcKV bdg) (dalc_look bdg) (prefix_eff write_eff dalcPrefix) (\<lambda>k. dalcPrefix @ k)"
  using dalc.sub.kv_store_axioms by (simp add: dalcKV_def dalc_look_def)

end

text \<open>A client from its start on, with the submissions made so far.\<close>

inductive da_run :: "codec \<Rightarrow> (bytes \<Rightarrow> bytes) \<Rightarrow> 'db KVStore \<Rightarrow> 'db \<Rightarrow> (u64 \<times> Batch) list \<Rightarrow> 'db da_mock \<Rightarrow> bool"
  for cd :: codec and sha1 :: "bytes \<Rightarrow> bytes" and kv :: "'db KVStore" and db :: 'db where
  da_start: "da_mock_Init blockTime db = Ok m \<Longrightarrow> da_run cd sha1 kv db [] m"
| da_submit: "da_run cd sha1 kv db subs m \<Longrightarrow> sendable cd b \<Longrightarrow> da_mock_SubmitBatch cd sha1 kv b m = (r, m') \<Longrightarrow>
    da_run cd sha1 kv db (subs @ [(dk_daHeight m, b)]) m'"
| da_later: "da_run cd sha1 kv db subs m \<Longrightarrow> da_run cd sha1 kv db subs (updateDAHeight random m)"

context kv_store
begin

lemma submit_held:
  assumes "working kv P" and "P (dk_db m)" and cd: "codec_ok cd" and dig: "digest_ok sha1 N" and "sendable cd b"
    and h: "da_holds cd sha1 (look (dk_db m)) subs" and apart: "apart_subs (subs @ [(dk_daHeight m, b)])"
  shows "\<exists>m'. da_mock_SubmitBatch cd sha1 kv b m =
      (Ok \<lparr>rs_Code = StatusSuccess, rs_Message = ''OK'', rs_DAHeight = dk_daHeight m\<rparr>, m') \<and> P (dk_db m') \<and>
      dk_daHeight m' = dk_daHeight m \<and> da_holds cd sha1 (look (dk_db m')) (subs @ [(dk_daHeight m, b)])"
proof -
  obtain blob where blob: "Batch_MarshalBinary cd b = Ok blob" "Batch_UnmarshalBinary cd blob = Ok (plain b)"
    using Batch_binary_round_trip [OF cd, of b] \<open>sendable cd b\<close> unfolding sendable_def by blast
  obtain db1 where db1: "kv_Set kv (da_getKey (dk_daHeight m) (ba_StartHeight b)) (digest sha1 b) (dk_db m) = (Ok (), db1)" "P db1"
    using workingD(1) [OF assms(1,2)] by blast
  obtain db2 where db2: "kv_Set kv (digest sha1 b) blob db1 = (Ok (), db2)" "P db2"
    using workingD(1) [OF assms(1) db1(2)] by blast
  have "da_mock_SubmitBatch cd sha1 kv b m =
      (Ok \<lparr>rs_Code = StatusSuccess, rs_Message = ''OK'', rs_DAHeight = dk_daHeight m\<rparr>, m\<lparr>dk_db := db2\<rparr>)"
    using blob(1) db1(1) db2(1)
    by (simp add: da_mock_SubmitBatch_def Let_def bind_cmd_def lift_out_def kv_put_def ret_def)
  moreover have "da_holds cd sha1 (look db2) (subs @ [(dk_daHeight m, b)])"
    using da_holds_add [OF dig h apart blob(2)] Set_Ok [OF db1(1)] Set_Ok [OF db2(1)] by simp
  ultimately show ?thesis using db2(2) by simp
qed

lemma run_holds:
  assumes "da_run cd sha1 kv db subs m" and "working kv P" and "P db" and "look db = Map.empty"
    and "codec_ok cd" and "digest_ok sha1 N" and "apart_subs subs"
  shows "P (dk_db m) \<and> da_holds cd sha1 (look (dk_db m)) subs"
  using assms(1,7)
proof induction
  case (da_start blockTime m)
  then have "dk_db m = db"
    by (cases blockTime; cases "the blockTime") (auto simp: da_mock_Init_def)
  with assms(3,4) show ?case by (simp add: da_holds_def)
next
  case (da_submit subs m b r m')
  have "apart_subs subs"
    using da_submit.prems by (auto simp: apart_subs_def)
  with da_submit.IH have "P (dk_db m)" "da_holds cd sha1 (look (dk_db m)) subs" by simp_all
  from submit_held [OF assms(2) this(1) assms(5,6) da_submit.hyps(2) this(2) da_submit.prems] da_submit.hyps(3)
  show ?case by auto
next
  case (da_later subs m random)
  then show ?case by (simp add: updateDAHeight_def)
qed

lemma collect_held:
  assumes "\<And>e. e \<in> set es \<Longrightarrow> \<exists>b. Q b \<and> e = (key b, digest sha1 b)"
    and "\<And>b. Q b \<Longrightarrow> \<exists>blob. look db (digest sha1 b) = Some blob \<and> Batch_UnmarshalBinary cd blob = Ok (plain b)"
  shows "\<exists>bs. collect_batches cd kv db es = Ok (map plain bs) \<and> (\<forall>b \<in> set bs. Q b) \<and> es = map (\<lambda>b. (key b, digest sha1 b)) bs"
  using assms(1)
proof (induction es)
  case (Cons e es)
  obtain b where b: "Q b" "e = (key b, digest sha1 b)" using Cons.prems [of e] by auto
  obtain blob where "look db (digest sha1 b) = Some blob" "Batch_UnmarshalBinary cd blob = Ok (plain b)"
    using assms(2) [OF b(1)] by blast
  moreover obtain bs where "collect_batches cd kv db es = Ok (map plain bs)" "\<forall>b \<in> set bs. Q b" "es = map (\<lambda>b. (key b, digest sha1 b)) bs"
    using Cons.IH Cons.prems by auto
  ultimately show ?case
    using b by (intro exI [of _ "b # bs"]) (simp add: Get_law)
qed simp

lemma entries_held:
  assumes dig: "digest_ok sha1 N" and h: "da_holds cd sha1 (look db) subs" and "height < N"
  shows "set (kv_PrefixIterator kv db (uint64ToBinary height)) =
    {(raw (da_getKey height (ba_StartHeight b)), digest sha1 b) |b. (height, b) \<in> set subs}" (is "_ = ?S")
  unfolding Iterator_set
proof (intro set_eqI iffI)
  fix x
  assume "x \<in> ?S"
  then obtain b where "x = (raw (da_getKey height (ba_StartHeight b)), digest sha1 b)" "(height, b) \<in> set subs" by blast
  moreover have "look db (da_getKey height (ba_StartHeight b)) = Some (digest sha1 b)"
    using h calculation(2) unfolding da_holds_def by blast
  ultimately show "x \<in> {(raw k, v) |k v. look db k = Some v \<and> prefix (uint64ToBinary height) k}"
    using prefix_getKey [of height height] by (auto simp: uint64ToBinary_def)
next
  fix x
  assume "x \<in> {(raw k, v) |k v. look db k = Some v \<and> prefix (uint64ToBinary height) k}"
  then obtain k v where x: "x = (raw k, v)" and k: "look db k = Some v" "prefix (uint64ToBinary height) k" by blast
  have "\<not> prefix (uint64ToBinary height) (digest sha1 b)" for b
    using dig assms(3) unfolding digest_ok_def by blast
  then obtain b where b: "(height, b) \<in> set subs" "k = da_getKey height (ba_StartHeight b)"
    using h k unfolding da_holds_def by (metis prefix_getKey uint64ToBinary_def)
  moreover have "look db (da_getKey height (ba_StartHeight b)) = Some (digest sha1 b)"
    using h b(1) unfolding da_holds_def by blast
  ultimately show "x \<in> ?S" using x k(1) by auto
qed

lemma retrieve_held:
  assumes dig: "digest_ok sha1 N" and h: "da_holds cd sha1 (look (dk_db m)) subs" and apart: "apart_subs subs"
    and "height < dk_daHeight m" and "height < N"
  shows "\<exists>bs. da_mock_RetrieveBatches cd kv height m =
      (Ok \<lparr>rr_Code = StatusSuccess, rr_Message = [], rr_DAHeight = 0, rr_Batches = map (\<lambda>b. Some (plain b)) bs\<rparr>, m) \<and>
      distinct bs \<and> set bs = {b. (height, b) \<in> set subs}"
proof -
  let ?key = "\<lambda>b. raw (da_getKey height (ba_StartHeight b))"
  let ?es = "kv_PrefixIterator kv (dk_db m) (uint64ToBinary height)"
  note es = entries_held [OF dig h assms(5)]
  have at: "\<exists>blob. look (dk_db m) (digest sha1 b) = Some blob \<and> Batch_UnmarshalBinary cd blob = Ok (plain b)"
    if "(height, b) \<in> set subs" for b
    using h that unfolding da_holds_def by blast
  obtain bs where bs: "collect_batches cd kv (dk_db m) ?es = Ok (map plain bs)" "\<forall>b \<in> set bs. (height, b) \<in> set subs"
      "?es = map (\<lambda>b. (?key b, digest sha1 b)) bs"
  proof -
    have "\<exists>b. (height, b) \<in> set subs \<and> e = (?key b, digest sha1 b)" if "e \<in> set ?es" for e
      using that unfolding es by blast
    from collect_held [OF this at] show ?thesis using that by blast
  qed
  have "distinct (map fst ?es)"
    using Iterator_sorted [of "dk_db m" "uint64ToBinary height"] by (simp add: strict_sorted_iff)
  then have "distinct bs"
    unfolding bs(3) by (simp add: comp_def distinct_map)
  moreover have "b \<in> set bs" if b: "(height, b) \<in> set subs" for b
  proof -
    have "(?key b, digest sha1 b) \<in> set (map (\<lambda>b. (?key b, digest sha1 b)) bs)"
      using es b unfolding bs(3) by blast
    then obtain c where "c \<in> set bs" "digest sha1 c = digest sha1 b" by auto
    moreover have "b = c" if "(height, c) \<in> set subs" "ba_EndHeight c = ba_EndHeight b" for c
      using apart b that unfolding apart_subs_def
      by (metis (mono_tags, lifting) Pair_inject case_prod_conv distinct_map inj_onD)
    ultimately show ?thesis using digest_eq [OF dig] bs(2) by metis
  qed
  ultimately show ?thesis
    using bs(1,2) assms(4) by (intro exI [of _ bs]) (auto simp: da_mock_RetrieveBatches_def)
qed

end


definition sample_sha1 :: "bytes \<Rightarrow> bytes" where
  "sample_sha1 x = replicate 12 (-1) @ x"

lemma sample_sha1_ok: "digest_ok sample_sha1 (-1)"
proof -
  have max: "PutUint64 (-1) = replicate 8 (-1)" by code_simp
  have "\<not> prefix (PutUint64 h) (replicate 12 (-1) @ x)" if "h < -1" for h x
  proof
    assume "prefix (PutUint64 h) (replicate 12 (-1) @ x)"
    then have "PutUint64 h = take 8 (replicate 12 (-1) @ x)"
      by (auto simp: prefix_def dest: arg_cong [of _ _ "take 8"])
    then have "PutUint64 h = PutUint64 (-1)" by (simp add: max)
    with that show False by simp
  qed
  then show ?thesis
    by (simp add: digest_ok_def sample_sha1_def uint64ToBinary_def)
qed

lemma working_dalc_mem: "working (dalcKV mem_badger) no_faults"
  by (auto simp: working_def no_faults_def dalcKV_def PrefixKV_def BadgerKV_def BadgerKV_Set_def
      BadgerBatch_Set_def BadgerBatch_Delete_def mem_Commit_def Let_def)

lemma sample_batch_sendable: "sendable sample_codec sample_batch"
proof -
  have "Batch_Size sample_codec (Batch_ToProto sample_batch) \<le> 10000"
    by code_simp
  then show ?thesis
    by (simp add: sendable_def wf_sample_batch sample_batch_encodable)
qed

lemma sample_da_run:
  obtains m where "da_run sample_codec sample_sha1 (dalcKV mem_badger) (empty_mem []) [(1, sample_batch)] m" and "dk_daHeight m = 2"
proof -
  let ?kv = "dalcKV mem_badger" and ?db = "empty_mem []"
  define m0 where "m0 = \<lparr>dk_daHeight = 1, dk_BlockTime = defaultBlockTime, dk_db = ?db\<rparr>"
  obtain r m1 where sub: "da_mock_SubmitBatch sample_codec sample_sha1 ?kv sample_batch m0 = (r, m1)"
    by (cases "da_mock_SubmitBatch sample_codec sample_sha1 ?kv sample_batch m0")
  have "da_run sample_codec sample_sha1 ?kv ?db [] m0"
    by (rule da_start [of None]) (simp add: da_mock_Init_def m0_def)
  from da_submit [OF this sample_batch_sendable sub]
  have "da_run sample_codec sample_sha1 ?kv ?db [(1, sample_batch)] m1" by (simp add: m0_def)
  from da_later [OF this] have "da_run sample_codec sample_sha1 ?kv ?db [(1, sample_batch)] (updateDAHeight 0 m1)" .
  moreover have "dk_daHeight m1 = 1"
    using sub by (auto simp: da_mock_SubmitBatch_def m0_def Let_def bind_cmd_def lift_out_def kv_put_def ret_def
        split: outcome.splits prod.splits)
  then have "dk_daHeight (updateDAHeight 0 m1) = 2" by (simp add: updateDAHeight_def)
  ultimately show ?thesis by (rule that)
qed

lemma sample_da_start: "dalc_look mem_badger (empty_mem []) = Map.empty" "no_faults (empty_mem [])" "codec_ok sample_codec"
  by (simp_all add: dalc_look_def prefix_look_def empty_mem_def no_faults_def fun_eq_iff sample_codec_def table_codec_ok)


end
