(* ===== verification/Celestia.thy ===== *)
theory Celestia
  imports Complex_Main DaMock Executor
begin

text \<open>
  The data availability client for Celestia, \<open>src/da/celestia\<close>: the gas a blob needs, the namespace of the
  configuration, submitting a batch until it is included, and retrieving batches; and the health events of
  \<open>src/da/utils.go\<close>. The node's API (go-cnc), the RPC client of the application node, the pubsub server,
  retry-go and the context are fields of \<open>cnc\<close>. The hash in the message of a result is not kept. A \<open>float64\<close> is a rational number and \<open>rnd\<close> the rounding of
  its arithmetic.
\<close>

subsection \<open>Shares and gas\<close>

abbreviation ShareSize :: u64 where "ShareSize \<equiv> 512"
abbreviation FirstSparseShareContentSize :: u64 where "FirstSparseShareContentSize \<equiv> ShareSize - 29 - 1 - 4"
abbreviation ContinuationSparseShareContentSize :: u64 where "ContinuationSparseShareContentSize \<equiv> ShareSize - 29 - 1"

text \<open>The counters are of type \<open>int\<close>, here with their bits; only the lower half of \<open>bytesAvailable\<close> is compared.\<close>

partial_function (option) shares_loop :: "u32 \<Rightarrow> u64 \<Rightarrow> u64 \<Rightarrow> u64 option" where
  "shares_loop sequenceLen bytesAvailable sharesNeeded =
     (if (ucast bytesAvailable :: u32) < sequenceLen
      then shares_loop sequenceLen (bytesAvailable + ContinuationSparseShareContentSize) (sharesNeeded + 1)
      else Some sharesNeeded)"

declare shares_loop.simps [code]

definition SparseSharesNeeded :: "u32 \<Rightarrow> u64 option" where
  "SparseSharesNeeded sequenceLen =
     (if sequenceLen = 0 then Some 0
      else if (ucast sequenceLen :: u64) < FirstSparseShareContentSize then Some 1
      else shares_loop sequenceLen FirstSparseShareContentSize 1)"

fun total_shares :: "u32 list \<Rightarrow> u64 option" where
  "total_shares [] = Some 0"
| "total_shares (s # ss) =
     Option.bind (SparseSharesNeeded s) (\<lambda>n. Option.bind (total_shares ss) (\<lambda>k. Some (n + k)))"

definition GasToConsume :: "u32 list \<Rightarrow> u32 \<Rightarrow> u64 option" where
  "GasToConsume blobSizes gasPerByte =
     map_option (\<lambda>totalSharesUsed. totalSharesUsed * ShareSize * ucast gasPerByte) (total_shares blobSizes)"

abbreviation PFBGasFixedCost :: u64 where "PFBGasFixedCost \<equiv> 75000"
abbreviation BytesPerBlobInfo :: u64 where "BytesPerBlobInfo \<equiv> 70"
abbreviation DefaultGasPerBlobByte :: u32 where "DefaultGasPerBlobByte \<equiv> 8"
abbreviation DefaultTxSizeCostPerByte :: u64 where "DefaultTxSizeCostPerByte \<equiv> 10"

definition EstimateGas :: "u32 list \<Rightarrow> u32 \<Rightarrow> u64 \<Rightarrow> u64 option" where
  "EstimateGas blobSizes gasPerByte txSizeCost =
     map_option (\<lambda>g. g + txSizeCost * BytesPerBlobInfo * of_nat (length blobSizes) + PFBGasFixedCost)
       (GasToConsume blobSizes gasPerByte)"

definition DefaultEstimateGas :: "u32 \<Rightarrow> u64 option" where
  "DefaultEstimateGas blobSize = EstimateGas [blobSize] DefaultGasPerBlobByte DefaultTxSizeCostPerByte"

subsection \<open>Configuration\<close>

text \<open>The addresses and the timeout, which only go into the API clients, and the unread gas limit are left out.\<close>

record celestia_Config =
  cc_Fee :: int
  cc_GasPrices :: rat
  cc_GasAdjustment :: rat
  cc_NamespaceIDStr :: gostring
  cc_NamespaceID :: bytes

abbreviation defaultGasAdjustment :: rat where "defaultGasAdjustment \<equiv> 13 / 10"
abbreviation NamespaceIDSize :: nat where "NamespaceIDSize \<equiv> 28"

record TxResponse =
  tr_Code :: u32
  tr_Height :: int
  tr_TxHash :: gostring

text \<open>
  \<open>ce_SubmitPFB\<close> may return a nil response, \<open>ce_Tx\<close> a nil result or the height of the transaction;
  \<open>ce_retry\<close> runs a function that may set the variable it is given beside the world.
\<close>

record 'w cnc =
  ce_New :: "bytes \<Rightarrow> bytes outcome"
  ce_SubmitPFB :: "bytes \<Rightarrow> bytes \<Rightarrow> int \<Rightarrow> u64 \<Rightarrow> 'w \<Rightarrow> (TxResponse option \<times> error option) \<times> 'w"
  ce_NamespacedShares :: "bytes \<Rightarrow> u64 \<Rightarrow> ('w, bytes list) cmd"
  ce_NamespacedData :: "bytes \<Rightarrow> u64 \<Rightarrow> ('w, bytes list) cmd"
  ce_Tx :: "bytes \<Rightarrow> ('w, int option) cmd"
  ce_retry :: "('w \<times> u64, unit) cmd \<Rightarrow> ('w \<times> u64, unit) cmd"
  ce_ctxDone :: "'w \<Rightarrow> bool \<times> 'w"
  ce_Publish :: "('w, unit) cmd"

definition InitNamespaceID :: "'w cnc \<Rightarrow> celestia_Config \<Rightarrow> celestia_Config outcome" where
  "InitNamespaceID C c =
     bind_out (DecodeString (cc_NamespaceIDStr c)) (\<lambda>namespaceBytes.
       if length namespaceBytes \<le> NamespaceIDSize
       then bind_out (ce_New C (replicate (NamespaceIDSize - length namespaceBytes) 0 @ namespaceBytes)) (\<lambda>ns.
              Ok (c\<lparr>cc_NamespaceID := ns\<rparr>))
       else Panic ''makeslice: len out of range'')"

text \<open>\<open>decoded\<close> is what the JSON decoder makes of a configuration that is not empty.\<close>

definition celestia_Init :: "'w cnc \<Rightarrow> celestia_Config outcome option \<Rightarrow> celestia_Config outcome" where
  "celestia_Init C decoded =
     (case decoded of
        None \<Rightarrow> Err (Errorf ''config is empty'')
      | Some r \<Rightarrow>
          bind_out r (\<lambda>c0. bind_out (InitNamespaceID C c0) (\<lambda>c.
            if cc_GasPrices c \<noteq> 0 \<and> cc_Fee c \<noteq> 0 then Err (Errorf ''both gas prices and fee'')
            else if cc_Fee c = 0 \<and> cc_GasPrices c = 0 then Err (Errorf ''fee or gas prices must be set'')
            else Ok (if cc_GasAdjustment c = 0 then c\<lparr>cc_GasAdjustment := defaultGasAdjustment\<rparr> else c))))"

text \<open>
  \<open>float64(gas)\<close> rounds as well. Converting a product that is not negative truncates; what Go makes of one
  outside the range of the integer type is not specified, here its lower bits.
\<close>

definition adjusted_gas :: "(rat \<Rightarrow> rat) \<Rightarrow> celestia_Config \<Rightarrow> u64 \<Rightarrow> u64" where
  "adjusted_gas rnd c estimatedGas = word_of_int \<lfloor>rnd (rnd (of_nat (unat estimatedGas)) * cc_GasAdjustment c)\<rfloor>"

definition calculateFees :: "(rat \<Rightarrow> rat) \<Rightarrow> celestia_Config \<Rightarrow> u64 \<Rightarrow> int" where
  "calculateFees rnd c gas =
     (if cc_Fee c = 0 then int64_of (word_of_int \<lceil>rnd (cc_GasPrices c * rnd (of_nat (unat gas)))\<rceil>) else cc_Fee c)"

subsection \<open>\<open>da/utils.go\<close>\<close>

record EventDataDAHealthStatus =
  eh_Healthy :: bool
  eh_Error :: "error option"

record 'w da_client =
  dc_world :: 'w
  dc_published :: "EventDataDAHealthStatus list"

text \<open>The result is there when the event could not be published.\<close>

definition SubmitBatchHealthEventHelper ::
  "('w, unit) cmd \<Rightarrow> bool \<Rightarrow> error option \<Rightarrow> ('w da_client, ResultSubmitBatch option) cmd" where
  "SubmitBatchHealthEventHelper pub healthy e c =
     (case pub (dc_world c) of
        (Ok _, w) \<Rightarrow> (Ok None, c\<lparr>dc_world := w, dc_published := dc_published c @ [\<lparr>eh_Healthy = healthy, eh_Error = e\<rparr>]\<rparr>)
      | (Err _, w) \<Rightarrow> (Ok (Some submit_error), c\<lparr>dc_world := w\<rparr>)
      | (Panic p, w) \<Rightarrow> (Panic p, c\<lparr>dc_world := w\<rparr>))"

definition on_da_world :: "('w, 'a) cmd \<Rightarrow> ('w da_client, 'a) cmd" where
  "on_da_world act c = (case act (dc_world c) of (r, w) \<Rightarrow> (r, c\<lparr>dc_world := w\<rparr>))"

subsection \<open>Submitting\<close>

abbreviation da_Celestia :: da_Client where "da_Celestia \<equiv> [0x63, 0x65, 0x6c, 0x65, 0x73, 0x74, 0x69, 0x61]"

abbreviation no_result :: ResultSubmitBatch where
  "no_result \<equiv> \<lparr>rs_Code = StatusUnknown, rs_Message = '''', rs_DAHeight = 0\<rparr>"

definition poll_tx :: "'w cnc \<Rightarrow> bytes \<Rightarrow> ('w \<times> u64, unit) cmd" where
  "poll_tx C hashBytes x =
     (case ce_Tx C hashBytes (fst x) of
        (Ok (Some height), w) \<Rightarrow> (Ok (), (w, uint64_of height))
      | (Ok None, w) \<Rightarrow> (Err (Errorf ''transaction not found''), (w, snd x))
      | (Err e, w) \<Rightarrow> (Err e, (w, snd x))
      | (Panic p, w) \<Rightarrow> (Panic p, (w, snd x)))"

definition waitForTXInclusion :: "'w cnc \<Rightarrow> gostring \<Rightarrow> ('w, u64) cmd" where
  "waitForTXInclusion C txHash w =
     (case DecodeString txHash of
        Err e \<Rightarrow> (Err e, w)
      | Panic p \<Rightarrow> (Panic p, w)
      | Ok hashBytes \<Rightarrow>
          (case ce_retry C (poll_tx C hashBytes) (w, 0) of
             (r, (w', inclusionHeight)) \<Rightarrow> (bind_out r (\<lambda>_. Ok inclusionHeight), w')))"

definition report_submitted :: "('w, unit) cmd \<Rightarrow> string \<Rightarrow> u64 \<Rightarrow> ('w da_client, ResultSubmitBatch option) cmd" where
  "report_submitted pub message daHeight =
     bind_cmd (SubmitBatchHealthEventHelper pub True None) (\<lambda>res.
       ret (Some (case res of
         Some r \<Rightarrow> r
       | None \<Rightarrow> \<lparr>rs_Code = StatusSuccess, rs_Message = message, rs_DAHeight = daHeight\<rparr>)))"

text \<open>One round of the loop: the result it returns with, or none to go on.\<close>

definition submit_round :: "'w cnc \<Rightarrow> celestia_Config \<Rightarrow> bytes \<Rightarrow> int \<Rightarrow> u64 \<Rightarrow> ('w da_client, ResultSubmitBatch option) cmd" where
  "submit_round C cfg blob fees gasWanted c =
     (let unhealthy = SubmitBatchHealthEventHelper (ce_Publish C) False;
          submitted = report_submitted (ce_Publish C) ''tx hash'' in
      case ce_ctxDone C (dc_world c) of
        (True, w) \<Rightarrow> (Ok (Some no_result), c\<lparr>dc_world := w\<rparr>)
      | (False, w) \<Rightarrow>
          (case ce_SubmitPFB C (cc_NamespaceID cfg) blob fees gasWanted w of
             ((None, e), w') \<Rightarrow> unhealthy e (c\<lparr>dc_world := w'\<rparr>)
           | ((Some txResponse, _), w') \<Rightarrow>
               if tr_Code txResponse \<noteq> 0 then unhealthy (Some (Errorf ''raw log'')) (c\<lparr>dc_world := w'\<rparr>)
               else if uint64_of (tr_Height txResponse) = 0
               then (case on_da_world (waitForTXInclusion C (tr_TxHash txResponse)) (c\<lparr>dc_world := w'\<rparr>) of
                       (Ok daHeight, c') \<Rightarrow> submitted daHeight c'
                     | (Err e, c') \<Rightarrow> unhealthy (Some e) c'
                     | (Panic p, c') \<Rightarrow> (Panic p, c'))
               else submitted (uint64_of (tr_Height txResponse)) (c\<lparr>dc_world := w'\<rparr>)))"

partial_function (option) submit_loop :: "'w cnc \<Rightarrow> celestia_Config \<Rightarrow> bytes \<Rightarrow> int \<Rightarrow> u64 \<Rightarrow> 'w da_client \<Rightarrow>
    (ResultSubmitBatch outcome \<times> 'w da_client) option" where
  "submit_loop C cfg blob fees gasWanted c =
     (case submit_round C cfg blob fees gasWanted c of
        (Ok res, c') \<Rightarrow> (case res of Some r \<Rightarrow> Some (Ok r, c') | None \<Rightarrow> submit_loop C cfg blob fees gasWanted c')
      | (Err e, c') \<Rightarrow> Some (Err e, c')
      | (Panic p, c') \<Rightarrow> Some (Panic p, c'))"

definition celestia_SubmitBatch :: "codec \<Rightarrow> (rat \<Rightarrow> rat) \<Rightarrow> 'w cnc \<Rightarrow> celestia_Config \<Rightarrow> Batch \<Rightarrow> 'w da_client \<Rightarrow>
    (ResultSubmitBatch outcome \<times> 'w da_client) option" where
  "celestia_SubmitBatch cd rnd C cfg batch c =
     (case Batch_MarshalBinary cd batch of
        Err e \<Rightarrow> Some (Ok submit_error, c)
      | Panic p \<Rightarrow> Some (Panic p, c)
      | Ok blob \<Rightarrow>
          Option.bind (DefaultEstimateGas (word_of_nat (length blob))) (\<lambda>estimatedGas.
            let gasWanted = adjusted_gas rnd cfg estimatedGas
            in submit_loop C cfg blob (calculateFees rnd cfg gasWanted) gasWanted c))"

subsection \<open>Retrieving\<close>

definition celestia_CheckBatchAvailability :: "'w cnc \<Rightarrow> celestia_Config \<Rightarrow> u64 \<Rightarrow> ('w da_client, ResultCheckBatch) cmd" where
  "celestia_CheckBatchAvailability C cfg dataLayerHeight c =
     (case on_da_world (ce_NamespacedShares C (cc_NamespaceID cfg) dataLayerHeight) c of
        (Ok shares, c') \<Rightarrow>
          (Ok \<lparr>rk_Code = StatusSuccess, rk_Message = '''', rk_DAHeight = dataLayerHeight, rk_DataAvailable = (length shares > 0)\<rparr>, c')
      | (Err e, c') \<Rightarrow> (Ok \<lparr>rk_Code = StatusError, rk_Message = ''error'', rk_DAHeight = 0, rk_DataAvailable = False\<rparr>, c')
      | (Panic p, c') \<Rightarrow> (Panic p, c'))"

text \<open>A message that cannot be decoded leaves its element of the slice nil.\<close>

fun decode_messages :: "codec \<Rightarrow> bytes list \<Rightarrow> Batch option list outcome" where
  "decode_messages cd [] = Ok []"
| "decode_messages cd (msg # msgs) =
     (case Batch_Unmarshal cd msg zero_pb_Batch of
        Ok batch \<Rightarrow> bind_out (Batch_FromProto batch) (\<lambda>b. bind_out (decode_messages cd msgs) (\<lambda>bs. Ok (Some b # bs)))
      | Err e \<Rightarrow> bind_out (decode_messages cd msgs) (\<lambda>bs. Ok (None # bs))
      | Panic p \<Rightarrow> Panic p)"

definition celestia_RetrieveBatches :: "codec \<Rightarrow> 'w cnc \<Rightarrow> celestia_Config \<Rightarrow> u64 \<Rightarrow> ('w da_client, ResultRetrieveBatch) cmd" where
  "celestia_RetrieveBatches cd C cfg dataLayerHeight c =
     (case on_da_world (ce_NamespacedData C (cc_NamespaceID cfg) dataLayerHeight) c of
        (Ok dat, c') \<Rightarrow>
          (or_report retrieve_error (bind_out (decode_messages cd dat) (\<lambda>batches.
             Ok \<lparr>rr_Code = StatusSuccess, rr_Message = '''', rr_DAHeight = dataLayerHeight, rr_Batches = batches\<rparr>)), c')
      | (Err e, c') \<Rightarrow> (Ok retrieve_error, c')
      | (Panic p, c') \<Rightarrow> (Panic p, c'))"

subsection \<open>The number of shares\<close>

lemma ucast_of_nat_32: "n < 2 ^ 32 \<Longrightarrow> unat (ucast (word_of_nat n :: u64) :: u32) = n"
  by (simp add: unsigned_ucast_eq unat_of_nat take_bit_nat_def)

lemma shares_loop_run:
  assumes "unat s + 482 \<le> 2 ^ 32" and "482 * k < unat s + 4"
  shows "shares_loop s (word_of_nat (482 * k + 478)) (word_of_nat (Suc k)) = Some (word_of_nat ((unat s + 485) div 482))"
  using assms(2)
proof (induction "unat s - 482 * k" arbitrary: k rule: less_induct)
  case less
  have "482 * k + 478 < 2 ^ 32" using less.prems assms(1) by simp
  then have b: "unat (ucast (word_of_nat (482 * k + 478) :: u64) :: u32) = 482 * k + 478" by (rule ucast_of_nat_32)
  show ?case
  proof (cases "482 * k + 478 < unat s")
    case True
    have "shares_loop s (word_of_nat (482 * Suc k + 478)) (word_of_nat (Suc (Suc k))) = Some (word_of_nat ((unat s + 485) div 482))"
      by (rule less.hyps) (use True in simp_all)
    moreover have "word_of_nat (482 * k + 478) + 482 = (word_of_nat (482 * Suc k + 478) :: u64)"
      "word_of_nat (Suc k) + 1 = (word_of_nat (Suc (Suc k)) :: u64)" by simp_all
    ultimately show ?thesis
      using True b by (subst shares_loop.simps) (simp add: word_less_nat_alt del: of_nat_Suc of_nat_add of_nat_mult)
  next
    case False
    then have "(unat s + 485) div 482 = Suc k" using less.prems by simp
    with False b show ?thesis
      by (subst shares_loop.simps) (simp add: word_less_nat_alt del: of_nat_Suc of_nat_add of_nat_mult)
  qed
qed

lemma SparseSharesNeeded_run:
  assumes "0 < s" and "unat s + 482 \<le> 2 ^ 32"
  shows "SparseSharesNeeded s = Some (word_of_nat ((unat s + 485) div 482))"
proof -
  have pos: "s \<noteq> 0" "0 < unat s" using assms(1) by (simp_all add: word_less_nat_alt) auto
  have "unat (ucast s :: u64) = unat s"
    using unsigned_less [of s, where ?'a = nat] by (simp add: unsigned_ucast_eq take_bit_nat_eq_self)
  then have first: "(ucast s :: u64) < 478 \<longleftrightarrow> unat s < 478" by (simp add: word_less_nat_alt)
  show ?thesis
  proof (cases "unat s < 478")
    case True
    then have "(unat s + 485) div 482 = 1" using pos by simp
    with True pos first show ?thesis by (simp add: SparseSharesNeeded_def)
  next
    case False
    with shares_loop_run [OF assms(2), of 0] pos first show ?thesis by (simp add: SparseSharesNeeded_def)
  qed
qed

text \<open>The available bytes stay even, also when they wrap around: they never reach the largest length.\<close>

lemma even_below_max:
  assumes "even (b :: u64)"
  shows "(ucast b :: u32) < -1"
proof (rule ccontr)
  assume "\<not> ?thesis"
  then have "(ucast b :: u32) = -1" by (metis word_order.not_eq_extremum)
  then have "bit (ucast b :: u32) 0" by simp
  then have "bit b 0" by (simp only: bit_ucast_iff)
  with assms show False by (simp add: bit_0)
qed

lemma shares_loop_never_ends:
  assumes "even b"
  shows "shares_loop (-1) b n = None"
proof (rule ccontr)
  assume "shares_loop (-1) b n \<noteq> None"
  then obtain y where y: "shares_loop (-1) b n = Some y" by blast
  have "(- 1 :: u32) = - 1 \<longrightarrow> odd b"
  proof (rule shares_loop.raw_induct [OF _ y, of "\<lambda>s b n y. s = -1 \<longrightarrow> odd b"])
    fix loop :: "u32 \<Rightarrow> u64 \<Rightarrow> u64 \<Rightarrow> u64 option" and s b n y
    assume IH: "\<And>s b n y. loop s b n = Some y \<Longrightarrow> s = -1 \<longrightarrow> odd b"
      and eq: "(if (ucast b :: u32) < s then loop s (b + ContinuationSparseShareContentSize) (n + 1) else Some n) = Some y"
    show "s = -1 \<longrightarrow> odd b"
    proof (intro impI notI)
      assume s: "s = -1" and "even b"
      then have "loop (-1) (b + 482) (n + 1) = Some y" using eq even_below_max by simp
      from IH [OF this] \<open>even b\<close> show False by simp
    qed
  qed
  with assms show False by simp
qed

corollary gas_of_largest_blob: "DefaultEstimateGas (-1) = None"
proof -
  have "\<not> (ucast (-1 :: u32) :: u64) < 478" by code_simp
  then show ?thesis
    by (simp add: DefaultEstimateGas_def EstimateGas_def GasToConsume_def SparseSharesNeeded_def shares_loop_never_ends)
qed

text \<open>What the theorem asks of the rounding: it is monotonic and exact on integers up to \<open>2 ^ 53\<close>.\<close>

definition rnd_ok :: "(rat \<Rightarrow> rat) \<Rightarrow> bool" where
  "rnd_ok rnd \<longleftrightarrow> mono rnd \<and> (\<forall>n \<le> 2 ^ 53. rnd (of_nat n) = of_nat n)"

lemma unat_small_int: "0 \<le> z \<Longrightarrow> z \<le> 2 ^ 53 \<Longrightarrow> unat (word_of_int z :: u64) = nat z"
  by (simp add: unat_eq_nat_uint uint_word_of_int)

lemma adjusted_gas_bounds:
  assumes "rnd_ok rnd" and "1 \<le> cc_GasAdjustment cfg" and "unat g = G" and "of_nat G * cc_GasAdjustment cfg \<le> 2 ^ 53"
  shows "G \<le> unat (adjusted_gas rnd cfg g)"
proof -
  let ?x = "of_nat G * cc_GasAdjustment cfg"
  have le: "of_nat G \<le> ?x" using mult_left_mono [OF assms(2), of "of_nat G"] by simp
  with assms(4) have "of_nat G \<le> (of_nat (2 ^ 53) :: rat)" by simp
  then have "G \<le> 2 ^ 53" by (simp only: of_nat_le_iff)
  then have exact: "rnd (of_nat G) = of_nat G" "rnd (of_nat (2 ^ 53)) = of_nat (2 ^ 53)"
    using assms(1) unfolding rnd_ok_def by blast+
  have "?x \<le> of_nat (2 ^ 53)" using assms(4) by simp
  then have "rnd (of_nat G) \<le> rnd ?x" "rnd ?x \<le> rnd (of_nat (2 ^ 53))"
    using assms(1) le unfolding rnd_ok_def by (blast intro: monoD)+
  then have "of_nat G \<le> rnd ?x" "rnd ?x \<le> of_int (2 ^ 53)" using exact by simp_all
  then have b: "int G \<le> \<lfloor>rnd ?x\<rfloor>" "\<lfloor>rnd ?x\<rfloor> \<le> 2 ^ 53"
    using floor_mono [of "rnd ?x" "of_int (2 ^ 53)"] by (simp add: le_floor_iff, simp only: floor_of_int)
  have "adjusted_gas rnd cfg g = word_of_int \<lfloor>rnd ?x\<rfloor>"
    using exact(1) by (simp only: adjusted_gas_def assms(3))
  moreover have "unat (word_of_int \<lfloor>rnd ?x\<rfloor> :: u64) = nat \<lfloor>rnd ?x\<rfloor>"
    by (rule unat_small_int) (use b in linarith)+
  ultimately show ?thesis using b(1) by simp
qed

lemma gas_for_blob:
  assumes "0 < sz" and "unat sz + 482 \<le> 2 ^ 32"
  shows "\<exists>g. DefaultEstimateGas sz = Some g \<and> unat g = 4096 * ((unat sz + 485) div 482) + 75700"
proof -
  define k where "k = (unat sz + 485) div 482"
  define g :: u64 where "g = word_of_nat (4096 * k + 75700)"
  have "k < 10000000" using assms(2) by (simp add: k_def)
  then have "unat g = 4096 * k + 75700" by (simp add: g_def unat_of_nat del: of_nat_add of_nat_mult)
  moreover have "DefaultEstimateGas sz = Some g"
    using SparseSharesNeeded_run [OF assms]
    by (simp add: DefaultEstimateGas_def EstimateGas_def GasToConsume_def g_def k_def)
  ultimately show ?thesis by (simp add: k_def)
qed

lemma adjusted_gas_covers:
  assumes "rnd_ok rnd" "1 \<le> cc_GasAdjustment cfg" "cc_GasAdjustment cfg \<le> 1000"
    and "unat g = 4096 * k + 75700" and "k < 10000000"
  shows "unat g \<le> unat (adjusted_gas rnd cfg g)"
proof -
  have "(of_nat (4096 * k + 75700) :: rat) \<le> of_nat (10 ^ 12)" unfolding of_nat_le_iff using assms(5) by simp
  then have "of_nat (4096 * k + 75700) * cc_GasAdjustment cfg \<le> of_nat (10 ^ 12) * 1000"
    using assms(2,3) by (intro mult_mono) simp_all
  then have "of_nat (4096 * k + 75700) * cc_GasAdjustment cfg \<le> 2 ^ 53" by simp
  from adjusted_gas_bounds [OF assms(1,2,4) this] show ?thesis by (simp only: assms(4))
qed

text \<open>
  The gas for a blob is that of the least number of shares that hold it: 478 bytes in the first and 482 in
  each further one, 4096 units of gas for each and 75700 in all, without wrapping around, for every
  blob shorter than 4 GiB by a share. With an adjustment from 1 to 1000 the gas limit of the transaction is
  at least that.
\<close>

lemma gas_covers_shares:
  assumes "0 < sz" and "unat sz + 482 \<le> 2 ^ 32"
  shows "\<exists>n. SparseSharesNeeded sz = Some n \<and> unat sz \<le> 478 + 482 * (unat n - 1) \<and>
      (\<forall>k \<ge> 1. unat sz \<le> 478 + 482 * (k - 1) \<longrightarrow> unat n \<le> k) \<and>
      (\<exists>g. DefaultEstimateGas sz = Some g \<and> unat g = 4096 * unat n + 75700 \<and>
        (\<forall>rnd cfg. rnd_ok rnd \<longrightarrow> 1 \<le> cc_GasAdjustment cfg \<longrightarrow> cc_GasAdjustment cfg \<le> 1000 \<longrightarrow>
           unat g \<le> unat (adjusted_gas rnd cfg g)))"
proof -
  define k where "k = (unat sz + 485) div 482"
  have k: "1 \<le> k" "k < 10000000" using assms by (simp_all add: k_def word_less_nat_alt)
  have n: "unat (word_of_nat k :: u64) = k" using k by (simp add: unat_of_nat)
  have "SparseSharesNeeded sz = Some (word_of_nat k)"
    using SparseSharesNeeded_run [OF assms] by (simp add: k_def)
  moreover obtain g where g: "DefaultEstimateGas sz = Some g" "unat g = 4096 * k + 75700"
    using gas_for_blob [OF assms] by (auto simp: k_def)
  moreover have "unat sz \<le> 478 + 482 * (k - 1)" "\<forall>j \<ge> 1. unat sz \<le> 478 + 482 * (j - 1) \<longrightarrow> k \<le> j"
    using k(1) by (auto simp: k_def)
  ultimately show ?thesis
    using adjusted_gas_covers [OF _ _ _ g(2) k(2)] n by (intro exI [of _ "word_of_nat k"]) simp
qed

subsection \<open>Rounds of submitting\<close>

text \<open>\<open>n\<close> rounds that go on.\<close>

fun submit_rounds :: "'w cnc \<Rightarrow> celestia_Config \<Rightarrow> bytes \<Rightarrow> int \<Rightarrow> u64 \<Rightarrow> nat \<Rightarrow> 'w da_client \<Rightarrow> 'w da_client option" where
  "submit_rounds C cfg blob fees gas 0 c = Some c"
| "submit_rounds C cfg blob fees gas (Suc n) c =
     (case submit_round C cfg blob fees gas c of (Ok None, c1) \<Rightarrow> submit_rounds C cfg blob fees gas n c1 | _ \<Rightarrow> None)"

lemma helper_run:
  "SubmitBatchHealthEventHelper pub healthy e c = (Ok None, c') \<Longrightarrow>
   dc_published c' = dc_published c @ [\<lparr>eh_Healthy = healthy, eh_Error = e\<rparr>]"
  "SubmitBatchHealthEventHelper pub healthy e c = (Ok (Some r), c') \<Longrightarrow> r = submit_error \<and> dc_published c' = dc_published c"
  by (auto simp: SubmitBatchHealthEventHelper_def split: prod.splits outcome.splits)

lemma on_da_world_run: "on_da_world act c = (r, c') \<Longrightarrow> dc_published c' = dc_published c"
  by (auto simp: on_da_world_def split: prod.splits)

lemma report_submitted_run:
  "report_submitted pub msg h c = (Ok x, c') \<Longrightarrow>
     x = Some \<lparr>rs_Code = StatusSuccess, rs_Message = msg, rs_DAHeight = h\<rparr> \<and>
       dc_published c' = dc_published c @ [\<lparr>eh_Healthy = True, eh_Error = None\<rparr>] \<or>
     x = Some submit_error \<and> dc_published c' = dc_published c"
  by (auto simp: report_submitted_def bind_cmd_def ret_def split: prod.splits outcome.splits option.splits dest: helper_run)

text \<open>What a round with the result \<open>x\<close> publishes.\<close>

definition reported :: "EventDataDAHealthStatus list \<Rightarrow> ResultSubmitBatch option \<Rightarrow> EventDataDAHealthStatus list \<Rightarrow> bool" where
  "reported es x es' \<longleftrightarrow>
     (case x of
        None \<Rightarrow> \<exists>e. es' = es @ [\<lparr>eh_Healthy = False, eh_Error = e\<rparr>]
      | Some r \<Rightarrow>
          rs_Code r = StatusSuccess \<and> es' = es @ [\<lparr>eh_Healthy = True, eh_Error = None\<rparr>] \<or>
          rs_Code r \<noteq> StatusSuccess \<and> rs_DAHeight r = 0 \<and> es' = es)"

lemma no_result_reported: "reported es (Some no_result) es"
  by (simp add: reported_def)

lemma report_unhealthy_reported:
  "SubmitBatchHealthEventHelper pub False e c = (Ok x, c') \<Longrightarrow> reported (dc_published c) x (dc_published c')"
  by (cases x) (auto simp: reported_def dest: helper_run)

lemma report_submitted_reported:
  "report_submitted pub msg h c = (Ok x, c') \<Longrightarrow> reported (dc_published c) x (dc_published c')"
  by (auto simp: reported_def dest!: report_submitted_run)

lemma submit_round_run:
  assumes "submit_round C cfg blob fees gas c = (Ok x, c')"
  shows "reported (dc_published c) x (dc_published c')"
proof -
  obtain fin w where fin: "ce_ctxDone C (dc_world c) = (fin, w)" by (cases "ce_ctxDone C (dc_world c)")
  obtain resp e w' where pfb: "ce_SubmitPFB C (cc_NamespaceID cfg) blob fees gas w = ((resp, e), w')"
    by (metis prod.exhaust)
  let ?c = "c\<lparr>dc_world := w'\<rparr>"
  obtain h c2 where wait: "on_da_world (waitForTXInclusion C (tr_TxHash (the resp))) ?c = (h, c2)"
    by (metis prod.exhaust)
  have "dc_published c2 = dc_published ?c" using on_da_world_run [OF wait] .
  then have c2: "dc_published c2 = dc_published c" by simp
  show ?thesis
  proof (cases "fin \<or> resp = None \<or> tr_Code (the resp) \<noteq> 0 \<or> uint64_of (tr_Height (the resp)) \<noteq> 0")
    case True
    then show ?thesis
      using assms fin pfb report_unhealthy_reported [of _ _ ?c x c'] report_submitted_reported [of _ _ _ ?c x c']
      by (cases fin; cases resp) (auto simp: submit_round_def Let_def no_result_reported split: if_splits)
  next
    case False
    then show ?thesis
      using assms fin pfb wait c2 report_unhealthy_reported [of _ _ c2 x c'] report_submitted_reported [of _ _ _ c2 x c']
      by (cases h; cases resp) (auto simp: submit_round_def Let_def)
  qed
qed

lemma submit_rounds_run:
  "submit_rounds C cfg blob fees gas n c = Some c1 \<Longrightarrow>
   \<exists>bad. dc_published c1 = dc_published c @ bad \<and> length bad = n \<and> list_all (\<lambda>e. \<not> eh_Healthy e) bad"
proof (induction n arbitrary: c)
  case (Suc n)
  then obtain c2 where c2: "submit_round C cfg blob fees gas c = (Ok None, c2)" "submit_rounds C cfg blob fees gas n c2 = Some c1"
    by (auto split: prod.splits outcome.splits option.splits)
  obtain e where "dc_published c2 = dc_published c @ [\<lparr>eh_Healthy = False, eh_Error = e\<rparr>]"
    using submit_round_run [OF c2(1)] by (auto simp: reported_def)
  moreover obtain bad where "dc_published c1 = dc_published c2 @ bad" "length bad = n" "list_all (\<lambda>e. \<not> eh_Healthy e) bad"
    using Suc.IH [OF c2(2)] by blast
  ultimately show ?case by (intro exI [of _ "\<lparr>eh_Healthy = False, eh_Error = e\<rparr> # bad"]) simp
qed simp

lemma submit_loop_rounds:
  "submit_rounds C cfg blob fees gas n c = Some c1 \<Longrightarrow> submit_round C cfg blob fees gas c1 = (Ok (Some r), c') \<Longrightarrow>
   submit_loop C cfg blob fees gas c = Some (Ok r, c')"
proof (induction n arbitrary: c)
  case 0
  then show ?case by (simp add: submit_loop.simps)
next
  case (Suc n)
  then show ?case
    by (subst submit_loop.simps) (auto split: prod.splits outcome.splits option.splits)
qed

text \<open>
  C16: Submitting a batch to Celestia pays for gas that covers its blob and, after any number of failed rounds,
  returns as soon as one ends. Every failed round is reported as unhealthy; a success is reported as healthy,
  and otherwise - the client was stopped, or an event could not be published - nothing is.
\<close>

theorem celestia_submit_outcome:
  assumes "Batch_MarshalBinary cd batch = Ok blob" and "blob \<noteq> []" and "length blob + 482 \<le> 2 ^ 32"
    and "rnd_ok rnd" and "1 \<le> cc_GasAdjustment cfg" and "cc_GasAdjustment cfg \<le> 1000"
  shows "\<exists>gas. 4096 * ((length blob + 485) div 482) + 75700 \<le> unat gas \<and>
    (\<forall>n c c1 r c'. submit_rounds C cfg blob (calculateFees rnd cfg gas) gas n c = Some c1 \<longrightarrow>
       submit_round C cfg blob (calculateFees rnd cfg gas) gas c1 = (Ok (Some r), c') \<longrightarrow>
       celestia_SubmitBatch cd rnd C cfg batch c = Some (Ok r, c') \<and>
       (\<exists>bad. length bad = n \<and> list_all (\<lambda>e. \<not> eh_Healthy e) bad \<and>
         reported (dc_published c @ bad) (Some r) (dc_published c')))"
proof -
  let ?size = "word_of_nat (length blob) :: u32"
  have sz: "unat ?size = length blob" using assms(3) by (simp add: unat_of_nat)
  then have "0 < ?size" using assms(2) by (simp add: word_less_nat_alt)
  then obtain g where g: "DefaultEstimateGas ?size = Some g" "unat g = 4096 * ((length blob + 485) div 482) + 75700"
    using gas_for_blob [of ?size] sz assms(3) by auto
  define gas where "gas = adjusted_gas rnd cfg g"
  have "unat g \<le> unat gas"
    unfolding gas_def using assms(3) by (intro adjusted_gas_covers [OF assms(4,5,6) g(2)]) simp
  moreover have "celestia_SubmitBatch cd rnd C cfg batch c = submit_loop C cfg blob (calculateFees rnd cfg gas) gas c" for c
    using assms(1) g(1) by (simp add: celestia_SubmitBatch_def gas_def Let_def)
  moreover have "\<exists>bad. length bad = n \<and> list_all (\<lambda>e. \<not> eh_Healthy e) bad \<and> reported (dc_published c @ bad) (Some r) (dc_published c')"
    if "submit_rounds C cfg blob fees gas' n c = Some c1" "submit_round C cfg blob fees gas' c1 = (Ok (Some r), c')" for fees gas' n c c1 r c'
    using submit_rounds_run [OF that(1)] submit_round_run [OF that(2)] by metis
  ultimately show ?thesis
    using g(2) submit_loop_rounds [of C cfg blob "calculateFees rnd cfg gas" gas] by (intro exI [of _ gas]) auto
qed

text \<open>A node that answers the second submission, with height 7.\<close>

definition sample_cnc :: "nat cnc" where
  "sample_cnc =
     \<lparr>ce_New = Ok,
      ce_SubmitPFB = \<lambda>_ _ _ _ w.
        ((if w = 0 then None else Some \<lparr>tr_Code = 0, tr_Height = 7, tr_TxHash = []\<rparr>, if w = 0 then Some ErrIO else None), Suc w),
      ce_NamespacedShares = \<lambda>_ _ w. (Ok [], w), ce_NamespacedData = \<lambda>_ _ w. (Ok [], w),
      ce_Tx = \<lambda>_ w. (Ok None, w), ce_retry = \<lambda>f. f, ce_ctxDone = \<lambda>w. (False, w), ce_Publish = \<lambda>w. (Ok (), w)\<rparr>"

definition sample_celestia_config :: celestia_Config where
  "sample_celestia_config =
     \<lparr>cc_Fee = 0, cc_GasPrices = 1 / 10, cc_GasAdjustment = 13 / 10, cc_NamespaceIDStr = [], cc_NamespaceID = []\<rparr>"

lemma sample_rounds:
  "submit_rounds sample_cnc sample_celestia_config blob fees gas 1 \<lparr>dc_world = 0, dc_published = []\<rparr> =
     Some \<lparr>dc_world = 1, dc_published = [\<lparr>eh_Healthy = False, eh_Error = Some ErrIO\<rparr>]\<rparr>"
  "submit_round sample_cnc sample_celestia_config blob fees gas
     \<lparr>dc_world = 1, dc_published = [\<lparr>eh_Healthy = False, eh_Error = Some ErrIO\<rparr>]\<rparr> =
     (Ok (Some \<lparr>rs_Code = StatusSuccess, rs_Message = ''tx hash'', rs_DAHeight = 7\<rparr>),
      \<lparr>dc_world = 2, dc_published = [\<lparr>eh_Healthy = False, eh_Error = Some ErrIO\<rparr>, \<lparr>eh_Healthy = True, eh_Error = None\<rparr>]\<rparr>)"
  by (simp_all add: submit_round_def sample_cnc_def Let_def SubmitBatchHealthEventHelper_def report_submitted_def bind_cmd_def
      ret_def uint64_of_def)

theorem celestia_submit_outcome_witness:
  "celestia_SubmitBatch sample_codec (\<lambda>x. x) sample_cnc sample_celestia_config sample_batch \<lparr>dc_world = 0, dc_published = []\<rparr> =
     Some (Ok \<lparr>rs_Code = StatusSuccess, rs_Message = ''tx hash'', rs_DAHeight = 7\<rparr>,
       \<lparr>dc_world = 2, dc_published = [\<lparr>eh_Healthy = False, eh_Error = Some ErrIO\<rparr>, \<lparr>eh_Healthy = True, eh_Error = None\<rparr>]\<rparr>)"
proof -
  have cd: "codec_ok sample_codec" by (simp add: sample_codec_def table_codec_ok)
  have "Batch_Size sample_codec (Batch_ToProto sample_batch) \<le> 10000" "0 < Batch_Size sample_codec (Batch_ToProto sample_batch)"
    by code_simp+
  moreover obtain blob where blob: "Batch_MarshalBinary sample_codec sample_batch = Ok blob"
      "length blob = Batch_Size sample_codec (Batch_ToProto sample_batch)"
    using cd sample_batch_sendable
    by (auto simp: sendable_def Batch_MarshalBinary_def Batch_Marshal_enc length_enc_Batch)
  ultimately have "blob \<noteq> []" "length blob + 482 \<le> 2 ^ 32" by auto
  moreover have "rnd_ok (\<lambda>x. x)" by (simp add: rnd_ok_def mono_def)
  moreover have "1 \<le> cc_GasAdjustment sample_celestia_config" "cc_GasAdjustment sample_celestia_config \<le> 1000"
    by (simp_all add: sample_celestia_config_def)
  ultimately show ?thesis
    using celestia_submit_outcome [OF blob(1), of "\<lambda>x. x" sample_celestia_config sample_cnc] sample_rounds by blast
qed

end
