(* ===== verification/Pipeline.thy ===== *)
theory Pipeline
  imports Sync Settlement Celestia
begin

text \<open>
  The block manager over its clients: what a node does with the batches of the mock and the Celestia data
  availability layer, and what the settlement client does with a batch that the manager could not fill.
\<close>

subsection \<open>Syncing through the data availability layer\<close>

lemma apply_batches_append:
  "apply_batches M (bs @ bs') = bind_cmd (apply_batches M bs) (\<lambda>_. apply_batches M bs')"
proof (induction bs)
  case Nil
  show ?case by (simp add: bind_cmd_def ret_def fun_eq_iff)
next
  case (Cons b bs)
  then show ?case
    by (cases b) (auto simp: bind_cmd_def lift_out_def fun_eq_iff split: prod.splits outcome.splits)
qed

text \<open>
  The interface \<open>BatchRetriever\<close> of \<open>src/da/da.go\<close>: from a state in which the layer offers batches at a height,
  retrieving them succeeds, with the batches up to the evidence of their blocks.
\<close>

locale batch_retriever =
  fixes retrieve :: "u64 \<Rightarrow> ('da, ResultRetrieveBatch) cmd"
    and offers :: "u64 \<Rightarrow> Batch list \<Rightarrow> 'da \<Rightarrow> 'da \<Rightarrow> bool"
  assumes retrieves: "offers height bs d d' \<Longrightarrow>
    \<exists>r. retrieve height d = (Ok r, d') \<and> rr_Code r = StatusSuccess \<and> rr_Batches r = map (\<lambda>b. Some (plain b)) bs"
begin

lemma sync_offered:
  assumes "da_RetrieveBatches (me_da M) = retrieve" and "offers height bs (m_da m) d"
  shows "processNextDABatch M height m = apply_batches M (map (\<lambda>b. Some (plain b)) bs) (m\<lparr>m_da := d\<rparr>)"
  using retrieves [OF assms(2)] assms(1)
  by (auto simp: processNextDABatch_def fetchBatch_def bind_cmd_def on_da_def ret_def)

lemma sync_offered_one:
  assumes "da_RetrieveBatches (me_da M) = retrieve" and "offers height [b] (m_da m) d"
  shows "processNextDABatch M height m = apply_blocks M (ba_Commits b) 0 (map without_evidence (ba_Blocks b)) (m\<lparr>m_da := d\<rparr>)"
  using sync_offered [OF assms] by (simp add: bind_cmd_def ret_def split: prod.splits outcome.splits)

end

text \<open>The mock layer offers the one batch that was submitted at a height of the past.\<close>

definition mock_offers :: "codec \<Rightarrow> (bytes \<Rightarrow> bytes) \<Rightarrow> u64 \<Rightarrow> ('db \<Rightarrow> bytes \<rightharpoonup> bytes) \<Rightarrow> u64 \<Rightarrow> Batch list \<Rightarrow>
    'db da_mock \<Rightarrow> 'db da_mock \<Rightarrow> bool" where
  "mock_offers cd sha1 N look height bs d d' \<longleftrightarrow>
     d' = d \<and> digest_ok sha1 N \<and> height < N \<and> height < dk_daHeight d \<and>
     (\<exists>subs b. apart_subs subs \<and> da_holds cd sha1 (look (dk_db d)) subs \<and> bs = [b] \<and> (\<forall>b'. (height, b') \<in> set subs \<longleftrightarrow> b' = b))"

context kv_store
begin

lemma mock_batch_retriever: "batch_retriever (da_mock_RetrieveBatches cd kv) (mock_offers cd sha1 N look)"
proof
  fix height bs d d'
  assume "mock_offers cd sha1 N look height bs d d'"
  then obtain subs b where d: "d' = d" and dig: "digest_ok sha1 N" and h: "height < N" "height < dk_daHeight d"
      and subs: "apart_subs subs" "da_holds cd sha1 (look (dk_db d)) subs"
      and b: "bs = [b]" "\<forall>b'. (height, b') \<in> set subs \<longleftrightarrow> b' = b"
    unfolding mock_offers_def by blast
  obtain bs' where bs': "da_mock_RetrieveBatches cd kv height d =
      (Ok \<lparr>rr_Code = StatusSuccess, rr_Message = [], rr_DAHeight = 0, rr_Batches = map (\<lambda>b. Some (plain b)) bs'\<rparr>, d)"
    "distinct bs'" "set bs' = {b}"
    using retrieve_held [OF dig subs(2,1) h(2,1)] b(2) by auto
  then have "bs' = [b]" by (cases bs'; cases "tl bs'") auto
  with bs'(1) b(1) d show "\<exists>r. da_mock_RetrieveBatches cd kv height d = (Ok r, d') \<and> rr_Code r = StatusSuccess \<and>
      rr_Batches r = map (\<lambda>b. Some (plain b)) bs" by simp
qed

end

interpretation mem_da: batch_retriever "da_mock_RetrieveBatches cd (dalcKV mem_badger)" "mock_offers cd sha1 N (dalc_look mem_badger)"
  for cd sha1 N
  by (rule kv_store.mock_batch_retriever [OF mem.dalcKV_kv_store])

text \<open>Celestia offers the batches whose encodings are the data of the namespace at a height.\<close>

definition celestia_offers :: "codec \<Rightarrow> 'w cnc \<Rightarrow> celestia_Config \<Rightarrow> u64 \<Rightarrow> Batch list \<Rightarrow> 'w da_client \<Rightarrow> 'w da_client \<Rightarrow> bool" where
  "celestia_offers cd C cfg height bs d d' \<longleftrightarrow>
     codec_ok cd \<and> (\<exists>msgs w. ce_NamespacedData C (cc_NamespaceID cfg) height (dc_world d) = (Ok msgs, w) \<and>
       d' = d\<lparr>dc_world := w\<rparr> \<and> list_all2 (\<lambda>b msg. sendable cd b \<and> Batch_MarshalBinary cd b = Ok msg) bs msgs)"

lemma decode_sendable:
  assumes "codec_ok cd" and "list_all2 (\<lambda>b msg. sendable cd b \<and> Batch_MarshalBinary cd b = Ok msg) bs msgs"
  shows "decode_messages cd (msgs @ rest) = bind_out (decode_messages cd rest) (\<lambda>x. Ok (map (\<lambda>b. Some (plain b)) bs @ x))"
  using assms(2)
proof (induction bs msgs rule: list_all2_induct)
  case Nil
  show ?case by (cases "decode_messages cd rest") simp_all
next
  case (Cons b bs msg msgs)
  then have "Batch_Unmarshal cd msg zero_pb_Batch = Ok (Batch_ToProto b)" "Batch_FromProto (Batch_ToProto b) = Ok (plain b)"
    using assms(1) by (auto simp: sendable_def Batch_MarshalBinary_def Batch_Marshal_enc Batch_Unmarshal_enc length_enc_Batch Batch_FromProto_ToProto)
  with Cons.IH show ?case by (cases "decode_messages cd rest") simp_all
qed

interpretation cel: batch_retriever "celestia_RetrieveBatches cd C cfg" "celestia_offers cd C cfg" for cd C cfg
proof
  fix height bs d d'
  assume "celestia_offers cd C cfg height bs d d'"
  then obtain msgs w where "ce_NamespacedData C (cc_NamespaceID cfg) height (dc_world d) = (Ok msgs, w)" "d' = d\<lparr>dc_world := w\<rparr>"
      "codec_ok cd" "list_all2 (\<lambda>b msg. sendable cd b \<and> Batch_MarshalBinary cd b = Ok msg) bs msgs"
    unfolding celestia_offers_def by blast
  then show "\<exists>r. celestia_RetrieveBatches cd C cfg height d = (Ok r, d') \<and> rr_Code r = StatusSuccess \<and>
      rr_Batches r = map (\<lambda>b. Some (plain b)) bs"
    using decode_sendable [of cd bs msgs "[]"] by (simp add: celestia_RetrieveBatches_def on_da_world_def)
qed


subsection \<open>Foreign data in the namespace\<close>

text \<open>
  C17: A message in the rollapp's Celestia namespace that is not a batch, at a height that the settlement layer
  names, stops every node that syncs through this height: the batches before it are applied, then
  its element of the result, which was left nil, is dereferenced, and the loop that syncs panics - also after a restart.
\<close>

theorem foreign_message_crashes_sync:
  assumes "codec_ok cd" and "da_RetrieveBatches (me_da M) = celestia_RetrieveBatches cd C cfg"
    and "list_all2 (\<lambda>b msg. sendable cd b \<and> Batch_MarshalBinary cd b = Ok msg) bs msgs"
    and "Batch_Unmarshal cd junk zero_pb_Batch = Err e"
    and "list_all2 (\<lambda>b msg. sendable cd b \<and> Batch_MarshalBinary cd b = Ok msg) bs' msgs'"
    and "on_sl (sl_RetrieveBatch (me_sl M) (Some (s_SLStateIndex (m_lastState m) + 1))) m = (Ok res, m1)"
    and "ce_NamespacedData C (cc_NamespaceID cfg) (dm_Height (sb_MetaData (sr_Batch res))) (dc_world (m_da m1)) = (Ok (msgs @ junk # msgs'), w)"
    and "apply_batches M (map (\<lambda>b. Some (plain b)) bs) (m1\<lparr>m_da := (m_da m1)\<lparr>dc_world := w\<rparr>\<rparr>) = (Ok (), m2)"
    and "st_height (m_store m) < target"
  shows "syncUntilTarget M target m = Some (Panic ''nil pointer dereference'', m2)"
proof -
  let ?h = "dm_Height (sb_MetaData (sr_Batch res))" and ?d = "(m_da m1)\<lparr>dc_world := w\<rparr>"
  let ?xs = "map (\<lambda>b. Some (plain b)) bs @ None # map (\<lambda>b. Some (plain b)) bs'"
  have "decode_messages cd (msgs @ junk # msgs') = Ok ?xs"
    using decode_sendable [OF assms(1,3), of "junk # msgs'"] decode_sendable [OF assms(1,5), of "[]"] assms(4) by simp
  then have "da_RetrieveBatches (me_da M) ?h (m_da m1) =
      (Ok \<lparr>rr_Code = StatusSuccess, rr_Message = '''', rr_DAHeight = ?h, rr_Batches = ?xs\<rparr>, ?d)"
    using assms(2,7) by (simp add: celestia_RetrieveBatches_def on_da_world_def)
  then have "processNextDABatch M ?h m1 = apply_batches M ?xs (m1\<lparr>m_da := ?d\<rparr>)"
    by (simp add: processNextDABatch_def fetchBatch_def bind_cmd_def on_da_def ret_def)
  also have "\<dots> = (Panic ''nil pointer dereference'', m2)"
    using assms(8) unfolding apply_batches_append by (simp add: bind_cmd_def lift_out_def)
  finally show ?thesis
    using assms(6,9) by (simp add: syncUntilTarget_def sync_loop.simps)
qed

subsection \<open>A block larger than a batch\<close>

text \<open>
  C18: When the first block that is not settled yet is larger than a batch may be, the sequencer submits a
  batch without blocks to the data availability layer and pays for it, and then panics, because the
  settlement client refuses a batch that ends before it starts.
\<close>

theorem oversized_block_stops_sequencer:
  assumes "me_sl M = base_ops H"
    and "m_syncTarget m < uint64_of (s_LastBlockHeight (m_lastState m))"
    and "uint64_of (s_LastBlockHeight (m_lastState m)) - m_syncTarget m \<le> maxSliceCap"
    and "validateLastBlockInBatchIsEmpty M m (uint64_of (s_LastBlockHeight (m_lastState m))) = Ok True"
    and "LoadBlock (me_env M) (me_kv M) (m_store m) (m_syncTarget m + 1) = Ok block"
    and "LoadCommit (me_env M) (me_kv M) (m_store m) (m_syncTarget m + 1) = Ok commit"
    and "batch_too_big (se_codec (me_env M)) (me_BlockBatchMaxSizeBytes M)
      \<lparr>ba_StartHeight = m_syncTarget m + 1, ba_EndHeight = uint64_of (s_LastBlockHeight (m_lastState m)),
       ba_Blocks = [block], ba_Commits = [commit]\<rparr>"
    and "da_SubmitBatch (me_da M) \<lparr>ba_StartHeight = m_syncTarget m + 1, ba_EndHeight = m_syncTarget m, ba_Blocks = [], ba_Commits = []\<rparr>
      (m_da m) = (Ok r, d)" and "rs_Code r = StatusSuccess"
  shows "submitNextBatch M m = Some (Panic ''invalid batch'', m\<lparr>m_da := d\<rparr>)"
proof -
  let ?start = "m_syncTarget m + 1" and ?upto = "uint64_of (s_LastBlockHeight (m_lastState m))"
  have "?start \<le> ?upto" using assms(2) by (simp add: inc_le)
  then have "createNextDABatch M m ?start ?upto =
      Some (Ok \<lparr>ba_StartHeight = ?start, ba_EndHeight = m_syncTarget m, ba_Blocks = [], ba_Commits = []\<rparr>)"
    using assms(3,5,6,7) batch_loop_step [of ?start ?upto "me_env M" "me_kv M" "m_store m" block commit]
    by (simp add: createNextDABatch_def with_blocks_def)
  moreover have "m_syncTarget m < ?start" using assms(2) by (simp add: word_less_nat_alt unat_Suc_less)
  then have "base_SubmitBatch H \<lparr>ba_StartHeight = ?start, ba_EndHeight = m_syncTarget m, ba_Blocks = [], ba_Commits = []\<rparr> dc res b =
      (Panic ''invalid batch'', b)" for dc res b
    by (auto simp: base_SubmitBatch_def validateBatch_def)
  ultimately show ?thesis
    using assms(1,4,8,9)
    by (simp add: submitNextBatch_def submit_to_layers_def bind_cmd_def on_da_def on_sl_def base_ops_def)
qed

subsection \<open>Concrete nodes\<close>

text \<open>A manager's environment and state over other clients.\<close>

definition over_layers :: "('db, 'app, 'mp, 'bus, 'vs, 'pvs, 'a, 'b, 'net) manager_env \<Rightarrow> 'sl sl_ops \<Rightarrow> 'da da_ops \<Rightarrow>
    ('db, 'app, 'mp, 'bus, 'vs, 'pvs, 'sl, 'da, 'net) manager_env" where
  "over_layers M sl da =
     \<lparr>me_kv = me_kv M, me_exec = me_exec M, me_executor = me_executor M, me_genesis = me_genesis M, me_sl = sl, me_da = da,
      me_GossipBlock = me_GossipBlock M, me_BlockBatchMaxSizeBytes = me_BlockBatchMaxSizeBytes M, me_getAddress = me_getAddress M,
      me_Sign = me_Sign M, me_SignVote = me_SignVote M, me_VerifyVote = me_VerifyVote M\<rparr>"

definition with_clients :: "('db, 'app, 'mp, 'bus, 'vs, 'a, 'b, 'net) Manager \<Rightarrow> 'sl \<Rightarrow> 'da \<Rightarrow>
    ('db, 'app, 'mp, 'bus, 'vs, 'sl, 'da, 'net) Manager" where
  "with_clients m sl da =
     \<lparr>m_lastState = m_lastState m, m_store = m_store m, m_conns = m_conns m, m_sl = sl, m_da = da, m_net = m_net m,
      m_syncTarget = m_syncTarget m, m_lastSubmissionTime = m_lastSubmissionTime m, m_batchInProcess = m_batchInProcess m,
      m_syncTargetDiode = m_syncTargetDiode m, m_shouldProduceBlocksCh = m_shouldProduceBlocksCh m,
      m_produceEmptyBlockCh = m_produceEmptyBlockCh m\<rparr>"


theorem foreign_message_crashes_sync_witness:
  "\<exists>m2. syncUntilTarget
     (over_layers sample_manager_env (me_sl sample_manager_env)
        \<lparr>da_SubmitBatch = \<lambda>b c. (Ok no_result, c),
         da_RetrieveBatches = celestia_RetrieveBatches sample_codec
           (sample_cnc\<lparr>ce_NamespacedData := \<lambda>_ _ w. (Ok [[255]], w)\<rparr>) sample_celestia_config,
         da_GetClientType = da_Celestia\<rparr>)
     3 (with_clients (sample_manager []) () \<lparr>dc_world = 0, dc_published = []\<rparr>) = Some (Panic ''nil pointer dereference'', m2)"
proof -
  let ?C = "sample_cnc\<lparr>ce_NamespacedData := \<lambda>_ _ w. (Ok [[255]], w)\<rparr>"
  let ?M = "over_layers sample_manager_env (me_sl sample_manager_env)
     \<lparr>da_SubmitBatch = \<lambda>b c. (Ok no_result, c), da_RetrieveBatches = celestia_RetrieveBatches sample_codec ?C sample_celestia_config,
      da_GetClientType = da_Celestia\<rparr>"
  let ?m = "with_clients (sample_manager []) () \<lparr>dc_world = 0, dc_published = []\<rparr>"
  obtain e where junk: "Batch_Unmarshal sample_codec [255] zero_pb_Batch = Err e"
  proof (cases "Batch_Unmarshal sample_codec [255] zero_pb_Batch")
    case (Ok b)
    moreover have "\<not> is_Ok (Batch_Unmarshal sample_codec [255] zero_pb_Batch)" by code_simp
    ultimately show ?thesis by simp
  next
    case (Panic p)
    moreover have "Batch_Unmarshal sample_codec [255] zero_pb_Batch \<noteq> Panic p"
      by (rule Batch_Unmarshal_no_panic [OF sample_codec_total])
    ultimately show ?thesis by simp
  qed
  show ?thesis
    using foreign_message_crashes_sync [OF sample_da_start(3), of ?M ?C sample_celestia_config "[]" "[]" "[255]" e "[]" "[]" ?m _ ?m 0 ?m 3] junk
    by (simp add: over_layers_def with_clients_def sample_manager_env_def sample_manager_def on_sl_def sample_state_def ret_def)
qed

theorem oversized_block_stops_sequencer_witness:
  "\<exists>s b d. submitNextBatch
     ((over_layers sample_manager_env (base_ops (mock_ops sample_json (settlementKV mem_badger)))
        \<lparr>da_SubmitBatch = \<lambda>b n. (Ok \<lparr>rs_Code = StatusSuccess, rs_Message = '''', rs_DAHeight = 1\<rparr>, Suc n),
         da_RetrieveBatches = \<lambda>h n. (Ok retrieve_error, n), da_GetClientType = da_Mock\<rparr>)\<lparr>me_BlockBatchMaxSizeBytes := 10\<rparr>)
     ((with_clients (sample_manager []) b 0)\<lparr>m_store := s, m_syncTarget := 1\<rparr>) = Some (Panic ''invalid batch'', d) \<and> m_da d = 1"
proof -
  obtain s where s: "LoadBlock sample_env (mainKV mem_badger) s 2 = Ok (sample_block 2)"
    "LoadCommit sample_env (mainKV mem_badger) s 2 = Ok (sample_commit 2)"
    by (rule sample_saved)
  let ?H = "mock_ops sample_json (settlementKV mem_badger)"
  let ?M = "(over_layers sample_manager_env (base_ops ?H)
     \<lparr>da_SubmitBatch = \<lambda>b n. (Ok \<lparr>rs_Code = StatusSuccess, rs_Message = '''', rs_DAHeight = 1\<rparr>, Suc n),
      da_RetrieveBatches = \<lambda>h n. (Ok retrieve_error, n), da_GetClientType = da_Mock\<rparr>)\<lparr>me_BlockBatchMaxSizeBytes := 10\<rparr>"
  let ?m = "\<lambda>b. (with_clients (sample_manager []) b (0 :: nat))\<lparr>m_store := s, m_syncTarget := 1\<rparr>"
  have big: "batch_too_big (se_codec sample_env) 10
      \<lparr>ba_StartHeight = 2, ba_EndHeight = 2, ba_Blocks = [sample_block 2], ba_Commits = [sample_commit 2]\<rparr>"
    by code_simp
  have last: "uint64_of (s_LastBlockHeight (sample_state 2)) = 2" by code_simp
  have empty: "d_Txs (b_Data (sample_block 2)) = []" by (simp add: sample_block_def zero_Data_def)
  note facts = s big last empty
  have "submitNextBatch ?M (?m b) = Some (Panic ''invalid batch'', (?m b)\<lparr>m_da := 1\<rparr>)" for b
    by (rule oversized_block_stops_sequencer [where H = ?H and block = "sample_block 2" and commit = "sample_commit 2"
          and r = "\<lparr>rs_Code = StatusSuccess, rs_Message = '''', rs_DAHeight = 1\<rparr>"])
      (simp_all add: over_layers_def with_clients_def sample_manager_def facts validateLastBlockInBatchIsEmpty_def maxSliceCap_def)
  then show ?thesis by (intro exI) (rule conjI, assumption, simp)
qed

end
