(* ===== verification/Avail.thy ===== *)
theory Avail
  imports Celestia
begin

text \<open>
  The data availability client for Avail, \<open>src/da/avail/avail.go\<close>: retrieving batches from the extrinsics of
  a block, building, submitting and watching a transaction, and the loop around it. The substrate client, its
  signatures and retry-go are fields of \<open>avail_api\<close>, its values of types the code only passes on have type
  \<open>'o\<close>.
\<close>

subsection \<open>What the client calls\<close>

record avail_Config =
  ac_Seed :: gostring
  ac_AppID :: int
  ac_Tip :: u64

record avail_extrinsic =
  ex_AppID :: int
  ex_SectionIndex :: byte
  ex_MethodIndex :: byte
  ex_Args :: bytes

record SignatureOptions =
  so_BlockHash :: bytes
  so_IsMortalEra :: bool
  so_GenesisHash :: bytes
  so_Nonce :: u64
  so_SpecVersion :: u32
  so_Tip :: u64
  so_TransactionVersion :: u32
  so_AppID :: u64

text \<open>What the watched submission reports; a status other than the first two is rendered for the log.\<close>

datatype tx_status = Finalized bytes | InBlock | OtherStatus "unit outcome"

datatype tx_watch = Watch_ctxDone error | Watch_err "error option" | Watch_status tx_status | Watch_timeout

text \<open>A missing storage entry is \<open>None\<close>. The function that is retried may not return.\<close>

record ('w, 'o) avail_api =
  av_GetMetadataLatest :: "('w, 'o) cmd"
  av_NewCall :: "'o \<Rightarrow> string \<Rightarrow> bytes \<Rightarrow> 'o outcome"
  av_NewExtrinsic :: "'o \<Rightarrow> 'o"
  av_GetBlockHash :: "u64 \<Rightarrow> ('w, bytes) cmd"
  av_GetRuntimeVersionLatest :: "('w, u32 \<times> u32) cmd"
  av_KeyringPairFromSecret :: "gostring \<Rightarrow> byte \<Rightarrow> 'o outcome"
  av_CreateStorageKey :: "'o \<Rightarrow> 'o \<Rightarrow> 'o outcome"
  av_GetStorageLatest :: "'o \<Rightarrow> ('w, u32 option) cmd"
  av_Sign :: "'o \<Rightarrow> 'o \<Rightarrow> SignatureOptions \<Rightarrow> 'o outcome"
  av_SubmitAndWatchExtrinsic :: "'o \<Rightarrow> ('w, unit) cmd"
  av_watch :: "'w \<Rightarrow> tx_watch \<times> 'w"
  av_GetHeader :: "bytes \<Rightarrow> ('w, u32) cmd"
  av_GetBlock :: "bytes \<Rightarrow> ('w, avail_extrinsic list) cmd"
  av_retry :: "('w \<times> u64 \<Rightarrow> (unit outcome \<times> 'w \<times> u64) option) \<Rightarrow> 'w \<times> u64 \<Rightarrow> (unit outcome \<times> 'w \<times> u64) option"
  av_ctxDone :: "'w \<Rightarrow> bool \<times> 'w"
  av_Publish :: "('w, unit) cmd"

abbreviation da_Avail :: da_Client where "da_Avail \<equiv> [0x61, 0x76, 0x61, 0x69, 0x6c]"

abbreviation keyringNetworkID :: byte where "keyringNetworkID \<equiv> 42"
abbreviation DataCall :: string where "DataCall \<equiv> ''DataAvailability.submit_data''"
abbreviation DataCallSectionIndex :: byte where "DataCallSectionIndex \<equiv> 29"
abbreviation DataCallMethodIndex :: byte where "DataCallMethodIndex \<equiv> 1"

subsection \<open>\<open>da/errors.go\<close>\<close>

abbreviation ErrTxBroadcastConfigError :: error where "ErrTxBroadcastConfigError \<equiv> Errorf ''Failed building tx''"
abbreviation ErrTxBroadcastNetworkError :: error where "ErrTxBroadcastNetworkError \<equiv> Errorf ''Failed broadcasting tx''"
abbreviation ErrTxBroadcastTimeout :: error where "ErrTxBroadcastTimeout \<equiv> Errorf ''Broadcast timeout error''"

text \<open>\<open>errors.Is\<close> along the wrapped errors.\<close>

fun errors_Is :: "error \<Rightarrow> error \<Rightarrow> bool" where
  "errors_Is (Wrapf s e) t = (Wrapf s e = t \<or> errors_Is e t)"
| "errors_Is e t = (e = t)"

subsection \<open>Retrieving\<close>

text \<open>The inner loop: bytes that cannot be decoded are tried again.\<close>

partial_function (option) decode_args :: "codec \<Rightarrow> bytes \<Rightarrow> Batch list \<Rightarrow> Batch list outcome option" where
  "decode_args cd dat batches =
     (if dat = [] then Some (Ok batches)
      else
        (case Batch_Unmarshal cd dat zero_pb_Batch of
           Err e \<Rightarrow> decode_args cd dat batches
         | Panic p \<Rightarrow> Some (Panic p)
         | Ok pbBatch \<Rightarrow>
             (case Batch_FromProto pbBatch of
                Err e \<Rightarrow> decode_args cd dat batches
              | Panic p \<Rightarrow> Some (Panic p)
              | Ok batch \<Rightarrow>
                  if Batch_Size cd pbBatch \<le> length dat
                  then decode_args cd (drop (Batch_Size cd pbBatch) dat) (batches @ [batch])
                  else Some (Panic ''slice bounds out of range''))))"

definition data_submission :: "avail_Config \<Rightarrow> avail_extrinsic \<Rightarrow> bool" where
  "data_submission cfg ext \<longleftrightarrow>
     ex_AppID ext = ac_AppID cfg \<and> ex_SectionIndex ext = DataCallSectionIndex \<and> ex_MethodIndex ext = DataCallMethodIndex"

fun decode_extrinsics :: "codec \<Rightarrow> avail_Config \<Rightarrow> avail_extrinsic list \<Rightarrow> Batch list \<Rightarrow> Batch list outcome option" where
  "decode_extrinsics cd cfg [] batches = Some (Ok batches)"
| "decode_extrinsics cd cfg (ext # exts) batches =
     (if data_submission cfg ext
      then Option.bind (decode_args cd (ex_Args ext) batches) (\<lambda>r.
             case r of Ok bs \<Rightarrow> decode_extrinsics cd cfg exts bs | _ \<Rightarrow> Some r)
      else decode_extrinsics cd cfg exts batches)"

definition avail_RetrieveBatches :: "codec \<Rightarrow> ('w, 'o) avail_api \<Rightarrow> avail_Config \<Rightarrow> u64 \<Rightarrow> 'w da_client \<Rightarrow>
    (ResultRetrieveBatch outcome \<times> 'w da_client) option" where
  "avail_RetrieveBatches cd A cfg dataLayerHeight c =
     (case on_da_world (bind_cmd (av_GetBlockHash A dataLayerHeight) (av_GetBlock A)) c of
        (Ok extrinsics, c') \<Rightarrow>
          map_option (\<lambda>r. (bind_out r (\<lambda>batches.
              Ok \<lparr>rr_Code = StatusSuccess, rr_Message = '''', rr_DAHeight = dataLayerHeight, rr_Batches = map Some batches\<rparr>), c'))
            (decode_extrinsics cd cfg extrinsics [])
      | (Err e, c') \<Rightarrow> Some (Ok retrieve_error, c')
      | (Panic p, c') \<Rightarrow> Some (Panic p, c'))"

definition avail_CheckBatchAvailability :: "u64 \<Rightarrow> ResultCheckBatch" where
  "avail_CheckBatchAvailability dataLayerHeight =
     \<lparr>rk_Code = StatusError, rk_Message = ''not implemented'', rk_DAHeight = 0, rk_DataAvailable = False\<rparr>"

subsection \<open>Broadcasting\<close>

primrec map_err :: "(error \<Rightarrow> error) \<Rightarrow> 'a outcome \<Rightarrow> 'a outcome" where
  "map_err f (Ok x) = Ok x"
| "map_err f (Err e) = Err (f e)"
| "map_err f (Panic p) = Panic p"

definition failing :: "error \<Rightarrow> ('w, 'a) cmd \<Rightarrow> ('w, 'a) cmd" where
  "failing e act w = map_prod (map_err (\<lambda>_. e)) id (act w)"

abbreviation config_error :: error where
  "config_error \<equiv> Wrapf ''config'' ErrTxBroadcastConfigError"

abbreviation network_error :: error where
  "network_error \<equiv> Wrapf ''network'' ErrTxBroadcastNetworkError"

definition getHeightFromHash :: "('w, 'o) avail_api \<Rightarrow> bytes \<Rightarrow> ('w, u64) cmd" where
  "getHeightFromHash A hash =
     bind_cmd (\<lambda>w. map_prod (map_err (Wrapf ''cannot get block by hash'')) id (av_GetHeader A hash w)) (\<lambda>n. ret (ucast n))"

text \<open>The signed extrinsic.\<close>

definition build_tx :: "('w, 'o) avail_api \<Rightarrow> avail_Config \<Rightarrow> bytes \<Rightarrow> ('w, 'o) cmd" where
  "build_tx A cfg tx =
     bind_cmd (failing (Errorf ''failed to GetMetadataLatest'') (av_GetMetadataLatest A)) (\<lambda>meta.
     bind_cmd (failing config_error (lift_out (\<lambda>_. av_NewCall A meta DataCall tx))) (\<lambda>newCall.
     bind_cmd (failing (Errorf ''failed to GetBlockHash'') (av_GetBlockHash A 0)) (\<lambda>genesisHash.
     bind_cmd (failing (Errorf ''failed to GetRuntimeVersionLatest'') (av_GetRuntimeVersionLatest A)) (\<lambda>rv.
     bind_cmd (failing config_error (lift_out (\<lambda>_. av_KeyringPairFromSecret A (ac_Seed cfg) keyringNetworkID))) (\<lambda>keyringPair.
     bind_cmd (failing config_error (lift_out (\<lambda>_. av_CreateStorageKey A meta keyringPair))) (\<lambda>key.
     bind_cmd (failing (Errorf ''failed to GetStorageLatest'')
       (bind_cmd (av_GetStorageLatest A key) (\<lambda>nonce.
          lift_out (\<lambda>_. case nonce of Some n \<Rightarrow> Ok n | None \<Rightarrow> Err (Errorf ''nil''))))) (\<lambda>nonce.
       failing config_error (lift_out (\<lambda>_. av_Sign A (av_NewExtrinsic A newCall) keyringPair
         \<lparr>so_BlockHash = genesisHash, so_IsMortalEra = False, so_GenesisHash = genesisHash, so_Nonce = ucast nonce,
          so_SpecVersion = fst rv, so_Tip = ac_Tip cfg, so_TransactionVersion = snd rv,
          so_AppID = uint64_of (ac_AppID cfg)\<rparr>)))))))))"

partial_function (option) watch_loop :: "('w, 'o) avail_api \<Rightarrow> 'w \<Rightarrow> (u64 outcome \<times> 'w) option" where
  "watch_loop A w =
     (case av_watch A w of (ev, w1) \<Rightarrow>
        (case ev of
           Watch_ctxDone e \<Rightarrow> Some (Err e, w1)
         | Watch_err e \<Rightarrow> Some (case e of None \<Rightarrow> Ok 0 | Some err \<Rightarrow> Err err, w1)
         | Watch_timeout \<Rightarrow> Some (Err ErrTxBroadcastTimeout, w1)
         | Watch_status status \<Rightarrow>
             (case status of
                Finalized hash \<Rightarrow> Some (failing (Errorf ''failed to getHeightFromHash'') (getHeightFromHash A hash) w1)
              | InBlock \<Rightarrow> watch_loop A w1
              | OtherStatus shown \<Rightarrow>
                  (case shown of
                     Ok _ \<Rightarrow> watch_loop A w1
                   | Err e \<Rightarrow> Some (Err (Errorf ''failed to MarshalJSON of received status''), w1)
                   | Panic p \<Rightarrow> Some (Panic p, w1)))))"

definition broadcastTx :: "('w, 'o) avail_api \<Rightarrow> avail_Config \<Rightarrow> bytes \<Rightarrow> 'w \<Rightarrow> (u64 outcome \<times> 'w) option" where
  "broadcastTx A cfg tx w =
     (case bind_cmd (build_tx A cfg tx) (\<lambda>ext. failing network_error (av_SubmitAndWatchExtrinsic A ext)) w of
        (Ok _, w1) \<Rightarrow> watch_loop A w1
      | (Err e, w1) \<Rightarrow> Some (Err e, w1)
      | (Panic p, w1) \<Rightarrow> Some (Panic p, w1))"

subsection \<open>The loop\<close>

text \<open>The mark of retry-go on an error that must not be retried.\<close>

definition Unrecoverable :: "error \<Rightarrow> error" where
  "Unrecoverable e = Wrapf ''unrecoverable'' e"

fun IsRecoverable :: "error \<Rightarrow> bool" where
  "IsRecoverable (Wrapf s e) = (s \<noteq> ''unrecoverable'')"
| "IsRecoverable e = True"

definition broadcast_attempt :: "('w, 'o) avail_api \<Rightarrow> avail_Config \<Rightarrow> bytes \<Rightarrow> 'w \<times> u64 \<Rightarrow> (unit outcome \<times> 'w \<times> u64) option" where
  "broadcast_attempt A cfg dataBlob x =
     map_option (\<lambda>(r, w).
       case r of
         Ok h \<Rightarrow> (Ok (), w, h)
       | Err e \<Rightarrow> (Err (if errors_Is e ErrTxBroadcastConfigError then Unrecoverable e else e), w, 0)
       | Panic p \<Rightarrow> (Panic p, w, snd x))
     (broadcastTx A cfg dataBlob (fst x))"

definition avail_round :: "('w, 'o) avail_api \<Rightarrow> avail_Config \<Rightarrow> bytes \<Rightarrow> 'w da_client \<Rightarrow>
    (ResultSubmitBatch option outcome \<times> 'w da_client) option" where
  "avail_round A cfg dataBlob c =
     (case av_ctxDone A (dc_world c) of
        (True, w) \<Rightarrow> Some (Ok (Some \<lparr>rs_Code = StatusError, rs_Message = ''context done'', rs_DAHeight = 0\<rparr>), c\<lparr>dc_world := w\<rparr>)
      | (False, w) \<Rightarrow>
          map_option (\<lambda>(r, w', daBlockHeight).
            case r of
              Ok _ \<Rightarrow> report_submitted (av_Publish A) ''success'' daBlockHeight (c\<lparr>dc_world := w'\<rparr>)
            | Err e \<Rightarrow>
                if \<not> IsRecoverable e then (Ok (Some submit_error), c\<lparr>dc_world := w'\<rparr>)
                else SubmitBatchHealthEventHelper (av_Publish A) False (Some e) (c\<lparr>dc_world := w'\<rparr>)
            | Panic p \<Rightarrow> (Panic p, c\<lparr>dc_world := w'\<rparr>))
          (av_retry A (broadcast_attempt A cfg dataBlob) (w, 0)))"

partial_function (option) submitBatchLoop :: "('w, 'o) avail_api \<Rightarrow> avail_Config \<Rightarrow> bytes \<Rightarrow> 'w da_client \<Rightarrow>
    (ResultSubmitBatch outcome \<times> 'w da_client) option" where
  "submitBatchLoop A cfg dataBlob c =
     Option.bind (avail_round A cfg dataBlob c) (\<lambda>(r, c').
       case r of
         Ok res \<Rightarrow> (case res of Some x \<Rightarrow> Some (Ok x, c') | None \<Rightarrow> submitBatchLoop A cfg dataBlob c')
       | Err e \<Rightarrow> Some (Err e, c')
       | Panic p \<Rightarrow> Some (Panic p, c'))"

definition avail_SubmitBatch :: "codec \<Rightarrow> ('w, 'o) avail_api \<Rightarrow> avail_Config \<Rightarrow> Batch \<Rightarrow> 'w da_client \<Rightarrow>
    (ResultSubmitBatch outcome \<times> 'w da_client) option" where
  "avail_SubmitBatch cd A cfg batch c =
     (case Batch_MarshalBinary cd batch of
        Err e \<Rightarrow> Some (Ok submit_error, c)
      | Panic p \<Rightarrow> Some (Panic p, c)
      | Ok blob \<Rightarrow> submitBatchLoop A cfg blob c)"

subsection \<open>Batches in a block\<close>

text \<open>The bytes of an extrinsic that carries a batch.\<close>

definition carries :: "codec \<Rightarrow> avail_extrinsic \<Rightarrow> Batch \<Rightarrow> bool" where
  "carries cd ext b \<longleftrightarrow> sendable cd b \<and> Batch_MarshalBinary cd b = Ok (ex_Args ext) \<and> ex_Args ext \<noteq> []"

lemma decode_carried:
  assumes "codec_ok cd" and "carries cd ext b"
  shows "decode_args cd (ex_Args ext) batches = Some (Ok (batches @ [plain b]))"
proof -
  have "ex_Args ext = enc_Batch cd (Batch_ToProto b)" "Batch_FromProto (Batch_ToProto b) = Ok (plain b)"
    using assms by (auto simp: carries_def sendable_def Batch_MarshalBinary_def Batch_Marshal_enc Batch_FromProto_ToProto)
  moreover from this have "Batch_Unmarshal cd (ex_Args ext) zero_pb_Batch = Ok (Batch_ToProto b)"
      "length (ex_Args ext) = Batch_Size cd (Batch_ToProto b)"
    using assms by (auto simp: carries_def sendable_def Batch_Unmarshal_enc length_enc_Batch)
  moreover have "ex_Args ext \<noteq> []" using assms(2) by (simp add: carries_def)
  ultimately show ?thesis
    by (subst decode_args.simps) (simp add: decode_args.simps [of cd "[]"])
qed

lemma decode_all_carried:
  assumes "codec_ok cd" and "list_all2 (carries cd) (filter (data_submission cfg) exts) bs"
  shows "decode_extrinsics cd cfg (exts @ rest) batches = decode_extrinsics cd cfg rest (batches @ map plain bs)"
  using assms(2)
proof (induction exts arbitrary: bs batches)
  case (Cons ext exts)
  show ?case
  proof (cases "data_submission cfg ext")
    case True
    with Cons.prems obtain b bs' where "bs = b # bs'" "carries cd ext b"
        "list_all2 (carries cd) (filter (data_submission cfg) exts) bs'"
      by (auto simp: list_all2_Cons1)
    with True show ?thesis using decode_carried [OF assms(1)] Cons.IH by simp
  next
    case False
    with Cons show ?thesis by simp
  qed
qed simp

text \<open>
  Retrieving the batches of a block on Avail returns, in order, the batches carried by the data submissions
  of the application, up to the evidence of their blocks; other extrinsics are passed over.
\<close>

lemma avail_retrieves_batches:
  assumes "codec_ok cd" and "av_GetBlockHash A height (dc_world c) = (Ok hash, w1)" and "av_GetBlock A hash w1 = (Ok exts, w2)"
    and "list_all2 (carries cd) (filter (data_submission cfg) exts) bs"
  shows "avail_RetrieveBatches cd A cfg height c =
    Some (Ok \<lparr>rr_Code = StatusSuccess, rr_Message = '''', rr_DAHeight = height, rr_Batches = map (\<lambda>b. Some (plain b)) bs\<rparr>,
      c\<lparr>dc_world := w2\<rparr>)"
  using decode_all_carried [OF assms(1,4), of "[]" "[]"] assms(2,3)
  by (simp add: avail_RetrieveBatches_def on_da_world_def bind_cmd_def)

text \<open>Bytes at which the inner loop stays: they cannot be decoded, or to a batch whose size is zero.\<close>

definition sticks :: "codec \<Rightarrow> bytes \<Rightarrow> bool" where
  "sticks cd dat \<longleftrightarrow> dat \<noteq> [] \<and>
     (case Batch_Unmarshal cd dat zero_pb_Batch of
        Err e \<Rightarrow> True
      | Ok pbBatch \<Rightarrow> is_Ok (Batch_FromProto pbBatch) \<and> Batch_Size cd pbBatch = 0
      | Panic p \<Rightarrow> False)"

lemma decode_args_sticks:
  assumes "sticks cd dat"
  shows "decode_args cd dat batches = None"
proof (rule ccontr)
  assume "decode_args cd dat batches \<noteq> None"
  then obtain y where y: "decode_args cd dat batches = Some y" by blast
  have "\<not> sticks cd dat"
  proof (rule decode_args.raw_induct [OF _ y, of "\<lambda>cd dat bs y. \<not> sticks cd dat"])
    fix loop :: "codec \<Rightarrow> bytes \<Rightarrow> Batch list \<Rightarrow> Batch list outcome option" and cd dat bs y
    assume IH: "\<And>cd dat bs y. loop cd dat bs = Some y \<Longrightarrow> \<not> sticks cd dat"
      and eq: "(if dat = [] then Some (Ok bs)
        else (case Batch_Unmarshal cd dat zero_pb_Batch of
           Ok pbBatch \<Rightarrow>
             (case Batch_FromProto pbBatch of
                Ok batch \<Rightarrow>
                  if Batch_Size cd pbBatch \<le> length dat
                  then loop cd (drop (Batch_Size cd pbBatch) dat) (bs @ [batch])
                  else Some (Panic ''slice bounds out of range'')
              | Err e \<Rightarrow> loop cd dat bs
              | Panic p \<Rightarrow> Some (Panic p))
         | Err e \<Rightarrow> loop cd dat bs
         | Panic p \<Rightarrow> Some (Panic p))) = Some y"
    show "\<not> sticks cd dat"
    proof
      assume st: "sticks cd dat"
      then have "\<exists>bs'. loop cd dat bs' = Some y"
        using eq by (auto simp: sticks_def split: outcome.splits if_splits)
      with IH st show False by blast
    qed
  qed
  with assms show False by simp
qed

text \<open>
  C19: One data submission with the application's id whose bytes cannot be decoded, or decode to an empty batch
  - two bytes that spell out a start height of zero are enough -, keeps every node that retrieves its block in an endless
  loop, whatever else the block holds after it.
\<close>

theorem avail_retrieval_never_returns:
  assumes "codec_ok cd" and "av_GetBlockHash A height (dc_world c) = (Ok hash, w1)"
    and "av_GetBlock A hash w1 = (Ok (exts @ ext # rest), w2)"
    and "list_all2 (carries cd) (filter (data_submission cfg) exts) bs"
    and "data_submission cfg ext" and "sticks cd (ex_Args ext)"
  shows "avail_RetrieveBatches cd A cfg height c = None"
  using decode_all_carried [OF assms(1,4), of "ext # rest" "[]"] decode_args_sticks [OF assms(6)] assms(2,3,5)
  by (simp add: avail_RetrieveBatches_def on_da_world_def bind_cmd_def)

lemma watch_loop_ended: "av_watch A w = (Watch_err None, w1) \<Longrightarrow> watch_loop A w = Some (Ok 0, w1)"
  by (simp add: watch_loop.simps)

text \<open>\<open>retry.Do\<close> runs the function once when it succeeds.\<close>

definition retries_failures :: "('w, 'o) avail_api \<Rightarrow> bool" where
  "retries_failures A \<longleftrightarrow> (\<forall>f x x'. f x = Some (Ok (), x') \<longrightarrow> av_retry A f x = Some (Ok (), x'))"

text \<open>
  A subscription that ends with a nil error while the transaction is not in a block yet counts as a
  success: the batch is reported as submitted at height 0 and the layer as healthy.
\<close>

lemma lost_subscription_counts_as_submitted:
  assumes "Batch_MarshalBinary cd batch = Ok blob" and "retries_failures A" and "av_ctxDone A (dc_world c) = (False, w)"
    and "build_tx A cfg blob w = (Ok ext, w1)" and "av_SubmitAndWatchExtrinsic A ext w1 = (Ok (), w2)"
    and "av_watch A w2 = (Watch_err None, w3)" and "av_Publish A w3 = (Ok (), w4)"
  shows "avail_SubmitBatch cd A cfg batch c =
    Some (Ok \<lparr>rs_Code = StatusSuccess, rs_Message = ''success'', rs_DAHeight = 0\<rparr>,
      c\<lparr>dc_world := w4, dc_published := dc_published c @ [\<lparr>eh_Healthy = True, eh_Error = None\<rparr>]\<rparr>)"
proof -
  have "broadcastTx A cfg blob w = Some (Ok 0, w3)"
    using assms(4,5) watch_loop_ended [OF assms(6)] by (simp add: broadcastTx_def bind_cmd_def failing_def)
  then have "broadcast_attempt A cfg blob (w, 0) = Some (Ok (), w3, 0)"
    by (simp add: broadcast_attempt_def)
  then have "av_retry A (broadcast_attempt A cfg blob) (w, 0) = Some (Ok (), w3, 0)"
    using assms(2) unfolding retries_failures_def by blast
  with assms(1,3,7) show ?thesis
    by (simp add: avail_SubmitBatch_def submitBatchLoop.simps avail_round_def report_submitted_def
        SubmitBatchHealthEventHelper_def bind_cmd_def ret_def)
qed

text \<open>A network with one block, and a subscription that has been closed.\<close>

definition sample_avail :: "avail_extrinsic list \<Rightarrow> (unit, unit) avail_api" where
  "sample_avail exts =
     \<lparr>av_GetMetadataLatest = ret (), av_NewCall = \<lambda>_ _ _. Ok (), av_NewExtrinsic = id, av_GetBlockHash = \<lambda>_. ret [],
      av_GetRuntimeVersionLatest = ret (0, 0), av_KeyringPairFromSecret = \<lambda>_ _. Ok (), av_CreateStorageKey = \<lambda>_ _. Ok (),
      av_GetStorageLatest = \<lambda>_. ret (Some 0), av_Sign = \<lambda>_ _ _. Ok (), av_SubmitAndWatchExtrinsic = \<lambda>_. ret (),
      av_watch = \<lambda>w. (Watch_err None, w), av_GetHeader = \<lambda>_. ret 0, av_GetBlock = \<lambda>_. ret exts, av_retry = \<lambda>f. f,
      av_ctxDone = \<lambda>w. (False, w), av_Publish = ret ()\<rparr>"

definition sample_avail_config :: avail_Config where
  "sample_avail_config = \<lparr>ac_Seed = [], ac_AppID = 1, ac_Tip = 0\<rparr>"

definition sample_extrinsic :: "bytes \<Rightarrow> avail_extrinsic" where
  "sample_extrinsic dat = \<lparr>ex_AppID = 1, ex_SectionIndex = 29, ex_MethodIndex = 1, ex_Args = dat\<rparr>"

lemma sample_extrinsic_data: "data_submission sample_avail_config (sample_extrinsic dat)"
  by (simp add: data_submission_def sample_avail_config_def sample_extrinsic_def)

lemma sample_carries:
  obtains blob where "carries sample_codec (sample_extrinsic blob) sample_batch"
proof -
  have cd: "codec_ok sample_codec" by (simp add: sample_codec_def table_codec_ok)
  have "0 < Batch_Size sample_codec (Batch_ToProto sample_batch)" by code_simp
  moreover obtain blob where "Batch_MarshalBinary sample_codec sample_batch = Ok blob"
      "length blob = Batch_Size sample_codec (Batch_ToProto sample_batch)"
    using cd sample_batch_sendable
    by (auto simp: sendable_def Batch_MarshalBinary_def Batch_Marshal_enc length_enc_Batch)
  ultimately have "carries sample_codec (sample_extrinsic blob) sample_batch"
    using sample_batch_sendable by (auto simp: carries_def sample_extrinsic_def)
  then show ?thesis by (rule that)
qed

theorem avail_retrieval_never_returns_witness:
  "avail_RetrieveBatches sample_codec (sample_avail [sample_extrinsic [8, 0]]) sample_avail_config 5
     \<lparr>dc_world = (), dc_published = []\<rparr> = None"
proof -
  have "sticks sample_codec [8, 0]" by code_simp
  then show ?thesis
    using avail_retrieval_never_returns [of sample_codec "sample_avail [sample_extrinsic [8, 0]]" 5
        "\<lparr>dc_world = (), dc_published = []\<rparr>" "[]" "()" "[]" "sample_extrinsic [8, 0]" "[]" "()" sample_avail_config "[]"]
    by (simp add: sample_avail_def ret_def sample_codec_def table_codec_ok sample_extrinsic_data)
      (simp add: sample_extrinsic_def)
qed

end
