(* ===== verification/DymensionHub.thy ===== *)
theory DymensionHub
  imports Settlement
begin

text \<open>
  The client of the Dymension hub, \<open>src/settlement/dymension/dymension.go\<close>: the message a batch becomes,
  the queries, posting a batch until it is accepted, and the hub's events. The cosmos client and its
  query clients, retry-go and the passing of time are fields of \<open>cosmos\<close>; a query returns a response,
  which may be nil, and an error.
\<close>

subsection \<open>What the client calls\<close>

record BlockDescriptor =
  bd_Height :: u64
  bd_StateRoot :: bytes
  bd_IntermediateStatesRoot :: bytes

record MsgUpdateState =
  mu_Creator :: gostring
  mu_RollappId :: gostring
  mu_StartHeight :: u64
  mu_NumBlocks :: u64
  mu_DAPath :: gostring
  mu_Version :: u64
  mu_BDs :: "BlockDescriptor list"

record StateInfo =
  sx_Index :: u64
  sx_StartHeight :: u64
  sx_NumBlocks :: u64
  sx_DAPath :: gostring

record SequencerInfo =
  sf_DymintPubKey :: bytes
  sf_Proposer :: bool

text \<open>What ends the wait for a submitted batch.\<close>

datatype batch_wait = CtxDone | SubCancelled | BatchEvent | AcceptTimeout

text \<open>\<open>co_retry\<close> runs a function that may set the variable it is given beside the client's world.\<close>

record 'w cosmos =
  co_BroadcastTx :: "gostring \<Rightarrow> MsgUpdateState \<Rightarrow> ('w, u32) cmd"
  co_GetAccount :: "gostring \<Rightarrow> ('w, gostring) cmd"
  co_LatestStateIndex :: "gostring \<Rightarrow> 'w \<Rightarrow> (u64 option \<times> error option) \<times> 'w"
  co_StateInfo :: "gostring \<Rightarrow> u64 \<Rightarrow> 'w \<Rightarrow> (StateInfo option \<times> error option) \<times> 'w"
  co_SequencersByRollapp :: "gostring \<Rightarrow> ('w, SequencerInfo list) cmd"
  co_UnpackAny :: "bytes \<Rightarrow> bytes outcome"
  co_ctxDone :: "'w \<Rightarrow> bool \<times> 'w"
  co_wait :: "('w, batch_wait) cmd"
  co_retry :: "('w \<times> SLResultRetrieveBatch option, unit) cmd \<Rightarrow> ('w \<times> SLResultRetrieveBatch option, unit) cmd"

datatype sl_event =
    HealthStatus bool "error option"
  | NewSettlementBatchAccepted EventDataNewBatchAccepted

record 'w dym_hub =
  dh_world :: 'w
  dh_published :: "sl_event list"

definition on_world :: "('w, 'a) cmd \<Rightarrow> ('w dym_hub, 'a) cmd" where
  "on_world c h = (case c (dh_world h) of (r, w) \<Rightarrow> (r, h\<lparr>dh_world := w\<rparr>))"

definition publish :: "sl_event \<Rightarrow> ('w dym_hub, unit) cmd" where
  "publish e = modify (\<lambda>h. h\<lparr>dh_published := dh_published h @ [e]\<rparr>)"

subsection \<open>Messages\<close>

definition dymRollappVersion :: u64 where "dymRollappVersion = 0"

definition convertBatchToMsgUpdateState :: "'w cosmos \<Rightarrow> sl_Config \<Rightarrow> Batch \<Rightarrow> da_Client \<Rightarrow> ResultSubmitBatch \<Rightarrow>
    ('w, MsgUpdateState) cmd" where
  "convertBatchToMsgUpdateState C cfg batch daClient daResult =
     bind_cmd (co_GetAccount C (cf_DymAccountName cfg)) (\<lambda>addr.
       ret \<lparr>mu_Creator = addr, mu_RollappId = cf_RollappID cfg, mu_StartHeight = ba_StartHeight batch,
            mu_NumBlocks = ba_EndHeight batch - ba_StartHeight batch + 1,
            mu_DAPath = ToPath \<lparr>dm_Height = rs_DAHeight daResult, dm_Client = daClient\<rparr>, mu_Version = dymRollappVersion,
            mu_BDs = map (\<lambda>block. \<lparr>bd_Height = h_Height (b_Header block), bd_StateRoot = h_AppHash (b_Header block),
                                   bd_IntermediateStatesRoot = zero_bytes 32\<rparr>) (ba_Blocks batch)\<rparr>)"

definition convertStateInfoToResultRetrieveBatch :: "StateInfo \<Rightarrow> SLResultRetrieveBatch outcome" where
  "convertStateInfoToResultRetrieveBatch stateInfo =
     bind_out (FromPath (sx_DAPath stateInfo)) (\<lambda>daMetaData.
       Ok \<lparr>sr_Code = StatusSuccess, sr_Message = '''', sr_StateIndex = sx_Index stateInfo,
           sr_Batch = \<lparr>sb_StartHeight = sx_StartHeight stateInfo, sb_EndHeight = sx_StartHeight stateInfo + sx_NumBlocks stateInfo - 1,
                       sb_AppHashes = [], sb_MetaData = daMetaData\<rparr>\<rparr>)"

subsection \<open>Queries\<close>

definition dym_GetBatchAtIndex :: "'w cosmos \<Rightarrow> sl_Config \<Rightarrow> u64 \<Rightarrow> ('w, SLResultRetrieveBatch) cmd" where
  "dym_GetBatchAtIndex C cfg index w =
     (case co_StateInfo C (cf_RollappID cfg) index w of
        ((None, _), w') \<Rightarrow> (Err ErrBatchNotFound, w')
      | ((Some _, Some e), w') \<Rightarrow> (Err e, w')
      | ((Some stateInfo, None), w') \<Rightarrow> (convertStateInfoToResultRetrieveBatch stateInfo, w'))"

definition dym_GetLatestBatch :: "'w cosmos \<Rightarrow> sl_Config \<Rightarrow> ('w, SLResultRetrieveBatch) cmd" where
  "dym_GetLatestBatch C cfg w =
     (case co_LatestStateIndex C (cf_RollappID cfg) w of
        ((None, _), w') \<Rightarrow> (Err ErrBatchNotFound, w')
      | ((Some _, Some e), w') \<Rightarrow> (Err e, w')
      | ((Some index, None), w') \<Rightarrow> dym_GetBatchAtIndex C cfg index w')"

fun sequencers_of :: "'w cosmos \<Rightarrow> SequencerInfo list \<Rightarrow> Sequencer list outcome" where
  "sequencers_of C [] = Ok []"
| "sequencers_of C (s # ss) =
     bind_out (co_UnpackAny C (sf_DymintPubKey s)) (\<lambda>pubKey.
     bind_out (sequencers_of C ss) (\<lambda>l.
       Ok (\<lparr>sq_PublicKey = pubKey, sq_Status = (if sf_Proposer s then Proposer else Inactive)\<rparr> # l)))"

definition dym_GetSequencers :: "'w cosmos \<Rightarrow> sl_Config \<Rightarrow> ('w, Sequencer list) cmd" where
  "dym_GetSequencers C cfg w =
     (case co_SequencersByRollapp C (cf_RollappID cfg) w of
        (Ok l, w') \<Rightarrow> (sequencers_of C l, w')
      | (Err _, w') \<Rightarrow> (Err (Wrapf ''rollappID'' (Errorf ''no sequencer registered on the hub for this rollapp'')), w')
      | (Panic p, w') \<Rightarrow> (Panic p, w'))"

subsection \<open>Posting a batch\<close>

text \<open>One attempt: a response with a code other than zero returns the error of the broadcast, which is nil.\<close>

definition submit_attempt :: "'w cosmos \<Rightarrow> sl_Config \<Rightarrow> MsgUpdateState \<Rightarrow> ('w \<times> SLResultRetrieveBatch option, unit) cmd" where
  "submit_attempt C cfg msg x =
     (case co_BroadcastTx C (cf_DymAccountName cfg) msg (fst x) of
        (Err e, w) \<Rightarrow> (Err e, (w, snd x))
      | (Panic p, w) \<Rightarrow> (Panic p, (w, snd x))
      | (Ok _, w) \<Rightarrow> (Ok (), (w, snd x)))"

definition submitBatch :: "'w cosmos \<Rightarrow> sl_Config \<Rightarrow> MsgUpdateState \<Rightarrow> ('w, unit) cmd" where
  "submitBatch C cfg msg w = (case co_retry C (submit_attempt C cfg msg) (w, None) of (r, (w', _)) \<Rightarrow> (r, w'))"

definition inclusion_attempt :: "'w cosmos \<Rightarrow> sl_Config \<Rightarrow> u64 \<Rightarrow> ('w \<times> SLResultRetrieveBatch option, unit) cmd" where
  "inclusion_attempt C cfg batchStartHeight x =
     (case dym_GetLatestBatch C cfg (fst x) of
        (Err e, w) \<Rightarrow> (Err e, (w, snd x))
      | (Panic p, w) \<Rightarrow> (Panic p, (w, snd x))
      | (Ok latestBatch, w) \<Rightarrow>
          if sb_StartHeight (sr_Batch latestBatch) = batchStartHeight then (Ok (), (w, Some latestBatch))
          else (Err ErrBatchNotFound, (w, snd x)))"

definition waitForBatchInclusion :: "'w cosmos \<Rightarrow> sl_Config \<Rightarrow> u64 \<Rightarrow> ('w, SLResultRetrieveBatch option) cmd" where
  "waitForBatchInclusion C cfg batchStartHeight w =
     (case co_retry C (inclusion_attempt C cfg batchStartHeight) (w, None) of (r, (w', v)) \<Rightarrow> (bind_out r (\<lambda>_. Ok v), w'))"

text \<open>After the timeout: was the batch accepted, and its event missed?\<close>

definition after_timeout :: "'w cosmos \<Rightarrow> sl_Config \<Rightarrow> u64 \<Rightarrow> ('w dym_hub, bool) cmd" where
  "after_timeout C cfg startHeight h =
     (case on_world (waitForBatchInclusion C cfg startHeight) h of
        (Panic p, h') \<Rightarrow> (Panic p, h')
      | (Err e, h') \<Rightarrow>
          bind_cmd (publish (HealthStatus False (Some (Errorf ''batch not accepted'')))) (\<lambda>_. ret False) h'
      | (Ok None, h') \<Rightarrow> (Panic ''nil pointer dereference'', h')
      | (Ok (Some b), h') \<Rightarrow>
          bind_cmd (publish (NewSettlementBatchAccepted
            \<lparr>ev_EndHeight = sb_EndHeight (sr_Batch b), ev_StateIndex = sr_StateIndex b\<rparr>)) (\<lambda>_.
          bind_cmd (publish (HealthStatus True None)) (\<lambda>_. ret True)) h')"

text \<open>One round of the loop; the result says whether it was the last.\<close>

definition post_round :: "'w cosmos \<Rightarrow> sl_Config \<Rightarrow> MsgUpdateState \<Rightarrow> u64 \<Rightarrow> ('w dym_hub, bool) cmd" where
  "post_round C cfg msg startHeight h =
     (case co_ctxDone C (dh_world h) of
        (True, w) \<Rightarrow> (Ok True, h\<lparr>dh_world := w\<rparr>)
      | (False, w) \<Rightarrow>
          (case on_world (submitBatch C cfg msg) (h\<lparr>dh_world := w\<rparr>) of
             (Panic p, h1) \<Rightarrow> (Panic p, h1)
           | (Err e, h1) \<Rightarrow> bind_cmd (publish (HealthStatus False (Some e))) (\<lambda>_. ret False) h1
           | (Ok _, h1) \<Rightarrow>
               bind_cmd (on_world (co_wait C)) (\<lambda>ev.
                 case ev of
                   CtxDone \<Rightarrow> ret True
                 | SubCancelled \<Rightarrow> ret True
                 | BatchEvent \<Rightarrow> bind_cmd (publish (HealthStatus True None)) (\<lambda>_. ret True)
                 | AcceptTimeout \<Rightarrow> after_timeout C cfg startHeight) h1))"

partial_function (option) post_loop ::
  "'w cosmos \<Rightarrow> sl_Config \<Rightarrow> MsgUpdateState \<Rightarrow> u64 \<Rightarrow> 'w dym_hub \<Rightarrow> (unit outcome \<times> 'w dym_hub) option" where
  "post_loop C cfg msg startHeight h =
     (case post_round C cfg msg startHeight h of
        (Ok fin, h') \<Rightarrow> if fin then Some (Ok (), h') else post_loop C cfg msg startHeight h'
      | (Err e, h') \<Rightarrow> Some (Err e, h')
      | (Panic p, h') \<Rightarrow> Some (Panic p, h'))"

text \<open>\<open>sub\<close> is the outcome of the subscription to the acceptance of batches.\<close>

definition dym_PostBatch :: "'w cosmos \<Rightarrow> sl_Config \<Rightarrow> unit outcome \<Rightarrow> Batch \<Rightarrow> da_Client \<Rightarrow> ResultSubmitBatch \<Rightarrow>
    'w dym_hub \<Rightarrow> (unit outcome \<times> 'w dym_hub) option" where
  "dym_PostBatch C cfg sub batch daClient daResult h =
     (case on_world (convertBatchToMsgUpdateState C cfg batch daClient daResult) h of
        (Ok msgUpdateState, h1) \<Rightarrow>
          (case sub of
             Ok _ \<Rightarrow> post_loop C cfg msgUpdateState (ba_StartHeight batch) h1
           | _ \<Rightarrow> Some (Panic ''failed to subscribe'', h1))
      | (_, h1) \<Rightarrow> Some (Panic ''failed to convert'', h1))"

subsection \<open>Events of the hub\<close>

definition num_blocks_key :: gostring where
  "num_blocks_key = map (\<lambda>c. of_char c) ''state_update.num_blocks''"

definition start_height_key :: gostring where
  "start_height_key = map (\<lambda>c. of_char c) ''state_update.start_height''"

definition state_info_index_key :: gostring where
  "state_info_index_key = map (\<lambda>c. of_char c) ''state_update.state_info_index''"

text \<open>The first value of a key; a key that is missing or has no value panics.\<close>

definition first_value :: "(gostring \<rightharpoonup> gostring list) \<Rightarrow> gostring \<Rightarrow> gostring outcome" where
  "first_value events key =
     (case events key of Some (v # _) \<Rightarrow> Ok v | _ \<Rightarrow> Panic ''index out of range'')"

primrec parse_errs :: "int outcome \<Rightarrow> error list" where
  "parse_errs (Ok n) = []"
| "parse_errs (Err e) = [e]"
| "parse_errs (Panic p) = []"

primrec parsed :: "int outcome \<Rightarrow> int" where
  "parsed (Ok n) = n"
| "parsed (Err e) = 0"
| "parsed (Panic p) = 0"

definition convertToNewBatchEvent :: "(gostring \<rightharpoonup> gostring list) \<Rightarrow> EventDataNewBatchAccepted outcome" where
  "convertToNewBatchEvent events =
     bind_out (first_value events num_blocks_key) (\<lambda>v1.
     bind_out (first_value events start_height_key) (\<lambda>v2.
     bind_out (first_value events state_info_index_key) (\<lambda>v3.
       let numBlocks = ParseInt v1; startHeight = ParseInt v2; stateIndex = ParseInt v3;
           errs = parse_errs numBlocks @ parse_errs startHeight @ parse_errs stateIndex
       in if errs \<noteq> [] then Err (ErrMulti errs)
          else Ok \<lparr>ev_EndHeight = uint64_of (i64 (parsed startHeight + parsed numBlocks - 1)),
                   ev_StateIndex = uint64_of (parsed stateIndex)\<rparr>)))"

text \<open>
  The query an event came for. The map of the client knows the first two; of these only updates of the
  state can be converted.
\<close>

datatype hub_query = StateUpdate | SequencersListUpdate | OtherQuery

definition getEventData :: "hub_query \<Rightarrow> (gostring \<rightharpoonup> gostring list) \<Rightarrow> EventDataNewBatchAccepted outcome" where
  "getEventData query events =
     (if query = StateUpdate then convertToNewBatchEvent events else Err (Errorf ''event type not recognized''))"

definition eventHandler :: "hub_query \<Rightarrow> (gostring \<rightharpoonup> gostring list) \<Rightarrow> ('w dym_hub, unit) cmd" where
  "eventHandler query events h =
     (if query = OtherQuery then (Ok (), h)
      else
        case getEventData query events of
          Ok ev \<Rightarrow> publish (NewSettlementBatchAccepted ev) h
        | Err _ \<Rightarrow> (Panic ''invalid event'', h)
        | Panic p \<Rightarrow> (Panic p, h))"

subsection \<open>The hub client\<close>

text \<open>A post that never returns has no outcome; as an operation of the interface it stands as a panic.\<close>

definition dym_ops :: "'w cosmos \<Rightarrow> sl_Config \<Rightarrow> 'w dym_hub hub_ops" where
  "dym_ops C cfg =
     \<lparr>hub_PostBatch = (\<lambda>batch daClient daResult h.
        case dym_PostBatch C cfg (Ok ()) batch daClient daResult h of None \<Rightarrow> (Panic ''does not return'', h) | Some x \<Rightarrow> x),
      hub_GetLatestBatch = (\<lambda>_. on_world (dym_GetLatestBatch C cfg)),
      hub_GetBatchAtIndex = (\<lambda>_ index. on_world (dym_GetBatchAtIndex C cfg index)),
      hub_GetSequencers = (\<lambda>_. on_world (dym_GetSequencers C cfg))\<rparr>"

subsection \<open>Retrying\<close>

text \<open>
  What retry-go documents: the function runs until it succeeds, an attempt that fails is either the last,
  and an error is returned, or is followed by another; the end of the context is an error at any time.
\<close>

inductive retried :: "('s, unit) cmd \<Rightarrow> 's \<Rightarrow> unit outcome \<Rightarrow> 's \<Rightarrow> bool" for act where
  success: "act s = (Ok (), s') \<Longrightarrow> retried act s (Ok ()) s'"
| panics: "act s = (Panic p, s') \<Longrightarrow> retried act s (Panic p) s'"
| gives_up: "act s = (Err e, s') \<Longrightarrow> retried act s (Err e') s'"
| again: "act s = (Err e, s1) \<Longrightarrow> retried act s1 r s' \<Longrightarrow> retried act s r s'"
| context_done: "retried act s (Err e) s"

definition retry_ok :: "'w cosmos \<Rightarrow> bool" where
  "retry_ok C \<longleftrightarrow> (\<forall>act s. retried act s (fst (co_retry C act s)) (snd (co_retry C act s)))"

lemma inclusion_found:
  assumes "retried (inclusion_attempt C cfg h) x r x'"
  shows "r = Ok () \<Longrightarrow> \<exists>b. snd x' = Some b \<and> sb_StartHeight (sr_Batch b) = h"
  using assms
proof (induction rule: retried.induct)
  case (success s s')
  then show ?case
    by (auto simp: inclusion_attempt_def split: outcome.splits prod.splits if_splits)
qed auto

lemma waitForBatchInclusion_found:
  assumes "retry_ok C" and "waitForBatchInclusion C cfg startHeight w = (Ok v, w')"
  shows "\<exists>b. v = Some b \<and> sb_StartHeight (sr_Batch b) = startHeight"
proof -
  let ?x = "co_retry C (inclusion_attempt C cfg startHeight) (w, None)"
  have "retried (inclusion_attempt C cfg startHeight) (w, None) (fst ?x) (snd ?x)"
    using assms(1) by (simp add: retry_ok_def)
  from inclusion_found [OF this] assms(2) show ?thesis
    by (cases ?x; cases "fst ?x") (auto simp: waitForBatchInclusion_def)
qed

subsection \<open>Rounds\<close>

text \<open>\<open>n\<close> rounds that go on.\<close>

fun rounds :: "'w cosmos \<Rightarrow> sl_Config \<Rightarrow> MsgUpdateState \<Rightarrow> u64 \<Rightarrow> nat \<Rightarrow> 'w dym_hub \<Rightarrow> 'w dym_hub option" where
  "rounds C cfg msg startHeight 0 h = Some h"
| "rounds C cfg msg startHeight (Suc n) h =
     (case post_round C cfg msg startHeight h of
        (Ok False, h1) \<Rightarrow> rounds C cfg msg startHeight n h1
      | _ \<Rightarrow> None)"

fun unhealthy :: "sl_event \<Rightarrow> bool" where
  "unhealthy (HealthStatus False (Some e)) = True"
| "unhealthy _ = False"

definition final_events :: "u64 \<Rightarrow> sl_event list \<Rightarrow> bool" where
  "final_events startHeight es \<longleftrightarrow>
     es = [] \<or> es = [HealthStatus True None] \<or>
     (\<exists>b :: SLResultRetrieveBatch. sb_StartHeight (sr_Batch b) = startHeight \<and>
        es = [NewSettlementBatchAccepted \<lparr>ev_EndHeight = sb_EndHeight (sr_Batch b), ev_StateIndex = sr_StateIndex b\<rparr>,
              HealthStatus True None])"

lemma after_timeout_run:
  assumes "retry_ok C" and "after_timeout C cfg startHeight h = (Ok fin, h')"
  shows "if fin then \<exists>es. dh_published h' = dh_published h @ es \<and> final_events startHeight es
    else \<exists>e. dh_published h' = dh_published h @ [e] \<and> unhealthy e"
proof -
  obtain r w where run: "waitForBatchInclusion C cfg startHeight (dh_world h) = (r, w)" by fastforce
  show ?thesis
  proof (cases r)
    case (Ok v)
    then obtain b where "v = Some b" "sb_StartHeight (sr_Batch b) = startHeight"
      using waitForBatchInclusion_found [OF assms(1)] run by blast
    with assms(2) run Ok show ?thesis
      by (auto simp: after_timeout_def on_world_def publish_def bind_cmd_def ret_def modify_def final_events_def)
  qed (use assms(2) run in \<open>auto simp: after_timeout_def on_world_def publish_def bind_cmd_def ret_def modify_def\<close>)
qed

lemma post_round_run:
  assumes "retry_ok C" and "post_round C cfg msg startHeight h = (Ok fin, h')"
  shows "if fin then \<exists>es. dh_published h' = dh_published h @ es \<and> final_events startHeight es
    else \<exists>e. dh_published h' = dh_published h @ [e] \<and> unhealthy e"
proof -
  obtain d w where d: "co_ctxDone C (dh_world h) = (d, w)" by fastforce
  obtain r w1 where sub: "submitBatch C cfg msg w = (r, w1)" by fastforce
  obtain ev w2 where wait: "co_wait C w1 = (ev, w2)" by fastforce
  have final: "final_events startHeight []" "final_events startHeight [HealthStatus True None]"
    by (simp_all add: final_events_def)
  show ?thesis
  proof (cases "d \<or> r \<noteq> Ok () \<or> ev \<noteq> Ok AcceptTimeout")
    case True
    with assms(2) d sub wait final show ?thesis
      by (cases d; cases r; cases ev)
        (auto simp: post_round_def on_world_def publish_def bind_cmd_def ret_def modify_def split: batch_wait.splits)
  next
    case False
    then have "after_timeout C cfg startHeight (h\<lparr>dh_world := w2\<rparr>) = (Ok fin, h')"
      using assms(2) d sub wait by (simp add: post_round_def on_world_def bind_cmd_def)
    from after_timeout_run [OF assms(1) this] show ?thesis by (cases fin) simp_all
  qed
qed

lemma rounds_run:
  assumes "retry_ok C" and "rounds C cfg msg startHeight n h = Some h1"
  shows "\<exists>bad. dh_published h1 = dh_published h @ bad \<and> length bad = n \<and> list_all unhealthy bad"
  using assms(2)
proof (induction n arbitrary: h)
  case 0
  then show ?case by simp
next
  case (Suc n)
  then obtain h2 where h2: "post_round C cfg msg startHeight h = (Ok False, h2)" "rounds C cfg msg startHeight n h2 = Some h1"
    by (auto split: prod.splits outcome.splits bool.splits)
  obtain e where e: "dh_published h2 = dh_published h @ [e]" "unhealthy e"
    using post_round_run [OF assms(1) h2(1)] by auto
  obtain bad where "dh_published h1 = dh_published h2 @ bad" "length bad = n" "list_all unhealthy bad"
    using Suc.IH [OF h2(2)] by blast
  with e show ?case by (intro exI [of _ "e # bad"]) simp
qed

lemma post_loop_rounds:
  "rounds C cfg msg startHeight n h = Some h1 \<Longrightarrow> post_round C cfg msg startHeight h1 = (Ok True, h') \<Longrightarrow>
   post_loop C cfg msg startHeight h = Some (Ok (), h')"
proof (induction n arbitrary: h)
  case 0
  then show ?case by (simp add: post_loop.simps)
next
  case (Suc n)
  then show ?case
    by (subst post_loop.simps) (auto split: prod.splits outcome.splits bool.splits)
qed

subsection \<open>Properties\<close>


definition sample_cosmos :: "nat cosmos" where
  "sample_cosmos =
     \<lparr>co_BroadcastTx = (\<lambda>_ _ w. (if w = 0 then Err (Errorf ''unreachable'') else Ok 0, Suc w)),
      co_GetAccount = (\<lambda>_ w. (Ok [0x64], w)),
      co_LatestStateIndex = (\<lambda>_ w. ((Some 1, None), w)),
      co_StateInfo = (\<lambda>_ _ w. ((Some \<lparr>sx_Index = 1, sx_StartHeight = 1, sx_NumBlocks = 3, sx_DAPath = [0x6d, dot, 0x35]\<rparr>, None), w)),
      co_SequencersByRollapp = (\<lambda>_ w. (Ok [], w)), co_UnpackAny = Ok, co_ctxDone = (\<lambda>w. (False, w)),
      co_wait = (\<lambda>w. (Ok AcceptTimeout, w)), co_retry = (\<lambda>act. act)\<rparr>"

lemma sample_retry_ok: "retry_ok sample_cosmos"
  unfolding retry_ok_def
proof (intro allI)
  fix act :: "(nat \<times> SLResultRetrieveBatch option, unit) cmd" and s
  obtain r s' where "act s = (r, s')" by (cases "act s")
  then show "retried act s (fst (co_retry sample_cosmos act s)) (snd (co_retry sample_cosmos act s))"
    by (cases r) (auto simp: sample_cosmos_def intro: retried.intros)
qed


text \<open>
  C11: When the hub records the message of a batch under an index - its start height, its number of blocks
  and its path - the batch retrieved under that index has the heights of the batch and the height and
  client of the data availability layer it was submitted with.
\<close>

theorem posted_batch_retrieved:
  assumes "convertBatchToMsgUpdateState C cfg batch daClient daResult w = (Ok msg, w1)"
    and "co_StateInfo C (cf_RollappID cfg) index w1 =
      ((Some \<lparr>sx_Index = index, sx_StartHeight = mu_StartHeight msg, sx_NumBlocks = mu_NumBlocks msg, sx_DAPath = mu_DAPath msg\<rparr>, None), w2)"
    and "daClient \<noteq> []" and "dot \<notin> set daClient"
  shows "dym_GetBatchAtIndex C cfg index w1 =
    (Ok \<lparr>sr_Code = StatusSuccess, sr_Message = '''', sr_StateIndex = index,
        sr_Batch = \<lparr>sb_StartHeight = ba_StartHeight batch, sb_EndHeight = ba_EndHeight batch, sb_AppHashes = [],
          sb_MetaData = \<lparr>dm_Height = rs_DAHeight daResult, dm_Client = daClient\<rparr>\<rparr>\<rparr>, w2)"
proof -
  have "mu_StartHeight msg = ba_StartHeight batch" "mu_NumBlocks msg = ba_EndHeight batch - ba_StartHeight batch + 1"
    "mu_DAPath msg = ToPath \<lparr>dm_Height = rs_DAHeight daResult, dm_Client = daClient\<rparr>"
    using assms(1) by (auto simp: convertBatchToMsgUpdateState_def bind_cmd_def ret_def split: prod.splits outcome.splits)
  moreover have "FromPath (ToPath \<lparr>dm_Height = rs_DAHeight daResult, dm_Client = daClient\<rparr>) =
      Ok \<lparr>dm_Height = rs_DAHeight daResult, dm_Client = daClient\<rparr>"
    by (rule da_path_round_trip) (use assms(3,4) in simp_all)
  ultimately show ?thesis
    using assms(2) by (simp add: dym_GetBatchAtIndex_def convertStateInfoToResultRetrieveBatch_def)
qed

theorem posted_batch_retrieved_witness:
  "\<exists>b. dym_GetBatchAtIndex sample_cosmos sample_sl_config 1 0 = (Ok b, 0) \<and> sb_EndHeight (sr_Batch b) = 3"
proof -
  let ?batch = "\<lparr>ba_StartHeight = 1, ba_EndHeight = 3, ba_Blocks = [], ba_Commits = []\<rparr>"
  let ?res = "\<lparr>rs_Code = StatusSuccess, rs_Message = '''', rs_DAHeight = 5\<rparr>"
  have path: "ToPath \<lparr>dm_Height = 5, dm_Client = [0x6d]\<rparr> = [0x6d, dot, 0x35]"
    by (simp add: ToPath_def FormatUint_def digits.simps)
  let ?msg = "\<lparr>mu_Creator = [0x64], mu_RollappId = [0x72], mu_StartHeight = 1, mu_NumBlocks = 3, mu_DAPath = [0x6d, dot, 0x35],
    mu_Version = 0, mu_BDs = []\<rparr>"
  have "convertBatchToMsgUpdateState sample_cosmos sample_sl_config ?batch [0x6d] ?res 0 = (Ok ?msg, 0)"
    by (simp add: convertBatchToMsgUpdateState_def sample_cosmos_def bind_cmd_def ret_def sample_sl_config_def dymRollappVersion_def path)
  moreover have "co_StateInfo sample_cosmos (cf_RollappID sample_sl_config) 1 0 =
      ((Some \<lparr>sx_Index = 1, sx_StartHeight = mu_StartHeight ?msg, sx_NumBlocks = mu_NumBlocks ?msg, sx_DAPath = mu_DAPath ?msg\<rparr>, None), 0)"
    by (simp add: sample_cosmos_def)
  ultimately show ?thesis
    using posted_batch_retrieved [of sample_cosmos sample_sl_config ?batch "[0x6d]" ?res 0 ?msg 0 1 0]
    by (simp add: dot_def)
qed

text \<open>
  C12: A hub that does not answer reads as a hub without batches: when the query for the latest batch fails
  with any error and no response, starting the client succeeds with height 0, and the next batch of a
  chain that has settled batches before is refused with a panic.
\<close>

theorem query_failure_reads_as_no_batch:
  assumes "co_LatestStateIndex C (cf_RollappID cfg) w = ((None, Some e), w1)"
    and "co_SequencersByRollapp C (cf_RollappID cfg) w1 = (Ok l, w2)" and "sequencers_of C l = Ok sequencers"
  shows "\<exists>b. base_Init (dym_ops C cfg) cfg \<lparr>dh_world = w, dh_published = es\<rparr> = (Ok (), b) \<and> bl_latestHeight b = 0 \<and>
    (\<forall>batch daClient daResult. ba_StartHeight batch \<noteq> 1 \<longrightarrow>
       fst (base_SubmitBatch (dym_ops C cfg) batch daClient daResult b) = Panic ''invalid batch'')"
  using assms
  by (simp add: base_Init_def Let_def base_RetrieveBatch_def on_client_def dym_ops_def on_world_def dym_GetLatestBatch_def
      bind_cmd_def modify_def fetchSequencersList_def dym_GetSequencers_def base_SubmitBatch_def validateBatch_def)

theorem query_failure_reads_as_no_batch_witness:
  "\<exists>b. base_Init (dym_ops (sample_cosmos\<lparr>co_LatestStateIndex := \<lambda>_ w. ((None, Some (Errorf ''unreachable'')), w)\<rparr>) sample_sl_config)
      sample_sl_config \<lparr>dh_world = 0, dh_published = []\<rparr> = (Ok (), b) \<and> bl_latestHeight b = 0"
proof -
  let ?C = "sample_cosmos\<lparr>co_LatestStateIndex := \<lambda>_ w. ((None, Some (Errorf ''unreachable'')), w)\<rparr>"
  have "co_LatestStateIndex ?C (cf_RollappID sample_sl_config) 0 = ((None, Some (Errorf ''unreachable'')), 0)"
    "co_SequencersByRollapp ?C (cf_RollappID sample_sl_config) 0 = (Ok [], 0)" "sequencers_of ?C [] = Ok []"
    by (simp_all add: sample_cosmos_def)
  from query_failure_reads_as_no_batch [OF this, of "[]"] show ?thesis by blast
qed

end
