(* ===== verification/NodeHealth.thy ===== *)
theory NodeHealth
  imports DymensionHub Celestia
begin

text \<open>
  The life cycle of a node and its view of the health of its base layers (\<open>src/node/node.go\<close>,
  \<open>src/node/events/node.go\<close>): what the settlement and data availability clients report becomes the event that
  switches block production. The services that are started and stopped, and the pubsub server, are parameters;
  the metrics server is left out.
\<close>

subsection \<open>State and events\<close>

record BaseLayersHealthStatus =
  hs_settlementHealthy :: bool
  hs_daHealthy :: bool

record EventDataHealthStatus =
  en_Healthy :: bool
  en_Error :: "error option"

record 'w node_state =
  no_health :: BaseLayersHealthStatus
  no_published :: "EventDataHealthStatus list"
  no_world :: 'w

text \<open>The data of a message on the pubsub server.\<close>

datatype layer_message = SettlementMessage sl_event | DAMessage EventDataDAHealthStatus

definition setSettlementHealth :: "bool \<Rightarrow> BaseLayersHealthStatus \<Rightarrow> BaseLayersHealthStatus" where
  "setSettlementHealth isHealthy s = s\<lparr>hs_settlementHealthy := isHealthy\<rparr>"

definition setDAHealth :: "bool \<Rightarrow> BaseLayersHealthStatus \<Rightarrow> BaseLayersHealthStatus" where
  "setDAHealth isHealthy s = s\<lparr>hs_daHealthy := isHealthy\<rparr>"

definition health_get :: "BaseLayersHealthStatus \<Rightarrow> bool \<times> bool" where
  "health_get s = (hs_settlementHealthy s, hs_daHealthy s)"

definition publish_or_panic :: "('w, unit) cmd \<Rightarrow> EventDataHealthStatus \<Rightarrow> ('w node_state, unit) cmd" where
  "publish_or_panic pub e n =
     (case pub (no_world n) of
        (Ok _, w) \<Rightarrow> (Ok (), n\<lparr>no_published := no_published n @ [e], no_world := w\<rparr>)
      | (Err _, w) \<Rightarrow> (Panic ''publish'', n\<lparr>no_world := w\<rparr>)
      | (Panic p, w) \<Rightarrow> (Panic p, n\<lparr>no_world := w\<rparr>))"

text \<open>The two values are taken in the other order, which makes no difference.\<close>

definition healthStatusHandler :: "('w, unit) cmd \<Rightarrow> error option \<Rightarrow> ('w node_state, unit) cmd" where
  "healthStatusHandler pub e n =
     (let (daHealthy, settlementHealthy) = health_get (no_health n) in
      if daHealthy \<and> settlementHealthy then publish_or_panic pub \<lparr>en_Healthy = True, en_Error = None\<rparr> n
      else (case e of
              Some err \<Rightarrow> publish_or_panic pub \<lparr>en_Healthy = False, en_Error = Some err\<rparr> n
            | None \<Rightarrow> (Ok (), n)))"

primrec node_healthStatusEventCallback :: "('w, unit) cmd \<Rightarrow> layer_message \<Rightarrow> ('w node_state, unit) cmd" where
  "node_healthStatusEventCallback pub (SettlementMessage m) =
     (case m of
        HealthStatus healthy e \<Rightarrow> (\<lambda>n. healthStatusHandler pub e (n\<lparr>no_health := setSettlementHealth healthy (no_health n)\<rparr>))
      | NewSettlementBatchAccepted _ \<Rightarrow> ret ())"
| "node_healthStatusEventCallback pub (DAMessage m) =
     (\<lambda>n. healthStatusHandler pub (eh_Error m) (n\<lparr>no_health := setDAHealth (eh_Healthy m) (no_health n)\<rparr>))"

text \<open>Messages in the order in which they are handled.\<close>

fun handle_messages :: "('w, unit) cmd \<Rightarrow> layer_message list \<Rightarrow> ('w node_state, unit) cmd" where
  "handle_messages pub [] = ret ()"
| "handle_messages pub (m # ms) = bind_cmd (node_healthStatusEventCallback pub m) (\<lambda>_. handle_messages pub ms)"

subsection \<open>Start and stop\<close>

record 'w node_services =
  sv_P2P_Start :: "('w, unit) cmd"
  sv_pubsub_Start :: "('w, unit) cmd"
  sv_dalc_Start :: "('w, unit) cmd"
  sv_settlement_Start :: "('w, unit) cmd"
  sv_blockManager_Start :: "bool \<Rightarrow> ('w, unit) cmd"
  sv_dalc_Stop :: "('w, unit) cmd"
  sv_settlement_Stop :: "('w, unit) cmd"
  sv_P2P_Close :: "('w, unit) cmd"

definition starting :: "string \<Rightarrow> ('w, unit) cmd \<Rightarrow> ('w node_state, unit) cmd" where
  "starting what act n = (case act (no_world n) of (r, w) \<Rightarrow> (wrap_err what r, n\<lparr>no_world := w\<rparr>))"

definition OnStart :: "'w node_services \<Rightarrow> bool \<Rightarrow> ('w node_state, unit) cmd" where
  "OnStart V aggregator =
     bind_cmd (starting ''error while starting P2P client'' (sv_P2P_Start V)) (\<lambda>_.
     bind_cmd (starting ''error while starting pubsub server'' (sv_pubsub_Start V)) (\<lambda>_.
     bind_cmd (starting ''error while starting data availability layer client'' (sv_dalc_Start V)) (\<lambda>_.
     bind_cmd (starting ''error while starting settlement layer client'' (sv_settlement_Start V)) (\<lambda>_.
     bind_cmd (modify (\<lambda>n. n\<lparr>no_health := \<lparr>hs_settlementHealthy = True, hs_daHealthy = True\<rparr>\<rparr>)) (\<lambda>_.
       starting ''error while starting block manager'' (sv_blockManager_Start V aggregator))))))"

text \<open>Errors of stopping are logged.\<close>

definition stopping :: "('w, unit) cmd \<Rightarrow> ('w, unit) cmd" where
  "stopping act w = (case act w of (Panic p, w') \<Rightarrow> (Panic p, w') | (_, w') \<Rightarrow> (Ok (), w'))"

definition OnStop :: "'w node_services \<Rightarrow> ('w, unit) cmd" where
  "OnStop V =
     bind_cmd (stopping (sv_dalc_Stop V)) (\<lambda>_.
     bind_cmd (stopping (sv_settlement_Stop V)) (\<lambda>_. stopping (sv_P2P_Close V)))"

subsection \<open>The node follows its layers\<close>

text \<open>What the clients report: an error exactly when they are not healthy.\<close>

primrec tells_health :: "layer_message \<Rightarrow> bool" where
  "tells_health (SettlementMessage m) = (case m of HealthStatus healthy e \<Rightarrow> healthy = (e = None) | _ \<Rightarrow> True)"
| "tells_health (DAMessage m) = (eh_Healthy m = (eh_Error m = None))"

text \<open>The last report of each layer, from the states before.\<close>

fun last_reports :: "layer_message list \<Rightarrow> bool \<times> bool \<Rightarrow> bool \<times> bool" where
  "last_reports [] hs = hs"
| "last_reports (SettlementMessage (HealthStatus healthy e) # ms) (s, d) = last_reports ms (healthy, d)"
| "last_reports (SettlementMessage (NewSettlementBatchAccepted ev) # ms) hs = last_reports ms hs"
| "last_reports (DAMessage m # ms) (s, d) = last_reports ms (s, eh_Healthy m)"

text \<open>What the node said last agrees with the states of the layers; it starts as healthy.\<close>

definition said_health :: "'w node_state \<Rightarrow> bool" where
  "said_health n = (if no_published n = [] then True else en_Healthy (last (no_published n)))"

definition health_agrees :: "'w node_state \<Rightarrow> bool" where
  "health_agrees n \<longleftrightarrow> said_health n = (hs_settlementHealthy (no_health n) \<and> hs_daHealthy (no_health n))"

lemma handler_agrees:
  assumes "\<forall>w. \<exists>w'. pub w = (Ok (), w')"
    and "hs_settlementHealthy (no_health n) \<and> hs_daHealthy (no_health n) \<or> e \<noteq> None \<or> \<not> said_health n"
  shows "\<exists>n'. healthStatusHandler pub e n = (Ok (), n') \<and> health_agrees n' \<and> no_health n' = no_health n"
proof -
  obtain w' where w: "pub (no_world n) = (Ok (), w')" using assms(1) by blast
  show ?thesis
  proof (cases "hs_settlementHealthy (no_health n) \<and> hs_daHealthy (no_health n)")
    case True
    with w show ?thesis
      by (simp add: healthStatusHandler_def health_get_def publish_or_panic_def health_agrees_def said_health_def)
  next
    case False
    with w assms(2) show ?thesis
      by (cases e) (auto simp: healthStatusHandler_def health_get_def publish_or_panic_def health_agrees_def said_health_def)
  qed
qed

lemma callback_agrees:
  assumes "\<forall>w. \<exists>w'. pub w = (Ok (), w')" and "tells_health m" and "health_agrees n"
  shows "\<exists>n'. node_healthStatusEventCallback pub m n = (Ok (), n') \<and> health_agrees n' \<and>
    health_get (no_health n') = last_reports [m] (health_get (no_health n))"
proof (cases m)
  case (SettlementMessage ev)
  show ?thesis
  proof (cases ev)
    case (HealthStatus healthy e)
    let ?n = "n\<lparr>no_health := setSettlementHealth healthy (no_health n)\<rparr>"
    have "hs_settlementHealthy (no_health ?n) \<and> hs_daHealthy (no_health ?n) \<or> e \<noteq> None \<or> \<not> said_health ?n"
      using assms(2,3) SettlementMessage HealthStatus by (auto simp: health_agrees_def said_health_def setSettlementHealth_def split: if_splits)
    from handler_agrees [OF assms(1) this] show ?thesis
      using SettlementMessage HealthStatus by (auto simp: health_get_def setSettlementHealth_def)
  next
    case (NewSettlementBatchAccepted x)
    with SettlementMessage assms(3) show ?thesis by (simp add: ret_def)
  qed
next
  case (DAMessage ev)
  let ?n = "n\<lparr>no_health := setDAHealth (eh_Healthy ev) (no_health n)\<rparr>"
  have "hs_settlementHealthy (no_health ?n) \<and> hs_daHealthy (no_health ?n) \<or> eh_Error ev \<noteq> None \<or> \<not> said_health ?n"
    using assms(2,3) DAMessage by (auto simp: health_agrees_def said_health_def setDAHealth_def split: if_splits)
  from handler_agrees [OF assms(1) this] show ?thesis
    using DAMessage by (auto simp: health_get_def setDAHealth_def)
qed

lemma last_reports_Cons: "last_reports (m # ms) hs = last_reports ms (last_reports [m] hs)"
  by (cases "(m # ms, hs)" rule: last_reports.cases) auto

lemma handle_messages_agree:
  assumes "\<forall>w. \<exists>w'. pub w = (Ok (), w')" and "list_all tells_health ms" and "health_agrees n"
  shows "\<exists>n'. handle_messages pub ms n = (Ok (), n') \<and> health_agrees n' \<and>
    health_get (no_health n') = last_reports ms (health_get (no_health n))"
  using assms(2,3)
proof (induction ms arbitrary: n)
  case (Cons m ms)
  obtain n1 where n1: "node_healthStatusEventCallback pub m n = (Ok (), n1)" "health_agrees n1"
      "health_get (no_health n1) = last_reports [m] (health_get (no_health n))"
    using callback_agrees [OF assms(1) _ Cons.prems(2)] Cons.prems(1) by auto
  obtain n' where "handle_messages pub ms n1 = (Ok (), n')" "health_agrees n'"
      "health_get (no_health n') = last_reports ms (health_get (no_health n1))"
    using Cons.IH [OF _ n1(2)] Cons.prems(1) by auto
  with n1 show ?case by (auto simp: bind_cmd_def last_reports_Cons [of m ms])
qed (simp add: ret_def)



end
