(* ===== verification/Configuration.thy ===== *)
theory Configuration
  imports Settlement "HOL-Library.Sublist"
begin

text \<open>
  The configuration of a node: its validation (\<open>src/config/config.go\<close>), its translation from tendermint's
  (\<open>src/conv\<close>), and what the P2P client makes of its part of it (\<open>src/p2p/client.go\<close>). The multiaddress library
  and libp2p's keys are parameters. Reading files and flags is not modelled.
\<close>

subsection \<open>\<open>config.go\<close>\<close>

record BlockManagerConfig =
  bc_BlockTime :: int
  bc_EmptyBlocksMaxTime :: int
  bc_BatchSubmitMaxTime :: int
  bc_NamespaceID :: gostring
  bc_BlockBatchSize :: u64
  bc_BlockBatchMaxSizeBytes :: u64

record P2PConfig =
  pc_ListenAddress :: gostring
  pc_Seeds :: gostring

record RPCConfig =
  rg_ListenAddress :: gostring
  rg_CORSAllowedOrigins :: "gostring list"
  rg_CORSAllowedMethods :: "gostring list"
  rg_CORSAllowedHeaders :: "gostring list"
  rg_MaxOpenConnections :: int
  rg_TLSCertFile :: gostring
  rg_TLSKeyFile :: gostring

record NodeConfig =
  nc_RootDir :: gostring
  nc_DBPath :: gostring
  nc_P2P :: P2PConfig
  nc_RPC :: RPCConfig
  nc_Aggregator :: bool
  nc_BlockManagerConfig :: BlockManagerConfig
  nc_DALayer :: gostring
  nc_DAConfig :: gostring
  nc_SettlementLayer :: gostring
  nc_SettlementConfig :: sl_Config

definition BlockManagerConfig_Validate :: "BlockManagerConfig \<Rightarrow> unit outcome" where
  "BlockManagerConfig_Validate c =
     (if bc_BlockTime c \<le> 0 then Err (Errorf ''block_time must be positive'')
      else if bc_EmptyBlocksMaxTime c < 0 then Err (Errorf ''empty_blocks_max_time must be positive or zero to disable'')
      else if bc_BatchSubmitMaxTime c \<le> 0 then Err (Errorf ''batch_submit_max_time must be positive'')
      else if bc_EmptyBlocksMaxTime c \<noteq> 0 \<and> bc_EmptyBlocksMaxTime c \<le> bc_BlockTime c
      then Err (Errorf ''empty_blocks_max_time must be greater than block_time'')
      else if bc_BatchSubmitMaxTime c < bc_BlockTime c then Err (Errorf ''batch_submit_max_time must be greater than block_time'')
      else if bc_BlockBatchSize c \<le> 0 then Err (Errorf ''block_batch_size must be positive'')
      else if bc_BlockBatchMaxSizeBytes c \<le> 0 then Err (Errorf ''block_batch_size_bytes must be positive'')
      else Ok ())"

definition NodeConfig_Validate :: "NodeConfig \<Rightarrow> unit outcome" where
  "NodeConfig_Validate c =
     bind_out (BlockManagerConfig_Validate (nc_BlockManagerConfig c)) (\<lambda>_.
       if nc_SettlementLayer c \<noteq> [0x6d, 0x6f, 0x63, 0x6b] then Config_Validate (nc_SettlementConfig c) else Ok ())"

subsection \<open>\<open>strings.Split\<close> and \<open>strings.Join\<close>\<close>

text \<open>For a separator that is not empty.\<close>

fun Split :: "gostring \<Rightarrow> gostring \<Rightarrow> gostring list" where
  "Split sep [] = [[]]"
| "Split sep (c # s) =
     (if prefix sep (c # s) then [] # Split sep (drop (length sep - 1) s)
      else (case Split sep s of p # ps \<Rightarrow> (c # p) # ps | [] \<Rightarrow> [[c]]))"

fun Join :: "gostring \<Rightarrow> gostring list \<Rightarrow> gostring" where
  "Join sep [] = []"
| "Join sep [s] = s"
| "Join sep (s # t # ts) = s @ sep @ Join sep (t # ts)"

lemma Split_none: "c \<notin> set s \<Longrightarrow> Split [c] s = [s]"
  by (induction s) auto

lemma Split_field: "c \<notin> set s \<Longrightarrow> Split [c] (s @ c # t) = s # Split [c] t"
  by (induction s) auto

lemma Split_Join: "ss \<noteq> [] \<Longrightarrow> \<forall>s \<in> set ss. c \<notin> set s \<Longrightarrow> Split [c] (Join [c] ss) = ss"
  by (induction "[c]" ss rule: Join.induct) (auto simp: Split_none Split_field)

subsection \<open>\<open>conv\<close>\<close>

record 'a multiaddr =
  ma_New :: "gostring \<Rightarrow> 'a outcome"
  ma_String :: "'a \<Rightarrow> gostring"
  ma_Encapsulate :: "'a \<Rightarrow> 'a \<Rightarrow> 'a"

abbreviation comma :: gostring where "comma \<equiv> [0x2c]"
abbreviation colon :: gostring where "colon \<equiv> [0x3a]"
abbreviation at_sign :: byte where "at_sign \<equiv> 0x40"
abbreviation slash_p2p :: gostring where "slash_p2p \<equiv> [0x2f, 0x70, 0x32, 0x70, 0x2f]"
abbreviation slash_ip4 :: gostring where "slash_ip4 \<equiv> [0x2f, 0x69, 0x70, 0x34, 0x2f]"

definition GetMultiAddr :: "'a multiaddr \<Rightarrow> gostring \<Rightarrow> 'a outcome" where
  "GetMultiAddr A addr0 =
     (let (proto, addr) = (case Split [0x3a, 0x2f, 0x2f] addr0 of [p, a] \<Rightarrow> (p, a) | _ \<Rightarrow> ([0x74, 0x63, 0x70], addr0)) in
      bind_out (if at_sign \<in> set addr
                then bind_out (ma_New A (slash_p2p @ takeWhile (\<lambda>c. c \<noteq> at_sign) addr)) (\<lambda>p2pID.
                       Ok (Some p2pID, tl (dropWhile (\<lambda>c. c \<noteq> at_sign) addr)))
                else Ok (None, addr)) (\<lambda>(p2pID, addr).
        case Split colon addr of
          [host, port] \<Rightarrow>
            bind_out (ma_New A (slash_ip4 @ host @ [0x2f] @ proto @ [0x2f] @ port)) (\<lambda>maddr.
              Ok (case p2pID of None \<Rightarrow> maddr | Some i \<Rightarrow> ma_Encapsulate A maddr i))
        | _ \<Rightarrow> Err (Errorf ''invalid address'')))"

fun translate_seeds :: "'a multiaddr \<Rightarrow> gostring list \<Rightarrow> gostring list outcome" where
  "translate_seeds A [] = Ok []"
| "translate_seeds A (seed # seeds) =
     bind_out (if seed = [] then Ok [] else bind_out (GetMultiAddr A seed) (\<lambda>addr. Ok (ma_String A addr))) (\<lambda>s.
     bind_out (translate_seeds A seeds) (\<lambda>ss. Ok (s # ss)))"

definition translateAddresses :: "'a multiaddr \<Rightarrow> (NodeConfig, unit) cmd" where
  "translateAddresses A =
     bind_cmd (\<lambda>conf.
       if pc_ListenAddress (nc_P2P conf) = [] then (Ok (), conf)
       else (case GetMultiAddr A (pc_ListenAddress (nc_P2P conf)) of
               Ok addr \<Rightarrow> (Ok (), conf\<lparr>nc_P2P := (nc_P2P conf)\<lparr>pc_ListenAddress := ma_String A addr\<rparr>\<rparr>)
             | Err e \<Rightarrow> (Err e, conf)
             | Panic p \<Rightarrow> (Panic p, conf))) (\<lambda>_ conf.
       case translate_seeds A (Split comma (pc_Seeds (nc_P2P conf))) of
         Ok seeds \<Rightarrow> (Ok (), conf\<lparr>nc_P2P := (nc_P2P conf)\<lparr>pc_Seeds := Join comma seeds\<rparr>\<rparr>)
       | Err e \<Rightarrow> (Err e, conf)
       | Panic p \<Rightarrow> (Panic p, conf))"

record tm_Config =
  tc_RootDir :: gostring
  tc_DBPath :: gostring
  tc_P2P :: "P2PConfig option"
  tc_RPC :: "RPCConfig option"

definition GetNodeConfig :: "'a multiaddr \<Rightarrow> tm_Config option \<Rightarrow> (NodeConfig, unit) cmd" where
  "GetNodeConfig A tmConf nodeConf =
     (case tmConf of
        None \<Rightarrow> (Err (Errorf ''tendermint config is nil but required to populate Dymint config''), nodeConf)
      | Some t \<Rightarrow>
          translateAddresses A (nodeConf\<lparr>nc_RootDir := tc_RootDir t, nc_DBPath := tc_DBPath t,
            nc_P2P := (case tc_P2P t of None \<Rightarrow> nc_P2P nodeConf | Some p \<Rightarrow> p),
            nc_RPC := (case tc_RPC t of None \<Rightarrow> nc_RPC nodeConf | Some r \<Rightarrow> r)\<rparr>))"

text \<open>The type and the bytes of tendermint's node key; \<open>unmarshal\<close> is libp2p's.\<close>

definition GetNodeKey :: "(bytes \<Rightarrow> 'k outcome) \<Rightarrow> (gostring \<times> bytes) option \<Rightarrow> 'k outcome" where
  "GetNodeKey unmarshal nodeKey =
     (case nodeKey of
        None \<Rightarrow> Err (Errorf ''key can't be nil'')
      | Some (t, bs) \<Rightarrow>
          if t = [0x65, 0x64, 0x32, 0x35, 0x35, 0x31, 0x39]
          then wrap_err ''node private key unmarshaling error'' (unmarshal bs)
          else Err (Errorf ''unsupported key type''))"

subsection \<open>The P2P client's part\<close>

record 'k p2p_Client =
  pl_conf :: P2PConfig
  pl_chainID :: gostring
  pl_privKey :: 'k

abbreviation DefaultListenAddress :: gostring where
  "DefaultListenAddress \<equiv> slash_ip4 @ [0x30, 0x2e, 0x30, 0x2e, 0x30, 0x2e, 0x30, 0x2f, 0x74, 0x63, 0x70, 0x2f, 0x37, 0x36, 0x37, 0x36]"

definition p2p_NewClient :: "P2PConfig \<Rightarrow> 'k option \<Rightarrow> gostring \<Rightarrow> 'k p2p_Client outcome" where
  "p2p_NewClient conf privKey chainID =
     (case privKey of
        None \<Rightarrow> Err (Errorf ''private key not provided'')
      | Some k \<Rightarrow>
          Ok \<lparr>pl_conf = (if pc_ListenAddress conf = [] then conf\<lparr>pc_ListenAddress := DefaultListenAddress\<rparr> else conf),
              pl_chainID = chainID, pl_privKey = k\<rparr>)"

text \<open>A seed that cannot be read is logged and left out; \<open>info\<close> is \<open>peer.AddrInfoFromP2pAddr\<close>.\<close>

fun seed_infos :: "'a multiaddr \<Rightarrow> ('a \<Rightarrow> 'i outcome) \<Rightarrow> gostring list \<Rightarrow> 'i list outcome" where
  "seed_infos A info [] = Ok []"
| "seed_infos A info (s # seeds) =
     (case bind_out (ma_New A s) info of
        Ok i \<Rightarrow> bind_out (seed_infos A info seeds) (\<lambda>is. Ok (i # is))
      | Err e \<Rightarrow> seed_infos A info seeds
      | Panic p \<Rightarrow> Panic p)"

definition getSeedAddrInfo :: "'a multiaddr \<Rightarrow> ('a \<Rightarrow> 'i outcome) \<Rightarrow> gostring \<Rightarrow> 'i list outcome" where
  "getSeedAddrInfo A info seedStr =
     (if seedStr = [] then Ok [] else seed_infos A info (Split comma seedStr))"

text \<open>The topics for transactions, headers and blocks.\<close>

definition gossip_topics :: "'k p2p_Client \<Rightarrow> gostring \<times> gostring \<times> gostring" where
  "gossip_topics c =
     (pl_chainID c @ [0x2d, 0x74, 0x78], pl_chainID c @ [0x2d, 0x68, 0x65, 0x61, 0x64, 0x65, 0x72],
      pl_chainID c @ [0x2d, 0x62, 0x6c, 0x6f, 0x63, 0x6b])"

subsection \<open>Seeds of the configuration\<close>

text \<open>What the multiaddress library promises of an address: its text is read back, is not empty and has no comma.\<close>

definition prints_back :: "'a multiaddr \<Rightarrow> 'a \<Rightarrow> bool" where
  "prints_back A a \<longleftrightarrow> ma_New A (ma_String A a) = Ok a \<and> ma_String A a \<noteq> [] \<and> 0x2c \<notin> set (ma_String A a)"

lemma Split_no_char: "d \<in> set sep \<Longrightarrow> d \<notin> set s \<Longrightarrow> Split sep s = [s]"
proof (induction s)
  case (Cons c s)
  then have "\<not> prefix sep (c # s)" using set_mono_prefix by fastforce
  with Cons show ?case by simp
qed simp

lemma GetMultiAddr_peer:
  assumes "0x3a \<notin> set (host @ port)" and "at_sign \<notin> set nid" and "0x2f \<notin> set (nid @ host @ port)"
  shows "GetMultiAddr A (nid @ at_sign # host @ 0x3a # port) =
    bind_out (ma_New A (slash_p2p @ nid)) (\<lambda>p2pID.
    bind_out (ma_New A (slash_ip4 @ host @ [0x2f] @ [0x74, 0x63, 0x70] @ [0x2f] @ port)) (\<lambda>maddr. Ok (ma_Encapsulate A maddr p2pID)))"
proof -
  have "\<And>c. c \<in> set nid \<Longrightarrow> c \<noteq> at_sign" using assms(2) by auto
  then have "takeWhile (\<lambda>c. c \<noteq> at_sign) (nid @ at_sign # host @ 0x3a # port) = nid"
    "dropWhile (\<lambda>c. c \<noteq> at_sign) (nid @ at_sign # host @ 0x3a # port) = at_sign # host @ 0x3a # port"
    by simp_all
  moreover have "0x3a \<notin> set host" "0x3a \<notin> set port" using assms(1) by simp_all
  then have "Split [0x3a] (host @ 0x3a # port) = [host, port]"
    by (metis Split_field Split_none)
  moreover have "Split [0x3a, 0x2f, 0x2f] (nid @ at_sign # host @ 0x3a # port) = [nid @ at_sign # host @ 0x3a # port]"
    by (rule Split_no_char [of "0x2f"]) (use assms(3) in auto)
  ultimately show ?thesis
    by (cases "ma_New A (slash_p2p @ nid)") (simp_all add: GetMultiAddr_def)
qed

lemma translate_seeds_run:
  "list_all2 (\<lambda>seed a. seed \<noteq> [] \<and> GetMultiAddr A seed = Ok a) seeds addrs \<Longrightarrow>
   translate_seeds A seeds = Ok (map (ma_String A) addrs)"
  by (induction seeds addrs rule: list_all2_induct) simp_all

lemma seed_infos_run:
  "list_all2 (\<lambda>a i. prints_back A a \<and> info a = Ok i) addrs is \<Longrightarrow> seed_infos A info (map (ma_String A) addrs) = Ok is"
  by (induction addrs "is" rule: list_all2_induct) (simp_all add: prints_back_def)


text \<open>Addresses that are their texts, and two seeds.\<close>

definition sample_multiaddr :: "gostring multiaddr" where
  "sample_multiaddr = \<lparr>ma_New = Ok, ma_String = \<lambda>a. a, ma_Encapsulate = (@)\<rparr>"


end
