(* ===== verification/RpcJson.thy ===== *)
theory RpcJson
  imports QueryRange Executor "HOL-Library.Sublist"
begin

text \<open>
  The JSON-RPC server of \<open>src/rpc/json\<close>: the numbers of requests (\<open>types.go\<close>), the table of methods with the
  arguments they take (\<open>service.go\<close>, \<open>types.go\<close>), and the handlers for requests by URI and by JSON
  (\<open>handler.go\<close>). The methods themselves are calls of the RPC client and a parameter, as are encoding/json,
  tendermint's encoder and gorilla's codec; reflection is the table: the fields of an argument type with
  their JSON tags and kinds. Headers are left out.
\<close>

subsection \<open>Numbers: \<open>types.go\<close>\<close>

text \<open>The values of type \<open>interface{}\<close> that the switch distinguishes, and those of other types.\<close>

datatype go_any = AnyInt int | AnyInt64 int | AnyString gostring | AnyFloat64 int int | AnyOther

text \<open>\<open>strconv.Atoi\<close> is \<open>ParseInt\<close>, for an \<open>int\<close> of 64 bits.\<close>

definition unmarshalStrInt64 :: "(bytes \<Rightarrow> go_any outcome) \<Rightarrow> bytes \<Rightarrow> int outcome" where
  "unmarshalStrInt64 unmarshal b =
     bind_out (unmarshal b) (\<lambda>i.
       case i of
         AnyInt v \<Rightarrow> Ok v
       | AnyInt64 v \<Rightarrow> Ok v
       | AnyString v \<Rightarrow> ParseInt v
       | _ \<Rightarrow> Err (Errorf ''json: unsupported value''))"

subsection \<open>Methods: \<open>service.go\<close>\<close>

datatype arg_kind = KBool | KInt | KString | KBytes | KOther

datatype arg_value = VBool bool | VInt int | VString gostring | VBytes bytes | VNil

record arg_field =
  af_tag :: string
  af_kind :: arg_kind

record rpc_method =
  rm_name :: string
  rm_args :: "arg_field list"
  rm_ws :: bool

abbreviation arg :: "string \<Rightarrow> arg_kind \<Rightarrow> arg_field" where
  "arg tag k \<equiv> \<lparr>af_tag = tag, af_kind = k\<rparr>"

text \<open>The argument types.\<close>

definition rpc_args :: "(string \<times> arg_field list) list" where
  "rpc_args =
     [(''subscribeArgs'', [arg ''query'' KString]),
      (''unsubscribeArgs'', [arg ''query'' KString]),
      (''unsubscribeAllArgs'', []),
      (''healthArgs'', []),
      (''statusArgs'', []),
      (''netInfoArgs'', []),
      (''blockchainInfoArgs'', [arg ''minHeight'' KInt, arg ''maxHeight'' KInt]),
      (''genesisArgs'', []),
      (''genesisChunkedArgs'', [arg ''chunk'' KInt]),
      (''blockArgs'', [arg ''height'' KInt]),
      (''blockByHashArgs'', [arg ''hash'' KBytes]),
      (''blockResultsArgs'', [arg ''height'' KInt]),
      (''commitArgs'', [arg ''height,omitempty'' KInt]),
      (''checkTxArgs'', [arg ''tx'' KBytes]),
      (''txArgs'', [arg ''hash'' KBytes, arg ''prove'' KBool]),
      (''txSearchArgs'', [arg ''query'' KString, arg ''prove'' KBool, arg ''page'' KInt, arg ''per_page'' KInt, arg ''order_by'' KString]),
      (''blockSearchArgs'', [arg ''query'' KString, arg ''page'' KInt, arg ''per_page'' KInt, arg ''order_by'' KString]),
      (''validatorsArgs'', [arg ''height'' KInt, arg ''page'' KInt, arg ''per_page'' KInt]),
      (''dumpConsensusStateArgs'', []),
      (''getConsensusStateArgs'', []),
      (''consensusParamsArgs'', [arg ''height'' KInt]),
      (''unconfirmedTxsArgs'', [arg ''limit'' KInt]),
      (''numUnconfirmedTxsArgs'', []),
      (''broadcastTxCommitArgs'', [arg ''tx'' KBytes]),
      (''broadcastTxSyncArgs'', [arg ''tx'' KBytes]),
      (''broadcastTxAsyncArgs'', [arg ''tx'' KBytes]),
      (''ABCIQueryArgs'', [arg ''path'' KString, arg ''data'' KBytes, arg ''height'' KInt, arg ''prove'' KBool]),
      (''ABCIInfoArgs'', []),
      (''broadcastEvidenceArgs'', [arg ''evidence'' KOther])]"

text \<open>A method that takes the connection and the id of the request besides, four inputs, is one for websockets.\<close>

definition newMethod :: "string \<Rightarrow> string \<Rightarrow> bool \<Rightarrow> rpc_method" where
  "newMethod name argsType ws =
     \<lparr>rm_name = name, rm_args = (case map_of rpc_args argsType of None \<Rightarrow> [] | Some fs \<Rightarrow> fs), rm_ws = ws\<rparr>"

definition rpc_methods :: "rpc_method list" where
  "rpc_methods =
     [newMethod ''subscribe'' ''subscribeArgs'' True,
      newMethod ''unsubscribe'' ''unsubscribeArgs'' False,
      newMethod ''unsubscribe_all'' ''unsubscribeAllArgs'' False,
      newMethod ''health'' ''healthArgs'' False,
      newMethod ''status'' ''statusArgs'' False,
      newMethod ''net_info'' ''netInfoArgs'' False,
      newMethod ''blockchain'' ''blockchainInfoArgs'' False,
      newMethod ''genesis'' ''genesisArgs'' False,
      newMethod ''genesis_chunked'' ''genesisChunkedArgs'' False,
      newMethod ''block'' ''blockArgs'' False,
      newMethod ''block_by_hash'' ''blockByHashArgs'' False,
      newMethod ''block_results'' ''blockResultsArgs'' False,
      newMethod ''commit'' ''commitArgs'' False,
      newMethod ''check_tx'' ''checkTxArgs'' False,
      newMethod ''tx'' ''txArgs'' False,
      newMethod ''tx_search'' ''txSearchArgs'' False,
      newMethod ''block_search'' ''blockSearchArgs'' False,
      newMethod ''validators'' ''validatorsArgs'' False,
      newMethod ''dump_consensus_state'' ''dumpConsensusStateArgs'' False,
      newMethod ''consensus_state'' ''getConsensusStateArgs'' False,
      newMethod ''consensus_params'' ''consensusParamsArgs'' False,
      newMethod ''unconfirmed_txs'' ''unconfirmedTxsArgs'' False,
      newMethod ''num_unconfirmed_txs'' ''numUnconfirmedTxsArgs'' False,
      newMethod ''broadcast_tx_commit'' ''broadcastTxCommitArgs'' False,
      newMethod ''broadcast_tx_sync'' ''broadcastTxSyncArgs'' False,
      newMethod ''broadcast_tx_async'' ''broadcastTxAsyncArgs'' False,
      newMethod ''abci_query'' ''ABCIQueryArgs'' False,
      newMethod ''abci_info'' ''ABCIInfoArgs'' False,
      newMethod ''broadcast_evidence'' ''broadcastEvidenceArgs'' False]"

definition method_named :: "string \<Rightarrow> rpc_method option" where
  "method_named name = find (\<lambda>m. rm_name m = name) rpc_methods"

subsection \<open>Requests by URI: \<open>handler.go\<close>\<close>

datatype rpc_code = E_PARSE | E_INVALID_REQ | E_NO_METHOD | E_INTERNAL | StatusBadRequest | StatusInternalServerError

text \<open>An error reply may have no error to report.\<close>

datatype rpc_reply = EmptyReply | ErrorReply rpc_code "error option" | ResultReply bytes

definition str :: "string \<Rightarrow> gostring" where
  "str s = map of_char s"

definition ParseBool :: "gostring \<Rightarrow> bool outcome" where
  "ParseBool s =
     (if s \<in> set (map str [''1'', ''t'', ''T'', ''true'', ''TRUE'', ''True'']) then Ok True
      else if s \<in> set (map str [''0'', ''f'', ''F'', ''false'', ''FALSE'', ''False'']) then Ok False
      else Err (Errorf ''invalid syntax''))"

definition strings_Contains :: "string \<Rightarrow> string \<Rightarrow> bool" where
  "strings_Contains s t \<longleftrightarrow> list_ex (prefix t) (suffixes s)"

definition field_name :: "arg_field \<Rightarrow> string" where
  "field_name f = takeWhile (\<lambda>c. c \<noteq> CHR '','') (af_tag f)"

definition field_required :: "arg_field \<Rightarrow> bool" where
  "field_required f \<longleftrightarrow> \<not> strings_Contains (af_tag f) ''omitempty''"

text \<open>The zero value of a field, and what the setters make of a parameter.\<close>

primrec zero_arg :: "arg_kind \<Rightarrow> arg_value" where
  "zero_arg KBool = VBool False"
| "zero_arg KInt = VInt 0"
| "zero_arg KString = VString []"
| "zero_arg KBytes = VBytes []"
| "zero_arg KOther = VNil"

primrec set_param :: "arg_kind \<Rightarrow> gostring \<Rightarrow> arg_value outcome" where
  "set_param KBool rawVal = bind_out (ParseBool rawVal) (\<lambda>v. Ok (VBool v))"
| "set_param KInt rawVal = bind_out (ParseInt rawVal) (\<lambda>v. Ok (VInt v))"
| "set_param KString rawVal = Ok (VString rawVal)"
| "set_param KBytes rawVal = bind_out (DecodeString rawVal) (\<lambda>b. Ok (VBytes b))"
| "set_param KOther rawVal = Err (Errorf ''unknown type'')"

type_synonym url_values = "(string \<times> gostring list) list"

definition values_Get :: "url_values \<Rightarrow> string \<Rightarrow> gostring" where
  "values_Get vs name = (case map_of vs name of Some (v # _) \<Rightarrow> v | _ \<Rightarrow> [])"

fun read_params :: "url_values \<Rightarrow> arg_field list \<Rightarrow> (rpc_reply + arg_value list) outcome" where
  "read_params vs [] = Ok (Inr [])"
| "read_params vs (f # fs) =
     (let name = field_name f; has = (map_of vs name \<noteq> None) in
      if field_required f \<and> \<not> has then Ok (Inl (ErrorReply E_INVALID_REQ (Some (Errorf (''missing param '' @ name)))))
      else if field_required f \<or> has
      then (case set_param (af_kind f) (values_Get vs name) of
              Ok v \<Rightarrow> map_outcome (map_sum id (Cons v)) (read_params vs fs)
            | Err e \<Rightarrow> Ok (Inl (ErrorReply E_PARSE (Some (Wrapf (''failed to parse param '' @ name) e))))
            | Panic p \<Rightarrow> Panic p)
      else map_outcome (map_sum id (Cons (zero_arg (af_kind f)))) (read_params vs fs))"

text \<open>The methods, with results of type \<open>'r\<close>, and the encoder of results.\<close>

record ('w, 'r) rpc_service =
  rv_call :: "string \<Rightarrow> arg_value list \<Rightarrow> ('w, 'r) cmd"
  rv_Marshal :: "'r \<Rightarrow> bytes outcome"

definition encodeAndWriteResponse :: "('w, 'r) rpc_service \<Rightarrow> rpc_code \<Rightarrow> 'r outcome \<Rightarrow> rpc_reply outcome" where
  "encodeAndWriteResponse S statusCode r =
     (case r of
        Err e \<Rightarrow> Ok (ErrorReply statusCode (Some e))
      | Panic p \<Rightarrow> Panic p
      | Ok x \<Rightarrow>
          (case rv_Marshal S x of
             Ok bs \<Rightarrow> Ok (ResultReply bs)
           | Err e \<Rightarrow> Ok (ErrorReply E_INTERNAL (Some e))
           | Panic p \<Rightarrow> Panic p))"

text \<open>\<open>query\<close> is what \<open>url.ParseQuery\<close> makes of the request. The call passes the request and the arguments only.\<close>

definition newHandler :: "('w, 'r) rpc_service \<Rightarrow> rpc_method \<Rightarrow> url_values outcome \<Rightarrow> ('w, rpc_reply) cmd" where
  "newHandler S m query w =
     (case query of
        Err e \<Rightarrow> (Ok (ErrorReply E_PARSE (Some e)), w)
      | Panic p \<Rightarrow> (Panic p, w)
      | Ok vs \<Rightarrow>
          (case read_params vs (rm_args m) of
             Err e \<Rightarrow> (Err e, w)
           | Panic p \<Rightarrow> (Panic p, w)
           | Ok (Inl reply) \<Rightarrow> (Ok reply, w)
           | Ok (Inr args) \<Rightarrow>
               if rm_ws m then (Panic ''reflect: Call with too few input arguments'', w)
               else (case rv_call S (rm_name m) args w of (r, w') \<Rightarrow> (encodeAndWriteResponse S E_INTERNAL r, w'))))"

subsection \<open>Requests by JSON\<close>

text \<open>
  A request as gorilla's codec sees it: its method, its arguments for the fields of an argument type, and its id.
  A missing method is an error, which for an empty request is the end of the input.
\<close>

record codec_request =
  cq_Method :: "string outcome"
  cq_empty :: bool
  cq_ReadRequest :: "arg_field list \<Rightarrow> arg_value list outcome"
  cq_ID :: "bytes outcome"

definition serveJSONRPCforWS :: "('w, 'r) rpc_service \<Rightarrow> codec_request \<Rightarrow> ('w, rpc_reply) cmd" where
  "serveJSONRPCforWS S q w =
     (case cq_Method q of
        Panic p \<Rightarrow> (Panic p, w)
      | Err e \<Rightarrow> (Ok (if cq_empty q then EmptyReply else ErrorReply StatusBadRequest (Some e)), w)
      | Ok name \<Rightarrow>
          (case method_named name of
             None \<Rightarrow> (Ok (ErrorReply E_NO_METHOD None), w)
           | Some m \<Rightarrow>
               (case cq_ReadRequest q (rm_args m) of
                  Panic p \<Rightarrow> (Panic p, w)
                | Err e \<Rightarrow> (Ok (ErrorReply StatusBadRequest (Some e)), w)
                | Ok args \<Rightarrow>
                    (case if rm_ws m then cq_ID q else Ok [] of
                       Panic p \<Rightarrow> (Panic p, w)
                     | Err e \<Rightarrow> (Ok (ErrorReply StatusBadRequest (Some e)), w)
                     | Ok _ \<Rightarrow>
                         (case rv_call S name args w of
                            (Panic p, w') \<Rightarrow> (Panic p, w')
                          | (Err e, w') \<Rightarrow> (Ok (ErrorReply StatusBadRequest (Some e)), w')
                          | (Ok x, w') \<Rightarrow>
                              (case rv_Marshal S x of
                                 Ok raw \<Rightarrow> (Ok (ResultReply raw), w')
                               | Err e \<Rightarrow> (Ok (ErrorReply StatusInternalServerError (Some e)), w')
                               | Panic p \<Rightarrow> (Panic p, w')))))))"

subsection \<open>Numbers have to be quoted\<close>

text \<open>What encoding/json stores into an \<open>interface{}\<close>: never an integer of Go, all numbers are \<open>float64\<close>.\<close>

definition json_any :: "(bytes \<Rightarrow> go_any outcome) \<Rightarrow> bool" where
  "json_any unmarshal \<longleftrightarrow> (\<forall>b i. unmarshal b \<noteq> Ok (AnyInt i) \<and> unmarshal b \<noteq> Ok (AnyInt64 i))"

text \<open>
  C30: A number in a JSON request is only understood when it is written as a string: with the values that
  encoding/json produces, the integer cases of the switch are never taken, a string is read as a
  decimal number in the range of int64, and a number that is not quoted is refused.
\<close>

theorem numbers_have_to_be_quoted:
  assumes "json_any unmarshal"
  shows "(unmarshalStrInt64 unmarshal b = Ok n \<longleftrightarrow> (\<exists>v. unmarshal b = Ok (AnyString v) \<and> ParseInt v = Ok n)) \<and>
    (unmarshal b = Ok (AnyFloat64 i d) \<longrightarrow> unmarshalStrInt64 unmarshal b = Err (Errorf ''json: unsupported value''))"
proof -
  have "\<nexists>i. unmarshal b = Ok (AnyInt i) \<or> unmarshal b = Ok (AnyInt64 i)"
    using assms unfolding json_any_def by blast
  then show ?thesis
    by (cases "unmarshal b"; cases "case unmarshal b of Ok x \<Rightarrow> x | _ \<Rightarrow> AnyOther") (auto simp: unmarshalStrInt64_def)
qed

text \<open>A decoder of strings without escapes and of numbers of digits.\<close>

definition sample_unmarshal :: "bytes \<Rightarrow> go_any outcome" where
  "sample_unmarshal b =
     (if length b \<ge> 2 \<and> hd b = 0x22 \<and> last b = 0x22 then Ok (AnyString (butlast (tl b)))
      else bind_out (ParseInt b) (\<lambda>n. Ok (AnyFloat64 n 0)))"

theorem numbers_have_to_be_quoted_witness:
  "unmarshalStrInt64 sample_unmarshal [0x22, 0x34, 0x32, 0x22] = Ok 42 \<and>
   unmarshalStrInt64 sample_unmarshal [0x34, 0x32] = Err (Errorf ''json: unsupported value'')"
proof -
  have "json_any sample_unmarshal"
    by (simp add: json_any_def sample_unmarshal_def bind_out_Ok_iff)
  moreover have "sample_unmarshal [0x22, 0x34, 0x32, 0x22] = Ok (AnyString [0x34, 0x32])" "ParseInt [0x34, 0x32] = Ok 42"
    "sample_unmarshal [0x34, 0x32] = Ok (AnyFloat64 42 0)"
    by (simp_all add: sample_unmarshal_def ParseInt_def digit_value_def)
  ultimately show ?thesis using numbers_have_to_be_quoted [of sample_unmarshal] by blast
qed

subsection \<open>Arguments of the declared types\<close>

fun has_kind :: "arg_kind \<Rightarrow> arg_value \<Rightarrow> bool" where
  "has_kind KBool (VBool b) = True"
| "has_kind KInt (VInt n) = in_i64 n"
| "has_kind KString (VString s) = True"
| "has_kind KBytes (VBytes b) = True"
| "has_kind KOther VNil = True"
| "has_kind _ _ = False"

definition well_typed :: "arg_field list \<Rightarrow> arg_value list \<Rightarrow> bool" where
  "well_typed fs args \<longleftrightarrow> list_all2 (\<lambda>f. has_kind (af_kind f)) fs args"

lemma ParseInt_range: "ParseInt s = Ok n \<Longrightarrow> in_i64 n"
  by (auto simp: ParseInt_def in_i64_def Let_def split: list.splits if_splits option.splits)

lemma DecodeString_total: "DecodeString s \<noteq> Panic p"
  by (induction s rule: DecodeString.induct) (auto simp: bind_out_Panic_iff split: option.splits)

lemma ParseInt_total: "ParseInt s \<noteq> Panic p"
  by (auto simp: ParseInt_def Let_def split: list.splits option.splits)

lemma set_param_total: "set_param k v \<noteq> Panic p"
  by (cases k) (auto simp: bind_out_Panic_iff ParseInt_total DecodeString_total ParseBool_def)

lemma zero_arg_typed: "has_kind k (zero_arg k)"
  by (cases k) (simp_all add: in_i64_def)

lemma set_param_typed: "set_param k v = Ok a \<Longrightarrow> has_kind k a"
  by (cases k) (auto simp: bind_out_Ok_iff ParseInt_range)

lemma read_params_typed:
  "(\<exists>r. read_params vs fs = Ok (Inl r)) \<or> (\<exists>args. read_params vs fs = Ok (Inr args) \<and> well_typed fs args)"
proof (induction fs)
  case Nil
  show ?case by (simp add: well_typed_def)
next
  case (Cons f fs)
  then show ?case
    by (auto simp: Let_def well_typed_def zero_arg_typed set_param_typed set_param_total split: outcome.splits)
qed

lemma read_params_values:
  assumes "list_all2 (\<lambda>f v. map_of vs (field_name f) \<noteq> None \<and> set_param (af_kind f) (values_Get vs (field_name f)) = Ok v) fs args"
  shows "read_params vs fs = Ok (Inr args)"
  using assms by (induction fs args rule: list_all2_induct) (simp_all add: Let_def)

text \<open>
  C29: A request by URI either is answered without a call of the method, or calls it once with arguments of the
  kinds its argument type declares, numbers within int64 - and with just the values given, when all are
  given and can be read. For a method that takes a connection the call has too few arguments and panics.
\<close>

theorem uri_calls_are_typed:
  "((\<exists>reply. newHandler S m query w = (reply, w) \<and> (\<forall>p. reply = Panic p \<longrightarrow> rm_ws m \<or> query = Panic p)) \<or>
    (\<exists>args. \<not> rm_ws m \<and> well_typed (rm_args m) args \<and> newHandler S m query w =
       (encodeAndWriteResponse S E_INTERNAL (fst (rv_call S (rm_name m) args w)), snd (rv_call S (rm_name m) args w)))) \<and>
   (\<forall>vs args. query = Ok vs \<longrightarrow>
      list_all2 (\<lambda>f v. map_of vs (field_name f) \<noteq> None \<and> set_param (af_kind f) (values_Get vs (field_name f)) = Ok v)
        (rm_args m) args \<longrightarrow>
      newHandler S m query w =
        (if rm_ws m then (Panic ''reflect: Call with too few input arguments'', w)
         else (encodeAndWriteResponse S E_INTERNAL (fst (rv_call S (rm_name m) args w)), snd (rv_call S (rm_name m) args w))))"
proof (cases query)
  case (Ok vs)
  have "newHandler S m query w =
      (if rm_ws m then (Panic ''reflect: Call with too few input arguments'', w)
       else (encodeAndWriteResponse S E_INTERNAL (fst (rv_call S (rm_name m) args w)), snd (rv_call S (rm_name m) args w)))"
    if "read_params vs (rm_args m) = Ok (Inr args)" for args
    using that Ok by (simp add: newHandler_def split: prod.splits)
  moreover have "newHandler S m query w = (Ok r, w)" if "read_params vs (rm_args m) = Ok (Inl r)" for r
    using that Ok by (simp add: newHandler_def)
  ultimately show ?thesis
    using read_params_typed [of vs "rm_args m"] read_params_values [of vs "rm_args m"] Ok
    by (cases "rm_ws m") (auto 0 4)
qed (auto simp: newHandler_def)

theorem uri_calls_are_typed_witness:
  "\<forall>(S :: (unit, bytes) rpc_service) w.
     newHandler S (newMethod ''block'' ''blockArgs'' False) (Ok [(''height'', [[0x33]])]) w =
       (encodeAndWriteResponse S E_INTERNAL (fst (rv_call S ''block'' [VInt 3] w)), snd (rv_call S ''block'' [VInt 3] w)) \<and>
     newHandler S (newMethod ''subscribe'' ''subscribeArgs'' True) (Ok [(''query'', [[0x33]])]) w =
       (Panic ''reflect: Call with too few input arguments'', w)"
proof (intro allI)
  fix S :: "(unit, bytes) rpc_service" and w
  have specs: "newMethod ''block'' ''blockArgs'' False = \<lparr>rm_name = ''block'', rm_args = [arg ''height'' KInt], rm_ws = False\<rparr>"
    "newMethod ''subscribe'' ''subscribeArgs'' True = \<lparr>rm_name = ''subscribe'', rm_args = [arg ''query'' KString], rm_ws = True\<rparr>"
    by code_simp+
  have vals: "ParseInt [0x33] = Ok 3" "field_name (arg ''height'' KInt) = ''height''" "field_name (arg ''query'' KString) = ''query''"
    "values_Get [(''height'', [[0x33]])] ''height'' = [0x33]" "values_Get [(''query'', [[0x33]])] ''query'' = [0x33]"
    by (simp_all add: ParseInt_def digit_value_def field_name_def values_Get_def)
  have "newHandler S (newMethod ''block'' ''blockArgs'' False) (Ok [(''height'', [[0x33]])]) w =
      (encodeAndWriteResponse S E_INTERNAL (fst (rv_call S ''block'' [VInt 3] w)), snd (rv_call S ''block'' [VInt 3] w))"
    using uri_calls_are_typed [THEN conjunct2, rule_format, of "Ok [(''height'', [[0x33]])]" "[(''height'', [[0x33]])]"
        "newMethod ''block'' ''blockArgs'' False" "[VInt 3]" S w] by (simp add: vals specs)
  moreover have "newHandler S (newMethod ''subscribe'' ''subscribeArgs'' True) (Ok [(''query'', [[0x33]])]) w =
       (Panic ''reflect: Call with too few input arguments'', w)"
    using uri_calls_are_typed [THEN conjunct2, rule_format, of "Ok [(''query'', [[0x33]])]" "[(''query'', [[0x33]])]"
        "newMethod ''subscribe'' ''subscribeArgs'' True" "[VString [0x33]]" S w] by (simp add: vals specs)
  ultimately show "newHandler S (newMethod ''block'' ''blockArgs'' False) (Ok [(''height'', [[0x33]])]) w =
       (encodeAndWriteResponse S E_INTERNAL (fst (rv_call S ''block'' [VInt 3] w)), snd (rv_call S ''block'' [VInt 3] w)) \<and>
     newHandler S (newMethod ''subscribe'' ''subscribeArgs'' True) (Ok [(''query'', [[0x33]])]) w =
       (Panic ''reflect: Call with too few input arguments'', w)" by simp
qed

end
