(* ===== verification/Spec2Isabelle.thy ===== *)
theory Spec2Isabelle
  imports Node RpcProps Pipeline Avail NodeHealth Configuration RpcJson
begin

text \<open>
  A verification development of dymint, the node of a rollup: a sequencer produces blocks from the
  transactions of its mempool, runs them on an application behind ABCI and stores them; it submits batches of
  blocks to a data availability layer and registers them on a settlement layer; a full node learns from the
  settlement layer which batches there are, fetches them from the data availability layer and applies
  their blocks. Every definition is a translation of code under \<open>src\<close>; this theory only collects them.

  \<^bold>\<open>How the code is read.\<close> A Go struct is a \<open>record\<close>, its methods are functions that pass the state on; a
  call that can fail returns an \<open>outcome\<close>: a value, an error, or a panic, which ends the process
  (theory \<open>Prelude\<close>, with the sequencing of such commands). \<open>uint64\<close> and \<open>uint32\<close> are words, \<open>int64\<close> is
  \<open>int\<close> with its wrapping written out, a Go string is its bytes, a duration is a number of nanoseconds. A pointer
  that the code lets be nil is an \<open>option\<close>, and dereferencing nil is a panic. Code outside the repository
  (tendermint, the application, Badger, libp2p, the clients of other chains, JSON, retry-go) is an argument of
  the definitions that call it: the fields of records such as \<open>tm_funs\<close>, \<open>codec\<close>, \<open>badger\<close>, \<open>abci_app\<close>,
  \<open>exec_env\<close>, \<open>cosmos\<close>, \<open>cnc\<close>, \<open>avail_api\<close>. What a theorem relies on of such code is a hypothesis with a name
  (\<open>codec_ok\<close>, the locale \<open>badger_db\<close>, \<open>ordered_code\<close>, \<open>implements_abci\<close>, \<open>digest_ok\<close>, \<open>json_any\<close>, \<dots>),
  and a witness shows it for concrete functions.

  \<^bold>\<open>The theories, with the code they model.\<close>

  \<^item> \<open>Types\<close>: \<open>src/types\<close>, headers, blocks, commits, batches, the state of the chain, their validation and hashes.
    \<open>Proto\<close>, \<open>Wire\<close>, \<open>StateWire\<close>: the generated codecs of \<open>src/types/pb/dymint\<close>. \<open>Serialization\<close>:
    \<open>types/serialization.go\<close>. Shown: the size computed for a message is what is written, decoding inverts
    encoding, blocks survive up to their evidence, and exactly which messages make decoding panic.

  \<^item> \<open>KVStore\<close>: \<open>src/store/kv.go\<close>, \<open>badger.go\<close>, \<open>prefix.go\<close>. The contract of the interface is the locale \<open>kv_store\<close>,
    proved of Badger's implementation and of the prefixed store from the documented laws of Badger, for
    every pattern of failing and crashing commits. \<open>Store\<close>: \<open>store.go\<close>, \<open>pruning.go\<close>. Shown: what is saved is
    loaded, saving touches one height, pruning removes exactly the heights asked for, and any outcome of it, a
    crash included, leaves what is to be retained.

  \<^item> \<open>Abci\<close> and \<open>Executor\<close>: \<open>src/state/executor.go\<close>. \<open>Manager\<close>: \<open>src/block/manager.go\<close>, \<open>block.go\<close>, \<open>produce.go\<close>,
    \<open>pruning.go\<close>. \<open>Triples\<close> and \<open>Recovery\<close>: however often the application of a block is stopped at
    any of its calls and the node restarted, a completed application has committed the block once and
    stored what an undisturbed run stores.

  \<^item> \<open>Sync\<close>: \<open>submit.go\<close>, \<open>retriever.go\<close>, \<open>synctarget.go\<close>. Shown: a batch holds as many blocks as fit, and creating it
    always returns. \<open>Node\<close>: the goroutines that \<open>Manager.Start\<close> starts, as a step relation in which the iterations of the loops
    interleave. Shown: one batch is in flight at a time, the height never falls, a sync ends at its
    target, and the deadlock of a failed production.

  \<^item> \<open>Layers\<close>: the interfaces of \<open>src/da/da.go\<close> and \<open>src/settlement/settlement.go\<close>. \<open>Settlement\<close>: \<open>src/settlement/base.go\<close>,
    \<open>config.go\<close>, \<open>events.go\<close> and the hub of \<open>mock/mock.go\<close>. \<open>DymensionHub\<close>: \<open>dymension/dymension.go\<close>. Shown: the
    batches on the layer are consecutive through submissions, events and restarts; posting a batch returns when a round of it
    ends, with the health events it published; and what a hub that does not answer leads to.

  \<^item> \<open>DaMock\<close>, \<open>Celestia\<close>, \<open>Avail\<close>: \<open>src/da/mock\<close>, \<open>src/da/celestia\<close> with \<open>src/da/utils.go\<close>, \<open>src/da/avail\<close>. Shown:
    every past height returns the batches submitted at it; the gas paid for a blob covers the least number of
    shares that hold it; submitting returns when a round ends; a batch carried by an extrinsic is found, and what
    foreign data does to a reader. \<open>Pipeline\<close>: the manager over these clients. The locale \<open>batch_retriever\<close> is
    the interface of that name in \<open>da.go\<close>, interpreted by the mock and the Celestia client: syncing through
    them is applying the submitted blocks.

  \<^item> \<open>NodeHealth\<close>: the life cycle of \<open>src/node/node.go\<close> and the health of the layers as the block producer is told
    it. \<open>PeerIDs\<close>: \<open>src/node/mempool\<close>. \<open>Gossip\<close>: \<open>src/p2p\<close>, gossiped blocks and the validators. \<open>Configuration\<close>: \<open>src/config\<close>,
    \<open>src/conv\<close> and the configuration of \<open>src/p2p/client.go\<close>.

  \<^item> \<open>CList\<close>: \<open>src/mempool/clist\<close>, a heap of elements that refines the sequence of its values. \<open>TxCache\<close>: \<open>mempool/cache.go\<close>.
    \<open>Mempool\<close>, \<open>MempoolRun\<close>, \<open>MempoolProps\<close>: \<open>src/mempool/v1\<close>, over the contracts \<open>element_list\<close> and \<open>tx_cache\<close> of the
    two. Shown: no interleaving of operations and answers of the application breaks an index or a limit; admission, eviction,
    reaping and update do what priorities and limits ask; where rechecking stops short.

  \<^item> \<open>QueryRange\<close>, \<open>TxIndex\<close>, \<open>BlockIndex\<close>, \<open>IndexerService\<close>: \<open>src/state/indexer\<close> and \<open>src/state/txindex\<close>. Shown:
    a search returns exactly the indexed entries that meet its conditions; indexing is all or nothing; the events
    of an executed block end up in both indexes. \<open>Rpc\<close>, \<open>RpcProps\<close>: \<open>src/rpc/client\<close>, pages and broadcasts.
    \<open>RpcJson\<close>: \<open>src/rpc/json\<close>, the table of methods, the decoding of arguments and the handlers.

  \<^bold>\<open>Interfaces.\<close> The locales are \<open>badger_db\<close>, \<open>kv_store\<close> and \<open>prefixed_store\<close> (the database and its views, with a sublocale for
    each key space), \<open>tx_store\<close> and \<open>block_store\<close> (the two indexes in one store), \<open>element_list\<close> and \<open>tx_cache\<close>
    (what the mempool uses), \<open>strict_weak_order\<close> (the comparisons given to \<open>sort.Slice\<close>) and \<open>batch_retriever\<close>. Each is
    interpreted by the model's own definitions.

  \<^bold>\<open>Loops.\<close> A loop that the source bounds is a total function, with a measure where the recursion is not
  structural (decoding by the length of the rest, pruning by the distance to the height). The walks over the linked list of
  the mempool (\<open>walk\<close>, \<open>each_elem\<close>, \<open>recheck_loop\<close>) follow pointers and take the length field of the list as
  fuel. It is enough: on a well-formed list \<open>walk\<close> visits all elements, and the loops of the mempool
  return \<open>Ok\<close> rather than the panic that stands for spent fuel, since each element is visited at most once. A loop that may not end -
  syncing, creating a batch at the end of the heights, submitting, counting shares, watching a transaction, searching an
  unused id, decoding extrinsics - is a \<open>partial_function\<close> whose value \<open>None\<close> is not returning; that it returns is a
  statement of its own, as is, where it holds, that it does not. Goroutines are steps of a relation; an operation that
  holds a lock is one step.

  \<^bold>\<open>Not modelled.\<close> \<open>NewNode\<close> and the \<open>Init\<close> methods as far as they open connections, databases and key files and wire
  components together; registries and functional options; the gRPC data availability client and its
  generated messages, which forward calls; the libp2p host, peer discovery and the gossip protocol; HTTP, websocket
  and metrics servers, event subscriptions of RPC clients and the calls the RPC client passes on to the application unchanged;
  the registry of RPC middleware; flags, configuration files and commands; logging and metrics; mocks of tests. These are input and output, or calls of
  libraries without logic of their own. Inside \<open>applyBlock\<close> other goroutines do not interleave, and texts of error messages are kept
  only where code depends on them.
\<close>

end
